(* ===== verification/Prelude.thy ===== *)
theory Prelude
  imports Main "HOL-Library.List_Lexorder" "HOL-Library.Char_ord" "HOL-Library.Product_Lexorder"
begin

text \<open>
  Shared material of the development: the collections of facts the component proofs draw on,
  Python values the handlers compare (optional strings and their truth value, aware and naive
  datetimes), the answers a Flask handler gives, database tables as lists of rows, and the
  interface of a keyed table as a locale.

  Every handler of the program is a function from the state to an answer and a new state. A
  Python \<^verbatim>\<open>return\<close> is the pair of both, and an early \<^verbatim>\<open>return\<close> is a branch.
\<close>

named_theorems tbl_simps \<open>laws of lookups and updates of a table\<close>
named_theorems handler_defs \<open>definitions that a symbolic execution of a handler unfolds\<close>
named_theorems frame_simps \<open>what an operation leaves unchanged\<close>

subsection \<open>Python values\<close>

text \<open>\<^verbatim>\<open>not s\<close> for a string or None: both None and the empty string are false.\<close>

fun truthy :: "string option \<Rightarrow> bool" where
  "truthy None = False"
| "truthy (Some s) = (s \<noteq> [])"

lemma truthy_iff: "truthy x \<longleftrightarrow> (\<exists>s. x = Some s \<and> s \<noteq> [])"
  by (cases x) auto

text \<open>\<^verbatim>\<open>d.get(k, '')\<close> for an optional string.\<close>

definition or_empty :: "string option \<Rightarrow> string" where
  "or_empty x = (case x of None \<Rightarrow> [] | Some s \<Rightarrow> s)"

text \<open>
  Instants are microseconds. A Python datetime is naive (the value of a column declared without
  a time zone) or aware; an aware one is written by its UTC instant.
\<close>

datatype datetime = Naive int | Aware int

definition secs :: "int \<Rightarrow> int" where
  "secs n = n * 1000000"

text \<open>\<^verbatim>\<open>value.replace(tzinfo=UTC)\<close> on a naive value, \<^verbatim>\<open>astimezone(UTC)\<close> on an aware one.\<close>

fun utc_instant :: "datetime \<Rightarrow> int" where
  "utc_instant (Naive t) = t"
| "utc_instant (Aware t) = t"

text \<open>The comparison of two datetimes: TypeError when one is naive and the other aware.\<close>

fun py_before :: "datetime \<Rightarrow> datetime \<Rightarrow> bool option" where
  "py_before (Naive a) (Naive b) = Some (a < b)"
| "py_before (Aware a) (Aware b) = Some (a < b)"
| "py_before a b = None"

text \<open>A value written to a column without time zone is read back naive.\<close>

definition stored :: "datetime \<Rightarrow> datetime" where
  "stored d = Naive (utc_instant d)"

fun is_naive :: "datetime \<Rightarrow> bool" where
  "is_naive (Naive t) = True"
| "is_naive (Aware t) = False"

lemma is_naive_stored [simp]: "is_naive (stored d)"
  by (simp add: stored_def)

lemma naive_uncomparable: "is_naive d \<Longrightarrow> py_before d (Aware now) = None"
  by (cases d) simp_all

text \<open>
  A timestamp inside a JSON text: the empty text, the ISO form of a datetime, or a text that
  \<^verbatim>\<open>datetime.fromisoformat\<close> refuses with ValueError.
\<close>

datatype tstext = TEmpty | TIso datetime | TBad

subsection \<open>Answers of a handler\<close>

text \<open>
  What a service endpoint answers: an error status with its code, or a success status with the
  value it serialises.
\<close>

datatype 'a reply = Fail nat string | Done nat 'a

fun reply_status :: "'a reply \<Rightarrow> nat" where
  "reply_status (Fail st c) = st"
| "reply_status (Done st v) = st"

fun is_done :: "'a reply \<Rightarrow> bool" where
  "is_done (Fail st c) = False"
| "is_done (Done st v) = True"

lemma is_done_iff: "is_done r \<longleftrightarrow> (\<exists>st v. r = Done st v)"
  by (cases r) auto

subsection \<open>Tables\<close>

text \<open>
  A table is the list of its rows in insertion order. \<open>row_get\<close> is a lookup by primary key
  (\<^verbatim>\<open>db.session.get\<close>), \<open>row_upd\<close> the commit of changed attributes of one row.
\<close>

definition row_get :: "('r \<Rightarrow> 'k) \<Rightarrow> 'k \<Rightarrow> 'r list \<Rightarrow> 'r option" where
  "row_get key k rows = find (\<lambda>r. key r = k) rows"

definition row_upd :: "('r \<Rightarrow> 'k) \<Rightarrow> 'k \<Rightarrow> ('r \<Rightarrow> 'r) \<Rightarrow> 'r list \<Rightarrow> 'r list" where
  "row_upd key k f rows = map (\<lambda>r. if key r = k then f r else r) rows"

lemma row_get_Nil [simp, tbl_simps]: "row_get key k [] = None"
  by (simp add: row_get_def)

lemma row_get_Cons [simp, tbl_simps]:
  "row_get key k (r # rs) = (if key r = k then Some r else row_get key k rs)"
  by (simp add: row_get_def)

lemma row_upd_Nil [simp, tbl_simps]: "row_upd key k f [] = []"
  by (simp add: row_upd_def)

lemma row_upd_Cons [simp, tbl_simps]:
  "row_upd key k f (r # rs) = (if key r = k then f r else r) # row_upd key k f rs"
  by (simp add: row_upd_def)

lemma row_get_Some: "row_get key k rows = Some r \<Longrightarrow> key r = k \<and> r \<in> set rows"
  by (induction rows) (auto split: if_splits)

lemma row_get_key: "row_get key k rows = Some r \<Longrightarrow> key r = k"
  by (blast dest: row_get_Some)

lemma row_get_append:
  "row_get key k (xs @ ys) = (case row_get key k xs of None \<Rightarrow> row_get key k ys | Some r \<Rightarrow> Some r)"
  by (induction xs) auto

lemma row_get_None: "row_get key k rows = None \<longleftrightarrow> k \<notin> key ` set rows"
  by (induction rows) auto

lemma row_get_upd:
  assumes "\<And>r. key r = k \<Longrightarrow> key (f r) = key r"
  shows "row_get key j (row_upd key k f rows) =
    (if j = k then map_option f (row_get key k rows) else row_get key j rows)"
  using assms by (induction rows) auto

lemma row_upd_keys [tbl_simps]:
  assumes "\<And>r. key r = k \<Longrightarrow> key (f r) = key r"
  shows "map key (row_upd key k f rows) = map key rows"
  using assms by (induction rows) auto

lemma row_upd_absent: "row_get key k rows = None \<Longrightarrow> row_upd key k f rows = rows"
  by (induction rows) (auto split: if_splits)

lemma length_row_upd [simp]: "length (row_upd key k f rows) = length rows"
  by (simp add: row_upd_def)

lemma row_upd_all:
  assumes "list_all P rows" and "\<And>r. key r = k \<Longrightarrow> P r \<Longrightarrow> P (f r)"
  shows "list_all P (row_upd key k f rows)"
  using assms by (induction rows) auto

lemma row_get_unique:
  assumes "distinct (map key rows)" and "r \<in> set rows"
  shows "row_get key (key r) rows = Some r"
  using assms by (induction rows) force+

subsection \<open>Searching\<close>

lemma find_found: "find P xs = Some x \<Longrightarrow> x \<in> set xs \<and> P x"
  by (auto simp: find_Some_iff)

lemma find_unique:
  assumes "x \<in> set xs" and "P x" and only: "\<And>y. y \<in> set xs \<Longrightarrow> P y \<Longrightarrow> y = x"
  shows "find P xs = Some x"
proof (cases "find P xs")
  case None
  with assms(1,2) show ?thesis by (auto simp: find_None_iff)
next
  case (Some y)
  with find_found [OF Some] only [of y] show ?thesis by blast
qed

subsection \<open>Pages of a listing\<close>

text \<open>
  The query parameters \<^verbatim>\<open>page\<close> and \<^verbatim>\<open>limit\<close>: a missing parameter or one that is no integer is
  its default, a limit above 100 is cut to 100, and values below one are refused.
\<close>

definition page_params :: "int option \<Rightarrow> int option \<Rightarrow> (nat \<times> nat) option" where
  "page_params page limit =
     (let p = (case page of None \<Rightarrow> 1 | Some x \<Rightarrow> x); l = (case limit of None \<Rightarrow> 20 | Some x \<Rightarrow> x) in
      if p < 1 \<or> l < 1 then None else Some (nat p, nat (min l 100)))"

definition paginate :: "nat \<Rightarrow> nat \<Rightarrow> 'a list \<Rightarrow> 'a list" where
  "paginate page limit xs = take limit (drop ((page - 1) * limit) xs)"

lemma page_params_bounds: "page_params page limit = Some (p, l) \<Longrightarrow> 1 \<le> p \<and> 1 \<le> l \<and> l \<le> 100"
  by (auto simp: page_params_def Let_def split: if_splits)

lemma length_paginate: "length (paginate page limit xs) \<le> limit"
  by (simp add: paginate_def)

lemma paginate_take:
  "concat (map (\<lambda>p. paginate (Suc p) limit xs) [0..<n]) = take (n * limit) xs"
proof (induction n)
  case (Suc n)
  then show ?case by (simp add: paginate_def) (metis add.commute take_add)
qed simp

text \<open>Enough pages give every row, in order and once.\<close>

lemma paginate_all:
  assumes "length xs \<le> n * limit"
  shows "concat (map (\<lambda>p. paginate (Suc p) limit xs) [0..<n]) = xs"
  using assms by (simp add: paginate_take)

subsection \<open>The interface of a keyed table\<close>

text \<open>
  What a client of a table relies on: a lookup after an update sees the updated row under its
  own key and the old row under any other, and an update neither adds nor removes a key.
\<close>

locale keyed_table =
  fixes key :: "'r \<Rightarrow> 'k"
    and upd :: "'k \<Rightarrow> 'd \<Rightarrow> 'r list \<Rightarrow> 'r list"
    and change :: "'d \<Rightarrow> 'r \<Rightarrow> 'r"
  assumes upd_is: "upd k d rows = row_upd key k (change d) rows"
    and change_key: "key (change d r) = key r"
begin

lemma get_upd:
  "row_get key j (upd k d rows) =
    (if j = k then map_option (change d) (row_get key k rows) else row_get key j rows)"
  by (simp add: upd_is row_get_upd change_key)

lemma get_upd_same: "row_get key k (upd k d rows) = map_option (change d) (row_get key k rows)"
  by (simp add: get_upd)

lemma get_upd_other: "j \<noteq> k \<Longrightarrow> row_get key j (upd k d rows) = row_get key j rows"
  by (simp add: get_upd)

lemma keys_upd: "map key (upd k d rows) = map key rows"
  by (simp add: upd_is row_upd_keys change_key)

lemma upd_distinct: "distinct (map key (upd k d rows)) = distinct (map key rows)"
  by (simp add: keys_upd)

end

end
