(* ===== verification/Infra.thy ===== *)
theory Infra
  imports Prelude
begin

text \<open>
  The stores the processes share: Redis (keys with a time to live) and the RabbitMQ queues the
  program publishes to. Each interaction with Redis or RabbitMQ can fail with an exception. Which
  interactions fail is not decided by the program, so it is an input: \<open>redis_io\<close> and \<open>mq_io\<close>
  hold one truth value per coming interaction (an exhausted list means success), and a theorem
  for every state is a theorem for every pattern of failures. \<open>clock\<close> is what
  \<^verbatim>\<open>datetime.now(UTC)\<close> answers; waiting between retries does not move it.
\<close>

subsection \<open>What Redis and RabbitMQ hold\<close>

record hold_payload =
  hp_status :: string
  hp_heldByUserId :: string
  hp_holdToken :: string
  hp_heldUntil :: tstext

datatype rval = RHold hold_payload | RResult bool | RText string | RCount nat | RLock string int

datatype message =
    CacheInvalidationFailed string
  | HoldTtl string string string
  | PurchaseCompensationFailed string string string
  | TransferCompensationFailed string
  | SellerNotification string string
  | TransferTimeout string string string string

record infra =
  redis :: "string \<Rightarrow> (rval \<times> int) option"
  redis_io :: "bool list"
  mq :: "(string \<times> message) list"
  mq_io :: "bool list"
  clock :: int

subsection \<open>Single interactions\<close>

fun next_io :: "bool list \<Rightarrow> bool \<times> bool list" where
  "next_io [] = (True, [])"
| "next_io (b # bs) = (b, bs)"

definition redis_step :: "infra \<Rightarrow> bool \<times> infra" where
  "redis_step w = (let (ok, bs) = next_io (redis_io w) in (ok, w\<lparr>redis_io := bs\<rparr>))"

text \<open>GET and EXISTS see a key until its expiry; DEL removes it; SETEX replaces it.\<close>

definition redis_live :: "string \<Rightarrow> infra \<Rightarrow> rval option" where
  "redis_live k w = (case redis w k of None \<Rightarrow> None | Some (v, e) \<Rightarrow> if clock w < e then Some v else None)"

definition redis_setex :: "string \<Rightarrow> int \<Rightarrow> rval \<Rightarrow> infra \<Rightarrow> infra" where
  "redis_setex k ttl v w = w\<lparr>redis := (redis w)(k := Some (v, clock w + secs ttl))\<rparr>"

definition redis_delete :: "string \<Rightarrow> infra \<Rightarrow> infra" where
  "redis_delete k w = w\<lparr>redis := (redis w)(k := None)\<rparr>"

text \<open>
  One attempt to open a connection and publish a persistent message: either the broker has the
  message, or an exception is raised.
\<close>

definition mq_publish :: "string \<Rightarrow> message \<Rightarrow> infra \<Rightarrow> bool \<times> infra" where
  "mq_publish q m w =
     (let (ok, bs) = next_io (mq_io w); w1 = w\<lparr>mq_io := bs\<rparr>
      in if ok then (True, w1\<lparr>mq := mq w1 @ [(q, m)]\<rparr>) else (False, w1))"

text \<open>
  The publishing loop that several handlers share: at most \<open>n\<close> attempts, stopping at the first
  success. The exception of the last attempt is logged and dropped.
\<close>

fun publish_retry :: "nat \<Rightarrow> string \<Rightarrow> message \<Rightarrow> infra \<Rightarrow> infra" where
  "publish_retry 0 q m w = w"
| "publish_retry (Suc n) q m w =
     (case mq_publish q m w of
        (True, w1) \<Rightarrow> w1
      | (False, w1) \<Rightarrow> publish_retry n q m w1)"

subsection \<open>Laws\<close>

lemma redis_live_setex [simp]:
  "redis_live k (redis_setex k ttl v w) = (if 0 < ttl then Some v else None)"
  by (simp add: redis_live_def redis_setex_def secs_def)

lemma redis_live_setex_other [simp]:
  "j \<noteq> k \<Longrightarrow> redis_live j (redis_setex k ttl v w) = redis_live j w"
  by (simp add: redis_live_def redis_setex_def split: option.splits)

lemma redis_live_delete [simp]: "redis_live k (redis_delete k w) = None"
  by (simp add: redis_live_def redis_delete_def)

lemma redis_live_delete_other [simp]: "j \<noteq> k \<Longrightarrow> redis_live j (redis_delete k w) = redis_live j w"
  by (simp add: redis_live_def redis_delete_def split: option.splits)

lemma redis_step_frame [frame_simps]:
  assumes "redis_step w = (ok, w1)"
  shows "redis w1 = redis w" and "mq w1 = mq w" and "mq_io w1 = mq_io w" and "clock w1 = clock w"
  using assms by (auto simp: redis_step_def Let_def split: prod.splits)

lemma redis_live_step: "redis_step w = (ok, w1) \<Longrightarrow> redis_live k w1 = redis_live k w"
  by (simp add: redis_live_def redis_step_frame split: option.splits)

lemma mq_publish_frame [frame_simps]:
  assumes "mq_publish q m w = (ok, w1)"
  shows "redis w1 = redis w" and "redis_io w1 = redis_io w" and "clock w1 = clock w"
    and "mq w1 = (if ok then mq w @ [(q, m)] else mq w)"
  using assms by (auto simp: mq_publish_def Let_def split: prod.splits if_splits)

lemma publish_retry_frame [simp, frame_simps]:
  "redis (publish_retry n q m w) = redis w"
  "redis_io (publish_retry n q m w) = redis_io w"
  "clock (publish_retry n q m w) = clock w"
  by (induction n arbitrary: w) (auto simp: mq_publish_frame split: prod.splits bool.splits)

lemma publish_retry_mq:
  "mq (publish_retry n q m w) = mq w \<or> mq (publish_retry n q m w) = mq w @ [(q, m)]"
proof (induction n arbitrary: w)
  case (Suc n)
  obtain ok w1 where p: "mq_publish q m w = (ok, w1)" by fastforce
  with Suc.IH [of w1] show ?case
    by (cases ok) (auto simp: mq_publish_frame(4) [OF p])
qed simp

text \<open>With a working broker the first attempt is enough; the message is sent exactly once.\<close>

lemma publish_retry_ok: "mq_io w = [] \<Longrightarrow> 0 < n \<Longrightarrow>
    publish_retry n q m w = w\<lparr>mq := mq w @ [(q, m)]\<rparr>"
  by (cases n) (auto simp: mq_publish_def)

text \<open>A working Redis stays so.\<close>

lemma redis_step_up [simp]: "redis_io w = [] \<Longrightarrow> redis_step w = (True, w)"
  by (cases w) (simp add: redis_step_def)

lemma redis_store_keeps [simp]:
  "redis_io (redis_setex k ttl v w) = redis_io w" "clock (redis_setex k ttl v w) = clock w"
  "redis_io (redis_delete k w) = redis_io w" "clock (redis_delete k w) = clock w"
  by (simp_all add: redis_setex_def redis_delete_def)

end
