(* ===== verification/SeatInventory.thy ===== *)
theory SeatInventory
  imports Infra
begin

text \<open>
  The seat inventory service (\<^verbatim>\<open>services/seat-inventory-service\<close>): the table of
  \<^verbatim>\<open>models.py\<close>, the gRPC operations of \<^verbatim>\<open>grpc_server.py\<close> and the REST routes of
  \<^verbatim>\<open>routes.py\<close>. A gRPC operation takes the row lock of its seat (\<^verbatim>\<open>with_for_update\<close>) and
  ends its transaction before it returns, so each is one atomic step on the table.
\<close>

subsection \<open>The table\<close>

record seat =
  inventoryId :: string
  seat_eventId :: string
  seatId :: string
  seat_status :: string
  heldByUserId :: "string option"
  holdToken :: "string option"
  heldUntil :: "datetime option"
  seat_createdAt :: int
  seat_updatedAt :: int

type_synonym seats = "seat list"

record seat_world =
  seats :: seats
  world :: infra

subsection \<open>Changes of a row\<close>

text \<open>
  The three changes the service makes to a row: the four assignments of \<^verbatim>\<open>_clear_hold\<close> (which
  \<^verbatim>\<open>ReleaseSeat\<close> repeats), those of a sale, and the UPDATE that claims a seat. A committed change
  refreshes \<^verbatim>\<open>updatedAt\<close> (\<^verbatim>\<open>onupdate\<close>).
\<close>

definition clear_hold :: "seat \<Rightarrow> seat" where
  "clear_hold r = r\<lparr>seat_status := ''available'', heldByUserId := None, holdToken := None, heldUntil := None\<rparr>"

definition mark_sold :: "seat \<Rightarrow> seat" where
  "mark_sold r = r\<lparr>seat_status := ''sold'', heldByUserId := None, holdToken := None, heldUntil := None\<rparr>"

definition claim :: "string \<Rightarrow> string \<Rightarrow> int \<Rightarrow> seat \<Rightarrow> seat" where
  "claim user tok until r =
     r\<lparr>seat_status := ''held'', heldByUserId := Some user, holdToken := Some tok,
       heldUntil := Some (stored (Aware until))\<rparr>"

datatype seat_change = ClearHold | MarkSold | Claim string string int

primrec change_seat :: "seat_change \<Rightarrow> seat \<Rightarrow> seat" where
  "change_seat ClearHold r = clear_hold r"
| "change_seat MarkSold r = mark_sold r"
| "change_seat (Claim user tok until) r = claim user tok until r"

definition commit_seat :: "int \<times> seat_change \<Rightarrow> seat \<Rightarrow> seat" where
  "commit_seat d r = (change_seat (snd d) r)\<lparr>seat_updatedAt := fst d\<rparr>"

definition save_seat :: "string \<Rightarrow> int \<times> seat_change \<Rightarrow> seats \<Rightarrow> seats" where
  "save_seat i d rows = row_upd inventoryId i (commit_seat d) rows"

subsection \<open>Redis helpers of the service\<close>

definition hold_key :: "string \<Rightarrow> string" where
  "hold_key i = ''hold:'' @ i"

definition idempotent_key :: "string \<Rightarrow> string" where
  "idempotent_key k = ''idempotent:'' @ k"

definition release_key :: "string \<Rightarrow> string \<Rightarrow> string" where
  "release_key i tok = ''release:'' @ i @ '':'' @ tok"

text \<open>\<^verbatim>\<open>_get_redis_client\<close>: the ping decides whether there is a client.\<close>

definition get_redis_client :: "infra \<Rightarrow> bool \<times> infra" where
  "get_redis_client w = redis_step w"

definition log_cache_invalidation_failure :: "string \<Rightarrow> infra \<Rightarrow> infra" where
  "log_cache_invalidation_failure i w =
     snd (mq_publish ''cache_invalidation_dlq'' (CacheInvalidationFailed i) w)"

definition write_hold_cache ::
  "string \<Rightarrow> string \<Rightarrow> string \<Rightarrow> tstext \<Rightarrow> int \<Rightarrow> infra \<Rightarrow> infra" where
  "write_hold_cache i user tok until_iso ttl w =
     (case get_redis_client w of
        (False, w1) \<Rightarrow> w1
      | (True, w1) \<Rightarrow>
          (case redis_step w1 of
             (True, w2) \<Rightarrow> redis_setex (hold_key i) ttl
               (RHold \<lparr>hp_status = ''held'', hp_heldByUserId = user, hp_holdToken = tok,
                       hp_heldUntil = until_iso\<rparr>) w2
           | (False, w2) \<Rightarrow> w2))"

text \<open>The loop of \<^verbatim>\<open>_delete_hold_cache\<close> over the attempts that remain.\<close>

fun delete_attempts :: "nat \<Rightarrow> string \<Rightarrow> infra \<Rightarrow> infra" where
  "delete_attempts 0 i w = w"
| "delete_attempts (Suc n) i w =
     (case redis_step w of
        (True, w1) \<Rightarrow> redis_delete (hold_key i) w1
      | (False, w1) \<Rightarrow>
          if n = 0 then log_cache_invalidation_failure i w1 else delete_attempts n i w1)"

definition CACHE_RETRY_ATTEMPTS :: nat where
  "CACHE_RETRY_ATTEMPTS = 3"

definition delete_hold_cache :: "string \<Rightarrow> infra \<Rightarrow> infra" where
  "delete_hold_cache i w =
     (case get_redis_client w of
        (False, w1) \<Rightarrow> w1
      | (True, w1) \<Rightarrow> delete_attempts CACHE_RETRY_ATTEMPTS i w1)"

text \<open>The cached \<^verbatim>\<open>success\<close> flag of an earlier call, if there is one.\<close>

definition check_idempotency :: "string \<Rightarrow> infra \<Rightarrow> bool option \<times> infra" where
  "check_idempotency k w =
     (case get_redis_client w of
        (False, w1) \<Rightarrow> (None, w1)
      | (True, w1) \<Rightarrow>
          (case redis_step w1 of
             (False, w2) \<Rightarrow> (None, w2)
           | (True, w2) \<Rightarrow>
               (case redis_live (idempotent_key k) w2 of
                  Some (RResult b) \<Rightarrow> (Some b, w2)
                | _ \<Rightarrow> (None, w2))))"

definition cache_idempotency_result :: "string \<Rightarrow> bool \<Rightarrow> infra \<Rightarrow> infra" where
  "cache_idempotency_result k b w =
     (case get_redis_client w of
        (False, w1) \<Rightarrow> w1
      | (True, w1) \<Rightarrow>
          (case redis_step w1 of
             (True, w2) \<Rightarrow> redis_setex (idempotent_key k) 3600 (RResult b) w2
           | (False, w2) \<Rightarrow> w2))"

subsection \<open>Expiry\<close>

fun normalize_timestamp :: "datetime option \<Rightarrow> int option" where
  "normalize_timestamp None = None"
| "normalize_timestamp (Some d) = Some (utc_instant d)"

definition hold_has_expired :: "seat \<Rightarrow> int \<Rightarrow> bool" where
  "hold_has_expired r now =
     (if seat_status r \<noteq> ''held'' \<or> heldUntil r = None then False
      else case normalize_timestamp (heldUntil r) of None \<Rightarrow> False | Some t \<Rightarrow> t \<le> now)"

fun iso :: "datetime option \<Rightarrow> tstext" where
  "iso None = TEmpty"
| "iso (Some d) = TIso d"

subsection \<open>HoldSeat\<close>

record hold_request =
  hr_inventory_id :: string
  hr_user_id :: string
  hr_hold_duration_seconds :: int

record hold_response =
  hold_success :: bool
  hold_status :: string
  held_until :: tstext
  error_code :: string
  hold_token :: string

definition hold_refused :: "string \<Rightarrow> tstext \<Rightarrow> string \<Rightarrow> hold_response" where
  "hold_refused st t code =
     \<lparr>hold_success = False, hold_status = st, held_until = t, error_code = code, hold_token = []\<rparr>"

text \<open>
  What one attempt meets: the time it reads, the UUID it draws, and whether a statement of the
  transaction raises, the first query or the later update and commit. A failed statement rolls
  the transaction back.
\<close>

datatype db_error = Deadlock | Operational | OtherException

datatype db_outcome = DbOk | FailLock db_error | FailCommit db_error

record attempt_env =
  a_now :: int
  a_uuid :: string
  a_db :: db_outcome

datatype attempt_result = Returned hold_response | Raised db_error

definition hold_seconds_of :: "hold_request \<Rightarrow> int" where
  "hold_seconds_of req =
     (if 0 < hr_hold_duration_seconds req then hr_hold_duration_seconds req else 300)"

text \<open>
  The body of the loop, up to the exception handlers. The rows the UPDATE matches are counted
  after the flush of a reclaimed hold.
\<close>

definition hold_attempt :: "hold_request \<Rightarrow> attempt_env \<Rightarrow> seat_world \<Rightarrow> attempt_result \<times> seat_world" where
  "hold_attempt req env s =
     (let i = hr_inventory_id req; user = hr_user_id req; now = a_now env;
          until = now + secs (hold_seconds_of req); tok = a_uuid env in
      case a_db env of FailLock e \<Rightarrow> (Raised e, s) | _ \<Rightarrow>
      (case row_get inventoryId i (seats s) of
         None \<Rightarrow> (Returned (hold_refused ''not_found'' TEmpty ''INVENTORY_NOT_FOUND''), s)
       | Some r0 \<Rightarrow>
           let expired = hold_has_expired r0 now;
               rows = (if expired then save_seat i (now, ClearHold) (seats s) else seats s);
               r = (if expired then clear_hold r0 else r0);
               w = (if expired then delete_hold_cache i (world s) else world s)
           in if seat_status r \<noteq> ''available'' then
                (Returned (hold_refused (seat_status r) (iso (heldUntil r)) ''SEAT_NOT_AVAILABLE''),
                 s\<lparr>world := w\<rparr>)
              else (case a_db env of FailCommit e \<Rightarrow> (Raised e, s\<lparr>world := w\<rparr>) | _ \<Rightarrow>
                if length (filter (\<lambda>x. inventoryId x = i \<and> seat_status x = ''available'') rows) \<noteq> 1 then
                  (Returned (hold_refused (seat_status r0) (iso (heldUntil r0)) ''SEAT_NOT_AVAILABLE''),
                   s\<lparr>world := w\<rparr>)
                else
                  (Returned \<lparr>hold_success = True, hold_status = ''held'', held_until = TIso (Aware until),
                      error_code = [], hold_token = tok\<rparr>,
                   \<lparr>seats = save_seat i (now, Claim user tok until) rows,
                    world = write_hold_cache i user tok (TIso (Aware until)) (hold_seconds_of req) w\<rparr>))))"

definition hold_failed :: "string \<Rightarrow> hold_response" where
  "hold_failed code = hold_refused ''error'' TEmpty code"

text \<open>
  The retry loop: one environment per attempt, only a deadlock is retried. The exception handlers
  run after the \<^verbatim>\<open>with self.app.app_context()\<close> block has ended and call
  \<^verbatim>\<open>db.session.rollback()\<close>, which Flask-SQLAlchemy answers with RuntimeError when the thread has no
  application context. \<open>ctx\<close> says whether the calling thread has a context of its own: a test
  that pushes one has, a worker of the gRPC thread pool (\<^verbatim>\<open>server.py\<close>) has not. No response is
  the value None, which the client sees as a failed RPC; the loop that falls through (no attempt
  configured) returns None as well.
\<close>

fun HoldSeat :: "bool \<Rightarrow> hold_request \<Rightarrow> attempt_env list \<Rightarrow> seat_world \<Rightarrow> hold_response option \<times> seat_world" where
  "HoldSeat ctx req [] s = (None, s)"
| "HoldSeat ctx req (env # envs) s =
     (case hold_attempt req env s of
        (Returned resp, s1) \<Rightarrow> (Some resp, s1)
      | (Raised e, s1) \<Rightarrow>
          if \<not> ctx then (None, s1)
          else (case e of
             Deadlock \<Rightarrow>
               if envs \<noteq> [] then HoldSeat ctx req envs s1 else (Some (hold_failed ''DEADLOCK_FAILED''), s1)
           | Operational \<Rightarrow> (Some (hold_failed ''DATABASE_ERROR''), s1)
           | OtherException \<Rightarrow> (Some (hold_failed ''INTERNAL_ERROR''), s1)))"

subsection \<open>ReleaseSeat, SellSeat, GetSeatStatus\<close>

record seat_request =
  sr_inventory_id :: string
  sr_user_id :: string
  sr_hold_token :: string

definition holds :: "seat_request \<Rightarrow> seat \<Rightarrow> bool" where
  "holds req r \<longleftrightarrow> seat_status r = ''held'' \<and> heldByUserId r = Some (sr_user_id req)
     \<and> holdToken r = Some (sr_hold_token req)"

definition ReleaseSeat :: "seat_request \<Rightarrow> seat_world \<Rightarrow> bool \<times> seat_world" where
  "ReleaseSeat req s =
     (let i = sr_inventory_id req; k = release_key i (sr_hold_token req) in
      case check_idempotency k (world s) of
        (Some b, w1) \<Rightarrow> (b, s\<lparr>world := w1\<rparr>)
      | (None, w1) \<Rightarrow>
          (case row_get inventoryId i (seats s) of
             None \<Rightarrow> (False, s\<lparr>world := cache_idempotency_result k False w1\<rparr>)
           | Some r \<Rightarrow>
               if \<not> holds req r then (False, s\<lparr>world := cache_idempotency_result k False w1\<rparr>)
               else (True, \<lparr>seats = save_seat i (clock w1, ClearHold) (seats s),
                            world = cache_idempotency_result k True (delete_hold_cache i w1)\<rparr>)))"

definition SellSeat :: "seat_request \<Rightarrow> seat_world \<Rightarrow> bool \<times> seat_world" where
  "SellSeat req s =
     (let i = sr_inventory_id req in
      case row_get inventoryId i (seats s) of
        None \<Rightarrow> (False, s)
      | Some r \<Rightarrow>
          if \<not> holds req r then (False, s)
          else (True, \<lparr>seats = save_seat i (clock (world s), MarkSold) (seats s),
                       world = delete_hold_cache i (world s)\<rparr>))"

record status_response =
  st_inventory_id :: string
  st_status :: string
  st_held_until :: tstext

definition GetSeatStatus :: "string \<Rightarrow> seat_world \<Rightarrow> status_response \<times> seat_world" where
  "GetSeatStatus i s =
     (case row_get inventoryId i (seats s) of
        None \<Rightarrow> (\<lparr>st_inventory_id = i, st_status = ''not_found'', st_held_until = TEmpty\<rparr>, s)
      | Some r \<Rightarrow>
          if hold_has_expired r (clock (world s)) then
            (\<lparr>st_inventory_id = inventoryId r, st_status = ''available'', st_held_until = TEmpty\<rparr>,
             \<lparr>seats = save_seat i (clock (world s), ClearHold) (seats s),
              world = delete_hold_cache i (world s)\<rparr>)
          else
            (\<lparr>st_inventory_id = inventoryId r, st_status = seat_status r,
              st_held_until = iso (heldUntil r)\<rparr>, s))"


subsection \<open>The REST routes\<close>

text \<open>Listing an event's seats, in the order of their seat ids (code points).\<close>

definition list_inventory_by_event :: "string \<Rightarrow> seats \<Rightarrow> seat list" where
  "list_inventory_by_event e rows = sort_key seatId (filter (\<lambda>r. seat_eventId r = e) rows)"

definition get_my_hold :: "string \<Rightarrow> string option \<Rightarrow> seats \<Rightarrow> seat reply" where
  "get_my_hold e user rows =
     (if \<not> truthy user then Fail 400 ''VALIDATION_ERROR''
      else case find (\<lambda>r. seat_eventId r = e \<and> heldByUserId r = user \<and> seat_status r = ''held'') rows of
             None \<Rightarrow> Fail 404 ''NOT_FOUND''
           | Some r \<Rightarrow> Done 200 r)"

text \<open>
  The body of \<^verbatim>\<open>POST /inventory/batch\<close>: an entry of \<^verbatim>\<open>seats\<close> may be no object, may lack its
  \<^verbatim>\<open>seatId\<close>, and its \<^verbatim>\<open>status\<close> may be missing or no string; \<^verbatim>\<open>seats\<close> itself may be missing
  or no list (then only its truth value is seen).
\<close>

datatype status_field = NoStatus | StatusText string | StatusOther

datatype seat_entry = NotObject | SeatEntry "string option" status_field

datatype seats_field = SeatsMissing | SeatsList "seat_entry list" | SeatsOther bool

fun seats_truthy :: "seats_field \<Rightarrow> bool" where
  "seats_truthy SeatsMissing = False"
| "seats_truthy (SeatsList xs) = (xs \<noteq> [])"
| "seats_truthy (SeatsOther b) = b"

fun normalize_seats :: "seat_entry list \<Rightarrow> (string \<times> string) list option" where
  "normalize_seats [] = Some []"
| "normalize_seats (NotObject # xs) = None"
| "normalize_seats (SeatEntry sid st # xs) =
     (if \<not> truthy sid then None
      else case st of
             StatusOther \<Rightarrow> None
           | NoStatus \<Rightarrow> map_option (\<lambda>ys. (the sid, ''available'') # ys) (normalize_seats xs)
           | StatusText t \<Rightarrow>
               if t = [] then None
               else map_option (\<lambda>ys. (the sid, t) # ys) (normalize_seats xs))"

definition new_seat :: "int \<Rightarrow> string \<Rightarrow> string \<Rightarrow> string \<times> string \<Rightarrow> seat" where
  "new_seat now e uuid d =
     \<lparr>inventoryId = uuid, seat_eventId = e, seatId = fst d, seat_status = snd d,
      heldByUserId = None, holdToken = None, heldUntil = None,
      seat_createdAt = now, seat_updatedAt = now\<rparr>"

text \<open>The primary key and the unique constraint \<^verbatim>\<open>uq_seat_inventory_event_seat\<close>.\<close>

definition unique_seats :: "seats \<Rightarrow> bool" where
  "unique_seats rows \<longleftrightarrow> distinct (map inventoryId rows)
     \<and> distinct (map (\<lambda>r. (seat_eventId r, seatId r)) rows)"

text \<open>
  \<open>uuids\<close> are the primary keys drawn for the new rows, \<open>db_ok\<close> says that the database accepts
  the statements; the constraints of the table are checked in any case.
\<close>

definition create_inventory_batch ::
  "string option \<Rightarrow> seats_field \<Rightarrow> (nat \<Rightarrow> string) \<Rightarrow> bool \<Rightarrow> int \<Rightarrow> seats \<Rightarrow> nat reply \<times> seats" where
  "create_inventory_batch e sf uuids db_ok now rows =
     (if \<not> (truthy e \<and> seats_truthy sf) then (Fail 400 ''VALIDATION_ERROR'', rows)
      else case sf of
        SeatsMissing \<Rightarrow> (Fail 400 ''VALIDATION_ERROR'', rows)
      | SeatsOther b \<Rightarrow> (Fail 400 ''VALIDATION_ERROR'', rows)
      | SeatsList entries \<Rightarrow>
          (case normalize_seats entries of
             None \<Rightarrow> (Fail 400 ''VALIDATION_ERROR'', rows)
           | Some norm \<Rightarrow>
               if \<exists>r \<in> set rows. seat_eventId r = the e then (Fail 409 ''ALREADY_EXISTS'', rows)
               else let created = map (\<lambda>(k, d). new_seat now (the e) (uuids k) d) (enumerate 0 norm) in
                 if db_ok \<and> unique_seats (rows @ created) then
                   (Done 201 (length created), rows @ created)
                 else (Fail 500 ''DB_ERROR'', rows)))"


subsection \<open>Well-formed tables\<close>

text \<open>What the service promises of a row, and of the table.\<close>

definition seat_ok :: "seat \<Rightarrow> bool" where
  "seat_ok r \<longleftrightarrow>
     (seat_status r \<noteq> ''held'' \<longrightarrow> heldByUserId r = None)
   \<and> (heldByUserId r = None \<longleftrightarrow> holdToken r = None)
   \<and> (heldByUserId r = None \<longleftrightarrow> heldUntil r = None)"

definition table_ok :: "seats \<Rightarrow> bool" where
  "table_ok rows \<longleftrightarrow> unique_seats rows \<and> list_all seat_ok rows"

subsection \<open>The abstract seat\<close>

text \<open>
  A client of the service sees a seat as free, held by a user under a token until an instant,
  sold, or in another status (a batch may create seats with any status text).
\<close>

datatype seat_view = VFree | VHeld string string "int option" | VSold | VOther string

definition view_of :: "seat \<Rightarrow> seat_view" where
  "view_of r =
     (if seat_status r = ''available'' then VFree
      else if seat_status r = ''sold'' then VSold
      else if seat_status r \<noteq> ''held'' then VOther (seat_status r)
      else case heldByUserId r of
             None \<Rightarrow> VOther (seat_status r)
           | Some u \<Rightarrow> (case holdToken r of
                          None \<Rightarrow> VOther (seat_status r)
                        | Some t \<Rightarrow> VHeld u t (normalize_timestamp (heldUntil r))))"

definition seat_view :: "string \<Rightarrow> seat_world \<Rightarrow> seat_view option" where
  "seat_view i s = map_option view_of (row_get inventoryId i (seats s))"

fun spec_hold :: "string \<Rightarrow> string \<Rightarrow> int \<Rightarrow> int \<Rightarrow> seat_view \<Rightarrow> seat_view option" where
  "spec_hold u t now until VFree = Some (VHeld u t (Some until))"
| "spec_hold u t now until (VHeld u' t' (Some d)) = (if d \<le> now then Some (VHeld u t (Some until)) else None)"
| "spec_hold u t now until _ = None"

fun spec_release :: "string \<Rightarrow> string \<Rightarrow> seat_view \<Rightarrow> seat_view option" where
  "spec_release u t (VHeld u' t' d) = (if u' = u \<and> t' = t then Some VFree else None)"
| "spec_release u t _ = None"

fun spec_sell :: "string \<Rightarrow> string \<Rightarrow> seat_view \<Rightarrow> seat_view option" where
  "spec_sell u t (VHeld u' t' d) = (if u' = u \<and> t' = t then Some VSold else None)"
| "spec_sell u t _ = None"

text \<open>The view after an operation that may refuse.\<close>

fun spec_after :: "seat_view \<Rightarrow> seat_view option \<Rightarrow> seat_view" where
  "spec_after v None = v"
| "spec_after v (Some v') = v'"

fun spec_lapse :: "int \<Rightarrow> seat_view \<Rightarrow> seat_view" where
  "spec_lapse now (VHeld u t (Some d)) = (if d \<le> now then VFree else VHeld u t (Some d))"
| "spec_lapse now v = v"

text \<open>The part of the service that the purchase saga relies on.\<close>

locale seat_provider =
  fixes view :: "string \<Rightarrow> 's \<Rightarrow> seat_view option"
    and sell :: "seat_request \<Rightarrow> 's \<Rightarrow> bool \<times> 's"
    and release :: "seat_request \<Rightarrow> 's \<Rightarrow> bool \<times> 's"
  assumes sell_law: "sell req s = (b, s') \<Longrightarrow>
      b = (\<exists>d. view (sr_inventory_id req) s = Some (VHeld (sr_user_id req) (sr_hold_token req) d))
      \<and> view j s' = (if b \<and> j = sr_inventory_id req then Some VSold else view j s)"
    and release_law: "release req s = (b, s') \<Longrightarrow>
      view j s' = view j s
      \<or> (j = sr_inventory_id req \<and> b \<and> view j s' = Some VFree
          \<and> (\<exists>d. view j s = Some (VHeld (sr_user_id req) (sr_hold_token req) d)))"
begin

lemma sell_once: "sell req s = (True, s1) \<Longrightarrow> sr_inventory_id req' = sr_inventory_id req \<Longrightarrow>
    sell req' s1 = (b, s2) \<Longrightarrow> \<not> b"
  using sell_law [of req s True s1 "sr_inventory_id req"] sell_law [of req' s1 b s2] by auto

lemma release_keeps_sold: "view j s = Some VSold \<Longrightarrow> release req s = (b, s') \<Longrightarrow> view j s' = Some VSold"
  using release_law [of req s b s' j] by auto

lemma release_after_sell:
  assumes "sell req s = (True, s1)" and "release req' s1 = (b, s2)"
  shows "view (sr_inventory_id req) s2 = Some VSold"
  using sell_law [OF assms(1), of "sr_inventory_id req"] release_keeps_sold [OF _ assms(2)] by simp

end

subsection \<open>Rows and their changes\<close>

lemmas change_defs = clear_hold_def mark_sold_def claim_def commit_seat_def

lemma commit_seat_fields [simp]:
  "inventoryId (commit_seat d r) = inventoryId r"
  "seat_eventId (commit_seat d r) = seat_eventId r"
  "seatId (commit_seat d r) = seatId r"
  "seat_status (commit_seat d r) = seat_status (change_seat (snd d) r)"
  "heldByUserId (commit_seat d r) = heldByUserId (change_seat (snd d) r)"
  "holdToken (commit_seat d r) = holdToken (change_seat (snd d) r)"
  "heldUntil (commit_seat d r) = heldUntil (change_seat (snd d) r)"
  by (cases d; cases "snd d"; simp add: change_defs)+

lemma change_seat_ok: "seat_ok (change_seat c r)"
  by (cases c) (auto simp: seat_ok_def change_defs)

interpretation seat_table: keyed_table inventoryId save_seat commit_seat
  by unfold_locales (simp_all add: save_seat_def)

lemma save_seat_pairs:
  "map (\<lambda>r. (seat_eventId r, seatId r)) (save_seat i d rows) = map (\<lambda>r. (seat_eventId r, seatId r)) rows"
  by (simp add: save_seat_def row_upd_def)

lemma save_seat_unique [simp]: "unique_seats (save_seat i d rows) = unique_seats rows"
  by (simp add: unique_seats_def save_seat_pairs seat_table.keys_upd)

lemma seat_ok_commit: "seat_ok (commit_seat d r)"
  using change_seat_ok [of "snd d" r] by (auto simp: seat_ok_def)

lemma save_seat_ok: "list_all seat_ok rows \<Longrightarrow> list_all seat_ok (save_seat i d rows)"
  unfolding save_seat_def by (rule row_upd_all) (auto intro: seat_ok_commit)

lemma table_ok_save: "table_ok rows \<Longrightarrow> table_ok (save_seat i d rows)"
  by (simp add: table_ok_def save_seat_ok)


lemma claim_after_clear: "commit_seat (n, Claim u t d) (commit_seat (m, ClearHold) r) = commit_seat (n, Claim u t d) r"
  by (simp add: change_defs)

lemma save_claim_after_clear:
  "save_seat i (n, Claim u t d) (save_seat i (m, ClearHold) rows) = save_seat i (n, Claim u t d) rows"
  by (simp add: save_seat_def row_upd_def claim_after_clear)

subsection \<open>What each operation does to the table\<close>

text \<open>A hold is granted on a seat that is free or whose hold has lapsed.\<close>

definition free_at :: "int \<Rightarrow> seat \<Rightarrow> bool" where
  "free_at now r \<longleftrightarrow> seat_status r = ''available'' \<or> hold_has_expired r now"

definition grants :: "hold_request \<Rightarrow> attempt_env \<Rightarrow> hold_response \<Rightarrow> seats \<Rightarrow> seats \<Rightarrow> bool" where
  "grants req env resp rows rows' \<longleftrightarrow>
     (let until = a_now env + secs (hold_seconds_of req) in
      (\<exists>r. row_get inventoryId (hr_inventory_id req) rows = Some r \<and> free_at (a_now env) r)
      \<and> resp = \<lparr>hold_success = True, hold_status = ''held'', held_until = TIso (Aware until),
                error_code = [], hold_token = a_uuid env\<rparr>
      \<and> rows' = save_seat (hr_inventory_id req) (a_now env, Claim (hr_user_id req) (a_uuid env) until) rows)"

lemma hold_attempt_effect:
  assumes "hold_attempt req env s = (res, s')"
  shows "(seats s' = seats s \<and> (\<forall>resp. res = Returned resp \<longrightarrow> \<not> hold_success resp))
    \<or> (\<exists>resp. res = Returned resp \<and> grants req env resp (seats s) (seats s'))"
  using assms
  by (auto simp: hold_attempt_def hold_refused_def grants_def free_at_def Let_def save_claim_after_clear
      split: db_outcome.splits option.splits if_splits)

lemma HoldSeat_effect:
  assumes "HoldSeat ctx req envs s = (resp, s')"
  shows "(seats s' = seats s \<and> (\<forall>r. resp = Some r \<longrightarrow> \<not> hold_success r))
    \<or> (\<exists>r env. resp = Some r \<and> env \<in> set envs \<and> grants req env r (seats s) (seats s'))"
  using assms
proof (induction envs arbitrary: s)
  case Nil
  then show ?case by simp
next
  case (Cons env envs)
  obtain res s1 where att: "hold_attempt req env s = (res, s1)" by fastforce
  show ?case
  proof (cases res)
    case (Returned r)
    with att Cons.prems hold_attempt_effect [OF att] show ?thesis by auto
  next
    case (Raised e)
    with hold_attempt_effect [OF att] have same: "seats s1 = seats s" by simp
    show ?thesis
    proof (cases "ctx \<and> e = Deadlock \<and> envs \<noteq> []")
      case True
      with att Raised Cons.prems have "HoldSeat ctx req envs s1 = (resp, s')" by simp
      from Cons.IH [OF this] same show ?thesis by auto
    next
      case False
      with att Raised Cons.prems same show ?thesis
        by (cases e) (auto simp: hold_failed_def hold_refused_def split: if_splits)
    qed
  qed
qed

lemma ReleaseSeat_effect:
  assumes "ReleaseSeat req s = (b, s')"
  shows "seats s' = seats s
    \<or> (b \<and> (\<exists>r now. row_get inventoryId (sr_inventory_id req) (seats s) = Some r \<and> holds req r
          \<and> seats s' = save_seat (sr_inventory_id req) (now, ClearHold) (seats s)))"
  using assms by (auto simp: ReleaseSeat_def Let_def split: prod.splits option.splits if_splits)

lemma SellSeat_effect:
  assumes "SellSeat req s = (b, s')"
  shows "(\<not> b \<and> s' = s)
    \<or> (b \<and> (\<exists>r. row_get inventoryId (sr_inventory_id req) (seats s) = Some r \<and> holds req r
          \<and> seats s' = save_seat (sr_inventory_id req) (clock (world s), MarkSold) (seats s)))"
  using assms by (auto simp: SellSeat_def Let_def split: option.splits if_splits)

lemma GetSeatStatus_effect:
  assumes "GetSeatStatus i s = (resp, s')"
  shows "(s' = s \<and> \<not> (\<exists>r. row_get inventoryId i (seats s) = Some r \<and> hold_has_expired r (clock (world s))))
    \<or> (\<exists>r. row_get inventoryId i (seats s) = Some r \<and> hold_has_expired r (clock (world s))
          \<and> seats s' = save_seat i (clock (world s), ClearHold) (seats s))"
  using assms by (auto simp: GetSeatStatus_def split: option.splits if_splits)

lemma create_inventory_batch_effect:
  assumes "create_inventory_batch e sf uuids db_ok now rows = (rep, rows')"
  shows "(rows' = rows \<and> \<not> is_done rep)
    \<or> (\<exists>norm created. is_done rep \<and> created = map (\<lambda>(k, d). new_seat now (the e) (uuids k) d) (enumerate 0 norm)
         \<and> rep = Done 201 (length norm) \<and> rows' = rows @ created \<and> unique_seats rows'
         \<and> (\<forall>r \<in> set rows. seat_eventId r \<noteq> the e))"
  using assms
  by (auto simp: create_inventory_batch_def Let_def
      split: seats_field.splits option.splits if_splits)


definition seat_at :: "string \<Rightarrow> seat_world \<Rightarrow> seat option" where
  "seat_at i s = row_get inventoryId i (seats s)"

lemma seat_at_save:
  "seats s' = save_seat i d (seats s) \<Longrightarrow>
    seat_at j s' = (if j = i then map_option (commit_seat d) (seat_at i s) else seat_at j s)"
  by (simp add: seat_at_def seat_table.get_upd)


subsection \<open>Holding a seat\<close>

lemma filter_single:
  assumes "distinct (map key rows)" and "row_get key k rows = Some r"
  shows "filter (\<lambda>x. key x = k \<and> P x) rows = (if P r then [r] else [])"
  using assms
proof (induction rows)
  case (Cons x xs)
  show ?case
  proof (cases "key x = k")
    case True
    then have "row_get key k xs = None" using Cons.prems(1) by (auto simp: row_get_None)
    then have "filter (\<lambda>x. key x = k \<and> P x) xs = []"
      by (auto simp: row_get_None filter_empty_conv)
    with True Cons.prems(2) show ?thesis by auto
  qed (use Cons in auto)
qed simp

lemma hold_attempt_ok:
  assumes "table_ok (seats s)" and "a_db env = DbOk" and "seat_at (hr_inventory_id req) s = Some r"
    and "free_at (a_now env) r"
  shows "\<exists>resp s'. hold_attempt req env s = (Returned resp, s') \<and> grants req env resp (seats s) (seats s')"
proof -
  have d: "distinct (map inventoryId (seats s))"
    using assms(1) by (simp add: table_ok_def unique_seats_def)
  have one: "length (filter (\<lambda>x. inventoryId x = hr_inventory_id req \<and> seat_status x = ''available'')
      (if hold_has_expired r (a_now env) then save_seat (hr_inventory_id req) (a_now env, ClearHold) (seats s)
       else seats s)) = 1"
  proof (cases "hold_has_expired r (a_now env)")
    case True
    have "distinct (map inventoryId (save_seat (hr_inventory_id req) (a_now env, ClearHold) (seats s)))"
      using d by (simp add: seat_table.keys_upd)
    from filter_single [OF this, where k = "hr_inventory_id req" and P = "\<lambda>x. seat_status x = ''available''"]
      True assms(3) show ?thesis
      by (auto simp: seat_at_def seat_table.get_upd_same clear_hold_def)
  next
    case False
    with filter_single [OF d assms(3) [unfolded seat_at_def], where P = "\<lambda>x. seat_status x = ''available''"]
      assms(4) show ?thesis by (auto simp: free_at_def)
  qed
  with assms(2-4) show ?thesis
    by (auto simp: hold_attempt_def seat_at_def grants_def free_at_def Let_def save_claim_after_clear clear_hold_def)
qed

lemma hold_attempt_refused:
  assumes "a_db env = DbOk" and "\<not> (\<exists>r. seat_at (hr_inventory_id req) s = Some r \<and> free_at (a_now env) r)"
  shows "\<exists>resp. hold_attempt req env s = (Returned resp, s) \<and> \<not> hold_success resp
    \<and> error_code resp = (if seat_at (hr_inventory_id req) s = None then ''INVENTORY_NOT_FOUND''
                         else ''SEAT_NOT_AVAILABLE'')"
  using assms
  by (auto simp: hold_attempt_def seat_at_def free_at_def hold_refused_def Let_def split: option.splits)

lemma HoldSeat_deadlocks:
  assumes "list_all (\<lambda>e. a_db e = FailLock Deadlock) ds" and "envs \<noteq> []" and "ds = [] \<or> ctx"
  shows "HoldSeat ctx req (ds @ envs) s = HoldSeat ctx req envs s"
  using assms by (induction ds) (auto simp: hold_attempt_def Let_def)

lemma HoldSeat_returns: "envs \<noteq> [] \<Longrightarrow> ctx \<Longrightarrow> fst (HoldSeat ctx req envs s) \<noteq> None"
proof (induction envs arbitrary: s)
  case (Cons env envs)
  obtain res s1 where "hold_attempt req env s = (res, s1)" by fastforce
  with Cons.IH [of s1] Cons.prems(2) show ?case
    by (auto split: attempt_result.splits db_error.splits)
qed simp


subsection \<open>Refinement of the abstract seat\<close>

lemma view_of_VHeld: "view_of r = VHeld u t d \<longleftrightarrow>
    seat_status r = ''held'' \<and> heldByUserId r = Some u \<and> holdToken r = Some t
    \<and> d = normalize_timestamp (heldUntil r)"
  by (auto simp: view_of_def split: option.splits if_splits)

lemma view_of_changed [simp]:
  "view_of (commit_seat (n, ClearHold) r) = VFree"
  "view_of (commit_seat (n, MarkSold) r) = VSold"
  "view_of (commit_seat (n, Claim u t d) r) = VHeld u t (Some d)"
  by (simp_all add: view_of_def change_defs stored_def)

lemma holds_view: "holds req r \<longleftrightarrow> (\<exists>d. view_of r = VHeld (sr_user_id req) (sr_hold_token req) d)"
  by (auto simp: holds_def view_of_VHeld)

lemma expired_view:
  assumes "seat_ok r"
  shows "hold_has_expired r now \<longleftrightarrow> (\<exists>u t d. view_of r = VHeld u t (Some d) \<and> d \<le> now)"
proof (cases "seat_status r = ''held'' \<and> heldUntil r \<noteq> None")
  case True
  with assms obtain u t d where "heldByUserId r = Some u" "holdToken r = Some t" "heldUntil r = Some d"
    by (auto simp: seat_ok_def)
  with True show ?thesis by (auto simp: hold_has_expired_def view_of_def)
next
  case False
  then show ?thesis by (auto simp: hold_has_expired_def view_of_VHeld)
qed

lemma view_of_VFree: "view_of r = VFree \<longleftrightarrow> seat_status r = ''available''"
  by (auto simp: view_of_def split: option.splits if_splits)

lemma spec_hold_cases: "spec_hold u t now until v =
    (if v = VFree \<or> (\<exists>u' t' d. v = VHeld u' t' (Some d) \<and> d \<le> now) then Some (VHeld u t (Some until)) else None)"
  by (cases v; cases "case v of VHeld _ _ d \<Rightarrow> d | _ \<Rightarrow> None") auto

lemma spec_lapse_cases: "spec_lapse now v =
    (if \<exists>u t d. v = VHeld u t (Some d) \<and> d \<le> now then VFree else v)"
  by (cases v; cases "case v of VHeld _ _ d \<Rightarrow> d | _ \<Rightarrow> None") auto

lemma spec_hold_free:
  assumes "seat_ok r"
  shows "spec_hold u t now until (view_of r) =
    (if free_at now r then Some (VHeld u t (Some until)) else None)"
  using expired_view [OF assms] by (simp add: spec_hold_cases free_at_def view_of_VFree)

lemma spec_lapse_expired:
  assumes "seat_ok r"
  shows "spec_lapse now (view_of r) = (if hold_has_expired r now then VFree else view_of r)"
  using expired_view [OF assms] by (simp add: spec_lapse_cases)

lemma spec_sell_holds: "spec_sell (sr_user_id req) (sr_hold_token req) (view_of r) = (if holds req r then Some VSold else None)"
  by (cases "view_of r") (auto simp: holds_view)

lemma spec_release_holds:
  "spec_release (sr_user_id req) (sr_hold_token req) (view_of r) = (if holds req r then Some VFree else None)"
  by (cases "view_of r") (auto simp: holds_view)

interpretation seat_rpc: seat_provider seat_view SellSeat ReleaseSeat
proof unfold_locales
  fix req s b s' j
  assume "SellSeat req s = (b, s')"
  from SellSeat_effect [OF this]
  show "b = (\<exists>d. seat_view (sr_inventory_id req) s = Some (VHeld (sr_user_id req) (sr_hold_token req) d))
      \<and> seat_view j s' = (if b \<and> j = sr_inventory_id req then Some VSold else seat_view j s)"
    using \<open>SellSeat req s = (b, s')\<close>
    by (auto simp: seat_view_def seat_table.get_upd holds_view SellSeat_def Let_def split: option.splits if_splits)
next
  fix req s b s' j
  assume "ReleaseSeat req s = (b, s')"
  from ReleaseSeat_effect [OF this]
  show "seat_view j s' = seat_view j s \<or> (j = sr_inventory_id req \<and> b \<and> seat_view j s' = Some VFree
      \<and> (\<exists>d. seat_view j s = Some (VHeld (sr_user_id req) (sr_hold_token req) d)))"
    by (cases "j = sr_inventory_id req") (auto simp: seat_view_def seat_table.get_upd holds_view)
qed

subsection \<open>Example inputs\<close>

text \<open>A free seat, the same seat held by a user, and the shared stores at rest.\<close>

definition ex_infra :: infra where
  "ex_infra = \<lparr>redis = (\<lambda>_. None), redis_io = [], mq = [], mq_io = [], clock = 1000\<rparr>"

definition ex_seat :: seat where
  "ex_seat = new_seat 0 ''e1'' ''i1'' (''s1'', ''available'')"

definition ex_other_seat :: seat where
  "ex_other_seat = new_seat 0 ''e1'' ''i2'' (''s2'', ''available'')"

definition ex_free :: seat_world where
  "ex_free = \<lparr>seats = [ex_seat, ex_other_seat], world = ex_infra\<rparr>"

definition ex_held :: seat_world where
  "ex_held = \<lparr>seats = [commit_seat (5, Claim ''u1'' ''t1'' 5000) ex_seat, ex_other_seat], world = ex_infra\<rparr>"

definition ex_hold_request :: hold_request where
  "ex_hold_request = \<lparr>hr_inventory_id = ''i1'', hr_user_id = ''u1'', hr_hold_duration_seconds = 0\<rparr>"

definition ex_attempt :: "db_outcome \<Rightarrow> attempt_env" where
  "ex_attempt d = \<lparr>a_now = 1000, a_uuid = ''t1'', a_db = d\<rparr>"

definition ex_request :: seat_request where
  "ex_request = \<lparr>sr_inventory_id = ''i1'', sr_user_id = ''u1'', sr_hold_token = ''t1''\<rparr>"

lemmas ex_seat_defs = ex_infra_def ex_seat_def ex_other_seat_def ex_free_def ex_held_def
  ex_hold_request_def ex_attempt_def ex_request_def new_seat_def change_defs Let_def

lemma ex_tables_ok: "table_ok (seats ex_free)" "table_ok (seats ex_held)"
  by (simp_all add: table_ok_def unique_seats_def seat_ok_def ex_seat_defs)

subsection \<open>Properties\<close>

text \<open>
  Property C11: holding a seat decides by the row it locks. After any number of deadlocked attempts
  (none, when the thread has no application context), the first attempt that the database lets through succeeds exactly when the seat exists and is
  available or its hold has lapsed; then the row is held by the caller under the fresh token until
  the requested time, and no other seat changes. Otherwise the table is unchanged and the error
  code tells a missing seat from an unavailable one.
\<close>

theorem HoldSeat_decides:
  assumes "table_ok (seats s)" and "list_all (\<lambda>e. a_db e = FailLock Deadlock) ds" and "ds = [] \<or> ctx" and "a_db env = DbOk"
  shows "\<exists>resp s'. HoldSeat ctx req (ds @ env # later) s = (Some resp, s')
    \<and> (hold_success resp \<longleftrightarrow> (\<exists>r. seat_at (hr_inventory_id req) s = Some r \<and> free_at (a_now env) r))
    \<and> (hold_success resp \<longrightarrow> hold_token resp = a_uuid env
        \<and> seat_view (hr_inventory_id req) s' = Some (VHeld (hr_user_id req) (a_uuid env)
            (Some (a_now env + secs (hold_seconds_of req))))
        \<and> (\<forall>j. j \<noteq> hr_inventory_id req \<longrightarrow> seat_at j s' = seat_at j s))
    \<and> (\<not> hold_success resp \<longrightarrow> seats s' = seats s \<and> error_code resp =
        (if seat_at (hr_inventory_id req) s = None then ''INVENTORY_NOT_FOUND'' else ''SEAT_NOT_AVAILABLE''))"
proof (cases "\<exists>r. seat_at (hr_inventory_id req) s = Some r \<and> free_at (a_now env) r")
  case True
  then obtain r where r: "seat_at (hr_inventory_id req) s = Some r" "free_at (a_now env) r" by blast
  from hold_attempt_ok [OF assms(1,4) r] obtain resp s' where
    "hold_attempt req env s = (Returned resp, s')" and g: "grants req env resp (seats s) (seats s')" by blast
  then have "HoldSeat ctx req (ds @ env # later) s = (Some resp, s')"
    by (simp add: HoldSeat_deadlocks [OF assms(2) _ assms(3)])
  with g r show ?thesis
    by (auto simp: grants_def Let_def seat_view_def seat_at_def seat_table.get_upd)
next
  case False
  from hold_attempt_refused [OF assms(4) False] obtain resp where
    "hold_attempt req env s = (Returned resp, s)" "\<not> hold_success resp"
    "error_code resp = (if seat_at (hr_inventory_id req) s = None then ''INVENTORY_NOT_FOUND''
                        else ''SEAT_NOT_AVAILABLE'')" by blast
  with False HoldSeat_deadlocks [OF assms(2) _ assms(3), of "env # later"] show ?thesis by auto
qed

theorem HoldSeat_decides_witness:
  "\<exists>resp s'. HoldSeat True ex_hold_request ([ex_attempt (FailLock Deadlock)] @ ex_attempt DbOk # []) ex_free = (Some resp, s')
    \<and> hold_success resp
    \<and> seat_view ''i1'' s' = Some (VHeld ''u1'' ''t1'' (Some 300001000))"
proof -
  have "\<exists>r. seat_at (hr_inventory_id ex_hold_request) ex_free = Some r \<and> free_at (a_now (ex_attempt DbOk)) r"
    by (simp add: seat_at_def free_at_def ex_seat_defs)
  with HoldSeat_decides [of ex_free "[ex_attempt (FailLock Deadlock)]" True "ex_attempt DbOk" ex_hold_request "[]"]
    ex_tables_ok
  show ?thesis by (auto simp: ex_attempt_def ex_hold_request_def hold_seconds_of_def secs_def)
qed

text \<open>
  The retry loop answers when the thread has an application context, and only then.
  With a context every sequence of database failures ends in a response. Without one, as in a
  worker of the gRPC server, the first exception ends the call without a response: no deadlock is
  retried and none of the error responses of the handlers is ever sent.
\<close>

theorem HoldSeat_answers:
  assumes "envs \<noteq> []"
  shows "(ctx \<longrightarrow> (\<exists>resp. fst (HoldSeat ctx req envs s) = Some resp))
    \<and> (\<not> ctx \<and> a_db (hd envs) = FailLock e \<longrightarrow> HoldSeat ctx req envs s = (None, s))"
proof -
  have "\<not> ctx \<and> a_db (hd envs) = FailLock e \<longrightarrow> HoldSeat ctx req envs s = (None, s)"
    using assms by (cases envs) (auto simp: hold_attempt_def Let_def)
  with HoldSeat_returns [OF assms] show ?thesis by auto
qed

theorem HoldSeat_answers_witness:
  "(\<exists>resp. fst (HoldSeat True ex_hold_request [ex_attempt (FailLock Deadlock)] ex_free) = Some resp)
    \<and> HoldSeat False ex_hold_request [ex_attempt (FailLock Deadlock), ex_attempt DbOk] ex_free = (None, ex_free)"
  using HoldSeat_answers [of "[ex_attempt (FailLock Deadlock)]" True ex_hold_request ex_free]
    HoldSeat_answers [of "[ex_attempt (FailLock Deadlock), ex_attempt DbOk]" False ex_hold_request ex_free Deadlock]
  by (auto simp: ex_attempt_def)



end
