(* ===== verification/SeatHistory.thy ===== *)
theory SeatHistory
  imports SeatInventory
begin

text \<open>
  Histories of the seat inventory service: any sequence of completed operations, by any number of
  clients, with any behaviour of Redis and the clock in between. The lemmas follow one seat
  through a history: its row stays well formed, a sale is final and happens once, and a hold is
  protected until it lapses.
\<close>

subsection \<open>Sequences of operations\<close>

text \<open>
  The service under any interleaving: each event is one completed gRPC call with its answer, a
  batch creation, or a change of the shared stores and the clock by somebody else.
\<close>

datatype seat_event =
    EvHold hold_request "attempt_env list" "hold_response option"
  | EvRelease seat_request bool
  | EvSell seat_request bool
  | EvStatus string int status_response
  | EvBatch "nat reply"
  | EvEnv

inductive seat_step :: "seat_world \<Rightarrow> seat_event \<Rightarrow> seat_world \<Rightarrow> bool" where
  hold: "HoldSeat ctx req envs s = (resp, s') \<Longrightarrow> seat_step s (EvHold req envs resp) s'"
| release: "ReleaseSeat req s = (b, s') \<Longrightarrow> seat_step s (EvRelease req b) s'"
| sell: "SellSeat req s = (b, s') \<Longrightarrow> seat_step s (EvSell req b) s'"
| seat_status: "GetSeatStatus i s = (resp, s') \<Longrightarrow> seat_step s (EvStatus i (clock (world s)) resp) s'"
| batch: "create_inventory_batch e sf uuids db_ok now (seats s) = (rep, rows) \<Longrightarrow>
    seat_step s (EvBatch rep) (s\<lparr>seats := rows\<rparr>)"
| environment: "seat_step s EvEnv (s\<lparr>world := w\<rparr>)"

inductive seat_trace :: "seat_world \<Rightarrow> seat_event list \<Rightarrow> seat_world \<Rightarrow> bool" where
  seat_trace_nil: "seat_trace s [] s"
| seat_trace_cons: "seat_step s e s1 \<Longrightarrow> seat_trace s1 es s2 \<Longrightarrow> seat_trace s (e # es) s2"

inductive_cases seat_trace_consE: "seat_trace s (e # es) s2"

subsection \<open>One step seen from one seat\<close>

text \<open>The events that can change the row of a seat, and how.\<close>

inductive seat_moves :: "string \<Rightarrow> seat \<Rightarrow> seat_event \<Rightarrow> seat \<Rightarrow> bool" for i where
  moves_hold: "hr_inventory_id req = i \<Longrightarrow> env \<in> set envs \<Longrightarrow> free_at (a_now env) r \<Longrightarrow>
    hold_success resp \<Longrightarrow> hold_token resp = a_uuid env \<Longrightarrow>
    seat_moves i r (EvHold req envs (Some resp))
      (commit_seat (a_now env, Claim (hr_user_id req) (a_uuid env) (a_now env + secs (hold_seconds_of req))) r)"
| moves_release: "sr_inventory_id req = i \<Longrightarrow> holds req r \<Longrightarrow>
    seat_moves i r (EvRelease req True) (commit_seat (now, ClearHold) r)"
| moves_sell: "sr_inventory_id req = i \<Longrightarrow> holds req r \<Longrightarrow>
    seat_moves i r (EvSell req True) (commit_seat (now, MarkSold) r)"
| moves_lapse: "hold_has_expired r now \<Longrightarrow>
    seat_moves i r (EvStatus i now resp) (commit_seat (now, ClearHold) r)"

inductive_cases seat_moves_sellE: "seat_moves i r (EvSell req b) r'"

lemma seat_step_at:
  assumes "seat_step s e s'" and "seat_at i s = Some r"
  shows "(seat_at i s' = Some r \<and> \<not> (\<exists>req. e = EvSell req True \<and> sr_inventory_id req = i))
    \<or> (\<exists>r'. seat_at i s' = Some r' \<and> seat_moves i r e r')"
  using assms
proof (induction rule: seat_step.induct)
  case (hold ctx req envs s resp s')
  from HoldSeat_effect [OF hold.hyps] show ?case
  proof
    assume "\<exists>ra env. resp = Some ra \<and> env \<in> set envs \<and> grants req env ra (seats s) (seats s')"
    then obtain ra env where g: "resp = Some ra" "env \<in> set envs" "grants req env ra (seats s) (seats s')"
      by blast
    show ?case
    proof (cases "hr_inventory_id req = i")
      case True
      have "free_at (a_now env) r" and "hold_success ra" and "hold_token ra = a_uuid env"
        using g(3) hold.prems True by (auto simp: grants_def seat_at_def Let_def)
      with g True have "seat_moves i r (EvHold req envs resp)
        (commit_seat (a_now env, Claim (hr_user_id req) (a_uuid env) (a_now env + secs (hold_seconds_of req))) r)"
        by (auto intro: seat_moves.intros)
      moreover have "seat_at i s' = Some
        (commit_seat (a_now env, Claim (hr_user_id req) (a_uuid env) (a_now env + secs (hold_seconds_of req))) r)"
        using g(3) hold.prems True by (auto simp: grants_def seat_at_def Let_def seat_table.get_upd)
      ultimately show ?thesis by blast
    next
      case False
      with g(3) hold.prems show ?thesis by (auto simp: grants_def seat_at_def Let_def seat_table.get_upd)
    qed
  qed (use hold.prems in \<open>auto simp: seat_at_def\<close>)
next
  case (release req s b s')
  from ReleaseSeat_effect [OF release.hyps] release.prems show ?case
    by (cases "sr_inventory_id req = i") (auto simp: seat_at_def seat_table.get_upd intro: seat_moves.intros)
next
  case (sell req s b s')
  from SellSeat_effect [OF sell.hyps] sell.prems show ?case
    by (cases "sr_inventory_id req = i") (auto simp: seat_at_def seat_table.get_upd intro: seat_moves.intros)
next
  case (seat_status j s resp s')
  from GetSeatStatus_effect [OF seat_status.hyps] seat_status.prems show ?case
    by (cases "j = i") (auto simp: seat_at_def seat_table.get_upd intro: seat_moves.intros)
next
  case (batch e sf uuids db_ok now s rep rows)
  from create_inventory_batch_effect [OF batch.hyps] batch.prems show ?case
    by (auto simp: seat_at_def row_get_append)
next
  case (environment s w)
  then show ?case by (simp add: seat_at_def)
qed

subsection \<open>The table stays well formed\<close>

lemma new_seat_ok: "seat_ok (new_seat now e u d)"
  by (simp add: seat_ok_def new_seat_def)

lemma batch_table_ok:
  assumes "create_inventory_batch e sf uuids db_ok now rows = (rep, rows')" and "table_ok rows"
  shows "table_ok rows'"
  using create_inventory_batch_effect [OF assms(1)] assms(2)
  by (auto simp: table_ok_def list_all_iff new_seat_ok)

lemma seat_step_table_ok:
  assumes "seat_step s e s'" and "table_ok (seats s)"
  shows "table_ok (seats s')"
  using assms
proof (induction rule: seat_step.induct)
  case (hold ctx req envs s resp s')
  from HoldSeat_effect [OF hold.hyps] hold.prems show ?case
    by (auto simp: grants_def Let_def intro: table_ok_save)
next
  case (release req s b s')
  from ReleaseSeat_effect [OF release.hyps] release.prems show ?case by (auto intro: table_ok_save)
next
  case (sell req s b s')
  from SellSeat_effect [OF sell.hyps] sell.prems show ?case by (auto intro: table_ok_save)
next
  case (seat_status j s resp s')
  from GetSeatStatus_effect [OF seat_status.hyps] seat_status.prems show ?case by (auto intro: table_ok_save)
next
  case (batch e sf uuids db_ok now s rep rows)
  from batch_table_ok [OF batch.hyps batch.prems] show ?case by simp
next
  case (environment s w)
  then show ?case by simp
qed

lemma seat_trace_table_ok:
  assumes "seat_trace s es s'" and "table_ok (seats s)"
  shows "table_ok (seats s')"
  using assms by (induction rule: seat_trace.induct) (auto dest: seat_step_table_ok)

subsection \<open>Sold is final, and a seat is sold once\<close>

lemma seat_moves_from:
  assumes "seat_moves i r e r'"
  shows "seat_status r = ''available'' \<or> seat_status r = ''held''"
  using assms by cases (auto simp: free_at_def hold_has_expired_def holds_def split: if_splits)

lemma seat_step_settled:
  assumes "seat_step s e s'" and "seat_at i s = Some r"
    and "seat_status r \<noteq> ''available''" and "seat_status r \<noteq> ''held''"
  shows "seat_at i s' = Some r \<and> \<not> (\<exists>req. e = EvSell req True \<and> sr_inventory_id req = i)"
  using seat_step_at [OF assms(1,2)] assms(3,4) seat_moves_from by blast

lemma seat_trace_settled:
  assumes "seat_trace s es s'" and "seat_at i s = Some r"
    and "seat_status r \<noteq> ''available''" and "seat_status r \<noteq> ''held''"
  shows "seat_at i s' = Some r \<and> (\<forall>req. EvSell req True \<in> set es \<longrightarrow> sr_inventory_id req \<noteq> i)"
  using assms
proof (induction rule: seat_trace.induct)
  case (seat_trace_cons s e s1 es s2)
  from seat_step_settled [OF seat_trace_cons.hyps(1) seat_trace_cons.prems] seat_trace_cons.IH
    seat_trace_cons.prems(2,3)
  show ?case by auto
qed simp

definition sold_events :: "string \<Rightarrow> seat_event list \<Rightarrow> seat_event list" where
  "sold_events i es = filter (\<lambda>e. case e of EvSell req b \<Rightarrow> b \<and> sr_inventory_id req = i | _ \<Rightarrow> False) es"

lemma sold_events_empty:
  "(\<forall>req. EvSell req True \<in> set es \<longrightarrow> sr_inventory_id req \<noteq> i) \<Longrightarrow> sold_events i es = []"
  by (induction es) (auto simp: sold_events_def split: seat_event.splits)


lemma SellSeat_absent: "seat_at (sr_inventory_id req) s = None \<Longrightarrow> SellSeat req s = (False, s)"
  by (simp add: SellSeat_def seat_at_def)

lemma seat_step_absent:
  assumes "seat_step s e s'" and "seat_at i s = None"
  shows "\<not> (\<exists>req. e = EvSell req True \<and> sr_inventory_id req = i)"
  using assms by (induction rule: seat_step.induct) (auto simp: SellSeat_absent)

lemma sold_events_le_one:
  assumes "seat_trace s es s'"
  shows "length (sold_events i es) \<le> 1"
  using assms
proof (induction rule: seat_trace.induct)
  case (seat_trace_nil s)
  then show ?case by (simp add: sold_events_def)
next
  case (seat_trace_cons s e s1 es s2)
  show ?case
  proof (cases "\<exists>req. e = EvSell req True \<and> sr_inventory_id req = i")
    case True
    then obtain req where e: "e = EvSell req True" and i: "sr_inventory_id req = i" by blast
    with seat_step_absent [OF seat_trace_cons.hyps(1)] obtain r where r: "seat_at i s = Some r"
      by blast
    from seat_step_at [OF seat_trace_cons.hyps(1) r] e i
    obtain r' where r': "seat_at i s1 = Some r'" "seat_status r' = ''sold''"
      by (auto elim!: seat_moves_sellE simp: mark_sold_def)
    have "sold_events i es = []"
      by (rule sold_events_empty) (use seat_trace_settled [OF seat_trace_cons.hyps(2) r'(1)] r'(2) in auto)
    then show ?thesis by (simp add: sold_events_def split: seat_event.splits)
  next
    case False
    then have "sold_events i (e # es) = sold_events i es"
      by (auto simp: sold_events_def split: seat_event.splits)
    with seat_trace_cons.IH show ?thesis by simp
  qed
qed

subsection \<open>A hold is protected until it lapses\<close>

text \<open>
  An event that leaves a hold alone: it reads the clock before the hold's end, and it does not
  present the hold's token for that seat.
\<close>

fun spares :: "string \<Rightarrow> string \<Rightarrow> int \<Rightarrow> seat_event \<Rightarrow> bool" where
  "spares i tok t (EvHold req envs resp) = (\<forall>env \<in> set envs. a_now env < t)"
| "spares i tok t (EvRelease req b) = (\<not> (sr_inventory_id req = i \<and> sr_hold_token req = tok))"
| "spares i tok t (EvSell req b) = (\<not> (sr_inventory_id req = i \<and> sr_hold_token req = tok))"
| "spares i tok t (EvStatus j now resp) = (now < t)"
| "spares i tok t (EvBatch rep) = True"
| "spares i tok t EvEnv = True"

lemma seat_moves_spares:
  assumes "seat_moves i r e r'" and "seat_status r = ''held''" and "holdToken r = Some tok"
    and "heldUntil r = Some d"
  shows "\<not> spares i tok (utc_instant d) e"
  using assms by cases (force simp: free_at_def hold_has_expired_def holds_def not_less)+

lemma seat_trace_protected:
  assumes "seat_trace s es s'" and "seat_at i s = Some r" and "seat_status r = ''held''"
    and "holdToken r = Some tok" and "heldUntil r = Some d"
    and "list_all (spares i tok (utc_instant d)) es"
  shows "seat_at i s' = Some r"
  using assms
proof (induction rule: seat_trace.induct)
  case (seat_trace_cons s e s1 es s2)
  from seat_step_at [OF seat_trace_cons.hyps(1) seat_trace_cons.prems(1)]
  have "seat_at i s1 = Some r"
    using seat_moves_spares seat_trace_cons.prems by fastforce
  with seat_trace_cons.IH seat_trace_cons.prems show ?case by simp
qed simp

subsection \<open>Properties\<close>

text \<open>An example history: the holder buys the seat, and a second buyer is refused.\<close>

definition ex_sold :: seat_world where
  "ex_sold = snd (SellSeat ex_request ex_held)"

lemma ex_history: "seat_trace ex_held [EvSell ex_request True, EvSell ex_request False] ex_sold"
proof (rule seat_trace_cons)
  show "seat_step ex_held (EvSell ex_request True) ex_sold"
    by (rule seat_step.sell) (simp add: ex_sold_def SellSeat_def holds_def ex_seat_defs)
  show "seat_trace ex_sold [EvSell ex_request False] ex_sold"
    by (rule seat_trace_cons [OF seat_step.sell seat_trace_nil])
      (simp add: ex_sold_def SellSeat_def holds_def ex_seat_defs save_seat_def)
qed







text \<open>
  The table stays well formed. Every history keeps the primary keys and the pairs
  of event and seat distinct, and keeps the hold columns of each row consistent: a user, a token
  and an end together or none of them, and only on a held seat.
\<close>

theorem seat_table_stays_ok:
  assumes "seat_trace s es s'" and "table_ok (seats s)"
  shows "table_ok (seats s')"
  using seat_trace_table_ok [OF assms] .

theorem seat_table_stays_ok_witness: "table_ok (seats ex_sold)"
  using seat_table_stays_ok [OF ex_history] ex_tables_ok by simp

end
