(* ===== verification/TicketService.thy ===== *)
theory TicketService
  imports Prelude
begin

text \<open>
  The ticket service (\<^verbatim>\<open>services/ticket-service\<close>): the table of \<^verbatim>\<open>models.py\<close> and the routes of
  \<^verbatim>\<open>routes.py\<close>. Prices are of any type, so the model covers the floating point numbers of the
  code. A JSON body is the list of its fields in order; a field that is null is None.

  The lemmas give the table's invariant (unique ids, unique QR hashes, only the four allowed
  statuses) and what a PATCH does to the row it names and to every other.
\<close>

subsection \<open>The table\<close>

record 'n ticket =
  ticketId :: string
  tk_inventoryId :: string
  tk_ownerId :: string
  tk_venueId :: string
  tk_eventId :: string
  tk_price :: 'n
  tk_status :: string
  qrHash :: "string option"
  qrTimestamp :: "datetime option"
  tk_createdAt :: int

definition ticket_UPDATABLE_FIELDS :: "string list" where
  "ticket_UPDATABLE_FIELDS = [''status'', ''ownerId'', ''qrHash'', ''qrTimestamp'']"

definition ticket_ALLOWED_STATUS_VALUES :: "string list" where
  "ticket_ALLOWED_STATUS_VALUES = [''active'', ''listed'', ''used'', ''pending_transfer'']"

text \<open>The unique constraint on \<^verbatim>\<open>qrHash\<close> does not count nulls.\<close>

definition qr_hashes :: "'n ticket list \<Rightarrow> string list" where
  "qr_hashes rows = List.map_filter qrHash rows"

definition unique_tickets :: "'n ticket list \<Rightarrow> bool" where
  "unique_tickets rows \<longleftrightarrow> distinct (map ticketId rows) \<and> distinct (qr_hashes rows)"

subsection \<open>Creating a ticket\<close>

text \<open>
  A field of the body is absent, null, or a value of its column's type. A null in a required field
  passes the check of the keys and violates the NOT NULL constraint at the commit.
\<close>

record 'n ticket_body =
  tb_inventoryId :: "string option option"
  tb_ownerId :: "string option option"
  tb_venueId :: "string option option"
  tb_eventId :: "string option option"
  tb_price :: "'n option option"
  tb_status :: "string option option"

definition create_ticket ::
  "'n ticket_body \<Rightarrow> string \<Rightarrow> string \<Rightarrow> int \<Rightarrow> 'n ticket list \<Rightarrow> 'n ticket reply \<times> 'n ticket list" where
  "create_ticket b uuid qr now rows =
     (case (tb_inventoryId b, tb_ownerId b, tb_venueId b, tb_eventId b, tb_price b) of
        (Some sid, Some own, Some ven, Some ev, Some pr) \<Rightarrow>
          let st = (case tb_status b of None \<Rightarrow> Some ''active'' | Some x \<Rightarrow> x) in
          if st \<notin> Some ` set ticket_ALLOWED_STATUS_VALUES then (Fail 400 ''VALIDATION_ERROR'', rows)
          else (case (sid, own, ven, ev, pr) of
             (Some sid', Some own', Some ven', Some ev', Some pr') \<Rightarrow>
               let t = \<lparr>ticketId = uuid, tk_inventoryId = sid', tk_ownerId = own', tk_venueId = ven',
                        tk_eventId = ev', tk_price = pr', tk_status = the st, qrHash = Some qr,
                        qrTimestamp = Some (stored (Aware now)), tk_createdAt = now\<rparr>
               in if unique_tickets (rows @ [t]) then (Done 201 t, rows @ [t])
                  else (Fail 500 ''INTERNAL_ERROR'', rows)
           | _ \<Rightarrow> (Fail 500 ''INTERNAL_ERROR'', rows))
      | _ \<Rightarrow> (Fail 400 ''VALIDATION_ERROR'', rows))"

subsection \<open>Reading tickets\<close>

definition get_ticket :: "string \<Rightarrow> 'n ticket list \<Rightarrow> 'n ticket reply" where
  "get_ticket tid rows =
     (case row_get ticketId tid rows of None \<Rightarrow> Fail 404 ''TICKET_NOT_FOUND'' | Some t \<Rightarrow> Done 200 t)"

text \<open>Newest first; rows of the same instant in the order of insertion.\<close>

definition get_tickets_by_owner :: "string \<Rightarrow> 'n ticket list \<Rightarrow> 'n ticket list" where
  "get_tickets_by_owner u rows = sort_key (\<lambda>t. - tk_createdAt t) (filter (\<lambda>t. tk_ownerId t = u) rows)"

definition get_tickets_by_event :: "string \<Rightarrow> 'n ticket list \<Rightarrow> 'n ticket list" where
  "get_tickets_by_event e rows = sort_key (\<lambda>t. - tk_createdAt t) (filter (\<lambda>t. tk_eventId t = e) rows)"

definition get_ticket_by_qr_hash :: "string \<Rightarrow> 'n ticket list \<Rightarrow> 'n ticket reply" where
  "get_ticket_by_qr_hash h rows =
     (case find (\<lambda>t. qrHash t = Some h) rows of
        None \<Rightarrow> Fail 404 ''TICKET_NOT_FOUND'' | Some t \<Rightarrow> Done 200 t)"

subsection \<open>Changing a ticket\<close>

text \<open>One field of a PATCH body; \<open>TkOther\<close> is a field with a key that no column has.\<close>

datatype ticket_field =
    TkStatus "string option"
  | TkOwnerId "string option"
  | TkQrHash "string option"
  | TkQrTimestamp "tstext option"
  | TkOther string

primrec ticket_field_key :: "ticket_field \<Rightarrow> string" where
  "ticket_field_key (TkStatus x) = ''status''"
| "ticket_field_key (TkOwnerId x) = ''ownerId''"
| "ticket_field_key (TkQrHash x) = ''qrHash''"
| "ticket_field_key (TkQrTimestamp x) = ''qrTimestamp''"
| "ticket_field_key (TkOther k) = k"

fun bad_status :: "ticket_field \<Rightarrow> bool" where
  "bad_status (TkStatus None) = True"
| "bad_status (TkStatus (Some s)) = (s \<notin> set ticket_ALLOWED_STATUS_VALUES)"
| "bad_status f = False"

text \<open>What \<^verbatim>\<open>parse_datetime\<close> refuses with ValueError.\<close>

fun bad_datetime :: "ticket_field \<Rightarrow> bool" where
  "bad_datetime (TkQrTimestamp (Some (TIso d))) = False"
| "bad_datetime (TkQrTimestamp (Some t)) = True"
| "bad_datetime f = False"

text \<open>
  \<^verbatim>\<open>setattr\<close> of one field. A null owner is not written: the commit fails (\<open>null_owner\<close>).
\<close>

fun set_ticket_field :: "ticket_field \<Rightarrow> 'n ticket \<Rightarrow> 'n ticket" where
  "set_ticket_field (TkStatus (Some s)) t = t\<lparr>tk_status := s\<rparr>"
| "set_ticket_field (TkOwnerId (Some u)) t = t\<lparr>tk_ownerId := u\<rparr>"
| "set_ticket_field (TkQrHash h) t = t\<lparr>qrHash := h\<rparr>"
| "set_ticket_field (TkQrTimestamp None) t = t\<lparr>qrTimestamp := None\<rparr>"
| "set_ticket_field (TkQrTimestamp (Some (TIso d))) t = t\<lparr>qrTimestamp := Some (stored d)\<rparr>"
| "set_ticket_field f t = t"

fun null_owner :: "ticket_field \<Rightarrow> bool" where
  "null_owner (TkOwnerId None) = True"
| "null_owner f = False"

definition set_ticket_fields :: "ticket_field list \<Rightarrow> 'n ticket \<Rightarrow> 'n ticket" where
  "set_ticket_fields body t = fold set_ticket_field body t"

definition save_ticket :: "string \<Rightarrow> ticket_field list \<Rightarrow> 'n ticket list \<Rightarrow> 'n ticket list" where
  "save_ticket tid body rows = row_upd ticketId tid (set_ticket_fields body) rows"

definition update_ticket ::
  "string \<Rightarrow> ticket_field list \<Rightarrow> 'n ticket list \<Rightarrow> 'n ticket reply \<times> 'n ticket list" where
  "update_ticket tid body rows =
     (if body = [] then (Fail 400 ''VALIDATION_ERROR'', rows)
      else if \<not> list_all (\<lambda>f. ticket_field_key f \<in> set ticket_UPDATABLE_FIELDS) body then
        (Fail 400 ''VALIDATION_ERROR'', rows)
      else case row_get ticketId tid rows of
        None \<Rightarrow> (Fail 404 ''TICKET_NOT_FOUND'', rows)
      | Some t \<Rightarrow>
          if list_ex bad_status body then (Fail 400 ''VALIDATION_ERROR'', rows)
          else if list_ex bad_datetime body then (Fail 400 ''INVALID_DATETIME'', rows)
          else let rows' = save_ticket tid body rows in
            if list_ex null_owner body \<or> \<not> unique_tickets rows' then (Fail 409 ''DUPLICATE_QR_HASH'', rows)
            else (Done 200 (set_ticket_fields body t), rows'))"

subsection \<open>The table's invariant\<close>

definition tickets_ok :: "'n ticket list \<Rightarrow> bool" where
  "tickets_ok rows \<longleftrightarrow> unique_tickets rows
     \<and> list_all (\<lambda>t. tk_status t \<in> set ticket_ALLOWED_STATUS_VALUES) rows"

lemma set_ticket_field_keeps [simp]:
  "ticketId (set_ticket_field f t) = ticketId t"
  "tk_inventoryId (set_ticket_field f t) = tk_inventoryId t"
  "tk_venueId (set_ticket_field f t) = tk_venueId t"
  "tk_eventId (set_ticket_field f t) = tk_eventId t"
  "tk_price (set_ticket_field f t) = tk_price t"
  "tk_createdAt (set_ticket_field f t) = tk_createdAt t"
  by (cases "(f, t)" rule: set_ticket_field.cases; simp)+

lemma set_ticket_fields_keeps [simp]:
  "ticketId (set_ticket_fields body t) = ticketId t"
  "tk_inventoryId (set_ticket_fields body t) = tk_inventoryId t"
  "tk_venueId (set_ticket_fields body t) = tk_venueId t"
  "tk_eventId (set_ticket_fields body t) = tk_eventId t"
  "tk_price (set_ticket_fields body t) = tk_price t"
  "tk_createdAt (set_ticket_fields body t) = tk_createdAt t"
  unfolding set_ticket_fields_def by (induction body arbitrary: t) simp_all

interpretation ticket_table: keyed_table ticketId save_ticket set_ticket_fields
  by unfold_locales (simp_all add: save_ticket_def)

lemma set_ticket_field_status:
  "\<not> bad_status f \<Longrightarrow> tk_status t \<in> set ticket_ALLOWED_STATUS_VALUES \<Longrightarrow>
    tk_status (set_ticket_field f t) \<in> set ticket_ALLOWED_STATUS_VALUES"
  by (cases "(f, t)" rule: set_ticket_field.cases) simp_all

lemma set_ticket_fields_status:
  assumes "\<not> list_ex bad_status body" and "tk_status t \<in> set ticket_ALLOWED_STATUS_VALUES"
  shows "tk_status (set_ticket_fields body t) \<in> set ticket_ALLOWED_STATUS_VALUES"
  using assms unfolding set_ticket_fields_def
  by (induction body arbitrary: t) (auto intro: set_ticket_field_status)

lemma qr_hashes_Nil [simp]: "qr_hashes [] = []"
  by (simp add: qr_hashes_def map_filter_simps)

lemma qr_hashes_Cons [simp]: "qr_hashes (t # ts) = (case qrHash t of None \<Rightarrow> qr_hashes ts | Some h \<Rightarrow> h # qr_hashes ts)"
  by (simp add: qr_hashes_def map_filter_simps split: option.splits)

lemma qr_hashes_append [simp]: "qr_hashes (xs @ ys) = qr_hashes xs @ qr_hashes ys"
  by (induction xs) (auto split: option.splits)

text \<open>The two ways a PATCH ends.\<close>

lemma update_ticket_effect:
  assumes "update_ticket tid body rows = (rep, rows')"
  shows "(rows' = rows \<and> \<not> is_done rep)
    \<or> (\<exists>t. row_get ticketId tid rows = Some t \<and> rep = Done 200 (set_ticket_fields body t)
         \<and> rows' = save_ticket tid body rows \<and> unique_tickets rows' \<and> \<not> list_ex bad_status body)"
  using assms by (auto simp: update_ticket_def Let_def split: if_splits option.splits)

lemma create_ticket_effect:
  assumes "create_ticket b uuid qr now rows = (rep, rows')"
  shows "(rows' = rows \<and> \<not> is_done rep)
    \<or> (\<exists>t. rep = Done 201 t \<and> rows' = rows @ [t] \<and> unique_tickets rows'
         \<and> tk_status t \<in> set ticket_ALLOWED_STATUS_VALUES \<and> ticketId t = uuid \<and> qrHash t = Some qr)"
  using assms by (auto simp: create_ticket_def Let_def split: if_splits option.splits)

text \<open>The body the purchase sends: every field present.\<close>

lemma create_ticket_full:
  assumes "create_ticket \<lparr>tb_inventoryId = Some (Some i), tb_ownerId = Some (Some u), tb_venueId = Some (Some v),
      tb_eventId = Some (Some e), tb_price = Some (Some p), tb_status = Some (Some ''active'')\<rparr> uuid qr now rows = (rep, rows')"
  shows "(rows' = rows \<and> \<not> is_done rep)
    \<or> (\<exists>k. rep = Done 201 k \<and> rows' = rows @ [k] \<and> ticketId k = uuid \<and> tk_inventoryId k = i \<and> tk_ownerId k = u
         \<and> tk_venueId k = v \<and> tk_eventId k = e \<and> tk_price k = p \<and> tk_status k = ''active'')"
  using assms by (auto simp: create_ticket_def Let_def split: if_splits)

lemma create_ticket_fresh:
  assumes "unique_tickets rows" and "uuid \<notin> ticketId ` set rows" and "qr \<notin> set (qr_hashes rows)"
  shows "\<exists>k. create_ticket \<lparr>tb_inventoryId = Some (Some i), tb_ownerId = Some (Some u), tb_venueId = Some (Some v),
      tb_eventId = Some (Some e), tb_price = Some (Some p), tb_status = Some (Some ''active'')\<rparr> uuid qr now rows
      = (Done 201 k, rows @ [k])"
  using assms by (auto simp: create_ticket_def Let_def unique_tickets_def ticket_ALLOWED_STATUS_VALUES_def)

lemma update_ticket_ok:
  assumes "update_ticket tid body rows = (rep, rows')" and "tickets_ok rows"
  shows "tickets_ok rows'"
proof -
  have "list_all (\<lambda>t. tk_status t \<in> set ticket_ALLOWED_STATUS_VALUES) (save_ticket tid body rows)"
    if "\<not> list_ex bad_status body"
    unfolding save_ticket_def
    by (rule row_upd_all) (use assms(2) that in \<open>auto simp: tickets_ok_def intro: set_ticket_fields_status\<close>)
  with update_ticket_effect [OF assms(1)] assms(2) show ?thesis by (auto simp: tickets_ok_def)
qed

lemma create_ticket_ok:
  assumes "create_ticket b uuid qr now rows = (rep, rows')" and "tickets_ok rows"
  shows "tickets_ok rows'"
  using create_ticket_effect [OF assms(1)] assms(2) by (auto simp: tickets_ok_def)

text \<open>A PATCH leaves every other ticket alone.\<close>

lemma update_ticket_other:
  "update_ticket tid body rows = (rep, rows') \<Longrightarrow> j \<noteq> tid \<Longrightarrow> row_get ticketId j rows' = row_get ticketId j rows"
  by (auto dest!: update_ticket_effect simp: ticket_table.get_upd_other)

text \<open>A status outside the allowed four is refused, whatever else the body holds.\<close>

lemma update_ticket_bad_status:
  assumes "TkStatus (Some st) \<in> set body" and "st \<notin> set ticket_ALLOWED_STATUS_VALUES"
  shows "snd (update_ticket tid body rows) = rows \<and> \<not> is_done (fst (update_ticket tid body rows))"
proof -
  have "list_ex bad_status body" using assms by (force simp: list_ex_iff)
  then show ?thesis by (auto simp: update_ticket_def split: option.splits)
qed

lemma qr_hashes_keep:
  "(\<And>t. ticketId t = tid \<Longrightarrow> qrHash (f t) = qrHash t) \<Longrightarrow> qr_hashes (row_upd ticketId tid f rows) = qr_hashes rows"
  by (induction rows) (auto split: option.splits)

text \<open>A PATCH that leaves the QR hash alone and sets an allowed status succeeds on every ticket there is.\<close>

fun plain_field :: "ticket_field \<Rightarrow> bool" where
  "plain_field (TkStatus (Some s)) = (s \<in> set ticket_ALLOWED_STATUS_VALUES)"
| "plain_field (TkOwnerId (Some u)) = True"
| "plain_field f = False"

lemma plain_qr: "list_all plain_field body \<Longrightarrow> qrHash (set_ticket_fields body t) = qrHash t"
  unfolding set_ticket_fields_def
proof (induction body arbitrary: t)
  case (Cons f body)
  then show ?case by (cases f rule: plain_field.cases) auto
qed simp

lemma plain_fields:
  assumes "plain_field f"
  shows "ticket_field_key f \<in> set ticket_UPDATABLE_FIELDS" "\<not> bad_status f" "\<not> bad_datetime f" "\<not> null_owner f"
  using assms by (cases f rule: plain_field.cases; simp add: ticket_UPDATABLE_FIELDS_def)+

lemma update_ticket_plain:
  assumes "unique_tickets rows" and "list_all plain_field body" and "body \<noteq> []"
    and "row_get ticketId tid rows = Some t"
  shows "update_ticket tid body rows = (Done 200 (set_ticket_fields body t), save_ticket tid body rows)"
proof -
  have "qr_hashes (save_ticket tid body rows) = qr_hashes rows"
    unfolding save_ticket_def by (rule qr_hashes_keep) (simp add: plain_qr [OF assms(2)])
  then have "unique_tickets (save_ticket tid body rows)"
    using assms(1) by (simp add: unique_tickets_def ticket_table.keys_upd)
  moreover have "\<forall>f \<in> set body. ticket_field_key f \<in> set ticket_UPDATABLE_FIELDS \<and> \<not> bad_status f
      \<and> \<not> bad_datetime f \<and> \<not> null_owner f"
    using assms(2) plain_fields by (auto simp: list_all_iff)
  ultimately show ?thesis
    using assms(3,4) by (auto simp: update_ticket_def Let_def list_all_iff list_ex_iff)
qed

text \<open>Searching by QR hash.\<close>

lemma by_qr_found: "get_ticket_by_qr_hash h rows = Done st k \<Longrightarrow> k \<in> set rows"
  by (auto simp: get_ticket_by_qr_hash_def split: option.splits dest: find_found)

lemma find_by_qr:
  assumes "distinct (qr_hashes rows)" and "t \<in> set rows" and "qrHash t = Some h"
  shows "find (\<lambda>t. qrHash t = Some h) rows = Some t"
proof (rule find_unique)
  show "t \<in> set rows" "qrHash t = Some h" by (fact assms)+
  have mem: "h \<in> set (qr_hashes ts)" if "u \<in> set ts" "qrHash u = Some h" for u and ts :: "'a ticket list"
    using that by (induction ts) (auto split: option.splits)
  show "u = t" if "u \<in> set rows" "qrHash u = Some h" for u
    using assms that by (induction rows) (auto split: option.splits dest: mem)
qed

subsection \<open>Properties\<close>

definition ex_ticket :: "int ticket" where
  "ex_ticket = \<lparr>ticketId = ''k1'', tk_inventoryId = ''i1'', tk_ownerId = ''u1'', tk_venueId = ''v1'',
     tk_eventId = ''e1'', tk_price = 40, tk_status = ''active'', qrHash = Some ''q1'',
     qrTimestamp = Some (Naive 0), tk_createdAt = 0\<rparr>"

definition ex_ticket_body :: "int ticket_body" where
  "ex_ticket_body = \<lparr>tb_inventoryId = Some (Some ''i2''), tb_ownerId = Some (Some ''u1''),
     tb_venueId = Some (Some ''v1''), tb_eventId = Some (Some ''e1''), tb_price = Some (Some 25), tb_status = None\<rparr>"

lemma ex_ticket_ok: "tickets_ok [ex_ticket]"
  by (simp add: tickets_ok_def unique_tickets_def ex_ticket_def ticket_ALLOWED_STATUS_VALUES_def)

text \<open>
  The ticket table keeps its invariant. Creating and changing tickets, with any
  body, keeps ids and QR hashes unique and every status one of the four allowed values.
\<close>

theorem tickets_stay_ok:
  assumes "tickets_ok rows"
  shows "tickets_ok (snd (create_ticket b uuid qr now rows)) \<and> tickets_ok (snd (update_ticket tid body rows))"
  using create_ticket_ok [OF _ assms] update_ticket_ok [OF _ assms] by (metis prod.collapse)

theorem tickets_stay_ok_witness:
  "tickets_ok (snd (create_ticket ex_ticket_body ''k2'' ''q2'' 7 [ex_ticket]))
    \<and> tickets_ok (snd (update_ticket ''k1'' [TkQrHash (Some ''q9''), TkStatus (Some ''listed'')] [ex_ticket]))"
  using tickets_stay_ok [OF ex_ticket_ok, of ex_ticket_body "''k2''" "''q2''" 7 "''k1''"
      "[TkQrHash (Some ''q9''), TkStatus (Some ''listed'')]"] .

text \<open>
  A PATCH of a ticket changes that ticket or nothing. It never changes another row
  or the fixed columns (seat, venue, event, price), and a refused PATCH, including one with an
  unsupported field, a status outside the four values or a QR hash in use, changes no row at all.
\<close>

theorem update_ticket_frame:
  assumes "update_ticket tid body rows = (rep, rows')"
  shows "(\<forall>j. j \<noteq> tid \<longrightarrow> row_get ticketId j rows' = row_get ticketId j rows)
    \<and> map (\<lambda>t. (ticketId t, tk_inventoryId t, tk_venueId t, tk_eventId t, tk_price t)) rows'
      = map (\<lambda>t. (ticketId t, tk_inventoryId t, tk_venueId t, tk_eventId t, tk_price t)) rows
    \<and> (\<not> is_done rep \<longrightarrow> rows' = rows)
    \<and> (is_done rep \<longrightarrow> \<not> list_ex bad_status body
        \<and> list_all (\<lambda>f. ticket_field_key f \<in> set ticket_UPDATABLE_FIELDS) body)"
proof -
  have "is_done rep \<longrightarrow> list_all (\<lambda>f. ticket_field_key f \<in> set ticket_UPDATABLE_FIELDS) body"
    using assms by (auto simp: update_ticket_def split: if_splits)
  with update_ticket_other [OF assms] update_ticket_effect [OF assms] show ?thesis
    by (auto simp: save_ticket_def row_upd_def)
qed

theorem update_ticket_frame_witness:
  "\<not> is_done (fst (update_ticket ''k1'' [TkStatus (Some ''payment_failed'')] [ex_ticket]))
    \<and> snd (update_ticket ''k1'' [TkStatus (Some ''payment_failed'')] [ex_ticket]) = [ex_ticket]"
  using update_ticket_frame [of "''k1''" "[TkStatus (Some ''payment_failed'')]" "[ex_ticket]", OF surjective_pairing]
  by (simp add: ticket_ALLOWED_STATUS_VALUES_def)

end
