(* ===== verification/MarketplaceService.thy ===== *)
theory MarketplaceService
  imports Prelude
begin

text \<open>
  The marketplace service (\<^verbatim>\<open>services/marketplace-service\<close>): listings of tickets for resale, with
  the routes of \<^verbatim>\<open>routes.py\<close> on the table of \<^verbatim>\<open>models.py\<close>.
\<close>

subsection \<open>The table and its routes\<close>

record 'n listing =
  listingId :: string
  li_ticketId :: string
  li_sellerId :: string
  li_price :: 'n
  li_status :: string
  li_createdAt :: int

definition listing_ALLOWED_STATUSES :: "string list" where
  "listing_ALLOWED_STATUSES = [''active'', ''completed'', ''cancelled'']"

definition listing_UPDATABLE_FIELDS :: "string list" where
  "listing_UPDATABLE_FIELDS = [''status'']"

record 'n listing_body =
  lb_ticketId :: "string option option"
  lb_sellerId :: "string option option"
  lb_price :: "'n option option"
  lb_status :: "string option option"

definition create_listing ::
  "'n listing_body \<Rightarrow> string \<Rightarrow> int \<Rightarrow> 'n listing list \<Rightarrow> 'n listing reply \<times> 'n listing list" where
  "create_listing b uuid now rows =
     (case (lb_ticketId b, lb_sellerId b, lb_price b) of
        (Some tid, Some sel, Some pr) \<Rightarrow>
          let st = (case lb_status b of None \<Rightarrow> Some ''active'' | Some x \<Rightarrow> x) in
          if st \<notin> Some ` set listing_ALLOWED_STATUSES then (Fail 400 ''VALIDATION_ERROR'', rows)
          else (case (tid, sel, pr) of
             (Some tid', Some sel', Some pr') \<Rightarrow>
               let l = \<lparr>listingId = uuid, li_ticketId = tid', li_sellerId = sel', li_price = pr',
                        li_status = the st, li_createdAt = now\<rparr>
               in if distinct (map listingId (rows @ [l])) then (Done 201 l, rows @ [l])
                  else (Fail 500 ''INTERNAL_ERROR'', rows)
           | _ \<Rightarrow> (Fail 500 ''INTERNAL_ERROR'', rows))
      | _ \<Rightarrow> (Fail 400 ''VALIDATION_ERROR'', rows))"

text \<open>The active listings, newest first, and one page of them with the total.\<close>

definition active_listings :: "'n listing list \<Rightarrow> 'n listing list" where
  "active_listings rows =
     rev (sort_key (\<lambda>l. (li_createdAt l, listingId l)) (filter (\<lambda>l. li_status l = ''active'') rows))"

definition list_active_listings ::
  "int option \<Rightarrow> int option \<Rightarrow> 'n listing list \<Rightarrow> ('n listing list \<times> nat \<times> nat \<times> nat) reply" where
  "list_active_listings page limit rows =
     (case page_params page limit of
        None \<Rightarrow> Fail 400 ''VALIDATION_ERROR''
      | Some (p, l) \<Rightarrow>
          Done 200 (paginate p l (active_listings rows), p, l,
                    length (filter (\<lambda>x. li_status x = ''active'') rows)))"

definition get_listing :: "string \<Rightarrow> 'n listing list \<Rightarrow> 'n listing reply" where
  "get_listing lid rows =
     (case row_get listingId lid rows of None \<Rightarrow> Fail 404 ''LISTING_NOT_FOUND'' | Some l \<Rightarrow> Done 200 l)"

text \<open>One field of a PATCH body; \<open>LiOther\<close> is a field with another key.\<close>

datatype listing_field = LiStatus "string option" | LiOther string

primrec listing_field_key :: "listing_field \<Rightarrow> string" where
  "listing_field_key (LiStatus x) = ''status''"
| "listing_field_key (LiOther k) = k"

fun listing_status_of :: "listing_field list \<Rightarrow> string option option" where
  "listing_status_of [] = None"
| "listing_status_of (LiStatus x # fs) = Some x"
| "listing_status_of (LiOther k # fs) = listing_status_of fs"

definition set_listing_status :: "string \<Rightarrow> 'n listing \<Rightarrow> 'n listing" where
  "set_listing_status st l = l\<lparr>li_status := st\<rparr>"

definition save_listing :: "string \<Rightarrow> string \<Rightarrow> 'n listing list \<Rightarrow> 'n listing list" where
  "save_listing lid st rows = row_upd listingId lid (set_listing_status st) rows"

definition update_listing ::
  "string \<Rightarrow> listing_field list \<Rightarrow> 'n listing list \<Rightarrow> 'n listing reply \<times> 'n listing list" where
  "update_listing lid body rows =
     (if body = [] then (Fail 400 ''VALIDATION_ERROR'', rows)
      else if \<not> list_all (\<lambda>f. listing_field_key f \<in> set listing_UPDATABLE_FIELDS) body then
        (Fail 400 ''VALIDATION_ERROR'', rows)
      else case row_get listingId lid rows of
        None \<Rightarrow> (Fail 404 ''LISTING_NOT_FOUND'', rows)
      | Some l \<Rightarrow>
          (case listing_status_of body of
             None \<Rightarrow> (Fail 400 ''VALIDATION_ERROR'', rows)
           | Some st \<Rightarrow>
               if st \<notin> Some ` set listing_ALLOWED_STATUSES then (Fail 400 ''VALIDATION_ERROR'', rows)
               else (Done 200 (set_listing_status (the st) l), save_listing lid (the st) rows)))"

subsection \<open>Lemmas\<close>

interpretation listing_table: keyed_table listingId save_listing set_listing_status
  by unfold_locales (simp_all add: save_listing_def set_listing_status_def)

definition listings_ok :: "'n listing list \<Rightarrow> bool" where
  "listings_ok rows \<longleftrightarrow> distinct (map listingId rows)
     \<and> list_all (\<lambda>l. li_status l \<in> set listing_ALLOWED_STATUSES) rows"

lemma update_listing_effect:
  assumes "update_listing lid body rows = (rep, rows')"
  shows "(rows' = rows \<and> \<not> is_done rep)
    \<or> (\<exists>l st. row_get listingId lid rows = Some l \<and> st \<in> set listing_ALLOWED_STATUSES
         \<and> rep = Done 200 (set_listing_status st l) \<and> rows' = save_listing lid st rows)"
  using assms by (auto simp: update_listing_def split: if_splits option.splits)

lemma create_listing_effect:
  assumes "create_listing b uuid now rows = (rep, rows')"
  shows "(rows' = rows \<and> \<not> is_done rep)
    \<or> (\<exists>l. rep = Done 201 l \<and> rows' = rows @ [l] \<and> distinct (map listingId rows')
         \<and> li_status l \<in> set listing_ALLOWED_STATUSES \<and> listingId l = uuid)"
  using assms by (auto simp: create_listing_def Let_def split: if_splits option.splits)

lemma update_listing_ok:
  assumes "update_listing lid body rows = (rep, rows')" and "listings_ok rows"
  shows "listings_ok rows'"
proof -
  have "list_all (\<lambda>l. li_status l \<in> set listing_ALLOWED_STATUSES) (save_listing lid st rows)"
    if "st \<in> set listing_ALLOWED_STATUSES" for st
    unfolding save_listing_def
    by (rule row_upd_all) (use assms(2) that in \<open>auto simp: listings_ok_def set_listing_status_def\<close>)
  with update_listing_effect [OF assms(1)] assms(2) show ?thesis
    by (auto simp: listings_ok_def listing_table.keys_upd)
qed

lemma create_listing_ok:
  "create_listing b uuid now rows = (rep, rows') \<Longrightarrow> listings_ok rows \<Longrightarrow> listings_ok rows'"
  by (auto dest!: create_listing_effect simp: listings_ok_def)

lemma update_listing_status:
  assumes "row_get listingId lid rows = Some l" and "st \<in> set listing_ALLOWED_STATUSES"
  shows "update_listing lid [LiStatus (Some st)] rows = (Done 200 (set_listing_status st l), save_listing lid st rows)"
  using assms by (simp add: update_listing_def listing_UPDATABLE_FIELDS_def)

lemma set_active_listings: "set (active_listings rows) = {l \<in> set rows. li_status l = ''active''}"
  by (auto simp: active_listings_def)

lemma length_active_listings: "length (active_listings rows) = length (filter (\<lambda>l. li_status l = ''active'') rows)"
  by (simp add: active_listings_def)

text \<open>The body of a page.\<close>

definition listing_page :: "int option \<Rightarrow> int option \<Rightarrow> 'n listing list \<Rightarrow> 'n listing list" where
  "listing_page page limit rows =
     (case list_active_listings page limit rows of Fail st c \<Rightarrow> [] | Done st v \<Rightarrow> fst v)"

lemma listing_page_is:
  "1 \<le> limit \<Longrightarrow> listing_page (Some (int (Suc p))) (Some limit) rows
    = paginate (Suc p) (nat (min limit 100)) (active_listings rows)"
  by (simp add: listing_page_def list_active_listings_def page_params_def nat_add_distrib)

subsection \<open>Properties\<close>

definition ex_listing :: "int listing" where
  "ex_listing = \<lparr>listingId = ''l1'', li_ticketId = ''k1'', li_sellerId = ''u1'', li_price = 60,
     li_status = ''active'', li_createdAt = 3\<rparr>"

text \<open>
  Pages partition the active listings. Reading page after page, with any limit from
  one upwards (cut to 100), until the total is reached gives exactly the active listings, newest
  first, each once; no page is longer than the limit.
\<close>

theorem listing_pages_partition:
  assumes "1 \<le> limit" and "length (filter (\<lambda>l. li_status l = ''active'') rows) \<le> n * nat (min limit 100)"
  shows "concat (map (\<lambda>p. listing_page (Some (int (Suc p))) (Some limit) rows) [0..<n]) = active_listings rows
    \<and> (\<forall>p. length (listing_page p (Some limit) rows) \<le> 100)"
proof
  show "concat (map (\<lambda>p. listing_page (Some (int (Suc p))) (Some limit) rows) [0..<n]) = active_listings rows"
    unfolding listing_page_is [OF assms(1)]
    by (rule paginate_all) (simp add: length_active_listings assms(2))
  show "\<forall>p. length (listing_page p (Some limit) rows) \<le> 100"
    by (auto simp: listing_page_def list_active_listings_def split: option.splits prod.splits reply.splits
        dest!: page_params_bounds intro: order_trans [OF length_paginate])
qed

theorem listing_pages_partition_witness:
  "concat (map (\<lambda>p. listing_page (Some (int (Suc p))) (Some 1) [ex_listing]) [0..<1]) = active_listings [ex_listing]"
  using listing_pages_partition [of 1 "[ex_listing]" 1] by (simp add: ex_listing_def)

end
