(* ===== verification/TransferService.thy ===== *)
theory TransferService
  imports Prelude
begin

text \<open>
  The transfer service (\<^verbatim>\<open>services/transfer-service\<close>): the records of peer-to-peer transfers and
  the routes of \<^verbatim>\<open>routes.py\<close>. A transfer expires 24 hours after its creation; the service notices
  it when the transfer is read or changed. The lemmas say what each route does to the row it
  names, which statuses are final for which route, and how expiry interferes.
\<close>

subsection \<open>The table\<close>

record 'n transfer =
  transferId :: string
  tr_listingId :: string
  tr_buyerId :: string
  tr_sellerId :: string
  tr_status :: string
  tr_creditAmount :: 'n
  buyerOtpVerified :: bool
  sellerOtpVerified :: bool
  buyerVerificationSid :: "string option"
  sellerVerificationSid :: "string option"
  completedAt :: "datetime option"
  expiresAt :: "datetime option"
  tr_createdAt :: int

definition transfer_UPDATABLE_FIELDS :: "string list" where
  "transfer_UPDATABLE_FIELDS = [''status'', ''buyerOtpVerified'', ''sellerOtpVerified'',
     ''buyerVerificationSid'', ''sellerVerificationSid'', ''completedAt'']"

definition transfer_final :: "string list" where
  "transfer_final = [''completed'', ''cancelled'', ''expired'']"

definition is_transfer_expired :: "int \<Rightarrow> 'n transfer \<Rightarrow> bool" where
  "is_transfer_expired now tr =
     (case expiresAt tr of None \<Rightarrow> False | Some d \<Rightarrow> utc_instant d < now)"

subsection \<open>Creating and reading\<close>

record 'n transfer_body =
  fb_listingId :: "string option option"
  fb_buyerId :: "string option option"
  fb_sellerId :: "string option option"
  fb_creditAmount :: "'n option option"
  fb_buyerVerificationSid :: "string option"
  fb_sellerVerificationSid :: "string option"

definition create_transfer ::
  "'n transfer_body \<Rightarrow> string \<Rightarrow> int \<Rightarrow> 'n transfer list \<Rightarrow> 'n transfer reply \<times> 'n transfer list" where
  "create_transfer b uuid now rows =
     (case (fb_listingId b, fb_buyerId b, fb_sellerId b, fb_creditAmount b) of
        (Some lid, Some buy, Some sel, Some amt) \<Rightarrow>
          (case (lid, buy, sel, amt) of
             (Some lid', Some buy', Some sel', Some amt') \<Rightarrow>
               let tr = \<lparr>transferId = uuid, tr_listingId = lid', tr_buyerId = buy', tr_sellerId = sel',
                    tr_status = ''pending_seller_acceptance'', tr_creditAmount = amt',
                    buyerOtpVerified = False, sellerOtpVerified = False,
                    buyerVerificationSid = fb_buyerVerificationSid b,
                    sellerVerificationSid = fb_sellerVerificationSid b, completedAt = None,
                    expiresAt = Some (stored (Aware (now + secs (24 * 3600)))), tr_createdAt = now\<rparr>
               in if distinct (map transferId (rows @ [tr])) then (Done 201 tr, rows @ [tr])
                  else (Fail 500 ''INTERNAL_ERROR'', rows)
           | _ \<Rightarrow> (Fail 500 ''INTERNAL_ERROR'', rows))
      | _ \<Rightarrow> (Fail 400 ''VALIDATION_ERROR'', rows))"

definition newest_first :: "'n transfer list \<Rightarrow> 'n transfer list" where
  "newest_first rows = sort_key (\<lambda>tr. - tr_createdAt tr) rows"

definition list_transfers ::
  "string option \<Rightarrow> string option \<Rightarrow> string option \<Rightarrow> 'n transfer list \<Rightarrow> 'n transfer list reply" where
  "list_transfers seller buyer status rows =
     (if \<not> truthy seller \<and> \<not> truthy buyer then Fail 400 ''VALIDATION_ERROR''
      else
        let q = (if truthy seller \<and> truthy buyer then
                   filter (\<lambda>tr. Some (tr_sellerId tr) = seller \<or> Some (tr_buyerId tr) = buyer) rows
                 else if truthy seller then filter (\<lambda>tr. Some (tr_sellerId tr) = seller) rows
                 else filter (\<lambda>tr. Some (tr_buyerId tr) = buyer) rows);
            q' = (if truthy status then filter (\<lambda>tr. Some (tr_status tr) = status) q else q)
        in Done 200 (newest_first q'))"

definition pending_statuses :: "string list" where
  "pending_statuses = [''pending_seller_acceptance'', ''seller_accepted'', ''pending_buyer_otp'',
     ''buyer_otp_verified'', ''pending_seller_otp'']"

definition list_pending_transfers :: "string option \<Rightarrow> 'n transfer list \<Rightarrow> 'n transfer list reply" where
  "list_pending_transfers user rows =
     (if \<not> truthy user then Fail 400 ''VALIDATION_ERROR''
      else Done 200 (newest_first (filter (\<lambda>tr. (Some (tr_buyerId tr) = user \<or> Some (tr_sellerId tr) = user)
             \<and> tr_status tr \<in> set pending_statuses) rows)))"

subsection \<open>Changing a transfer\<close>

text \<open>One field of a PATCH body; \<open>TrOther\<close> is a field with a key that is not updatable.\<close>

datatype transfer_field =
    TrStatus "string option"
  | TrBuyerOtpVerified "bool option"
  | TrSellerOtpVerified "bool option"
  | TrBuyerVerificationSid "string option"
  | TrSellerVerificationSid "string option"
  | TrCompletedAt "tstext option"
  | TrOther string

primrec transfer_field_key :: "transfer_field \<Rightarrow> string" where
  "transfer_field_key (TrStatus x) = ''status''"
| "transfer_field_key (TrBuyerOtpVerified x) = ''buyerOtpVerified''"
| "transfer_field_key (TrSellerOtpVerified x) = ''sellerOtpVerified''"
| "transfer_field_key (TrBuyerVerificationSid x) = ''buyerVerificationSid''"
| "transfer_field_key (TrSellerVerificationSid x) = ''sellerVerificationSid''"
| "transfer_field_key (TrCompletedAt x) = ''completedAt''"
| "transfer_field_key (TrOther k) = k"

fun bad_completedAt :: "transfer_field \<Rightarrow> bool" where
  "bad_completedAt (TrCompletedAt (Some (TIso d))) = False"
| "bad_completedAt (TrCompletedAt (Some t)) = True"
| "bad_completedAt f = False"

text \<open>A null in a column declared NOT NULL, which the commit refuses.\<close>

fun null_column :: "transfer_field \<Rightarrow> bool" where
  "null_column (TrStatus None) = True"
| "null_column (TrBuyerOtpVerified None) = True"
| "null_column (TrSellerOtpVerified None) = True"
| "null_column f = False"

fun set_transfer_field :: "transfer_field \<Rightarrow> 'n transfer \<Rightarrow> 'n transfer" where
  "set_transfer_field (TrStatus (Some s)) tr = tr\<lparr>tr_status := s\<rparr>"
| "set_transfer_field (TrBuyerOtpVerified (Some b)) tr = tr\<lparr>buyerOtpVerified := b\<rparr>"
| "set_transfer_field (TrSellerOtpVerified (Some b)) tr = tr\<lparr>sellerOtpVerified := b\<rparr>"
| "set_transfer_field (TrBuyerVerificationSid x) tr = tr\<lparr>buyerVerificationSid := x\<rparr>"
| "set_transfer_field (TrSellerVerificationSid x) tr = tr\<lparr>sellerVerificationSid := x\<rparr>"
| "set_transfer_field (TrCompletedAt None) tr = tr\<lparr>completedAt := None\<rparr>"
| "set_transfer_field (TrCompletedAt (Some (TIso d))) tr = tr\<lparr>completedAt := Some (stored d)\<rparr>"
| "set_transfer_field f tr = tr"

definition set_transfer_fields :: "transfer_field list \<Rightarrow> 'n transfer \<Rightarrow> 'n transfer" where
  "set_transfer_fields body tr = fold set_transfer_field body tr"

definition save_transfer :: "string \<Rightarrow> transfer_field list \<Rightarrow> 'n transfer list \<Rightarrow> 'n transfer list" where
  "save_transfer tid body rows = row_upd transferId tid (set_transfer_fields body) rows"

text \<open>The test that both reading and changing a transfer make before anything else.\<close>

definition lapses :: "int \<Rightarrow> 'n transfer \<Rightarrow> bool" where
  "lapses now tr \<longleftrightarrow> is_transfer_expired now tr \<and> tr_status tr \<notin> set transfer_final"

definition expire :: "string \<Rightarrow> 'n transfer list \<Rightarrow> 'n transfer list" where
  "expire tid rows = save_transfer tid [TrStatus (Some ''expired'')] rows"

definition get_transfer :: "string \<Rightarrow> int \<Rightarrow> 'n transfer list \<Rightarrow> 'n transfer reply \<times> 'n transfer list" where
  "get_transfer tid now rows =
     (case row_get transferId tid rows of
        None \<Rightarrow> (Fail 404 ''TRANSFER_NOT_FOUND'', rows)
      | Some tr \<Rightarrow>
          if lapses now tr then (Done 200 (tr\<lparr>tr_status := ''expired''\<rparr>), expire tid rows)
          else (Done 200 tr, rows))"

definition patch_transfer ::
  "string \<Rightarrow> transfer_field list \<Rightarrow> int \<Rightarrow> 'n transfer list \<Rightarrow> 'n transfer reply \<times> 'n transfer list" where
  "patch_transfer tid body now rows =
     (if body = [] then (Fail 400 ''VALIDATION_ERROR'', rows)
      else if \<not> list_all (\<lambda>f. transfer_field_key f \<in> set transfer_UPDATABLE_FIELDS) body then
        (Fail 400 ''VALIDATION_ERROR'', rows)
      else case row_get transferId tid rows of
        None \<Rightarrow> (Fail 404 ''TRANSFER_NOT_FOUND'', rows)
      | Some tr \<Rightarrow>
          if lapses now tr then (Fail 400 ''TRANSFER_EXPIRED'', expire tid rows)
          else if list_ex bad_completedAt body then (Fail 400 ''VALIDATION_ERROR'', rows)
          else if list_ex null_column body then (Fail 500 ''INTERNAL_ERROR'', rows)
          else (Done 200 (set_transfer_fields body tr), save_transfer tid body rows))"

definition cancel_transfer :: "string \<Rightarrow> 'n transfer list \<Rightarrow> 'n transfer reply \<times> 'n transfer list" where
  "cancel_transfer tid rows =
     (case row_get transferId tid rows of
        None \<Rightarrow> (Fail 404 ''TRANSFER_NOT_FOUND'', rows)
      | Some tr \<Rightarrow>
          if tr_status tr \<in> set transfer_final then (Fail 400 ''INVALID_STATE'', rows)
          else (Done 200 (tr\<lparr>tr_status := ''cancelled''\<rparr>), save_transfer tid [TrStatus (Some ''cancelled'')] rows))"

subsection \<open>Lemmas\<close>

lemma set_transfer_field_keeps [simp]:
  "transferId (set_transfer_field f tr) = transferId tr"
  "tr_listingId (set_transfer_field f tr) = tr_listingId tr"
  "tr_buyerId (set_transfer_field f tr) = tr_buyerId tr"
  "tr_sellerId (set_transfer_field f tr) = tr_sellerId tr"
  "tr_creditAmount (set_transfer_field f tr) = tr_creditAmount tr"
  "expiresAt (set_transfer_field f tr) = expiresAt tr"
  by (cases "(f, tr)" rule: set_transfer_field.cases; simp)+

lemma set_transfer_fields_keeps [simp]:
  "transferId (set_transfer_fields body tr) = transferId tr"
  "tr_listingId (set_transfer_fields body tr) = tr_listingId tr"
  "tr_buyerId (set_transfer_fields body tr) = tr_buyerId tr"
  "tr_sellerId (set_transfer_fields body tr) = tr_sellerId tr"
  "tr_creditAmount (set_transfer_fields body tr) = tr_creditAmount tr"
  "expiresAt (set_transfer_fields body tr) = expiresAt tr"
  unfolding set_transfer_fields_def by (induction body arbitrary: tr) simp_all

lemma set_transfer_fields_Nil [simp]: "set_transfer_fields [] tr = tr"
  by (simp add: set_transfer_fields_def)

lemma set_transfer_fields_Cons [simp]:
  "set_transfer_fields (f # fs) tr = set_transfer_fields fs (set_transfer_field f tr)"
  by (simp add: set_transfer_fields_def)

interpretation transfer_table: keyed_table transferId save_transfer set_transfer_fields
  by unfold_locales (simp_all add: save_transfer_def)

lemma get_expire: "row_get transferId j (expire tid rows) =
    (if j = tid then map_option (\<lambda>tr. tr\<lparr>tr_status := ''expired''\<rparr>) (row_get transferId tid rows)
     else row_get transferId j rows)"
  by (cases "row_get transferId tid rows") (simp_all add: expire_def transfer_table.get_upd)

lemma patch_transfer_effect:
  assumes "patch_transfer tid body now rows = (rep, rows')"
  shows "(rows' = rows \<and> \<not> is_done rep)
    \<or> (\<exists>tr. row_get transferId tid rows = Some tr \<and> lapses now tr \<and> \<not> is_done rep \<and> rows' = expire tid rows)
    \<or> (\<exists>tr. row_get transferId tid rows = Some tr \<and> \<not> lapses now tr \<and> rows' = save_transfer tid body rows
         \<and> rep = Done 200 (set_transfer_fields body tr)
         \<and> list_all (\<lambda>f. transfer_field_key f \<in> set transfer_UPDATABLE_FIELDS) body)"
  using assms by (auto simp: patch_transfer_def split: if_splits option.splits)

lemma create_transfer_effect:
  assumes "create_transfer b uuid now rows = (rep, rows')"
  shows "(rows' = rows \<and> \<not> is_done rep)
    \<or> (\<exists>tr. rep = Done 201 tr \<and> rows' = rows @ [tr] \<and> distinct (map transferId rows')
         \<and> tr_status tr = ''pending_seller_acceptance'' \<and> transferId tr = uuid
         \<and> \<not> buyerOtpVerified tr \<and> \<not> sellerOtpVerified tr)"
  using assms by (auto simp: create_transfer_def Let_def split: if_splits option.splits)

lemma patch_transfer_refused_keys:
  "\<not> list_all (\<lambda>f. transfer_field_key f \<in> set transfer_UPDATABLE_FIELDS) body \<Longrightarrow>
    patch_transfer tid body now rows = (Fail 400 ''VALIDATION_ERROR'', rows)"
  by (auto simp: patch_transfer_def)

subsection \<open>Properties\<close>

definition ex_transfer :: "int transfer" where
  "ex_transfer = \<lparr>transferId = ''x1'', tr_listingId = ''l1'', tr_buyerId = ''u2'', tr_sellerId = ''u1'',
     tr_status = ''pending_seller_otp'', tr_creditAmount = 60, buyerOtpVerified = True,
     sellerOtpVerified = False, buyerVerificationSid = Some ''b1'', sellerVerificationSid = Some ''s1'',
     completedAt = None, expiresAt = Some (Naive 1000), tr_createdAt = 0\<rparr>"

text \<open>
  After its expiry a pending transfer is never read or changed as pending. Reading
  it answers and stores status expired, a PATCH (of updatable fields) is refused and stores
  expired, and cancelling it afterwards is refused. The refusal is given once: the service does
  not treat expired as final for PATCH, so the next PATCH of the same transfer is applied.
\<close>

theorem expired_transfer_refused_once:
  assumes "row_get transferId tid rows = Some tr" and "lapses now tr"
    and "list_all (\<lambda>f. transfer_field_key f \<in> set transfer_UPDATABLE_FIELDS) body" and "body \<noteq> []"
    and "\<not> list_ex bad_completedAt body" and "\<not> list_ex null_column body"
  shows "get_transfer tid now rows = (Done 200 (tr\<lparr>tr_status := ''expired''\<rparr>), expire tid rows)
    \<and> patch_transfer tid body now rows = (Fail 400 ''TRANSFER_EXPIRED'', expire tid rows)
    \<and> cancel_transfer tid (expire tid rows) = (Fail 400 ''INVALID_STATE'', expire tid rows)
    \<and> fst (patch_transfer tid body now (expire tid rows)) = Done 200 (set_transfer_fields body (tr\<lparr>tr_status := ''expired''\<rparr>))"
proof -
  have "row_get transferId tid (expire tid rows) = Some (tr\<lparr>tr_status := ''expired''\<rparr>)"
    using assms(1) by (simp add: get_expire)
  moreover have "\<not> lapses now (tr\<lparr>tr_status := ''expired''\<rparr>)"
    by (simp add: lapses_def transfer_final_def)
  ultimately show ?thesis
    using assms by (simp add: get_transfer_def patch_transfer_def cancel_transfer_def transfer_final_def)
qed

theorem expired_transfer_refused_once_witness:
  "fst (patch_transfer ''x1'' [TrStatus (Some ''completed'')] 2000 [ex_transfer]) = Fail 400 ''TRANSFER_EXPIRED''
    \<and> (\<exists>tr. fst (patch_transfer ''x1'' [TrStatus (Some ''completed'')] 2000 (expire ''x1'' [ex_transfer])) = Done 200 tr
        \<and> tr_status tr = ''completed'')"
proof -
  have "row_get transferId ''x1'' [ex_transfer] = Some ex_transfer" "lapses 2000 ex_transfer"
    by (simp_all add: ex_transfer_def lapses_def is_transfer_expired_def transfer_final_def)
  from expired_transfer_refused_once [OF this, of "[TrStatus (Some ''completed'')]"]
  show ?thesis by (simp add: transfer_UPDATABLE_FIELDS_def)
qed

text \<open>
  The parties, the listing, the amount and the expiry of a transfer never change.
  Whatever a read, a PATCH with any body or a cancellation does, the columns that identify the
  deal stay as they were in every row, and no row appears or disappears.
\<close>

definition deal_of :: "'n transfer \<Rightarrow> string \<times> string \<times> string \<times> string \<times> 'n \<times> datetime option" where
  "deal_of tr = (transferId tr, tr_listingId tr, tr_buyerId tr, tr_sellerId tr, tr_creditAmount tr, expiresAt tr)"

lemma save_transfer_deal: "map deal_of (save_transfer tid body rows) = map deal_of rows"
  by (simp add: save_transfer_def row_upd_def deal_of_def)

theorem transfer_deal_is_fixed:
  "map deal_of (snd (get_transfer tid now rows)) = map deal_of rows
    \<and> map deal_of (snd (patch_transfer tid body now rows)) = map deal_of rows
    \<and> map deal_of (snd (cancel_transfer tid rows)) = map deal_of rows"
  by (auto simp: get_transfer_def patch_transfer_def cancel_transfer_def expire_def save_transfer_deal
      split: option.splits)

end
