(* ===== verification/CreditLedger.thy ===== *)
theory CreditLedger
  imports Prelude
begin

text \<open>
  The credit transaction service (\<^verbatim>\<open>services/credit-transaction-service\<close>): an append-only ledger
  of credit movements, with the routes of \<^verbatim>\<open>routes.py\<close>. The balances themselves live in the
  external credit service.
\<close>

record 'n credit_txn =
  txnId :: string
  ct_userId :: string
  ct_delta :: 'n
  ct_reason :: string
  ct_referenceId :: "string option"
  ct_createdAt :: int

record 'n txn_body =
  xb_userId :: "string option option"
  xb_delta :: "'n option option"
  xb_reason :: "string option option"
  xb_referenceId :: "string option"

definition create_credit_transaction ::
  "'n txn_body \<Rightarrow> string \<Rightarrow> int \<Rightarrow> 'n credit_txn list \<Rightarrow> 'n credit_txn reply \<times> 'n credit_txn list" where
  "create_credit_transaction b uuid now rows =
     (case (xb_userId b, xb_delta b, xb_reason b) of
        (Some u, Some d, Some r) \<Rightarrow>
          (case (u, d, r) of
             (Some u', Some d', Some r') \<Rightarrow>
               let x = \<lparr>txnId = uuid, ct_userId = u', ct_delta = d', ct_reason = r',
                        ct_referenceId = xb_referenceId b, ct_createdAt = now\<rparr>
               in if distinct (map txnId (rows @ [x])) then (Done 201 x, rows @ [x])
                  else (Fail 500 ''INTERNAL_ERROR'', rows)
           | _ \<Rightarrow> (Fail 500 ''INTERNAL_ERROR'', rows))
      | _ \<Rightarrow> (Fail 400 ''VALIDATION_ERROR'', rows))"

definition latest_first :: "'n credit_txn list \<Rightarrow> 'n credit_txn list" where
  "latest_first rows = rev (sort_key (\<lambda>x. (ct_createdAt x, txnId x)) rows)"

definition list_credit_transactions_by_user ::
  "string \<Rightarrow> int option \<Rightarrow> int option \<Rightarrow> 'n credit_txn list \<Rightarrow> ('n credit_txn list \<times> nat \<times> nat \<times> nat) reply" where
  "list_credit_transactions_by_user u page limit rows =
     (case page_params page limit of
        None \<Rightarrow> Fail 400 ''VALIDATION_ERROR''
      | Some (p, l) \<Rightarrow>
          let q = filter (\<lambda>x. ct_userId x = u) rows
          in Done 200 (paginate p l (latest_first q), p, l, length q))"

definition get_credit_transaction_by_reference :: "string \<Rightarrow> 'n credit_txn list \<Rightarrow> 'n credit_txn reply" where
  "get_credit_transaction_by_reference ref rows =
     (case latest_first (filter (\<lambda>x. ct_referenceId x = Some ref) rows) of
        [] \<Rightarrow> Fail 404 ''TRANSACTION_NOT_FOUND''
      | x # xs \<Rightarrow> Done 200 x)"

text \<open>
  The path of the lookup by reference is registered for GET only, so the framework answers a PATCH
  with 405 and the handler of HTTP errors names it.
\<close>

definition patch_credit_transaction_by_reference ::
  "string \<Rightarrow> 'n credit_txn list \<Rightarrow> 'n credit_txn reply \<times> 'n credit_txn list" where
  "patch_credit_transaction_by_reference ref rows = (Fail 405 ''METHOD_NOT_ALLOWED'', rows)"

lemma create_credit_transaction_effect:
  assumes "create_credit_transaction b uuid now rows = (rep, rows')"
  shows "(rows' = rows \<and> \<not> is_done rep)
    \<or> (\<exists>x. rep = Done 201 x \<and> rows' = rows @ [x] \<and> txnId x = uuid \<and> ct_referenceId x = xb_referenceId b)"
  using assms by (auto simp: create_credit_transaction_def Let_def split: if_splits option.splits)

lemma set_latest_first [simp]: "set (latest_first rows) = set rows"
  by (simp add: latest_first_def)

lemma get_by_reference_found:
  "is_done (get_credit_transaction_by_reference ref rows) \<longleftrightarrow> (\<exists>x \<in> set rows. ct_referenceId x = Some ref)"
proof -
  have "latest_first (filter (\<lambda>x. ct_referenceId x = Some ref) rows) = [] \<longleftrightarrow>
      (\<forall>x \<in> set rows. ct_referenceId x \<noteq> Some ref)"
    by (metis (mono_tags, lifting) empty_set filter_empty_conv set_empty set_latest_first)
  then show ?thesis
    by (auto simp: get_credit_transaction_by_reference_def split: list.splits)
qed

lemma get_by_reference_is:
  assumes "get_credit_transaction_by_reference ref rows = Done st x"
  shows "x \<in> set rows \<and> ct_referenceId x = Some ref"
proof -
  obtain xs where "latest_first (filter (\<lambda>x. ct_referenceId x = Some ref) rows) = x # xs"
    using assms by (auto simp: get_credit_transaction_by_reference_def split: list.splits)
  then have "x \<in> set (latest_first (filter (\<lambda>x. ct_referenceId x = Some ref) rows))" by simp
  then show ?thesis by simp
qed

text \<open>
  A movement written under a reference is found by it. After a successful write the
  lookup by its reference answers 200 with a movement of that reference, and whatever is written
  later the lookup keeps answering 200.
\<close>

theorem ledger_write_then_lookup:
  assumes "create_credit_transaction b uuid now rows = (Done st x, rows')" and "xb_referenceId b = Some ref"
  shows "x \<in> set rows' \<and> ct_referenceId x = Some ref
    \<and> (\<exists>y. get_credit_transaction_by_reference ref (rows' @ later) = Done 200 y
          \<and> y \<in> set (rows' @ later) \<and> ct_referenceId y = Some ref)"
proof -
  have x: "x \<in> set rows'" "ct_referenceId x = Some ref"
    using create_credit_transaction_effect [OF assms(1)] assms(2) by auto
  then have "is_done (get_credit_transaction_by_reference ref (rows' @ later))"
    by (auto simp: get_by_reference_found)
  then obtain y where y: "get_credit_transaction_by_reference ref (rows' @ later) = Done 200 y"
    by (auto simp: get_credit_transaction_by_reference_def split: list.splits)
  with x get_by_reference_is [OF y] show ?thesis by blast
qed

definition ex_txn_body :: "int txn_body" where
  "ex_txn_body = \<lparr>xb_userId = Some (Some ''u1''), xb_delta = Some (Some 100), xb_reason = Some (Some ''topup''),
     xb_referenceId = Some ''p1''\<rparr>"

theorem ledger_write_then_lookup_witness:
  "\<exists>y. get_credit_transaction_by_reference ''p1'' (snd (create_credit_transaction ex_txn_body ''c1'' 5 []) @ []) = Done 200 y
    \<and> ct_referenceId y = Some ''p1''"
proof -
  have "create_credit_transaction ex_txn_body ''c1'' 5 [] =
     (Done 201 \<lparr>txnId = ''c1'', ct_userId = ''u1'', ct_delta = 100, ct_reason = ''topup'',
        ct_referenceId = Some ''p1'', ct_createdAt = 5\<rparr>, snd (create_credit_transaction ex_txn_body ''c1'' 5 []))"
    by (simp add: create_credit_transaction_def ex_txn_body_def Let_def)
  from ledger_write_then_lookup [OF this, of "''p1''" "[]"] show ?thesis by (auto simp: ex_txn_body_def)
qed

end
