(* ===== verification/TicketLog.thy ===== *)
theory TicketLog
  imports Prelude
begin

text \<open>
  The ticket log service (\<^verbatim>\<open>services/ticket-log-service\<close>): what staff did with a ticket at the
  door, newest first.
\<close>

record ticket_log =
  logId :: string
  tl_ticketId :: string
  tl_staffId :: string
  tl_status :: string
  tl_timestamp :: int

record log_body =
  gb_ticketId :: "string option option"
  gb_staffId :: "string option option"
  gb_status :: "string option option"

definition create_ticket_log ::
  "log_body \<Rightarrow> string \<Rightarrow> int \<Rightarrow> ticket_log list \<Rightarrow> ticket_log reply \<times> ticket_log list" where
  "create_ticket_log b uuid now rows =
     (case (gb_ticketId b, gb_staffId b, gb_status b) of
        (Some t, Some s, Some st) \<Rightarrow>
          (case (t, s, st) of
             (Some t', Some s', Some st') \<Rightarrow>
               let x = \<lparr>logId = uuid, tl_ticketId = t', tl_staffId = s', tl_status = st', tl_timestamp = now\<rparr>
               in if distinct (map logId (rows @ [x])) then (Done 201 x, rows @ [x])
                  else (Fail 500 ''INTERNAL_ERROR'', rows)
           | _ \<Rightarrow> (Fail 500 ''INTERNAL_ERROR'', rows))
      | _ \<Rightarrow> (Fail 400 ''VALIDATION_ERROR'', rows))"

definition get_ticket_logs_by_ticket_id :: "string \<Rightarrow> ticket_log list \<Rightarrow> ticket_log list" where
  "get_ticket_logs_by_ticket_id tid rows = sort_key (\<lambda>x. - tl_timestamp x) (filter (\<lambda>x. tl_ticketId x = tid) rows)"

lemma create_ticket_log_effect:
  assumes "create_ticket_log b uuid now rows = (rep, rows')"
  shows "(rows' = rows \<and> \<not> is_done rep) \<or> (\<exists>x. rep = Done 201 x \<and> rows' = rows @ [x])"
  using assms by (auto simp: create_ticket_log_def Let_def split: if_splits option.splits)

lemma set_ticket_logs: "set (get_ticket_logs_by_ticket_id tid rows) = {x \<in> set rows. tl_ticketId x = tid}"
  by (auto simp: get_ticket_logs_by_ticket_id_def)

end
