(* ===== verification/Catalog.thy ===== *)
theory Catalog
  imports Prelude
begin

text \<open>
  The services whose data the workflows read: events (\<^verbatim>\<open>services/event-service\<close>), venues
  (\<^verbatim>\<open>services/venue-service\<close>), the seats of a venue (\<^verbatim>\<open>services/seat-service\<close>) and users
  (\<^verbatim>\<open>services/user-service\<close>). This theory has their tables and the read routes that the
  orchestrators call.
\<close>

subsection \<open>Events\<close>

record 'n event =
  ev_eventId :: string
  ev_venueId :: string
  ev_name :: string
  ev_date :: datetime
  ev_description :: "string option"
  ev_type :: string
  ev_image :: "string option"
  ev_price :: 'n
  ev_cancelledAt :: "datetime option"
  ev_createdAt :: int

definition get_event :: "string \<Rightarrow> 'n event list \<Rightarrow> 'n event reply" where
  "get_event eid rows =
     (case row_get ev_eventId eid rows of None \<Rightarrow> Fail 404 ''EVENT_NOT_FOUND'' | Some e \<Rightarrow> Done 200 e)"

text \<open>The image of the event's JSON: an event without one gets a default.\<close>

definition event_image :: "'n event \<Rightarrow> string" where
  "event_image ev = (case ev_image ev of
     Some i \<Rightarrow> if i \<noteq> [] then i else ''https://picsum.photos/seed/default-event/800/450''
   | None \<Rightarrow> ''https://picsum.photos/seed/default-event/800/450'')"

subsection \<open>Venues and their seats\<close>

record venue =
  ve_venueId :: string
  ve_name :: string
  ve_capacity :: int
  ve_address :: string
  ve_postalCode :: "string option"
  ve_coordinates :: "string option"
  ve_isActive :: bool
  ve_createdAt :: int

definition list_venues :: "venue list \<Rightarrow> venue list" where
  "list_venues rows = sort_key ve_name (filter ve_isActive rows)"

definition get_venue :: "string \<Rightarrow> venue list \<Rightarrow> venue reply" where
  "get_venue vid rows =
     (case row_get ve_venueId vid rows of None \<Rightarrow> Fail 404 ''VENUE_NOT_FOUND'' | Some v \<Rightarrow> Done 200 v)"

record place =
  pl_seatId :: string
  pl_venueId :: string
  pl_seatNumber :: string
  pl_rowNumber :: string
  pl_createdAt :: int

definition list_seats_for_venue :: "string \<Rightarrow> place list \<Rightarrow> place list" where
  "list_seats_for_venue vid rows =
     sort_key (\<lambda>p. (pl_rowNumber p, pl_seatNumber p)) (filter (\<lambda>p. pl_venueId p = vid) rows)"

text \<open>
  The seat service has no route \<^verbatim>\<open>/seats/<seat_id>\<close>: the framework answers such a GET with 404 and
  the handler of HTTP errors names it.
\<close>

definition get_seat_by_id :: "string \<Rightarrow> place list \<Rightarrow> place reply" where
  "get_seat_by_id sid rows = Fail 404 ''NOT_FOUND''"

subsection \<open>Users\<close>

record user =
  us_userId :: string
  us_email :: string
  us_password :: string
  us_salt :: string
  us_phoneNumber :: string
  us_role :: string
  us_isFlagged :: bool
  us_venueId :: "string option"
  us_favoriteEvents :: "string list"
  us_createdAt :: int

definition get_user :: "string \<Rightarrow> user list \<Rightarrow> user reply" where
  "get_user uid rows =
     (case row_get us_userId uid rows of None \<Rightarrow> Fail 404 ''USER_NOT_FOUND'' | Some u \<Rightarrow> Done 200 u)"

definition get_user_by_email :: "string \<Rightarrow> user list \<Rightarrow> user reply" where
  "get_user_by_email em rows =
     (case find (\<lambda>u. us_email u = em) rows of None \<Rightarrow> Fail 404 ''USER_NOT_FOUND'' | Some u \<Rightarrow> Done 200 u)"

end
