(* ===== verification/OtpWrapper.thy ===== *)
theory OtpWrapper
  imports Infra
begin

text \<open>
  The OTP wrapper (\<^verbatim>\<open>services/otp-wrapper\<close>): sending and checking one-time passwords through the
  external SMU service, with a rate limit per phone number in Redis. The external service is a
  parameter. The lemmas show that, with Redis working, five wrong codes within a window stop
  further checks from reaching the external service.
\<close>

subsection \<open>The external service\<close>

text \<open>
  An answer to \<^verbatim>\<open>SendOTP\<close>: a failed request, or a body with the id under one of four names. An
  answer to \<^verbatim>\<open>VerifyOTP\<close>: a failed request, status 400, or a body with the verdict under one of
  five names (its truth value).
\<close>

record smu_sid =
  sid_verification_sid :: "string option"
  sid_verificationSid :: "string option"
  sid_sid :: "string option"
  sid_VerificationSid :: "string option"

datatype smu_sent = SendFailed | SentBody smu_sid

record smu_verdict =
  vd_verified :: "bool option"
  vd_is_verified :: "bool option"
  vd_isVerified :: "bool option"
  vd_success :: "bool option"
  vd_Success :: "bool option"

datatype smu_checked = CheckFailed | WrongCode | CheckBody smu_verdict

record 'x otp_api =
  smu_send :: "string \<Rightarrow> 'x \<Rightarrow> smu_sent \<times> 'x"
  smu_verify :: "string \<Rightarrow> string \<Rightarrow> 'x \<Rightarrow> smu_checked \<times> 'x"

text \<open>The first field that is present.\<close>

fun first_present :: "'a option list \<Rightarrow> 'a option" where
  "first_present [] = None"
| "first_present (None # xs) = first_present xs"
| "first_present (Some v # xs) = Some v"

subsection \<open>The rate limit\<close>

definition RATE_LIMIT_ATTEMPTS :: nat where
  "RATE_LIMIT_ATTEMPTS = 5"

definition RATE_LIMIT_WINDOW_SECONDS :: int where
  "RATE_LIMIT_WINDOW_SECONDS = 900"

definition RATE_LIMIT_LOCKOUT_SECONDS :: int where
  "RATE_LIMIT_LOCKOUT_SECONDS = 900"

definition rate_key :: "string \<Rightarrow> string" where
  "rate_key phone = ''otp:rate:'' @ phone"

definition lock_key :: "string \<Rightarrow> string" where
  "lock_key phone = ''otp:lock:'' @ phone"

text \<open>The number stored under a key; a missing key counts as zero.\<close>

definition count_at :: "string \<Rightarrow> infra \<Rightarrow> nat" where
  "count_at k w = (case redis_live k w of Some (RCount n) \<Rightarrow> n | _ \<Rightarrow> 0)"

text \<open>
  None is an exception of the Redis client. Each command to Redis is one interaction; the TTL of
  the lock, which only goes into the message text, is read by another.
\<close>

definition check_rate_limit :: "string \<Rightarrow> infra \<Rightarrow> bool option \<times> infra" where
  "check_rate_limit phone w =
     (case redis_step w of
        (False, w1) \<Rightarrow> (Some True, w1)
      | (True, w1) \<Rightarrow>
          (case redis_step w1 of
             (False, w2) \<Rightarrow> (None, w2)
           | (True, w2) \<Rightarrow>
               if redis_live (lock_key phone) w2 \<noteq> None then
                 (case redis_step w2 of (ok, w3) \<Rightarrow> (if ok then Some False else None, w3))
               else
                 (case redis_step w2 of
                    (False, w3) \<Rightarrow> (None, w3)
                  | (True, w3) \<Rightarrow>
                      if RATE_LIMIT_ATTEMPTS \<le> count_at (rate_key phone) w3 then
                        (case redis_step w3 of
                           (False, w4) \<Rightarrow> (None, w4)
                         | (True, w4) \<Rightarrow>
                             (Some False, redis_setex (lock_key phone) RATE_LIMIT_LOCKOUT_SECONDS (RText ''1'') w4))
                      else (Some True, w3))))"

definition increment_attempt :: "string \<Rightarrow> infra \<Rightarrow> nat option \<times> infra" where
  "increment_attempt phone w =
     (case redis_step w of
        (False, w1) \<Rightarrow> (Some 0, w1)
      | (True, w1) \<Rightarrow>
          (case redis_step w1 of
             (False, w2) \<Rightarrow> (None, w2)
           | (True, w2) \<Rightarrow>
               let w3 = redis_setex (rate_key phone) RATE_LIMIT_WINDOW_SECONDS
                          (RCount (Suc (count_at (rate_key phone) w2))) w2
               in (case redis_step w3 of
                     (False, w4) \<Rightarrow> (None, w4)
                   | (True, w4) \<Rightarrow> (Some (count_at (rate_key phone) w4), w4))))"

definition reset_attempts :: "string \<Rightarrow> infra \<Rightarrow> bool \<times> infra" where
  "reset_attempts phone w =
     (case redis_step w of
        (False, w1) \<Rightarrow> (True, w1)
      | (True, w1) \<Rightarrow>
          (case redis_step w1 of
             (False, w2) \<Rightarrow> (False, w2)
           | (True, w2) \<Rightarrow> (True, redis_delete (rate_key phone) (redis_delete (lock_key phone) w2))))"

subsection \<open>The routes\<close>

definition send_otp :: "'x otp_api \<Rightarrow> string option \<Rightarrow> 'x \<Rightarrow> string reply \<times> 'x" where
  "send_otp api phone x =
     (case phone of
        None \<Rightarrow> (Fail 400 ''VALIDATION_ERROR'', x)
      | Some p \<Rightarrow>
          (case smu_send api p x of
             (SendFailed, x1) \<Rightarrow> (Fail 502 ''OTP_SEND_FAILED'', x1)
           | (SentBody b, x1) \<Rightarrow>
               (case first_present [sid_verification_sid b, sid_verificationSid b, sid_sid b, sid_VerificationSid b] of
                  None \<Rightarrow> (Fail 502 ''OTP_SEND_FAILED'', x1)
                | Some sid \<Rightarrow> (Done 200 sid, x1))))"

definition verify_otp ::
  "'x otp_api \<Rightarrow> string option \<Rightarrow> string option \<Rightarrow> string option \<Rightarrow> string option
    \<Rightarrow> infra \<times> 'x \<Rightarrow> bool reply \<times> infra \<times> 'x" where
  "verify_otp api sid otp phone header st =
     (case (sid, otp) of
        (Some sid', Some otp') \<Rightarrow>
          let p = (case phone of Some q \<Rightarrow> q | None \<Rightarrow> (case header of Some q \<Rightarrow> q | None \<Rightarrow> ''unknown'')) in
          (case check_rate_limit p (fst st) of
             (None, w1) \<Rightarrow> (Fail 500 ''INTERNAL_ERROR'', w1, snd st)
           | (Some False, w1) \<Rightarrow> (Fail 429 ''OTP_RATE_LIMIT_EXCEEDED'', w1, snd st)
           | (Some True, w1) \<Rightarrow>
               (case smu_verify api sid' otp' (snd st) of
                  (CheckFailed, x1) \<Rightarrow> (Fail 502 ''OTP_VERIFY_FAILED'', w1, x1)
                | (WrongCode, x1) \<Rightarrow>
                    (case increment_attempt p w1 of
                       (None, w2) \<Rightarrow> (Fail 500 ''INTERNAL_ERROR'', w2, x1)
                     | (Some n, w2) \<Rightarrow>
                         if RATE_LIMIT_ATTEMPTS \<le> n then (Fail 429 ''OTP_RATE_LIMIT_EXCEEDED'', w2, x1)
                         else (Done 200 False, w2, x1))
                | (CheckBody b, x1) \<Rightarrow>
                    (case first_present [vd_verified b, vd_is_verified b, vd_isVerified b, vd_success b, vd_Success b] of
                       Some True \<Rightarrow>
                         (case reset_attempts p w1 of
                            (False, w2) \<Rightarrow> (Fail 500 ''INTERNAL_ERROR'', w2, x1)
                          | (True, w2) \<Rightarrow> (Done 200 True, w2, x1))
                     | _ \<Rightarrow> (Done 200 False, w1, x1))))
      | _ \<Rightarrow> (Fail 400 ''VALIDATION_ERROR'', st))"

subsection \<open>Lemmas\<close>

lemma keys_differ [simp]: "rate_key p \<noteq> lock_key q" "lock_key q \<noteq> rate_key p"
  by (simp_all add: rate_key_def lock_key_def)

text \<open>A phone number with five or more counted failures is locked or about to be.\<close>

lemma check_rate_limit_blocks:
  assumes "redis_io w = []" and "RATE_LIMIT_ATTEMPTS \<le> count_at (rate_key p) w"
  shows "\<exists>w'. check_rate_limit p w = (Some False, w') \<and> redis_io w' = [] \<and> clock w' = clock w
    \<and> count_at (rate_key p) w' = count_at (rate_key p) w"
  using assms by (auto simp: check_rate_limit_def count_at_def)

lemma increment_counts:
  assumes "redis_io w = []"
  shows "\<exists>w'. increment_attempt p w = (Some (Suc (count_at (rate_key p) w)), w') \<and> redis_io w' = []
    \<and> clock w' = clock w \<and> count_at (rate_key p) w' = Suc (count_at (rate_key p) w)"
  using assms
  by (auto simp: increment_attempt_def count_at_def Let_def RATE_LIMIT_WINDOW_SECONDS_def)

text \<open>Checks of wrong codes one after another, as a client can make them.\<close>

fun wrong_codes :: "'x otp_api \<Rightarrow> (string \<times> string) list \<Rightarrow> string \<Rightarrow> infra \<times> 'x \<Rightarrow> bool reply list \<times> infra \<times> 'x" where
  "wrong_codes api [] p st = ([], st)"
| "wrong_codes api ((sid, otp) # cs) p st =
     (case verify_otp api (Some sid) (Some otp) (Some p) None st of
        (r, st1) \<Rightarrow> (case wrong_codes api cs p st1 of (rs, st2) \<Rightarrow> (r # rs, st2)))"

text \<open>The external service counts every check it is asked for and calls every code wrong.\<close>

definition rejecting :: "nat otp_api \<Rightarrow> bool" where
  "rejecting api \<longleftrightarrow> (\<forall>sid otp n. smu_verify api sid otp n = (WrongCode, Suc n))"

lemma verify_wrong:
  assumes "redis_io w = []" and "rejecting api"
  shows "\<exists>r w'. verify_otp api (Some sid) (Some otp) (Some p) None (w, n)
      = (r, w', if RATE_LIMIT_ATTEMPTS \<le> count_at (rate_key p) w \<or> redis_live (lock_key p) w \<noteq> None then n else Suc n)
    \<and> redis_io w' = [] \<and> clock w' = clock w \<and> r \<noteq> Done 200 True
    \<and> count_at (rate_key p) w \<le> count_at (rate_key p) w'
    \<and> (redis_live (lock_key p) w = None \<longrightarrow>
        (count_at (rate_key p) w < RATE_LIMIT_ATTEMPTS \<longrightarrow> redis_live (lock_key p) w' = None
          \<and> count_at (rate_key p) w' = Suc (count_at (rate_key p) w)))"
proof (cases "redis_live (lock_key p) w = None")
  case False
  with assms show ?thesis by (auto simp: verify_otp_def check_rate_limit_def)
next
  case unlocked: True
  show ?thesis
  proof (cases "RATE_LIMIT_ATTEMPTS \<le> count_at (rate_key p) w")
    case True
    from check_rate_limit_blocks [OF assms(1) True] obtain w' where
      w': "check_rate_limit p w = (Some False, w')" "redis_io w' = []" "clock w' = clock w"
        "count_at (rate_key p) w' = count_at (rate_key p) w" by blast
    with True show ?thesis by (auto simp: verify_otp_def)
  next
    case False
    with assms(1) unlocked have c: "check_rate_limit p w = (Some True, w)"
      by (auto simp: check_rate_limit_def)
    have live: "redis_live (lock_key p) w' = None" if "increment_attempt p w = (k, w')" for k w'
      using that assms(1) unlocked by (auto simp: increment_attempt_def Let_def)
    from increment_counts [OF assms(1), of p] obtain w' where
      w': "increment_attempt p w = (Some (Suc (count_at (rate_key p) w)), w')" "redis_io w' = []"
        "clock w' = clock w" "count_at (rate_key p) w' = Suc (count_at (rate_key p) w)" by blast
    with live [OF w'(1)] False assms(2) unlocked c show ?thesis
      by (auto simp: verify_otp_def rejecting_def)
  qed
qed

lemma wrong_codes_bounded:
  assumes "redis_io w = []" and "rejecting api"
  shows "snd (snd (wrong_codes api cs p (w, n))) \<le> n + (RATE_LIMIT_ATTEMPTS - count_at (rate_key p) w)"
  using assms(1)
proof (induction cs arbitrary: w n)
  case (Cons c cs)
  obtain sid otp where c: "c = (sid, otp)" by fastforce
  from verify_wrong [OF Cons.prems assms(2), of sid otp p n] obtain r w' where
    v: "verify_otp api (Some sid) (Some otp) (Some p) None (w, n) = (r, w',
          if RATE_LIMIT_ATTEMPTS \<le> count_at (rate_key p) w \<or> redis_live (lock_key p) w \<noteq> None then n else Suc n)"
    and w': "redis_io w' = []" "count_at (rate_key p) w \<le> count_at (rate_key p) w'"
    and up: "redis_live (lock_key p) w = None \<longrightarrow> count_at (rate_key p) w < RATE_LIMIT_ATTEMPTS \<longrightarrow>
        redis_live (lock_key p) w' = None \<and> count_at (rate_key p) w' = Suc (count_at (rate_key p) w)"
    by (elim exE conjE) (rule that)
  let ?n = "if RATE_LIMIT_ATTEMPTS \<le> count_at (rate_key p) w \<or> redis_live (lock_key p) w \<noteq> None then n else Suc n"
  have "snd (snd (wrong_codes api (c # cs) p (w, n))) = snd (snd (wrong_codes api cs p (w', ?n)))"
    by (simp add: c v split: prod.split)
  also have "\<dots> \<le> ?n + (RATE_LIMIT_ATTEMPTS - count_at (rate_key p) w')"
    using Cons.IH [OF w'(1)] .
  also have "\<dots> \<le> n + (RATE_LIMIT_ATTEMPTS - count_at (rate_key p) w)"
    using w'(2) up by (auto simp: not_le)
  finally show ?case .
qed simp

subsection \<open>Properties\<close>


definition ex_smu :: "nat otp_api" where
  "ex_smu = \<lparr>smu_send = (\<lambda>p n. (SentBody \<lparr>sid_verification_sid = Some ''sid'', sid_verificationSid = None,
        sid_sid = None, sid_VerificationSid = None\<rparr>, n)),
     smu_verify = (\<lambda>sid otp n. (WrongCode, Suc n))\<rparr>"


end
