(* ===== verification/System.thy ===== *)
theory System
  imports SeatInventory TicketService MarketplaceService TransferService CreditLedger TicketLog Catalog
    OtpWrapper
begin

text \<open>
  The system the orchestrators work on: the databases of all services, the shared stores, the
  state of the external credit service, and the network between them. An orchestrator reaches a
  service only through a call, and every call can meet a fault.
\<close>

subsection \<open>The network\<close>

text \<open>
  What one call meets: it is answered, the request is lost, the reply is lost after the service
  did its work, or the service fails with an unhandled exception and rolls back. A lost request or
  reply shows as a timeout or as a connection error. \<open>net\<close> lists the fates of the coming calls;
  an exhausted list means that calls are answered.
\<close>

datatype net_error = TimedOut | NotConnected

datatype fault = NetOk | ReqLost net_error | ReplyLost net_error | Crashed

text \<open>
  The state of the Redis circuit breaker of the purchase orchestrator.
\<close>

record breaker =
  cb_failures :: nat
  cb_last_failure :: int
  cb_open :: bool

text \<open>
  \<open>fresh\<close> are the values that \<^verbatim>\<open>uuid.uuid4()\<close> will draw, \<open>drawn\<close> how many have been drawn. \<open>ext\<close>
  is the state of the services outside the repository.
\<close>

record ('n, 'x) sys =
  inventory :: seat_world
  tickets :: "'n ticket list"
  listings :: "'n listing list"
  transfers :: "'n transfer list"
  ledger :: "'n credit_txn list"
  logs :: "ticket_log list"
  events :: "'n event list"
  venues :: "venue list"
  places :: "place list"
  users :: "user list"
  net :: "fault list"
  ext :: 'x
  fresh :: "nat \<Rightarrow> string"
  drawn :: nat
  breaker_of :: breaker

type_synonym ('n, 'x, 'a) endpoint = "('n, 'x) sys \<Rightarrow> 'a reply \<times> ('n, 'x) sys"

fun next_fault :: "fault list \<Rightarrow> fault \<times> fault list" where
  "next_fault [] = (NetOk, [])"
| "next_fault (f # fs) = (f, fs)"

definition take_net :: "('n, 'x) sys \<Rightarrow> fault \<times> ('n, 'x) sys" where
  "take_net s = (let (f, fs) = next_fault (net s) in (f, s\<lparr>net := fs\<rparr>))"

definition draw :: "('n, 'x) sys \<Rightarrow> string \<times> ('n, 'x) sys" where
  "draw s = (fresh s (drawn s), s\<lparr>drawn := Suc (drawn s)\<rparr>)"

definition time_now :: "('n, 'x) sys \<Rightarrow> int" where
  "time_now s = clock (world (inventory s))"

subsection \<open>Calls\<close>

text \<open>
  \<^verbatim>\<open>call_service\<close> of \<^verbatim>\<open>service_client.py\<close>: the value of a successful answer, or an error code, which
  is the code of the service's error body where there is one. The orchestrators differ in the code
  of a timeout (\<open>tmo\<close>). The purchase orchestrator's client retries a GET; its fate here is that of
  the last attempt, and the routes it reads change nothing, so earlier attempts leave no trace.
\<close>

definition net_code :: "string \<Rightarrow> net_error \<Rightarrow> string" where
  "net_code tmo e = (case e of TimedOut \<Rightarrow> tmo | NotConnected \<Rightarrow> ''SERVICE_UNAVAILABLE'')"

definition call_service ::
  "string \<Rightarrow> ('n, 'x, 'a) endpoint \<Rightarrow> ('n, 'x) sys \<Rightarrow> (string + 'a) \<times> ('n, 'x) sys" where
  "call_service tmo ep s =
     (case take_net s of (f, s1) \<Rightarrow>
        (case f of
           NetOk \<Rightarrow> (case ep s1 of (Fail st c, s2) \<Rightarrow> (Inl c, s2) | (Done st v, s2) \<Rightarrow> (Inr v, s2))
         | ReqLost e \<Rightarrow> (Inl (net_code tmo e), s1)
         | ReplyLost e \<Rightarrow> (Inl (net_code tmo e), snd (ep s1))
         | Crashed \<Rightarrow> (Inl ''INTERNAL_ERROR'', s1)))"

text \<open>A gRPC call: a response, or None for \<^verbatim>\<open>grpc.RpcError\<close>.\<close>

definition grpc_call ::
  "(('n, 'x) sys \<Rightarrow> 'a option \<times> ('n, 'x) sys) \<Rightarrow> ('n, 'x) sys \<Rightarrow> 'a option \<times> ('n, 'x) sys" where
  "grpc_call ep s =
     (case take_net s of (f, s1) \<Rightarrow>
        (case f of
           NetOk \<Rightarrow> ep s1
         | ReqLost e \<Rightarrow> (None, s1)
         | ReplyLost e \<Rightarrow> (None, snd (ep s1))
         | Crashed \<Rightarrow> (None, s1)))"

text \<open>
  A failure that leaves a handler as an exception is answered by the framework with 500 and no
  error code.
\<close>

definition unhandled :: "'a reply" where
  "unhandled = Fail 500 []"

definition UNAVAILABLE :: string where
  "UNAVAILABLE = ''SERVICE_UNAVAILABLE''"

definition on_infra :: "(infra \<Rightarrow> infra) \<Rightarrow> ('n, 'x) sys \<Rightarrow> ('n, 'x) sys" where
  "on_infra f s = s\<lparr>inventory := (inventory s)\<lparr>world := f (world (inventory s))\<rparr>\<rparr>"

subsection \<open>The services' routes on the whole state\<close>

definition ep_HoldSeat :: "bool \<Rightarrow> hold_request \<Rightarrow> attempt_env list \<Rightarrow> ('n, 'x) sys \<Rightarrow> hold_response option \<times> ('n, 'x) sys" where
  "ep_HoldSeat ctx req envs s = (case HoldSeat ctx req envs (inventory s) of (r, i) \<Rightarrow> (r, s\<lparr>inventory := i\<rparr>))"

definition ep_ReleaseSeat :: "seat_request \<Rightarrow> ('n, 'x) sys \<Rightarrow> bool option \<times> ('n, 'x) sys" where
  "ep_ReleaseSeat req s = (case ReleaseSeat req (inventory s) of (b, i) \<Rightarrow> (Some b, s\<lparr>inventory := i\<rparr>))"

definition ep_SellSeat :: "seat_request \<Rightarrow> ('n, 'x) sys \<Rightarrow> bool option \<times> ('n, 'x) sys" where
  "ep_SellSeat req s = (case SellSeat req (inventory s) of (b, i) \<Rightarrow> (Some b, s\<lparr>inventory := i\<rparr>))"

definition ep_GetSeatStatus :: "string \<Rightarrow> ('n, 'x) sys \<Rightarrow> status_response option \<times> ('n, 'x) sys" where
  "ep_GetSeatStatus i s = (case GetSeatStatus i (inventory s) of (r, w) \<Rightarrow> (Some r, s\<lparr>inventory := w\<rparr>))"

definition ep_create_ticket :: "'n ticket_body \<Rightarrow> ('n, 'x, 'n ticket) endpoint" where
  "ep_create_ticket b s =
     (case draw s of (uuid, s1) \<Rightarrow> case draw s1 of (qr, s2) \<Rightarrow>
        (case create_ticket b uuid qr (time_now s2) (tickets s2) of (r, t) \<Rightarrow> (r, s2\<lparr>tickets := t\<rparr>)))"

definition ep_get_ticket :: "string \<Rightarrow> ('n, 'x, 'n ticket) endpoint" where
  "ep_get_ticket tid s = (get_ticket tid (tickets s), s)"

definition ep_update_ticket :: "string \<Rightarrow> ticket_field list \<Rightarrow> ('n, 'x, 'n ticket) endpoint" where
  "ep_update_ticket tid body s =
     (case update_ticket tid body (tickets s) of (r, t) \<Rightarrow> (r, s\<lparr>tickets := t\<rparr>))"

definition ep_create_listing :: "'n listing_body \<Rightarrow> ('n, 'x, 'n listing) endpoint" where
  "ep_create_listing b s =
     (case draw s of (uuid, s1) \<Rightarrow>
        (case create_listing b uuid (time_now s1) (listings s1) of (r, l) \<Rightarrow> (r, s1\<lparr>listings := l\<rparr>)))"

definition ep_get_listing :: "string \<Rightarrow> ('n, 'x, 'n listing) endpoint" where
  "ep_get_listing lid s = (get_listing lid (listings s), s)"

definition ep_update_listing :: "string \<Rightarrow> listing_field list \<Rightarrow> ('n, 'x, 'n listing) endpoint" where
  "ep_update_listing lid body s =
     (case update_listing lid body (listings s) of (r, l) \<Rightarrow> (r, s\<lparr>listings := l\<rparr>))"

definition ep_create_transfer :: "'n transfer_body \<Rightarrow> ('n, 'x, 'n transfer) endpoint" where
  "ep_create_transfer b s =
     (case draw s of (uuid, s1) \<Rightarrow>
        (case create_transfer b uuid (time_now s1) (transfers s1) of (r, t) \<Rightarrow> (r, s1\<lparr>transfers := t\<rparr>)))"

definition ep_get_transfer :: "string \<Rightarrow> ('n, 'x, 'n transfer) endpoint" where
  "ep_get_transfer tid s =
     (case get_transfer tid (time_now s) (transfers s) of (r, t) \<Rightarrow> (r, s\<lparr>transfers := t\<rparr>))"

definition ep_patch_transfer :: "string \<Rightarrow> transfer_field list \<Rightarrow> ('n, 'x, 'n transfer) endpoint" where
  "ep_patch_transfer tid body s =
     (case patch_transfer tid body (time_now s) (transfers s) of (r, t) \<Rightarrow> (r, s\<lparr>transfers := t\<rparr>))"

definition ep_create_txn :: "'n txn_body \<Rightarrow> ('n, 'x, 'n credit_txn) endpoint" where
  "ep_create_txn b s =
     (case draw s of (uuid, s1) \<Rightarrow>
        (case create_credit_transaction b uuid (time_now s1) (ledger s1) of (r, l) \<Rightarrow> (r, s1\<lparr>ledger := l\<rparr>)))"

definition ep_patch_txn :: "string \<Rightarrow> ('n, 'x, 'n credit_txn) endpoint" where
  "ep_patch_txn ref s =
     (case patch_credit_transaction_by_reference ref (ledger s) of (r, l) \<Rightarrow> (r, s\<lparr>ledger := l\<rparr>))"

definition ep_create_log :: "log_body \<Rightarrow> ('n, 'x, ticket_log) endpoint" where
  "ep_create_log b s =
     (case draw s of (uuid, s1) \<Rightarrow>
        (case create_ticket_log b uuid (time_now s1) (logs s1) of (r, l) \<Rightarrow> (r, s1\<lparr>logs := l\<rparr>)))"

text \<open>The OTP wrapper reaches its external service through \<open>ext\<close> and counts in the shared Redis.\<close>

definition ep_send_otp :: "'x otp_api \<Rightarrow> string \<Rightarrow> ('n, 'x, string) endpoint" where
  "ep_send_otp api phone s = (case send_otp api (Some phone) (ext s) of (r, x) \<Rightarrow> (r, s\<lparr>ext := x\<rparr>))"

definition ep_verify_otp :: "'x otp_api \<Rightarrow> string \<Rightarrow> string \<Rightarrow> string \<Rightarrow> ('n, 'x, bool) endpoint" where
  "ep_verify_otp api sid otp phone s =
     (case verify_otp api (Some sid) (Some otp) (Some phone) None (world (inventory s), ext s) of
        (r, w, x) \<Rightarrow> (r, on_infra (\<lambda>_. w) s\<lparr>ext := x\<rparr>))"

text \<open>A route that only reads.\<close>

definition ep_read :: "(('n, 'x) sys \<Rightarrow> 'a reply) \<Rightarrow> ('n, 'x, 'a) endpoint" where
  "ep_read f s = (f s, s)"

subsection \<open>The external credit service\<close>

text \<open>
  The OutSystems credit service is not part of the repository: its two operations are parameters.
  The balance of an answer is under one of three names. Faults of the network to it are part of
  its behaviour here. \<open>credit_laws\<close> is what the code relies on: reading tells the balance and
  changes none, a confirmed write sets one user's balance, and a failed write may or may not have
  been done.
\<close>

record 'n credit_data =
  cd_creditBalance :: "'n option"
  cd_CreditBalance :: "'n option"
  cd_balance :: "'n option"

record ('n, 'x) credit_api =
  credit_get :: "string \<Rightarrow> 'x \<Rightarrow> (string + 'n credit_data) \<times> 'x"
  credit_patch :: "string \<Rightarrow> 'n \<Rightarrow> 'x \<Rightarrow> string option \<times> 'x"

definition read_balance :: "'n::zero credit_data \<Rightarrow> 'n" where
  "read_balance d =
     (case cd_creditBalance d of Some v \<Rightarrow> v | None \<Rightarrow>
      (case cd_CreditBalance d of Some v \<Rightarrow> v | None \<Rightarrow>
       (case cd_balance d of Some v \<Rightarrow> v | None \<Rightarrow> 0)))"

definition credit_laws :: "('x \<Rightarrow> string \<Rightarrow> 'n::zero) \<Rightarrow> ('n, 'x) credit_api \<Rightarrow> bool" where
  "credit_laws bal api \<longleftrightarrow>
     (\<forall>u x r x'. credit_get api u x = (r, x') \<longrightarrow>
        bal x' = bal x \<and> (\<forall>d. r = Inr d \<longrightarrow> read_balance d = bal x u))
   \<and> (\<forall>u v x e x'. credit_patch api u v x = (e, x') \<longrightarrow>
        (e = None \<longrightarrow> bal x' = (bal x)(u := v))
      \<and> (e \<noteq> None \<longrightarrow> bal x' = bal x \<or> bal x' = (bal x)(u := v)))"

definition call_credit_get ::
  "('n, 'x) credit_api \<Rightarrow> string \<Rightarrow> ('n, 'x) sys \<Rightarrow> (string + 'n credit_data) \<times> ('n, 'x) sys" where
  "call_credit_get api u s = (case credit_get api u (ext s) of (r, x) \<Rightarrow> (r, s\<lparr>ext := x\<rparr>))"

definition call_credit_patch ::
  "('n, 'x) credit_api \<Rightarrow> string \<Rightarrow> 'n \<Rightarrow> ('n, 'x) sys \<Rightarrow> string option \<times> ('n, 'x) sys" where
  "call_credit_patch api u v s = (case credit_patch api u v (ext s) of (e, x) \<Rightarrow> (e, s\<lparr>ext := x\<rparr>))"

subsection \<open>What a call leaves behind\<close>

text \<open>
  For every kind of call one lemma gives the shape of the state after it: which table it can have
  changed, and how, for each outcome. The proofs about the workflows only use these.
\<close>

named_theorems call_shapes \<open>the state after a call\<close>

lemma take_net_is: "take_net s = (fst (next_fault (net s)), s\<lparr>net := tl (net s)\<rparr>)"
  by (cases "net s") (simp_all add: take_net_def)

lemma call_answered:
  "net s = [] \<Longrightarrow> call_service tmo ep s =
    (case ep s of (Fail st c, s2) \<Rightarrow> (Inl c, s2) | (Done st v, s2) \<Rightarrow> (Inr v, s2))"
  by (cases s) (simp add: call_service_def take_net_def)

lemma call_service_cases:
  assumes "call_service tmo ep s = (r, s')"
  obtains (answered) st v where "r = Inr v" "ep (s\<lparr>net := tl (net s)\<rparr>) = (Done st v, s')"
  | (refused) st c where "r = Inl c" "ep (s\<lparr>net := tl (net s)\<rparr>) = (Fail st c, s')"
  | (lost) c where "r = Inl c" "s' = s\<lparr>net := tl (net s)\<rparr>"
  | (unheard) c rep where "r = Inl c" "ep (s\<lparr>net := tl (net s)\<rparr>) = (rep, s')"
proof (cases "fst (next_fault (net s))")
  case NetOk
  then show ?thesis using assms that
    by (auto simp: call_service_def take_net_is split: prod.splits reply.splits)
next
  case (ReplyLost e)
  obtain rep s2 where "ep (s\<lparr>net := tl (net s)\<rparr>) = (rep, s2)" by fastforce
  with ReplyLost assms that(4) show ?thesis by (auto simp: call_service_def take_net_is)
qed (use assms that(3) in \<open>auto simp: call_service_def take_net_is\<close>)

lemma grpc_call_cases:
  assumes "grpc_call ep s = (r, s')"
  obtains (heard) "ep (s\<lparr>net := tl (net s)\<rparr>) = (r, s')"
  | (lost) "r = None" "s' = s\<lparr>net := tl (net s)\<rparr>"
  | (unheard) rep where "r = None" "ep (s\<lparr>net := tl (net s)\<rparr>) = (rep, s')"
proof (cases "fst (next_fault (net s))")
  case (ReplyLost e)
  obtain rep s2 where "ep (s\<lparr>net := tl (net s)\<rparr>) = (rep, s2)" by fastforce
  with ReplyLost assms that(3) show ?thesis by (auto simp: grpc_call_def take_net_is)
qed (use assms that in \<open>auto simp: grpc_call_def take_net_is split: prod.splits\<close>)

lemma call_read [call_shapes]:
  assumes "call_service tmo (ep_read f) s = (r, s')"
  shows "s' = s\<lparr>net := tl (net s)\<rparr> \<and> (\<forall>v. r = Inr v \<longrightarrow> (\<exists>st. f (s\<lparr>net := tl (net s)\<rparr>) = Done st v))"
  using assms by (cases rule: call_service_cases) (auto simp: ep_read_def)

lemma call_get_ticket [call_shapes]:
  assumes "call_service tmo (ep_get_ticket tid) s = (r, s')"
  shows "s' = s\<lparr>net := tl (net s)\<rparr> \<and> (\<forall>v. r = Inr v \<longrightarrow> row_get ticketId tid (tickets s) = Some v)"
  using assms
  by (cases rule: call_service_cases) (auto simp: ep_get_ticket_def get_ticket_def split: option.splits)

lemma call_get_listing [call_shapes]:
  assumes "call_service tmo (ep_get_listing lid) s = (r, s')"
  shows "s' = s\<lparr>net := tl (net s)\<rparr> \<and> (\<forall>v. r = Inr v \<longrightarrow> row_get listingId lid (listings s) = Some v)"
  using assms
  by (cases rule: call_service_cases) (auto simp: ep_get_listing_def get_listing_def split: option.splits)

text \<open>Everything but the seat inventory, the shared stores, the network and the breaker is as before.\<close>

definition same_books :: "('n, 'x) sys \<Rightarrow> ('n, 'x) sys \<Rightarrow> bool" where
  "same_books s s' \<longleftrightarrow> tickets s' = tickets s \<and> listings s' = listings s \<and> transfers s' = transfers s
     \<and> ledger s' = ledger s \<and> logs s' = logs s \<and> events s' = events s \<and> venues s' = venues s
     \<and> places s' = places s \<and> users s' = users s \<and> ext s' = ext s \<and> fresh s' = fresh s \<and> drawn s' = drawn s"

definition sview :: "string \<Rightarrow> ('n, 'x) sys \<Rightarrow> seat_view option" where
  "sview j s = seat_view j (inventory s)"

lemma same_books_trans: "same_books s s1 \<Longrightarrow> same_books s1 s2 \<Longrightarrow> same_books s s2"
  by (simp add: same_books_def)

lemma on_infra_keeps [simp]:
  "tickets (on_infra f s) = tickets s" "ledger (on_infra f s) = ledger s" "ext (on_infra f s) = ext s"
  "seats (inventory (on_infra f s)) = seats (inventory s)" "sview j (on_infra f s) = sview j s"
  "listings (on_infra f s) = listings s" "transfers (on_infra f s) = transfers s" "logs (on_infra f s) = logs s"
  "same_books s (on_infra f s)"
  by (simp_all add: on_infra_def sview_def seat_view_def same_books_def)

text \<open>A call that changes one table: what the route did to it, or nothing.\<close>

definition outcome :: "(string + 'a) \<Rightarrow> 'a reply \<Rightarrow> bool" where
  "outcome r rep \<longleftrightarrow> (case r of Inl c \<Rightarrow> True | Inr v \<Rightarrow> (\<exists>st. rep = Done st v))"

lemma outcome_simps [simp]:
  "outcome (Inl c) rep" "outcome (Inr v) (Done st w) \<longleftrightarrow> v = w" "\<not> outcome (Inr v) (Fail st c)"
  by (auto simp: outcome_def)

lemma outcome_done: "outcome (Inr v) rep \<Longrightarrow> is_done rep"
  by (cases rep) auto

lemma call_update_ticket [call_shapes]:
  assumes "call_service tmo (ep_update_ticket tid body) s = (r, s')"
  shows "\<exists>t. s' = s\<lparr>net := tl (net s), tickets := t\<rparr>
    \<and> ((\<exists>c. r = Inl c) \<and> t = tickets s \<or> (\<exists>rep. update_ticket tid body (tickets s) = (rep, t) \<and> outcome r rep))"
  using assms
proof (cases rule: call_service_cases)
  case (lost c)
  then show ?thesis by (intro exI [of _ "tickets s"]) simp
qed (auto simp: ep_update_ticket_def split: prod.splits)

lemma call_update_listing [call_shapes]:
  assumes "call_service tmo (ep_update_listing lid body) s = (r, s')"
  shows "\<exists>t. s' = s\<lparr>net := tl (net s), listings := t\<rparr>
    \<and> ((\<exists>c. r = Inl c) \<and> t = listings s \<or> (\<exists>rep. update_listing lid body (listings s) = (rep, t) \<and> outcome r rep))"
  using assms
proof (cases rule: call_service_cases)
  case (lost c)
  then show ?thesis by (intro exI [of _ "listings s"]) simp
qed (auto simp: ep_update_listing_def split: prod.splits)

lemma call_patch_transfer [call_shapes]:
  assumes "call_service tmo (ep_patch_transfer tid body) s = (r, s')"
  shows "\<exists>t. s' = s\<lparr>net := tl (net s), transfers := t\<rparr>
    \<and> ((\<exists>c. r = Inl c) \<and> t = transfers s
       \<or> (\<exists>rep. patch_transfer tid body (time_now s) (transfers s) = (rep, t) \<and> outcome r rep))"
  using assms
proof (cases rule: call_service_cases)
  case (lost c)
  then show ?thesis by (intro exI [of _ "transfers s"]) simp
qed (auto simp: ep_patch_transfer_def time_now_def split: prod.splits)

lemma call_get_transfer [call_shapes]:
  assumes "call_service tmo (ep_get_transfer tid) s = (r, s')"
  shows "\<exists>t. s' = s\<lparr>net := tl (net s), transfers := t\<rparr>
    \<and> ((\<exists>c. r = Inl c) \<and> t = transfers s
       \<or> (\<exists>rep. get_transfer tid (time_now s) (transfers s) = (rep, t) \<and> outcome r rep))"
  using assms
proof (cases rule: call_service_cases)
  case (lost c)
  then show ?thesis by (intro exI [of _ "transfers s"]) simp
qed (auto simp: ep_get_transfer_def time_now_def split: prod.splits)

text \<open>A call that may add a row: the fresh ids it drew are spent.\<close>

lemma call_create_ticket [call_shapes]:
  assumes "call_service tmo (ep_create_ticket b) s = (r, s')"
  shows "\<exists>t d. s' = s\<lparr>net := tl (net s), drawn := d, tickets := t\<rparr>
    \<and> ((\<exists>c. r = Inl c) \<and> t = tickets s
       \<or> (\<exists>rep. create_ticket b (fresh s (drawn s)) (fresh s (Suc (drawn s))) (time_now s) (tickets s) = (rep, t)
            \<and> outcome r rep))"
  using assms
proof (cases rule: call_service_cases)
  case (lost c)
  then show ?thesis by (intro exI [of _ "tickets s"] exI [of _ "drawn s"]) simp
qed (auto simp: ep_create_ticket_def draw_def time_now_def split: prod.splits)

lemma call_create_listing [call_shapes]:
  assumes "call_service tmo (ep_create_listing b) s = (r, s')"
  shows "\<exists>t d. s' = s\<lparr>net := tl (net s), drawn := d, listings := t\<rparr>
    \<and> ((\<exists>c. r = Inl c) \<and> t = listings s
       \<or> (\<exists>rep. create_listing b (fresh s (drawn s)) (time_now s) (listings s) = (rep, t) \<and> outcome r rep))"
  using assms
proof (cases rule: call_service_cases)
  case (lost c)
  then show ?thesis by (intro exI [of _ "listings s"] exI [of _ "drawn s"]) simp
qed (auto simp: ep_create_listing_def draw_def time_now_def split: prod.splits)

lemma call_create_transfer [call_shapes]:
  assumes "call_service tmo (ep_create_transfer b) s = (r, s')"
  shows "\<exists>t d. s' = s\<lparr>net := tl (net s), drawn := d, transfers := t\<rparr>
    \<and> ((\<exists>c. r = Inl c) \<and> t = transfers s
       \<or> (\<exists>rep. create_transfer b (fresh s (drawn s)) (time_now s) (transfers s) = (rep, t) \<and> outcome r rep))"
  using assms
proof (cases rule: call_service_cases)
  case (lost c)
  then show ?thesis by (intro exI [of _ "transfers s"] exI [of _ "drawn s"]) simp
qed (auto simp: ep_create_transfer_def draw_def time_now_def split: prod.splits)

lemma call_create_txn [call_shapes]:
  assumes "call_service tmo (ep_create_txn b) s = (r, s')"
  shows "\<exists>t d. s' = s\<lparr>net := tl (net s), drawn := d, ledger := t\<rparr>
    \<and> ((\<exists>c. r = Inl c) \<and> t = ledger s
       \<or> (\<exists>rep. create_credit_transaction b (fresh s (drawn s)) (time_now s) (ledger s) = (rep, t) \<and> outcome r rep))"
  using assms
proof (cases rule: call_service_cases)
  case (lost c)
  then show ?thesis by (intro exI [of _ "ledger s"] exI [of _ "drawn s"]) simp
qed (auto simp: ep_create_txn_def draw_def time_now_def split: prod.splits)

lemma call_create_log [call_shapes]:
  assumes "call_service tmo (ep_create_log b) s = (r, s')"
  shows "\<exists>t d. s' = s\<lparr>net := tl (net s), drawn := d, logs := t\<rparr>
    \<and> ((\<exists>c. r = Inl c) \<and> t = logs s
       \<or> (\<exists>rep. create_ticket_log b (fresh s (drawn s)) (time_now s) (logs s) = (rep, t) \<and> outcome r rep))"
  using assms
proof (cases rule: call_service_cases)
  case (lost c)
  then show ?thesis by (intro exI [of _ "logs s"] exI [of _ "drawn s"]) simp
qed (auto simp: ep_create_log_def draw_def time_now_def split: prod.splits)

text \<open>The reversal route does not exist: such a call never succeeds and changes nothing.\<close>

lemma call_patch_txn [call_shapes]:
  assumes "call_service tmo (ep_patch_txn ref) s = (r, s')"
  shows "s' = s\<lparr>net := tl (net s)\<rparr> \<and> (\<exists>c. r = Inl c)"
  using assms
  by (cases rule: call_service_cases)
    (auto simp: ep_patch_txn_def patch_credit_transaction_by_reference_def)

text \<open>The gRPC operations.\<close>

lemma grpc_sell [call_shapes]:
  assumes "grpc_call (ep_SellSeat req) s = (r, s')"
  shows "\<exists>i. s' = s\<lparr>net := tl (net s), inventory := i\<rparr>
    \<and> (r = None \<and> i = inventory s \<or> (\<exists>b. SellSeat req (inventory s) = (b, i) \<and> (r = None \<or> r = Some b)))"
  using assms
proof (cases rule: grpc_call_cases)
  case lost
  then show ?thesis by (intro exI [of _ "inventory s"]) simp
qed (auto simp: ep_SellSeat_def split: prod.splits)

lemma grpc_release [call_shapes]:
  assumes "grpc_call (ep_ReleaseSeat req) s = (r, s')"
  shows "\<exists>i. s' = s\<lparr>net := tl (net s), inventory := i\<rparr>
    \<and> (r = None \<and> i = inventory s \<or> (\<exists>b. ReleaseSeat req (inventory s) = (b, i) \<and> (r = None \<or> r = Some b)))"
  using assms
proof (cases rule: grpc_call_cases)
  case lost
  then show ?thesis by (intro exI [of _ "inventory s"]) simp
qed (auto simp: ep_ReleaseSeat_def split: prod.splits)

lemma grpc_status [call_shapes]:
  assumes "grpc_call (ep_GetSeatStatus j) s = (r, s')"
  shows "\<exists>i. s' = s\<lparr>net := tl (net s), inventory := i\<rparr>
    \<and> (r = None \<and> i = inventory s \<or> (\<exists>b. GetSeatStatus j (inventory s) = (b, i) \<and> (r = None \<or> r = Some b)))"
  using assms
proof (cases rule: grpc_call_cases)
  case lost
  then show ?thesis by (intro exI [of _ "inventory s"]) simp
qed (auto simp: ep_GetSeatStatus_def split: prod.splits)

lemma grpc_hold [call_shapes]:
  assumes "grpc_call (ep_HoldSeat ctx req envs) s = (r, s')"
  shows "\<exists>i. s' = s\<lparr>net := tl (net s), inventory := i\<rparr>
    \<and> (r = None \<and> i = inventory s
       \<or> (\<exists>b. HoldSeat ctx req envs (inventory s) = (b, i) \<and> (r = None \<or> r = b)))"
  using assms
proof (cases rule: grpc_call_cases)
  case lost
  then show ?thesis by (intro exI [of _ "inventory s"]) simp
qed (auto simp: ep_HoldSeat_def split: prod.splits)

text \<open>The credit service.\<close>

lemma call_credit_get_is [call_shapes]:
  assumes "call_credit_get api u s = (r, s')"
  shows "\<exists>x. s' = s\<lparr>ext := x\<rparr> \<and> credit_get api u (ext s) = (r, x)"
  using assms by (auto simp: call_credit_get_def split: prod.splits)

lemma call_credit_patch_is [call_shapes]:
  assumes "call_credit_patch api u v s = (e, s')"
  shows "\<exists>x. s' = s\<lparr>ext := x\<rparr> \<and> credit_patch api u v (ext s) = (e, x)"
  using assms by (auto simp: call_credit_patch_def split: prod.splits)

lemma credit_get_law:
  "credit_laws bal api \<Longrightarrow> credit_get api u x = (r, x') \<Longrightarrow>
    bal x' = bal x \<and> (\<forall>d. r = Inr d \<longrightarrow> read_balance d = bal x u)"
  unfolding credit_laws_def by blast

lemma credit_patch_law:
  "credit_laws bal api \<Longrightarrow> credit_patch api u v x = (e, x') \<Longrightarrow>
    (e = None \<longrightarrow> bal x' = (bal x)(u := v)) \<and> (e \<noteq> None \<longrightarrow> bal x' = bal x \<or> bal x' = (bal x)(u := v))"
  unfolding credit_laws_def by blast

text \<open>
  What the code relies on of the external OTP service: it leaves the balances of the credit service
  alone.
\<close>

definition otp_laws :: "('x \<Rightarrow> string \<Rightarrow> 'n) \<Rightarrow> 'x otp_api \<Rightarrow> bool" where
  "otp_laws bal api \<longleftrightarrow> (\<forall>p x. bal (snd (smu_send api p x)) = bal x)
     \<and> (\<forall>sid otp x. bal (snd (smu_verify api sid otp x)) = bal x)"

lemma send_otp_ext: "send_otp api p x = (r, x') \<Longrightarrow> x' = x \<or> (\<exists>q a. smu_send api q x = (a, x'))"
  by (auto simp: send_otp_def split: option.splits prod.splits smu_sent.splits)

lemma verify_otp_ext: "verify_otp api sid otp p h (w, x) = (r, w', x') \<Longrightarrow>
    x' = x \<or> (\<exists>i c a. smu_verify api i c x = (a, x'))"
  by (auto simp: verify_otp_def Let_def split: option.splits prod.splits bool.splits smu_checked.splits if_splits)

lemma call_send_otp [call_shapes]:
  assumes "call_service tmo (ep_send_otp api p) s = (r, s')"
  shows "\<exists>x. s' = s\<lparr>net := tl (net s), ext := x\<rparr> \<and> (x = ext s \<or> (\<exists>q a. smu_send api q (ext s) = (a, x)))"
  using assms
proof (cases rule: call_service_cases)
  case (lost c)
  then show ?thesis by (intro exI [of _ "ext s"]) simp
qed (auto simp: ep_send_otp_def split: prod.splits dest!: send_otp_ext)

lemma ep_verify_otp_shape:
  assumes "ep_verify_otp api sid otp p s = (rep, s')"
  shows "\<exists>w x. s' = s\<lparr>inventory := (inventory s)\<lparr>world := w\<rparr>, ext := x\<rparr>
    \<and> (x = ext s \<or> (\<exists>i c a. smu_verify api i c (ext s) = (a, x)))"
proof -
  obtain r w x where v: "verify_otp api (Some sid) (Some otp) (Some p) None (world (inventory s), ext s) = (r, w, x)"
    by (metis prod_cases3)
  with assms have "s' = s\<lparr>inventory := (inventory s)\<lparr>world := w\<rparr>, ext := x\<rparr>"
    by (simp add: ep_verify_otp_def on_infra_def)
  with verify_otp_ext [OF v] show ?thesis by blast
qed

lemma call_verify_otp [call_shapes]:
  assumes "call_service tmo (ep_verify_otp api sid otp p) s = (r, s')"
  shows "\<exists>w x. s' = s\<lparr>net := tl (net s), inventory := (inventory s)\<lparr>world := w\<rparr>, ext := x\<rparr>
    \<and> (x = ext s \<or> (\<exists>i c a. smu_verify api i c (ext s) = (a, x)))"
  using assms
proof (cases rule: call_service_cases)
  case (lost c)
  then show ?thesis by (intro exI [of _ "world (inventory s)"] exI [of _ "ext s"]) simp
qed (use ep_verify_otp_shape [of api sid otp p "s\<lparr>net := tl (net s)\<rparr>"] in auto)

subsection \<open>An example system\<close>

text \<open>
  A credit service that keeps the balances in a function and refuses writes when told so, and a
  system with one event, one held seat, one ticket and one listing.
\<close>

definition ex_credit :: "(int, (string \<Rightarrow> int) \<times> bool) credit_api" where
  "ex_credit = \<lparr>credit_get = (\<lambda>u x. (Inr \<lparr>cd_creditBalance = Some (fst x u), cd_CreditBalance = None, cd_balance = None\<rparr>, x)),
     credit_patch = (\<lambda>u v x. if snd x then (Some ''CREDIT_DOWN'', x) else (None, ((fst x)(u := v), snd x)))\<rparr>"

lemma ex_credit_laws: "credit_laws fst ex_credit"
  by (auto simp: credit_laws_def ex_credit_def read_balance_def split: if_splits)

definition ex_event :: "int event" where
  "ex_event = \<lparr>ev_eventId = ''e1'', ev_venueId = ''v1'', ev_name = ''Gala'', ev_date = Naive 90000, ev_description = None,
     ev_type = ''concert'', ev_image = None, ev_price = 40, ev_cancelledAt = None, ev_createdAt = 0\<rparr>"

definition ex_fresh :: "nat \<Rightarrow> string" where
  "ex_fresh n = ''f'' @ replicate n CHR ''x''"

definition ex_sys :: "(int, (string \<Rightarrow> int) \<times> bool) sys" where
  "ex_sys = \<lparr>inventory = ex_held, tickets = [ex_ticket], listings = [ex_listing], transfers = [], ledger = [],
     logs = [], events = [ex_event], venues = [], places = [], users = [], net = [], ext = (\<lambda>_. 100, False),
     fresh = ex_fresh, drawn = 0, breaker_of = \<lparr>cb_failures = 0, cb_last_failure = 0, cb_open = False\<rparr>\<rparr>"

end
