(* ===== verification/PurchaseOrchestrator.thy ===== *)
theory PurchaseOrchestrator
  imports System
begin

text \<open>
  The ticket purchase orchestrator (\<^verbatim>\<open>orchestrators/ticket-purchase-orchestrator\<close>): holding and
  releasing a seat, the purchase saga with its compensations, resuming a hold, and the consumer of
  expired holds. Handlers run after \<^verbatim>\<open>require_auth\<close>, so the user's id is an argument. A failure
  that leaves a handler as an exception is answered by the framework with 500 and no error code.
\<close>

subsection \<open>Redis behind a circuit breaker\<close>

definition REDIS_CB_FAILURE_THRESHOLD :: nat where
  "REDIS_CB_FAILURE_THRESHOLD = 3"

definition REDIS_CB_RECOVERY_SECONDS :: int where
  "REDIS_CB_RECOVERY_SECONDS = 30"

definition purchase_get_redis_client :: "('n, 'x) sys \<Rightarrow> bool \<times> ('n, 'x) sys" where
  "purchase_get_redis_client s =
     (let b = breaker_of s; now = time_now s in
      if cb_open b \<and> \<not> secs REDIS_CB_RECOVERY_SECONDS < now - cb_last_failure b then (False, s)
      else
        let b1 = (if cb_open b then b\<lparr>cb_open := False, cb_failures := 0\<rparr> else b) in
        (case redis_step (world (inventory s)) of (ok, w) \<Rightarrow>
           let s1 = on_infra (\<lambda>_. w) s in
           if ok then
             (True, s1\<lparr>breaker_of := (if 0 < cb_failures b1 then b1\<lparr>cb_failures := 0, cb_open := False\<rparr> else b1)\<rparr>)
           else
             (False, s1\<lparr>breaker_of := b1\<lparr>cb_failures := Suc (cb_failures b1), cb_last_failure := now,
                cb_open := (REDIS_CB_FAILURE_THRESHOLD \<le> Suc (cb_failures b1) \<or> cb_open b1)\<rparr>\<rparr>)))"

text \<open>
  The cached hold as the JSON object the code reads; a field that is missing is empty. A value that
  is no JSON object is no hold.
\<close>

fun payload_of :: "rval \<Rightarrow> hold_payload option" where
  "payload_of (RHold p) = Some p"
| "payload_of (RResult b) =
     Some \<lparr>hp_status = [], hp_heldByUserId = [], hp_holdToken = [], hp_heldUntil = TEmpty\<rparr>"
| "payload_of (RText t) = None"
| "payload_of (RCount n) = None"
| "payload_of (RLock t e) = None"

definition get_cached_hold :: "string \<Rightarrow> ('n, 'x) sys \<Rightarrow> hold_payload option \<times> ('n, 'x) sys" where
  "get_cached_hold inv_id s =
     (case purchase_get_redis_client s of
        (False, s1) \<Rightarrow> (None, s1)
      | (True, s1) \<Rightarrow>
          (case redis_step (world (inventory s1)) of
             (False, w) \<Rightarrow> (None, on_infra (\<lambda>_. w) s1)
           | (True, w) \<Rightarrow>
               ((case redis_live (hold_key inv_id) w of None \<Rightarrow> None | Some v \<Rightarrow> payload_of v),
                on_infra (\<lambda>_. w) s1)))"

subsection \<open>Holding and releasing\<close>

fun parse_timestamp :: "tstext \<Rightarrow> int option" where
  "parse_timestamp TEmpty = None"
| "parse_timestamp TBad = None"
| "parse_timestamp (TIso d) = Some (utc_instant d)"

text \<open>The error answer for a seat that is not validly held, None if it is.\<close>

definition validate_hold_state :: "int \<Rightarrow> string \<Rightarrow> tstext \<Rightarrow> (nat \<times> string) option" where
  "validate_hold_state now st until =
     (if st \<noteq> ''held'' then
        (if st = ''available'' then Some (410, ''PAYMENT_HOLD_EXPIRED'') else Some (409, ''SEAT_UNAVAILABLE''))
      else case parse_timestamp until of
             None \<Rightarrow> None
           | Some t \<Rightarrow> if t < now then Some (410, ''PAYMENT_HOLD_EXPIRED'') else None)"

definition HOLD_SECONDS :: int where
  "HOLD_SECONDS = 300"

definition publish_hold_ttl :: "string \<Rightarrow> string \<Rightarrow> string \<Rightarrow> infra \<Rightarrow> infra" where
  "publish_hold_ttl inv_id user tok w = publish_retry 3 ''seat_hold_ttl_queue'' (HoldTtl inv_id user tok) w"

record hold_answer =
  ha_inventoryId :: string
  ha_status :: string
  ha_heldUntil :: tstext
  ha_holdToken :: string

definition hold_seat ::
  "bool \<Rightarrow> attempt_env list \<Rightarrow> string \<Rightarrow> string \<Rightarrow> ('n, 'x) sys \<Rightarrow> hold_answer reply \<times> ('n, 'x) sys" where
  "hold_seat ctx envs user inv_id s =
     (case grpc_call (ep_HoldSeat ctx \<lparr>hr_inventory_id = inv_id, hr_user_id = user,
               hr_hold_duration_seconds = HOLD_SECONDS\<rparr> envs) s of
        (None, s1) \<Rightarrow> (Fail 503 UNAVAILABLE, s1)
      | (Some resp, s1) \<Rightarrow>
          if \<not> hold_success resp then
            let code = (if error_code resp \<noteq> [] then error_code resp else ''SEAT_UNAVAILABLE'')
            in (Fail (if code = ''INVENTORY_NOT_FOUND'' then 404 else 409) code, s1)
          else
            (Done 200 \<lparr>ha_inventoryId = inv_id, ha_status = ''held'', ha_heldUntil = held_until resp,
                ha_holdToken = hold_token resp\<rparr>,
             on_infra (publish_hold_ttl inv_id user (hold_token resp)) s1))"

text \<open>
  A refused release is answered with \<^verbatim>\<open>resp.error_code\<close>, but the release response has no such
  field: the access raises AttributeError.
\<close>

definition release_hold ::
  "string \<Rightarrow> string option \<Rightarrow> string \<Rightarrow> ('n, 'x) sys \<Rightarrow> string reply \<times> ('n, 'x) sys" where
  "release_hold user tok inv_id s =
     (case grpc_call (ep_ReleaseSeat \<lparr>sr_inventory_id = inv_id, sr_user_id = user,
               sr_hold_token = or_empty tok\<rparr>) s of
        (None, s1) \<Rightarrow> (Fail 503 UNAVAILABLE, s1)
      | (Some ok, s1) \<Rightarrow> if \<not> ok then (unhandled, s1) else (Done 200 ''available'', s1))"

text \<open>
  The consumer of \<^verbatim>\<open>seat_hold_expired_queue\<close> on one message, whose missing fields are empty: True
  if it acknowledges the message, False if it drops it.
\<close>

definition on_expired ::
  "string option \<Rightarrow> string option \<Rightarrow> string option \<Rightarrow> ('n, 'x) sys \<Rightarrow> bool \<times> ('n, 'x) sys" where
  "on_expired inv_id user tok s =
     (case grpc_call (ep_ReleaseSeat \<lparr>sr_inventory_id = or_empty inv_id, sr_user_id = or_empty user,
               sr_hold_token = or_empty tok\<rparr>) s of
        (None, s1) \<Rightarrow> (False, s1)
      | (Some ok, s1) \<Rightarrow> (True, s1))"

subsection \<open>The purchase saga\<close>

record purchase_body =
  pb_eventId :: "string option"
  pb_holdToken :: "string option"

record 'n purchase_answer =
  pa_ticketId :: string
  pa_eventId :: string
  pa_venueId :: string
  pa_inventoryId :: string
  pa_price :: 'n
  pa_status :: string
  pa_createdAt :: int

text \<open>Step 1: is the seat still held? Redis answers if it has the hold, the service otherwise.\<close>

definition confirm_check ::
  "string \<Rightarrow> string \<Rightarrow> string \<Rightarrow> ('n, 'x) sys \<Rightarrow> (nat \<times> string) option \<times> ('n, 'x) sys" where
  "confirm_check user tok inv_id s =
     (case get_cached_hold inv_id s of
        (Some p, s1) \<Rightarrow>
          if hp_heldByUserId p \<noteq> [] \<and> hp_heldByUserId p \<noteq> user then (Some (409, ''SEAT_UNAVAILABLE''), s1)
          else if tok \<noteq> [] \<and> hp_holdToken p \<noteq> [] \<and> hp_holdToken p \<noteq> tok then
            (Some (409, ''SEAT_UNAVAILABLE''), s1)
          else (validate_hold_state (time_now s1) (hp_status p) (hp_heldUntil p), s1)
      | (None, s1) \<Rightarrow>
          (case grpc_call (ep_GetSeatStatus inv_id) s1 of
             (None, s2) \<Rightarrow> (Some (503, UNAVAILABLE), s2)
           | (Some r, s2) \<Rightarrow> (validate_hold_state (time_now s2) (st_status r) (st_held_until r), s2)))"

text \<open>
  Step 2: the price of the event and the buyer's balance, if it suffices.
\<close>

definition confirm_funds ::
  "('n::{zero,ord}, 'x) credit_api \<Rightarrow> string \<Rightarrow> string \<Rightarrow> ('n, 'x) sys
    \<Rightarrow> ((nat \<times> string) + 'n event \<times> 'n) \<times> ('n, 'x) sys" where
  "confirm_funds api user event_id s =
     (case call_service UNAVAILABLE (ep_read (\<lambda>s. get_event event_id (events s))) s of
        (Inl e, s1) \<Rightarrow> (Inl (503, UNAVAILABLE), s1)
      | (Inr ev, s1) \<Rightarrow>
          (case call_credit_get api user s1 of
             (Inl e, s2) \<Rightarrow> (Inl (503, UNAVAILABLE), s2)
           | (Inr d, s2) \<Rightarrow>
               if read_balance d < ev_price ev then (Inl (402, ''INSUFFICIENT_CREDITS''), s2)
               else (Inr (ev, read_balance d), s2)))"

text \<open>The compensation of a failed deduction.\<close>

definition deduction_failed :: "string \<Rightarrow> seat_request \<Rightarrow> string \<Rightarrow> ('n, 'x) sys \<Rightarrow> ('n, 'x) sys" where
  "deduction_failed user req ticket_id s =
     (case call_service UNAVAILABLE (ep_update_ticket ticket_id [TkStatus (Some ''payment_failed'')]) s of
        (patched, s1) \<Rightarrow>
          (case grpc_call (ep_ReleaseSeat req) s1 of
             (released, s2) \<Rightarrow>
               if isl patched \<or> released = None then
                 on_infra (\<lambda>w. snd (mq_publish ''purchase_compensation_dlq''
                   (PurchaseCompensationFailed ticket_id (sr_inventory_id req) user) w)) s2
               else s2))"

text \<open>Steps 5 and 6: the deduction and the entry in the ledger.\<close>

definition confirm_payment ::
  "('n::{minus,uminus}, 'x) credit_api \<Rightarrow> string \<Rightarrow> seat_request \<Rightarrow> string \<Rightarrow> 'n event \<Rightarrow> 'n \<Rightarrow> 'n ticket
    \<Rightarrow> ('n, 'x) sys \<Rightarrow> 'n purchase_answer reply \<times> ('n, 'x) sys" where
  "confirm_payment api user req event_id ev balance k s =
     (case call_credit_patch api user (balance - ev_price ev) s of
        (Some e, s1) \<Rightarrow> (Fail 500 ''CREDIT_DEDUCTION_FAILED'', deduction_failed user req (ticketId k) s1)
      | (None, s1) \<Rightarrow>
          (Done 201 \<lparr>pa_ticketId = ticketId k, pa_eventId = event_id, pa_venueId = ev_venueId ev,
              pa_inventoryId = sr_inventory_id req, pa_price = ev_price ev, pa_status = ''active'',
              pa_createdAt = tk_createdAt k\<rparr>,
           snd (call_service UNAVAILABLE (ep_create_txn \<lparr>xb_userId = Some (Some user),
              xb_delta = Some (Some (- ev_price ev)), xb_reason = Some (Some ''ticket_purchase''),
              xb_referenceId = Some (ticketId k)\<rparr>) s1)))"

text \<open>Steps 3 and 4: the sale, and the ticket with its compensation.\<close>

definition confirm_sale ::
  "('n::{minus,uminus}, 'x) credit_api \<Rightarrow> string \<Rightarrow> seat_request \<Rightarrow> string \<Rightarrow> 'n event \<Rightarrow> 'n
    \<Rightarrow> ('n, 'x) sys \<Rightarrow> 'n purchase_answer reply \<times> ('n, 'x) sys" where
  "confirm_sale api user req event_id ev balance s =
     (case grpc_call (ep_SellSeat req) s of
        (None, s1) \<Rightarrow> (Fail 503 UNAVAILABLE, s1)
      | (Some ok, s1) \<Rightarrow>
          if \<not> ok then (Fail 409 ''SEAT_UNAVAILABLE'', s1)
          else
            (case call_service UNAVAILABLE (ep_create_ticket \<lparr>tb_inventoryId = Some (Some (sr_inventory_id req)),
                tb_ownerId = Some (Some user), tb_venueId = Some (Some (ev_venueId ev)),
                tb_eventId = Some (Some event_id), tb_price = Some (Some (ev_price ev)),
                tb_status = Some (Some ''active'')\<rparr>) s1 of
               (Inl e, s2) \<Rightarrow> (Fail 500 ''INTERNAL_ERROR'', snd (grpc_call (ep_ReleaseSeat req) s2))
             | (Inr k, s2) \<Rightarrow> confirm_payment api user req event_id ev balance k s2))"

definition confirm_purchase ::
  "('n::{zero,ord,minus,uminus}, 'x) credit_api \<Rightarrow> string \<Rightarrow> purchase_body \<Rightarrow> string
    \<Rightarrow> ('n, 'x) sys \<Rightarrow> 'n purchase_answer reply \<times> ('n, 'x) sys" where
  "confirm_purchase api user body inv_id s =
     (let tok = or_empty (pb_holdToken body) in
      if \<not> truthy (pb_eventId body) then (Fail 400 ''VALIDATION_ERROR'', s)
      else (case confirm_check user tok inv_id s of
        (Some (st, c), s1) \<Rightarrow> (Fail st c, s1)
      | (None, s1) \<Rightarrow>
          (case confirm_funds api user (the (pb_eventId body)) s1 of
             (Inl (st, c), s2) \<Rightarrow> (Fail st c, s2)
           | (Inr (ev, balance), s2) \<Rightarrow>
               confirm_sale api user \<lparr>sr_inventory_id = inv_id, sr_user_id = user, sr_hold_token = tok\<rparr>
                 (the (pb_eventId body)) ev balance s2)))"

subsection \<open>Resuming a hold\<close>

record 'n resume_answer =
  ra_inventoryId :: string
  ra_holdToken :: "string option"
  ra_heldUntil :: tstext
  ra_seatId :: string
  ra_rowNumber :: "string option"
  ra_seatNumber :: "string option"
  ra_price :: "'n option"
  ra_name :: "string option"
  ra_date :: "datetime option"
  ra_image :: "string option"

text \<open>The event's JSON has no venue, so the venue's name in the answer is always null.\<close>

definition resume_hold :: "string \<Rightarrow> string \<Rightarrow> ('n, 'x) sys \<Rightarrow> 'n resume_answer reply \<times> ('n, 'x) sys" where
  "resume_hold user event_id s =
     (case call_service UNAVAILABLE (ep_read (\<lambda>s. get_my_hold event_id (Some user) (seats (inventory s)))) s of
        (Inl e, s1) \<Rightarrow> (if e = ''NOT_FOUND'' then Fail 404 ''NOT_FOUND'' else Fail 503 UNAVAILABLE, s1)
      | (Inr h, s1) \<Rightarrow>
          (case call_service UNAVAILABLE (ep_read (\<lambda>s. get_seat_by_id (seatId h) (places s))) s1 of
             (seat_data, s2) \<Rightarrow>
               (case call_service UNAVAILABLE (ep_read (\<lambda>s. get_event event_id (events s))) s2 of
                  (event_data, s3) \<Rightarrow>
                    let place = (case seat_data of Inl e \<Rightarrow> None | Inr p \<Rightarrow> Some p);
                        ev = (case event_data of Inl e \<Rightarrow> None | Inr v \<Rightarrow> Some v)
                    in (Done 200 \<lparr>ra_inventoryId = inventoryId h, ra_holdToken = holdToken h,
                          ra_heldUntil = iso (heldUntil h), ra_seatId = seatId h,
                          ra_rowNumber = map_option pl_rowNumber place,
                          ra_seatNumber = map_option pl_seatNumber place,
                          ra_price = map_option ev_price ev, ra_name = map_option ev_name ev,
                          ra_date = map_option ev_date ev, ra_image = map_option event_image ev\<rparr>, s3))))"

subsection \<open>What each step leaves behind\<close>

lemma purchase_get_redis_client_frame:
  assumes "purchase_get_redis_client s = (ok, s')"
  shows "same_books s s' \<and> seats (inventory s') = seats (inventory s) \<and> net s' = net s \<and> time_now s' = time_now s
    \<and> redis (world (inventory s')) = redis (world (inventory s))"
  using assms
  by (auto simp: purchase_get_redis_client_def Let_def same_books_def on_infra_def time_now_def redis_step_frame
      split: if_splits prod.splits)

lemma get_cached_hold_frame:
  assumes "get_cached_hold j s = (r, s')"
  shows "same_books s s' \<and> seats (inventory s') = seats (inventory s) \<and> net s' = net s \<and> time_now s' = time_now s
    \<and> (\<forall>p. r = Some p \<longrightarrow> (\<exists>v. redis_live (hold_key j) (world (inventory s)) = Some v \<and> payload_of v = Some p))"
proof -
  obtain ok s1 where c: "purchase_get_redis_client s = (ok, s1)" by fastforce
  note f = purchase_get_redis_client_frame [OF c]
  have l: "redis_live k (world (inventory s1)) = redis_live k (world (inventory s))" for k
    using f by (simp add: redis_live_def time_now_def split: option.splits)
  show ?thesis
  proof (cases ok)
    case True
    obtain b w where st: "redis_step (world (inventory s1)) = (b, w)" by fastforce
    with assms c True f show ?thesis
      by (cases b) (auto simp: get_cached_hold_def same_books_def on_infra_def time_now_def redis_step_frame
          redis_live_step [OF st] l split: option.splits)
  qed (use assms c f in \<open>auto simp: get_cached_hold_def\<close>)
qed

lemma GetSeatStatus_view:
  assumes "GetSeatStatus j i = (resp, i')"
  shows "seat_view m i' = seat_view m i \<or> (m = j \<and> seat_view m i' = Some VFree)"
  using GetSeatStatus_effect [OF assms]
  by (cases "m = j") (auto simp: seat_view_def seat_table.get_upd)

text \<open>The check of a hold can only make a lapsed hold of that seat free.\<close>

lemma confirm_check_frame:
  assumes "confirm_check user tok j s = (r, s')"
  shows "same_books s s' \<and> (\<forall>m. sview m s' = sview m s \<or> (m = j \<and> sview m s' = Some VFree))"
proof -
  obtain c s1 where g: "get_cached_hold j s = (c, s1)" by fastforce
  note f = get_cached_hold_frame [OF g]
  show ?thesis
  proof (cases c)
    case (Some p)
    with assms g f show ?thesis
      by (auto simp: confirm_check_def sview_def seat_view_def split: if_splits)
  next
    case None
    obtain q s2 where q: "grpc_call (ep_GetSeatStatus j) s1 = (q, s2)" by fastforce
    from grpc_status [OF q] obtain i where s2: "s2 = s1\<lparr>net := tl (net s1), inventory := i\<rparr>"
      and i: "i = inventory s1 \<or> (\<exists>b. GetSeatStatus j (inventory s1) = (b, i))" by blast
    have s': "s' = s2" using assms g None q by (simp add: confirm_check_def split: option.splits)
    have v: "seat_view m (inventory s1) = seat_view m (inventory s)" for m
      using f by (simp add: seat_view_def)
    have "seat_view m i = seat_view m (inventory s1) \<or> (m = j \<and> seat_view m i = Some VFree)" for m
      using i GetSeatStatus_view by blast
    then have "\<forall>m. sview m s' = sview m s \<or> (m = j \<and> sview m s' = Some VFree)"
      unfolding s' s2 sview_def by (simp add: v)
    moreover have "same_books s s'" unfolding s' s2 using f by (simp add: same_books_def)
    ultimately show ?thesis by blast
  qed
qed

lemma confirm_funds_frame:
  assumes "confirm_funds api user eid s = (r, s')"
  shows "same_books s (s'\<lparr>ext := ext s\<rparr>) \<and> inventory s' = inventory s
    \<and> (ext s' = ext s \<or> (\<exists>a. credit_get api user (ext s) = (a, ext s')))
    \<and> (\<forall>ev b. r = Inr (ev, b) \<longrightarrow> row_get ev_eventId eid (events s) = Some ev \<and> \<not> b < ev_price ev
         \<and> (\<exists>d. credit_get api user (ext s) = (Inr d, ext s') \<and> b = read_balance d))"
  using assms
  by (auto simp: confirm_funds_def same_books_def get_event_def split: prod.splits sum.splits if_splits option.splits
      dest!: call_read call_credit_get_is)

text \<open>The compensation of a failed deduction changes neither the balances nor any ticket.\<close>

lemma payment_failed_refused:
  "snd (update_ticket tid [TkStatus (Some ''payment_failed'')] rows) = rows
    \<and> \<not> is_done (fst (update_ticket tid [TkStatus (Some ''payment_failed'')] rows))"
  using update_ticket_bad_status [of "''payment_failed''" "[TkStatus (Some ''payment_failed'')]"]
  by (simp add: ticket_ALLOWED_STATUS_VALUES_def)

lemma call_payment_failed:
  assumes "call_service tmo (ep_update_ticket tid [TkStatus (Some ''payment_failed'')]) s = (r, s')"
  shows "s' = s\<lparr>net := tl (net s)\<rparr> \<and> (\<exists>c. r = Inl c)"
  using call_update_ticket [OF assms] payment_failed_refused [of tid "tickets s"]
  by (cases r) (auto simp: outcome_def)

lemma grpc_release_view:
  assumes "grpc_call (ep_ReleaseSeat req) s = (r, s')"
  shows "same_books s s' \<and> (sview j s = Some VSold \<longrightarrow> sview j s' = Some VSold)"
  using grpc_release [OF assms] seat_rpc.release_keeps_sold
  by (auto simp: same_books_def sview_def)

lemma deduction_failed_frame:
  "same_books s (deduction_failed user req tid s)
    \<and> (sview j s = Some VSold \<longrightarrow> sview j (deduction_failed user req tid s) = Some VSold)"
proof -
  obtain r1 s1 where c1: "call_service UNAVAILABLE (ep_update_ticket tid [TkStatus (Some ''payment_failed'')]) s = (r1, s1)"
    by fastforce
  obtain r2 s2 where c2: "grpc_call (ep_ReleaseSeat req) s1 = (r2, s2)" by fastforce
  from call_payment_failed [OF c1] grpc_release_view [OF c2, of j]
  have "same_books s s2 \<and> (sview j s = Some VSold \<longrightarrow> sview j s2 = Some VSold)"
    by (auto simp: same_books_def sview_def)
  moreover have "same_books s2 (on_infra f s2)" for f by simp
  ultimately show ?thesis
    using c1 c2 by (auto simp: deduction_failed_def intro: same_books_trans)
qed

text \<open>The entry that a purchase writes to the ledger.\<close>

definition purchase_entry :: "string \<Rightarrow> 'n::uminus \<Rightarrow> string \<Rightarrow> 'n credit_txn \<Rightarrow> bool" where
  "purchase_entry user price tid x \<longleftrightarrow> ct_userId x = user \<and> ct_delta x = - price
     \<and> ct_reason x = ''ticket_purchase'' \<and> ct_referenceId x = Some tid"

lemma call_purchase_entry:
  assumes "call_service tmo (ep_create_txn \<lparr>xb_userId = Some (Some user), xb_delta = Some (Some (- price)),
      xb_reason = Some (Some ''ticket_purchase''), xb_referenceId = Some tid\<rparr>) s = (r, s')"
  shows "tickets s' = tickets s \<and> inventory s' = inventory s \<and> ext s' = ext s
    \<and> (ledger s' = ledger s \<or> (\<exists>x. ledger s' = ledger s @ [x] \<and> purchase_entry user price tid x))"
  using call_create_txn [OF assms]
  by (auto simp: purchase_entry_def create_credit_transaction_def Let_def split: if_splits)

lemma confirm_payment_result:
  assumes "confirm_payment api user req eid ev b k s = (rep, s')"
  shows "(rep = Fail 500 ''CREDIT_DEDUCTION_FAILED'' \<and> tickets s' = tickets s \<and> ledger s' = ledger s
        \<and> (\<forall>j. sview j s = Some VSold \<longrightarrow> sview j s' = Some VSold)
        \<and> (\<exists>e. credit_patch api user (b - ev_price ev) (ext s) = (Some e, ext s')))
    \<or> ((\<exists>a. rep = Done 201 a \<and> pa_ticketId a = ticketId k) \<and> tickets s' = tickets s \<and> inventory s' = inventory s
        \<and> (ledger s' = ledger s \<or> (\<exists>x. ledger s' = ledger s @ [x] \<and> purchase_entry user (ev_price ev) (ticketId k) x))
        \<and> credit_patch api user (b - ev_price ev) (ext s) = (None, ext s'))"
proof -
  obtain e s1 where c: "call_credit_patch api user (b - ev_price ev) s = (e, s1)" by fastforce
  from call_credit_patch_is [OF c] obtain x where s1: "s1 = s\<lparr>ext := x\<rparr>"
    and x: "credit_patch api user (b - ev_price ev) (ext s) = (e, x)" by blast
  show ?thesis
  proof (cases e)
    case (Some err)
    with assms c have "rep = Fail 500 ''CREDIT_DEDUCTION_FAILED''" and s': "s' = deduction_failed user req (ticketId k) s1"
      by (simp_all add: confirm_payment_def)
    with deduction_failed_frame [of s1 user req "ticketId k"] s1 x Some show ?thesis
      by (simp add: same_books_def sview_def)
  next
    case None
    with assms c obtain r where r: "call_service UNAVAILABLE (ep_create_txn \<lparr>xb_userId = Some (Some user),
              xb_delta = Some (Some (- ev_price ev)), xb_reason = Some (Some ''ticket_purchase''),
              xb_referenceId = Some (ticketId k)\<rparr>) s1 = (r, s')"
      by (auto simp: confirm_payment_def) (metis prod.collapse)
    from call_purchase_entry [OF r] assms c None s1 x show ?thesis
      by (auto simp: confirm_payment_def)
  qed
qed

text \<open>The ticket that a purchase creates.\<close>

definition bought_ticket :: "string \<Rightarrow> string \<Rightarrow> string \<Rightarrow> 'n event \<Rightarrow> 'n ticket \<Rightarrow> bool" where
  "bought_ticket user inv_id eid ev k \<longleftrightarrow> tk_ownerId k = user \<and> tk_inventoryId k = inv_id \<and> tk_eventId k = eid
     \<and> tk_venueId k = ev_venueId ev \<and> tk_price k = ev_price ev \<and> tk_status k = ''active''"

lemma call_bought_ticket:
  assumes "call_service tmo (ep_create_ticket \<lparr>tb_inventoryId = Some (Some i), tb_ownerId = Some (Some user),
      tb_venueId = Some (Some (ev_venueId ev)), tb_eventId = Some (Some eid), tb_price = Some (Some (ev_price ev)),
      tb_status = Some (Some ''active'')\<rparr>) s = (r, s')"
  shows "inventory s' = inventory s \<and> ledger s' = ledger s \<and> ext s' = ext s
    \<and> ((\<exists>c. r = Inl c) \<and> tickets s' = tickets s
       \<or> (\<exists>k. tickets s' = tickets s @ [k] \<and> bought_ticket user i eid ev k \<and> (r = Inr k \<or> (\<exists>c. r = Inl c))))"
proof -
  from call_create_ticket [OF assms] obtain t d where s': "s' = s\<lparr>net := tl (net s), drawn := d, tickets := t\<rparr>"
    and t: "(\<exists>c. r = Inl c) \<and> t = tickets s \<or> (\<exists>rep. create_ticket \<lparr>tb_inventoryId = Some (Some i),
      tb_ownerId = Some (Some user), tb_venueId = Some (Some (ev_venueId ev)), tb_eventId = Some (Some eid),
      tb_price = Some (Some (ev_price ev)), tb_status = Some (Some ''active'')\<rparr>
      (fresh s (drawn s)) (fresh s (Suc (drawn s))) (time_now s) (tickets s) = (rep, t) \<and> outcome r rep)" by blast
  from t have "(\<exists>c. r = Inl c) \<and> t = tickets s
      \<or> (\<exists>k. t = tickets s @ [k] \<and> bought_ticket user i eid ev k \<and> (r = Inr k \<or> (\<exists>c. r = Inl c)))"
    by (cases r) (auto dest!: create_ticket_full dest: outcome_done simp: bought_ticket_def)
  with s' show ?thesis by simp
qed

lemma SellSeat_view:
  assumes "SellSeat req i = (b, i')"
  shows "(\<forall>j. seat_view j i' = seat_view j i \<or> (j = sr_inventory_id req \<and> seat_view j i' = Some VSold))
    \<and> (b \<longrightarrow> seat_view (sr_inventory_id req) i' = Some VSold
         \<and> (\<exists>d. seat_view (sr_inventory_id req) i = Some (VHeld (sr_user_id req) (sr_hold_token req) d)))
    \<and> (\<not> b \<longrightarrow> i' = i)"
  using seat_rpc.sell_law [OF assms] SellSeat_effect [OF assms] by (simp split: if_splits) blast

lemma grpc_sell_view:
  assumes "grpc_call (ep_SellSeat req) s = (r, s')"
  shows "same_books s s'
    \<and> (\<forall>j. sview j s' = sview j s \<or> (j = sr_inventory_id req \<and> sview j s' = Some VSold))
    \<and> (r = Some True \<longrightarrow> sview (sr_inventory_id req) s' = Some VSold
         \<and> (\<exists>d. sview (sr_inventory_id req) s = Some (VHeld (sr_user_id req) (sr_hold_token req) d)))
    \<and> (r = Some False \<longrightarrow> inventory s' = inventory s)"
  using grpc_sell [OF assms] by (auto simp: same_books_def sview_def dest!: SellSeat_view)

text \<open>
  The whole saga on a request that reached the sale: what the sale and the steps after it did.
\<close>

lemma confirm_sale_result:
  assumes "confirm_sale api user req eid ev b s = (rep, s')"
  shows "(\<exists>st c. rep = Fail st c \<and> st \<in> {409, 503} \<and> same_books s s'
        \<and> (\<forall>j. sview j s' = sview j s \<or> (st = 503 \<and> j = sr_inventory_id req \<and> sview j s' = Some VSold)))
    \<or> (sview (sr_inventory_id req) s' = Some VSold
        \<and> (\<exists>d. sview (sr_inventory_id req) s = Some (VHeld (sr_user_id req) (sr_hold_token req) d))
        \<and> ((rep = Fail 500 ''INTERNAL_ERROR'' \<and> ext s' = ext s \<and> ledger s' = ledger s)
          \<or> (\<exists>k. tickets s' = tickets s @ [k] \<and> bought_ticket user (sr_inventory_id req) eid ev k
             \<and> ((rep = Fail 500 ''CREDIT_DEDUCTION_FAILED'' \<and> ledger s' = ledger s
                  \<and> (\<exists>e. credit_patch api user (b - ev_price ev) (ext s) = (Some e, ext s')))
               \<or> ((\<exists>a. rep = Done 201 a \<and> pa_ticketId a = ticketId k)
                  \<and> (\<forall>j. j \<noteq> sr_inventory_id req \<longrightarrow> sview j s' = sview j s)
                  \<and> (ledger s' = ledger s
                     \<or> (\<exists>x. ledger s' = ledger s @ [x] \<and> purchase_entry user (ev_price ev) (ticketId k) x))
                  \<and> credit_patch api user (b - ev_price ev) (ext s) = (None, ext s'))))))"
proof -
  obtain r s1 where c1: "grpc_call (ep_SellSeat req) s = (r, s1)" by fastforce
  note v1 = grpc_sell_view [OF c1]
  show ?thesis
  proof (cases "r = Some True")
    case False
    with assms c1 v1 show ?thesis
      by (cases r) (auto simp: confirm_sale_def sview_def)
  next
    case True
    let ?body = "\<lparr>tb_inventoryId = Some (Some (sr_inventory_id req)), tb_ownerId = Some (Some user),
      tb_venueId = Some (Some (ev_venueId ev)), tb_eventId = Some (Some eid),
      tb_price = Some (Some (ev_price ev)), tb_status = Some (Some ''active'')\<rparr>"
    obtain q s2 where c2: "call_service UNAVAILABLE (ep_create_ticket ?body) s1 = (q, s2)" by fastforce
    note v2 = call_bought_ticket [OF c2]
    show ?thesis
    proof (cases q)
      case (Inl e)
      obtain r3 s3 where c3: "grpc_call (ep_ReleaseSeat req) s2 = (r3, s3)" by fastforce
      with assms c1 c2 True Inl have "rep = Fail 500 ''INTERNAL_ERROR''" "s' = s3"
        by (simp_all add: confirm_sale_def)
      with v1 v2 True grpc_release_view [OF c3, of "sr_inventory_id req"] show ?thesis
        by (simp add: sview_def same_books_def)
    next
      case (Inr k)
      with assms c1 c2 True have "confirm_payment api user req eid ev b k s2 = (rep, s')"
        by (simp add: confirm_sale_def)
      from confirm_payment_result [OF this] v1 v2 True Inr show ?thesis
        by (auto simp: sview_def same_books_def)
    qed
  qed
qed

lemma confirm_sale_success:
  assumes "confirm_sale api user req eid ev b s = (Done st a, s')"
  shows "\<exists>k d. sview (sr_inventory_id req) s' = Some VSold
    \<and> sview (sr_inventory_id req) s = Some (VHeld (sr_user_id req) (sr_hold_token req) d)
    \<and> (\<forall>j. j \<noteq> sr_inventory_id req \<longrightarrow> sview j s' = sview j s)
    \<and> tickets s' = tickets s @ [k] \<and> bought_ticket user (sr_inventory_id req) eid ev k \<and> pa_ticketId a = ticketId k
    \<and> (ledger s' = ledger s \<or> (\<exists>x. ledger s' = ledger s @ [x] \<and> purchase_entry user (ev_price ev) (ticketId k) x))
    \<and> credit_patch api user (b - ev_price ev) (ext s) = (None, ext s')"
  using confirm_sale_result [OF assms] by simp blast

lemma confirm_sale_failed:
  assumes "confirm_sale api user req eid ev b s = (Fail 500 c, s')"
  shows "\<exists>d. sview (sr_inventory_id req) s' = Some VSold
    \<and> sview (sr_inventory_id req) s = Some (VHeld (sr_user_id req) (sr_hold_token req) d)
    \<and> (c = ''INTERNAL_ERROR'' \<or> (\<exists>k e. tickets s' = tickets s @ [k] \<and> bought_ticket user (sr_inventory_id req) eid ev k
        \<and> ledger s' = ledger s \<and> credit_patch api user (b - ev_price ev) (ext s) = (Some e, ext s')))"
  using confirm_sale_result [OF assms] by simp blast

lemma confirm_sale_refused:
  assumes "confirm_sale api user req eid ev b s = (Fail st c, s')" and "st \<noteq> 500" and "st \<noteq> 503"
  shows "same_books s s' \<and> (\<forall>j. sview j s' = sview j s)"
  using confirm_sale_result [OF assms(1)] assms(2,3) by simp

text \<open>A request ends before the sale, or it reaches the sale with the price and the balance known.\<close>

lemma confirm_purchase_cases:
  assumes "confirm_purchase api user body i s = (rep, s')"
  obtains (early) st c where "rep = Fail st c" and "same_books s (s'\<lparr>ext := ext s\<rparr>)"
      and "ext s' = ext s \<or> (\<exists>a. credit_get api user (ext s) = (a, ext s'))"
      and "\<forall>m. sview m s' = sview m s \<or> (m = i \<and> sview m s' = Some VFree)"
      and "st \<in> {400, 402, 409, 410, 503}"
  | (sale) s2 eid ev d where "pb_eventId body = Some eid" and "same_books s (s2\<lparr>ext := ext s\<rparr>)"
      and "\<forall>m. sview m s2 = sview m s \<or> (m = i \<and> sview m s2 = Some VFree)"
      and "row_get ev_eventId eid (events s) = Some ev" and "\<not> read_balance d < ev_price ev"
      and "credit_get api user (ext s) = (Inr d, ext s2)"
      and "confirm_sale api user \<lparr>sr_inventory_id = i, sr_user_id = user,
             sr_hold_token = or_empty (pb_holdToken body)\<rparr> eid ev (read_balance d) s2 = (rep, s')"
proof (cases "truthy (pb_eventId body)")
  case False
  with assms have "rep = Fail 400 ''VALIDATION_ERROR''" "s' = s" by (simp_all add: confirm_purchase_def)
  then show ?thesis using early [of 400] by (simp add: same_books_def)
next
  case True
  then obtain eid where eid: "pb_eventId body = Some eid" by (auto simp: truthy_iff)
  obtain r1 s1 where c1: "confirm_check user (or_empty (pb_holdToken body)) i s = (r1, s1)" by fastforce
  note f1 = confirm_check_frame [OF c1]
  show ?thesis
  proof (cases r1)
    case (Some e)
    then obtain st c where e: "r1 = Some (st, c)" by (cases e) auto
    with assms True c1 have "rep = Fail st c" "s' = s1" by (simp_all add: confirm_purchase_def)
    moreover have "st \<in> {409, 410, 503}"
      using c1 e by (auto simp: confirm_check_def validate_hold_state_def split: prod.splits option.splits if_splits)
    ultimately show ?thesis using early [of st c] f1 by (auto simp: same_books_def)
  next
    case None
    obtain r2 s2 where c2: "confirm_funds api user eid s1 = (r2, s2)" by fastforce
    note f2 = confirm_funds_frame [OF c2]
    have view: "\<forall>m. sview m s2 = sview m s \<or> (m = i \<and> sview m s2 = Some VFree)"
      using f1 f2 by (simp add: sview_def)
    have books: "same_books s (s2\<lparr>ext := ext s\<rparr>)" using f1 f2 by (simp add: same_books_def)
    show ?thesis
    proof (cases r2)
      case (Inl e)
      then obtain st c where e: "r2 = Inl (st, c)" by (cases e) auto
      with assms True c1 c2 None eid have "rep = Fail st c" "s' = s2" by (simp_all add: confirm_purchase_def)
      moreover have "st \<in> {402, 503}"
        using c2 e by (auto simp: confirm_funds_def split: prod.splits sum.splits if_splits)
      ultimately show ?thesis using early [of st c] f1 f2 view books by (auto simp: same_books_def)
    next
      case (Inr eb)
      then obtain ev b where eb: "r2 = Inr (ev, b)" by (cases eb) auto
      with assms True c1 c2 None eid have "confirm_sale api user \<lparr>sr_inventory_id = i, sr_user_id = user,
             sr_hold_token = or_empty (pb_holdToken body)\<rparr> eid ev b s2 = (rep, s')"
        by (simp add: confirm_purchase_def)
      with sale [OF eid books view] f1 f2 eb show ?thesis by (auto simp: same_books_def)
    qed
  qed
qed

subsection \<open>When the saga succeeds\<close>

text \<open>The cache agrees with a hold: it has nothing for the seat, or this hold with an end not yet past.\<close>

definition cache_agrees :: "string \<Rightarrow> string \<Rightarrow> string \<Rightarrow> ('n, 'x) sys \<Rightarrow> bool" where
  "cache_agrees user tok i s \<longleftrightarrow>
     (case redis_live (hold_key i) (world (inventory s)) of
        None \<Rightarrow> True
      | Some v \<Rightarrow> (case payload_of v of
            None \<Rightarrow> True
          | Some p \<Rightarrow> hp_heldByUserId p = user \<and> hp_holdToken p = tok
              \<and> validate_hold_state (time_now s) (hp_status p) (hp_heldUntil p) = None))"

lemma GetSeatStatus_held:
  assumes "row_get inventoryId i (seats w) = Some r" and "seat_status r = ''held''" and "heldUntil r = Some d"
    and "clock (world w) < utc_instant d"
  shows "GetSeatStatus i w = (\<lparr>st_inventory_id = inventoryId r, st_status = ''held'', st_held_until = TIso d\<rparr>, w)"
  using assms by (simp add: GetSeatStatus_def hold_has_expired_def)

lemma confirm_check_ok:
  assumes "net s = []" and "row_get inventoryId i (seats (inventory s)) = Some r" and "seat_status r = ''held''"
    and "heldUntil r = Some d" and "time_now s < utc_instant d" and "cache_agrees user tok i s"
  shows "\<exists>s1. confirm_check user tok i s = (None, s1) \<and> same_books s s1
    \<and> seats (inventory s1) = seats (inventory s) \<and> net s1 = []"
proof -
  obtain c s1 where g: "get_cached_hold i s = (c, s1)" by fastforce
  note f = get_cached_hold_frame [OF g]
  show ?thesis
  proof (cases c)
    case (Some p)
    with f obtain v where v: "redis_live (hold_key i) (world (inventory s)) = Some v" "payload_of v = Some p" by auto
    with assms(6) have p: "hp_heldByUserId p = user \<and> hp_holdToken p = tok
        \<and> validate_hold_state (time_now s) (hp_status p) (hp_heldUntil p) = None"
      by (simp add: cache_agrees_def)
    have t1: "time_now s1 = time_now s" using f by simp
    have "confirm_check user tok i s = (None, s1)"
      by (simp add: confirm_check_def g Some t1 p)
    with f assms(1) show ?thesis by simp
  next
    case None
    have "GetSeatStatus i (inventory s1) =
        (\<lparr>st_inventory_id = inventoryId r, st_status = ''held'', st_held_until = TIso d\<rparr>, inventory s1)"
      by (rule GetSeatStatus_held) (use assms f in \<open>simp_all add: time_now_def\<close>)
    then have "grpc_call (ep_GetSeatStatus i) s1 =
        (Some \<lparr>st_inventory_id = inventoryId r, st_status = ''held'', st_held_until = TIso d\<rparr>, s1)"
      using f assms(1) by (simp add: grpc_call_def take_net_def ep_GetSeatStatus_def)
    with g None f assms(5) have "confirm_check user tok i s = (None, s1)"
      by (simp add: confirm_check_def validate_hold_state_def)
    with f assms(1) show ?thesis by simp
  qed
qed

lemma confirm_funds_ok:
  assumes "net s = []" and "row_get ev_eventId eid (events s) = Some ev"
    and "credit_get api user (ext s) = (Inr dta, x1)" and "\<not> read_balance dta < ev_price ev"
  shows "confirm_funds api user eid s = (Inr (ev, read_balance dta), s\<lparr>ext := x1\<rparr>)"
  using assms
  by (simp add: confirm_funds_def call_service_def take_net_def ep_read_def get_event_def call_credit_get_def)

lemma SellSeat_held:
  assumes "row_get inventoryId (sr_inventory_id req) (seats w) = Some r" and "holds req r"
  shows "\<exists>w'. SellSeat req w = (True, w')"
  using assms by (simp add: SellSeat_def Let_def)

lemma confirm_sale_ok:
  assumes "net s = []" and "row_get inventoryId (sr_inventory_id req) (seats (inventory s)) = Some r"
    and "holds req r" and "unique_tickets (tickets s)" and "fresh s (drawn s) \<notin> ticketId ` set (tickets s)"
    and "fresh s (Suc (drawn s)) \<notin> set (qr_hashes (tickets s))"
    and "credit_patch api user (b - ev_price ev) (ext s) = (None, y)"
  shows "\<exists>a. fst (confirm_sale api user req eid ev b s) = Done 201 a"
proof -
  obtain w' where w': "SellSeat req (inventory s) = (True, w')" using SellSeat_held [OF assms(2,3)] by blast
  obtain k where k: "create_ticket \<lparr>tb_inventoryId = Some (Some (sr_inventory_id req)), tb_ownerId = Some (Some user),
      tb_venueId = Some (Some (ev_venueId ev)), tb_eventId = Some (Some eid), tb_price = Some (Some (ev_price ev)),
      tb_status = Some (Some ''active'')\<rparr> (fresh s (drawn s)) (fresh s (Suc (drawn s))) (clock (world w')) (tickets s)
      = (Done 201 k, tickets s @ [k])"
    using create_ticket_fresh [OF assms(4-6)] by blast
  show ?thesis
    using assms(1,7) w' k
    by (simp add: confirm_sale_def grpc_call_def take_net_def ep_SellSeat_def call_service_def ep_create_ticket_def
        draw_def time_now_def confirm_payment_def call_credit_patch_def)
qed

subsection \<open>Properties\<close>

text \<open>
  Property C2: what a successful purchase did. When the saga answers 201, the seat was held by
  this user under the presented token and is now sold, no other seat changed; one ticket was
  added, active, for this user, seat, event and price, and it is the one named in the answer; the
  user's balance covered the price and is now reduced by it, and no other balance changed; the
  ledger got the matching entry, or, if that last call was lost, nothing. This holds whatever the
  Redis cache contained and whichever calls were lost.
\<close>

theorem purchase_success_effect:
  assumes laws: "credit_laws bal api"
    and run: "confirm_purchase api user body i s = (Done st a, s')"
  shows "\<exists>d eid ev k. pb_eventId body = Some eid \<and> row_get ev_eventId eid (events s) = Some ev
    \<and> sview i s = Some (VHeld user (or_empty (pb_holdToken body)) d) \<and> sview i s' = Some VSold
    \<and> (\<forall>j. j \<noteq> i \<longrightarrow> sview j s' = sview j s)
    \<and> tickets s' = tickets s @ [k] \<and> bought_ticket user i eid ev k \<and> pa_ticketId a = ticketId k
    \<and> \<not> bal (ext s) user < ev_price ev
    \<and> bal (ext s') = (bal (ext s))(user := bal (ext s) user - ev_price ev)
    \<and> (ledger s' = ledger s
        \<or> (\<exists>x. ledger s' = ledger s @ [x] \<and> purchase_entry user (ev_price ev) (ticketId k) x))"
  using run
proof (cases rule: confirm_purchase_cases)
  case (sale s2 eid ev d)
  from credit_get_law [OF laws sale(6)]
  have b: "bal (ext s2) = bal (ext s)" "read_balance d = bal (ext s) user" by auto
  from confirm_sale_success [OF sale(7)] obtain k dd where
    k: "tickets s' = tickets s2 @ [k]" "bought_ticket user i eid ev k" "pa_ticketId a = ticketId k"
    and v: "sview i s' = Some VSold" "sview i s2 = Some (VHeld user (or_empty (pb_holdToken body)) dd)"
      "\<forall>j. j \<noteq> i \<longrightarrow> sview j s' = sview j s2"
    and l: "ledger s' = ledger s2 \<or> (\<exists>x. ledger s' = ledger s2 @ [x] \<and> purchase_entry user (ev_price ev) (ticketId k) x)"
    and p: "credit_patch api user (read_balance d - ev_price ev) (ext s2) = (None, ext s')"
    unfolding seat_request.simps by blast
  have pre: "sview i s = Some (VHeld user (or_empty (pb_holdToken body)) dd)"
    using spec [OF sale(3), of i] v(2) by auto
  have "sview j s' = sview j s" if "j \<noteq> i" for j
    using spec [OF sale(3), of j] v(3) that by simp
  then have others: "\<forall>j. j \<noteq> i \<longrightarrow> sview j s' = sview j s" by blast
  have books: "tickets s2 = tickets s" "ledger s2 = ledger s" using sale(2) by (simp_all add: same_books_def)
  have "bal (ext s') = (bal (ext s))(user := bal (ext s) user - ev_price ev)"
    using credit_patch_law [OF laws p] b by simp
  with pre others books sale(1,4,5) b(2) k v(1) l show ?thesis
    by (intro exI [of _ dd] exI [of _ eid] exI [of _ ev] exI [of _ k]) simp
qed simp


text \<open>
  Property C16: the compensations of the saga do not undo the sale. Whenever the saga answers 500,
  the seat, which the user held, stays sold: releasing a sold seat is refused. When the answer is
  a failed deduction, the ticket created for the user also stays, with status active: the status
  payment_failed is refused by the ticket service. The user's balance is then either unchanged or
  reduced, depending on what the failed call did.
\<close>

theorem purchase_compensation_keeps_sale:
  assumes laws: "credit_laws bal api"
    and run: "confirm_purchase api user body i s = (Fail 500 c, s')"
  shows "(\<exists>d. sview i s = Some (VHeld user (or_empty (pb_holdToken body)) d)) \<and> sview i s' = Some VSold
    \<and> (c = ''CREDIT_DEDUCTION_FAILED'' \<longrightarrow>
        (\<exists>k eid ev. tickets s' = tickets s @ [k] \<and> bought_ticket user i eid ev k \<and> ledger s' = ledger s
           \<and> (bal (ext s') = bal (ext s)
              \<or> bal (ext s') = (bal (ext s))(user := bal (ext s) user - ev_price ev))))"
  using run
proof (cases rule: confirm_purchase_cases)
  case (sale s2 eid ev d)
  from credit_get_law [OF laws sale(6)]
  have b: "bal (ext s2) = bal (ext s)" "read_balance d = bal (ext s) user" by auto
  have s2: "tickets s2 = tickets s" "ledger s2 = ledger s" using sale(2) by (simp_all add: same_books_def)
  from confirm_sale_failed [OF sale(7)] obtain dd where
    v: "sview i s' = Some VSold" "sview i s2 = Some (VHeld user (or_empty (pb_holdToken body)) dd)"
    and rest: "c = ''INTERNAL_ERROR'' \<or> (\<exists>k. tickets s' = tickets s2 @ [k] \<and> bought_ticket user i eid ev k
        \<and> ledger s' = ledger s2 \<and> (\<exists>e. credit_patch api user (read_balance d - ev_price ev) (ext s2) = (Some e, ext s')))"
    unfolding seat_request.simps by blast
  have pre: "sview i s = Some (VHeld user (or_empty (pb_holdToken body)) dd)"
    using spec [OF sale(3), of i] v(2) by auto
  have pay: "bal (ext s') = bal (ext s) \<or> bal (ext s') = (bal (ext s))(user := bal (ext s) user - ev_price ev)"
    if "credit_patch api user (read_balance d - ev_price ev) (ext s2) = (Some e, ext s')" for e
    using credit_patch_law [OF laws that] b by simp
  have "\<exists>k eid ev. tickets s' = tickets s @ [k] \<and> bought_ticket user i eid ev k \<and> ledger s' = ledger s
      \<and> (bal (ext s') = bal (ext s) \<or> bal (ext s') = (bal (ext s))(user := bal (ext s) user - ev_price ev))"
    if "c \<noteq> ''INTERNAL_ERROR''"
    using rest that pay unfolding s2 by blast
  with pre v(1) show ?thesis by fastforce
qed simp

text \<open>
  Property C17: a purchase of a validly held seat with enough credits succeeds. When no call is
  lost, the seat is held by the user under the presented token and the hold has not ended, the
  cache has nothing that contradicts the hold (Redis may fail at any point), the event exists, the
  balance covers the price, the deduction is confirmed and the drawn ids are fresh, the saga
  answers 201.
\<close>

theorem purchase_succeeds:
  assumes "net s = []"
    and "row_get inventoryId i (seats (inventory s)) = Some r" and "heldUntil r = Some d"
    and "holds \<lparr>sr_inventory_id = i, sr_user_id = user, sr_hold_token = or_empty (pb_holdToken body)\<rparr> r"
    and "time_now s < utc_instant d" and "cache_agrees user (or_empty (pb_holdToken body)) i s"
    and "pb_eventId body = Some eid" and "eid \<noteq> []" and "row_get ev_eventId eid (events s) = Some ev"
    and "credit_get api user (ext s) = (Inr dta, x1)" and "\<not> read_balance dta < ev_price ev"
    and "credit_patch api user (read_balance dta - ev_price ev) x1 = (None, x2)"
    and "unique_tickets (tickets s)" and "fresh s (drawn s) \<notin> ticketId ` set (tickets s)"
    and "fresh s (Suc (drawn s)) \<notin> set (qr_hashes (tickets s))"
  shows "\<exists>a. fst (confirm_purchase api user body i s) = Done 201 a"
proof -
  have held: "seat_status r = ''held''" using assms(4) by (simp add: holds_def)
  obtain s1 where c: "confirm_check user (or_empty (pb_holdToken body)) i s = (None, s1)" and b: "same_books s s1"
    and i: "seats (inventory s1) = seats (inventory s)" and n: "net s1 = []"
    using confirm_check_ok [OF assms(1,2) held assms(3,5,6)] by blast
  have f: "confirm_funds api user eid s1 = (Inr (ev, read_balance dta), s1\<lparr>ext := x1\<rparr>)"
    by (rule confirm_funds_ok [OF n]) (use b assms(9-11) in \<open>simp_all add: same_books_def\<close>)
  have "\<exists>a. fst (confirm_sale api user \<lparr>sr_inventory_id = i, sr_user_id = user,
      sr_hold_token = or_empty (pb_holdToken body)\<rparr> eid ev (read_balance dta) (s1\<lparr>ext := x1\<rparr>)) = Done 201 a"
    by (rule confirm_sale_ok [where r = r and y = x2])
      (use n i b assms(2,4,12-15) in \<open>simp_all add: same_books_def\<close>)
  with c f assms(7,8) show ?thesis by (simp add: confirm_purchase_def)
qed

lemma on_expired_state: "snd (on_expired io user tok s) = snd (grpc_call (ep_ReleaseSeat
    \<lparr>sr_inventory_id = or_empty io, sr_user_id = or_empty user, sr_hold_token = or_empty tok\<rparr>) s)"
  by (simp add: on_expired_def split: prod.split option.split)

lemma release_hold_state: "snd (release_hold u tok i s) = snd (grpc_call (ep_ReleaseSeat
    \<lparr>sr_inventory_id = i, sr_user_id = u, sr_hold_token = or_empty tok\<rparr>) s)"
  by (simp add: release_hold_def split: prod.split option.split)

lemma release_only_frees:
  "same_books s (snd (grpc_call (ep_ReleaseSeat req) s))
    \<and> (\<forall>j. sview j (snd (grpc_call (ep_ReleaseSeat req) s)) = sview j s
        \<or> (j = sr_inventory_id req \<and> sview j (snd (grpc_call (ep_ReleaseSeat req) s)) = Some VFree
          \<and> (\<exists>d. sview j s = Some (VHeld (sr_user_id req) (sr_hold_token req) d))))"
proof -
  obtain r s' where g: "grpc_call (ep_ReleaseSeat req) s = (r, s')" by fastforce
  have "sview j s' = sview j s \<or> (j = sr_inventory_id req \<and> sview j s' = Some VFree
      \<and> (\<exists>d. sview j s = Some (VHeld (sr_user_id req) (sr_hold_token req) d)))" for j
    using grpc_release [OF g] seat_rpc.release_law [of req "inventory s" _ _ j] by (auto simp: sview_def)
  with g grpc_release_view [OF g] show ?thesis by simp
qed

text \<open>
  The consumer of expired holds frees a hold and nothing else. Processing a message
  leaves every seat as it was, except that the named seat becomes free if it was held by exactly
  the named user under the named token; so a late or duplicated message can never free a sold
  seat or a later hold. The same is true of a release by a user.
\<close>

theorem expired_hold_release:
  "(\<forall>j. sview j (snd (on_expired io user tok s)) = sview j s
     \<or> (j = or_empty io \<and> sview j (snd (on_expired io user tok s)) = Some VFree
        \<and> (\<exists>d. sview j s = Some (VHeld (or_empty user) (or_empty tok) d))))
   \<and> same_books s (snd (on_expired io user tok s))
   \<and> (\<forall>j. sview j (snd (release_hold u tok i s)) = sview j s
     \<or> (j = i \<and> sview j (snd (release_hold u tok i s)) = Some VFree
        \<and> (\<exists>d. sview j s = Some (VHeld u (or_empty tok) d))))"
  unfolding on_expired_state release_hold_state
  using release_only_frees [of s "\<lparr>sr_inventory_id = or_empty io, sr_user_id = or_empty user, sr_hold_token = or_empty tok\<rparr>"]
    release_only_frees [of s "\<lparr>sr_inventory_id = i, sr_user_id = u, sr_hold_token = or_empty tok\<rparr>"]
  by simp

text \<open>
  The circuit breaker in front of Redis. While it is open and the last failure is not
  more than 30 seconds old, a request does not touch Redis and changes nothing; after that the next
  request tries again. It opens exactly when a failure brings the count of consecutive failures to
  three or more, and a success resets the count. When it is open the count is at least three.
\<close>

definition breaker_ok :: "breaker \<Rightarrow> bool" where
  "breaker_ok b \<longleftrightarrow> (cb_open b \<longrightarrow> REDIS_CB_FAILURE_THRESHOLD \<le> cb_failures b)"

theorem redis_breaker:
  assumes "breaker_ok (breaker_of s)" and "purchase_get_redis_client s = (ok, s')"
  shows "breaker_ok (breaker_of s')
    \<and> (cb_open (breaker_of s) \<and> time_now s - cb_last_failure (breaker_of s) \<le> secs 30 \<longrightarrow> \<not> ok \<and> s' = s)
    \<and> (ok \<longrightarrow> cb_failures (breaker_of s') = 0 \<and> \<not> cb_open (breaker_of s'))
    \<and> (\<not> ok \<and> \<not> cb_open (breaker_of s) \<longrightarrow> cb_failures (breaker_of s') = Suc (cb_failures (breaker_of s))
         \<and> cb_open (breaker_of s') = (2 \<le> cb_failures (breaker_of s)))"
  using assms
  by (auto simp: purchase_get_redis_client_def breaker_ok_def Let_def REDIS_CB_RECOVERY_SECONDS_def
      REDIS_CB_FAILURE_THRESHOLD_def on_infra_def split: if_splits prod.splits)

subsection \<open>Witnesses\<close>

theorem redis_breaker_witness:
  "purchase_get_redis_client (ex_sys\<lparr>breaker_of := \<lparr>cb_failures = 3, cb_last_failure = 900, cb_open = True\<rparr>\<rparr>)
    = (False, ex_sys\<lparr>breaker_of := \<lparr>cb_failures = 3, cb_last_failure = 900, cb_open = True\<rparr>\<rparr>)"
proof -
  let ?s = "ex_sys\<lparr>breaker_of := \<lparr>cb_failures = 3, cb_last_failure = 900, cb_open = True\<rparr>\<rparr>"
  obtain ok s' where r: "purchase_get_redis_client ?s = (ok, s')" by fastforce
  have "breaker_ok (breaker_of ?s)" by (simp add: breaker_ok_def REDIS_CB_FAILURE_THRESHOLD_def)
  from redis_breaker [OF this r] r show ?thesis
    by (simp add: time_now_def ex_sys_def ex_held_def ex_infra_def secs_def)
qed

definition ex_purchase :: purchase_body where
  "ex_purchase = \<lparr>pb_eventId = Some ''e1'', pb_holdToken = Some ''t1''\<rparr>"

lemma ex_purchase_done: "\<exists>st a s'. confirm_purchase ex_credit ''u1'' ex_purchase ''i1'' ex_sys = (Done st a, s')"
proof -
  have "is_done (fst (confirm_purchase ex_credit ''u1'' ex_purchase ''i1'' ex_sys))" by code_simp
  then show ?thesis by (metis is_done_iff prod.collapse)
qed

theorem purchase_success_effect_witness:
  "sview ''i1'' (snd (confirm_purchase ex_credit ''u1'' ex_purchase ''i1'' ex_sys)) = Some VSold
    \<and> fst (ext (snd (confirm_purchase ex_credit ''u1'' ex_purchase ''i1'' ex_sys))) ''u1'' = 60"
proof -
  obtain st a s' where run: "confirm_purchase ex_credit ''u1'' ex_purchase ''i1'' ex_sys = (Done st a, s')"
    using ex_purchase_done by blast
  from purchase_success_effect [OF ex_credit_laws run] run show ?thesis
    by (auto simp: ex_purchase_def ex_sys_def ex_event_def)
qed


theorem purchase_compensation_keeps_sale_witness:
  "sview ''i1'' (snd (confirm_purchase ex_credit ''u1'' ex_purchase ''i1'' (ex_sys\<lparr>ext := (\<lambda>_. 100, True)\<rparr>))) = Some VSold
    \<and> (\<exists>k. tickets (snd (confirm_purchase ex_credit ''u1'' ex_purchase ''i1'' (ex_sys\<lparr>ext := (\<lambda>_. 100, True)\<rparr>))) = [ex_ticket, k]
          \<and> tk_status k = ''active'')"
proof -
  have "fst (confirm_purchase ex_credit ''u1'' ex_purchase ''i1'' (ex_sys\<lparr>ext := (\<lambda>_. 100, True)\<rparr>))
      = Fail 500 ''CREDIT_DEDUCTION_FAILED''" by code_simp
  then have "confirm_purchase ex_credit ''u1'' ex_purchase ''i1'' (ex_sys\<lparr>ext := (\<lambda>_. 100, True)\<rparr>)
      = (Fail 500 ''CREDIT_DEDUCTION_FAILED'', snd (confirm_purchase ex_credit ''u1'' ex_purchase ''i1'' (ex_sys\<lparr>ext := (\<lambda>_. 100, True)\<rparr>)))"
    by (metis prod.collapse)
  from purchase_compensation_keeps_sale [OF ex_credit_laws this] show ?thesis
    by (auto simp: ex_sys_def bought_ticket_def)
qed

theorem purchase_succeeds_witness: "\<exists>a. fst (confirm_purchase ex_credit ''u1'' ex_purchase ''i1'' ex_sys) = Done 201 a"
proof (rule purchase_succeeds)
  show "row_get inventoryId ''i1'' (seats (inventory ex_sys)) = Some (commit_seat (5, Claim ''u1'' ''t1'' 5000) ex_seat)"
    by (simp add: ex_sys_def ex_held_def ex_seat_def new_seat_def)
  show "heldUntil (commit_seat (5, Claim ''u1'' ''t1'' 5000) ex_seat) = Some (Naive 5000)"
    by (simp add: claim_def stored_def)
  show "credit_get ex_credit ''u1'' (ext ex_sys) =
      (Inr \<lparr>cd_creditBalance = Some 100, cd_CreditBalance = None, cd_balance = None\<rparr>, (\<lambda>_. 100, False))"
    by (simp add: ex_credit_def ex_sys_def)
  show "row_get ev_eventId ''e1'' (events ex_sys) = Some ex_event" by (simp add: ex_sys_def ex_event_def)
qed (simp_all add: ex_sys_def ex_credit_def ex_event_def ex_ticket_def ex_fresh_def ex_purchase_def ex_seat_defs
    stored_def or_empty_def holds_def time_now_def cache_agrees_def redis_live_def unique_tickets_def read_balance_def)

end
