(* ===== verification/TransferOrchestrator.thy ===== *)
theory TransferOrchestrator
  imports System
begin

text \<open>
  The transfer orchestrator (\<^verbatim>\<open>orchestrators/transfer-orchestrator\<close>): the peer-to-peer resale of a
  listed ticket. A buyer initiates a transfer, both sides confirm with a one-time password, and
  the last confirmation runs a saga that moves the credits and the ticket, with compensations in
  reverse order. This theory has the handlers of \<^verbatim>\<open>routes.py\<close> and the consumer of
  \<^verbatim>\<open>timeout_consumer.py\<close>; the proofs about the saga and about the order of the steps are in
  theories of their own.
\<close>

subsection \<open>Enrichment\<close>

text \<open>
  \<^verbatim>\<open>_safe_get\<close>, and the same behind a condition. \<open>tview\<close> is what the enrichment reads of a
  transfer's JSON; the keys \<^verbatim>\<open>eventId\<close>, \<^verbatim>\<open>venueId\<close> and \<^verbatim>\<open>inventoryId\<close>, which it also looks for, never
  occur there.
\<close>

definition safe_get :: "(('n, 'x) sys \<Rightarrow> 'a reply) \<Rightarrow> ('n, 'x) sys \<Rightarrow> 'a option \<times> ('n, 'x) sys" where
  "safe_get f s =
     (case call_service UNAVAILABLE (ep_read f) s of (Inl e, s1) \<Rightarrow> (None, s1) | (Inr v, s1) \<Rightarrow> (Some v, s1))"

definition safe_get_if :: "bool \<Rightarrow> (('n, 'x) sys \<Rightarrow> 'a reply) \<Rightarrow> ('n, 'x) sys \<Rightarrow> 'a option \<times> ('n, 'x) sys" where
  "safe_get_if b f s = (if b then safe_get f s else (None, s))"

record tview =
  tv_listingId :: "string option"
  tv_buyerId :: "string option"
  tv_sellerId :: "string option"
  tv_ticketId :: "string option"

definition tview_of :: "'n transfer \<Rightarrow> tview" where
  "tview_of tr = \<lparr>tv_listingId = Some (tr_listingId tr), tv_buyerId = Some (tr_buyerId tr),
     tv_sellerId = Some (tr_sellerId tr), tv_ticketId = None\<rparr>"

record 'n tcontext =
  cx_buyer :: "user option"
  cx_seller :: "user option"
  cx_listing :: "'n listing option"
  cx_ticket :: "'n ticket option"
  cx_ticketId :: "string option"
  cx_event :: "'n event option"
  cx_eventId :: "string option"
  cx_venue :: "venue option"
  cx_seat :: "place option"

text \<open>The seat of the ticket: its inventory row names the seat, the seat service describes it.\<close>

definition find_place ::
  "string option \<Rightarrow> string option \<Rightarrow> string option \<Rightarrow> ('n, 'x) sys \<Rightarrow> place option \<times> ('n, 'x) sys" where
  "find_place event_id inv_id venue_id s =
     (if truthy event_id \<and> truthy inv_id then
        (case safe_get (\<lambda>s. Done 200 (list_inventory_by_event (the event_id) (seats (inventory s)))) s of
           (inv_data, s1) \<Rightarrow>
             let item = find (\<lambda>r. Some (inventoryId r) = inv_id) (case inv_data of None \<Rightarrow> [] | Some xs \<Rightarrow> xs);
                 seat_id = map_option seatId item
             in if truthy venue_id \<and> truthy seat_id then
                  (case safe_get (\<lambda>s. Done 200 (list_seats_for_venue (the venue_id) (places s))) s1 of
                     (seats_data, s2) \<Rightarrow>
                       (find (\<lambda>p. Some (pl_seatId p) = seat_id) (case seats_data of None \<Rightarrow> [] | Some xs \<Rightarrow> xs), s2))
                else (None, s1))
      else (None, s))"

definition build_transfer_context :: "tview \<Rightarrow> ('n, 'x) sys \<Rightarrow> 'n tcontext \<times> ('n, 'x) sys" where
  "build_transfer_context v s =
     (case safe_get_if (truthy (tv_listingId v)) (\<lambda>s. get_listing (or_empty (tv_listingId v)) (listings s)) s of
        (listing, s1) \<Rightarrow>
      let ticket_id = first_present [tv_ticketId v, map_option li_ticketId listing] in
      case safe_get_if (truthy ticket_id) (\<lambda>s. get_ticket (or_empty ticket_id) (tickets s)) s1 of
        (ticket, s2) \<Rightarrow>
      let event_id = map_option tk_eventId ticket in
      case safe_get_if (truthy event_id) (\<lambda>s. get_event (or_empty event_id) (events s)) s2 of
        (event, s3) \<Rightarrow>
      let venue_id = first_present [map_option ev_venueId event, map_option tk_venueId ticket] in
      case safe_get_if (truthy venue_id) (\<lambda>s. get_venue (or_empty venue_id) (venues s)) s3 of
        (venue, s4) \<Rightarrow>
      case safe_get_if (truthy (tv_sellerId v)) (\<lambda>s. get_user (or_empty (tv_sellerId v)) (users s)) s4 of
        (seller, s5) \<Rightarrow>
      case safe_get_if (truthy (tv_buyerId v)) (\<lambda>s. get_user (or_empty (tv_buyerId v)) (users s)) s5 of
        (buyer, s6) \<Rightarrow>
      case find_place event_id (map_option tk_inventoryId ticket) venue_id s6 of
        (seat, s7) \<Rightarrow>
          (\<lparr>cx_buyer = buyer, cx_seller = seller, cx_listing = listing, cx_ticket = ticket, cx_ticketId = ticket_id,
            cx_event = event, cx_eventId = event_id, cx_venue = venue, cx_seat = seat\<rparr>, s7))"

record event_payload =
  epl_eventId :: "string option"
  epl_name :: "string option"
  epl_date :: "datetime option"
  epl_image :: "string option"
  epl_venue :: "venue option"

definition build_event_payload :: "'n tcontext \<Rightarrow> event_payload option" where
  "build_event_payload c =
     (let eid = first_present [map_option ev_eventId (cx_event c), cx_eventId c];
          nm = map_option ev_name (cx_event c); dt = map_option ev_date (cx_event c) in
      if \<not> (truthy eid \<or> truthy nm \<or> dt \<noteq> None \<or> cx_venue c \<noteq> None) then None
      else Some \<lparr>epl_eventId = eid, epl_name = nm, epl_date = dt,
             epl_image = map_option event_image (cx_event c), epl_venue = cx_venue c\<rparr>)"

text \<open>The JSON of a seat has neither section nor gate, so these two are always null.\<close>

definition build_seat_payload :: "'n tcontext \<Rightarrow> (string \<times> string \<times> string) option" where
  "build_seat_payload c =
     (case cx_seat c of
        None \<Rightarrow> None
      | Some p \<Rightarrow>
          if \<not> (pl_seatId p \<noteq> [] \<or> pl_rowNumber p \<noteq> [] \<or> pl_seatNumber p \<noteq> []) then None
          else Some (pl_seatId p, pl_rowNumber p, pl_seatNumber p))"

text \<open>What \<^verbatim>\<open>_enrich_transfer\<close> adds to a transfer; a user's JSON has an e-mail and no name.\<close>

record 'n enriched =
  en_buyerName :: string
  en_sellerName :: string
  en_ticketId :: "string option"
  en_listing :: "'n listing option"
  en_ticket :: "'n ticket option"
  en_venue :: "venue option"
  en_event :: "event_payload option"
  en_seat :: "(string \<times> string \<times> string) option"

definition enrich_transfer :: "tview \<Rightarrow> ('n, 'x) sys \<Rightarrow> 'n enriched \<times> ('n, 'x) sys" where
  "enrich_transfer v s =
     (case build_transfer_context v s of (c, s1) \<Rightarrow>
        (\<lparr>en_buyerName = (case cx_buyer c of Some u \<Rightarrow> us_email u | None \<Rightarrow> ''Buyer''),
          en_sellerName = (case cx_seller c of Some u \<Rightarrow> us_email u | None \<Rightarrow> ''Seller''),
          en_ticketId = cx_ticketId c, en_listing = cx_listing c, en_ticket = cx_ticket c,
          en_venue = cx_venue c, en_event = build_event_payload c, en_seat = build_seat_payload c\<rparr>, s1))"

text \<open>
  A broadcast is one call to the notification service, which keeps nothing the other components
  read; its outcome is ignored.
\<close>

definition broadcast_notification :: "('n, 'x) sys \<Rightarrow> ('n, 'x) sys" where
  "broadcast_notification s = snd (call_service UNAVAILABLE (ep_read (\<lambda>_. Done 200 ())) s)"

definition broadcast_transfer_notification :: "tview \<Rightarrow> ('n, 'x) sys \<Rightarrow> ('n, 'x) sys" where
  "broadcast_transfer_notification v s = broadcast_notification (snd (enrich_transfer v s))"

definition load_enriched_transfer :: "string \<Rightarrow> tview \<Rightarrow> ('n, 'x) sys \<Rightarrow> 'n enriched \<times> ('n, 'x) sys" where
  "load_enriched_transfer tid fallback s =
     (case call_service UNAVAILABLE (ep_get_transfer tid) s of
        (Inl e, s1) \<Rightarrow> enrich_transfer fallback s1
      | (Inr tr, s1) \<Rightarrow> enrich_transfer (tview_of tr) s1)"

subsection \<open>Messages\<close>

definition publish_seller_notification :: "string \<Rightarrow> string \<Rightarrow> infra \<Rightarrow> infra" where
  "publish_seller_notification tid seller w =
     publish_retry 3 ''seller_notification_queue'' (SellerNotification tid seller) w"

definition publish_transfer_timeout :: "string \<Rightarrow> string \<Rightarrow> string \<Rightarrow> string \<Rightarrow> infra \<Rightarrow> infra" where
  "publish_transfer_timeout tid lid buyer seller w =
     publish_retry 3 ''transfer_timeout_queue'' (TransferTimeout tid lid buyer seller) w"

subsection \<open>The saga\<close>

datatype saga_step =
  BuyerDeducted | SellerCredited | BuyerTxnLogged | SellerTxnLogged | TicketTransferred
  | ListingCompleted | TransferCompleted

text \<open>The arguments of \<^verbatim>\<open>_execute_saga\<close>.\<close>

record 'n saga =
  sg_transfer_id :: string
  sg_buyer_id :: string
  sg_seller_id :: string
  sg_credit_amount :: 'n
  sg_ticket_id :: string
  sg_listing_id :: string
  sg_buyer_balance :: 'n
  sg_seller_balance :: 'n

text \<open>A call whose error raises: True if it succeeded.\<close>

definition succeeds :: "(string + 'a) \<times> 's \<Rightarrow> bool \<times> 's" where
  "succeeds r = (case r of (Inl e, s) \<Rightarrow> (False, s) | (Inr v, s) \<Rightarrow> (True, s))"

definition set_balance :: "('n, 'x) credit_api \<Rightarrow> string \<Rightarrow> 'n \<Rightarrow> ('n, 'x) sys \<Rightarrow> bool \<times> ('n, 'x) sys" where
  "set_balance api u v s = (case call_credit_patch api u v s of (e, s1) \<Rightarrow> (e = None, s1))"

definition log_txn ::
  "string \<Rightarrow> 'n \<Rightarrow> string \<Rightarrow> string \<Rightarrow> ('n, 'x) sys \<Rightarrow> bool \<times> ('n, 'x) sys" where
  "log_txn u d reason ref s =
     succeeds (call_service UNAVAILABLE (ep_create_txn \<lparr>xb_userId = Some (Some u), xb_delta = Some (Some d),
       xb_reason = Some (Some reason), xb_referenceId = Some ref\<rparr>) s)"

definition saga_steps ::
  "('n::{plus,minus,uminus}, 'x) credit_api \<Rightarrow> 'n saga \<Rightarrow> (saga_step \<times> (('n, 'x) sys \<Rightarrow> bool \<times> ('n, 'x) sys)) list" where
  "saga_steps api g =
     [(BuyerDeducted, set_balance api (sg_buyer_id g) (sg_buyer_balance g - sg_credit_amount g)),
      (SellerCredited, set_balance api (sg_seller_id g) (sg_seller_balance g + sg_credit_amount g)),
      (BuyerTxnLogged, log_txn (sg_buyer_id g) (- sg_credit_amount g) ''p2p_sent'' (sg_transfer_id g)),
      (SellerTxnLogged, log_txn (sg_seller_id g) (sg_credit_amount g) ''p2p_received'' (sg_transfer_id g)),
      (TicketTransferred, \<lambda>s. succeeds (call_service UNAVAILABLE (ep_update_ticket (sg_ticket_id g)
         [TkOwnerId (Some (sg_buyer_id g)), TkStatus (Some ''active'')]) s)),
      (ListingCompleted, \<lambda>s. succeeds (call_service UNAVAILABLE (ep_update_listing (sg_listing_id g)
         [LiStatus (Some ''completed'')]) s)),
      (TransferCompleted, \<lambda>s. succeeds (call_service UNAVAILABLE (ep_patch_transfer (sg_transfer_id g)
         [TrStatus (Some ''completed''), TrCompletedAt (Some (TIso (Aware (time_now s))))]) s))]"

text \<open>Running the steps until one raises: the completed steps and whether all were.\<close>

fun run_steps ::
  "(saga_step \<times> ('s \<Rightarrow> bool \<times> 's)) list \<Rightarrow> 's \<Rightarrow> saga_step list \<times> bool \<times> 's" where
  "run_steps [] s = ([], True, s)"
| "run_steps ((n, f) # fs) s =
     (case f s of
        (False, s1) \<Rightarrow> ([], False, s1)
      | (True, s1) \<Rightarrow> (case run_steps fs s1 of (c, ok, s2) \<Rightarrow> (n # c, ok, s2)))"

text \<open>The compensations, in the order of the code, and running those of the completed steps.\<close>

definition saga_undo ::
  "('n, 'x) credit_api \<Rightarrow> 'n saga \<Rightarrow> (saga_step \<times> (('n, 'x) sys \<Rightarrow> bool \<times> ('n, 'x) sys)) list" where
  "saga_undo api g =
     [(ListingCompleted, \<lambda>s. succeeds (call_service UNAVAILABLE (ep_update_listing (sg_listing_id g)
         [LiStatus (Some ''active'')]) s)),
      (TicketTransferred, \<lambda>s. succeeds (call_service UNAVAILABLE (ep_update_ticket (sg_ticket_id g)
         [TkOwnerId (Some (sg_seller_id g)), TkStatus (Some ''sold'')]) s)),
      (SellerCredited, set_balance api (sg_seller_id g) (sg_seller_balance g)),
      (BuyerDeducted, set_balance api (sg_buyer_id g) (sg_buyer_balance g)),
      (SellerTxnLogged, \<lambda>s. succeeds (call_service UNAVAILABLE (ep_patch_txn (sg_transfer_id g)) s)),
      (BuyerTxnLogged, \<lambda>s. succeeds (call_service UNAVAILABLE (ep_patch_txn (sg_transfer_id g)) s))]"

fun run_undo ::
  "(saga_step \<times> ('s \<Rightarrow> bool \<times> 's)) list \<Rightarrow> saga_step list \<Rightarrow> 's \<Rightarrow> bool \<times> 's" where
  "run_undo [] done s = (True, s)"
| "run_undo ((n, f) # fs) done s =
     (if n \<in> set done then
        (case f s of (ok, s1) \<Rightarrow> (case run_undo fs done s1 of (oks, s2) \<Rightarrow> (ok \<and> oks, s2)))
      else run_undo fs done s)"

definition mark_failed :: "string \<Rightarrow> ('n, 'x) sys \<Rightarrow> ('n, 'x) sys" where
  "mark_failed tid s = snd (call_service UNAVAILABLE (ep_patch_transfer tid [TrStatus (Some ''failed'')]) s)"

text \<open>False stands for the exception that the saga raises again after compensating.\<close>

definition execute_saga ::
  "('n::{plus,minus,uminus}, 'x) credit_api \<Rightarrow> 'n saga \<Rightarrow> ('n, 'x) sys \<Rightarrow> bool \<times> ('n, 'x) sys" where
  "execute_saga api g s =
     (case run_steps (saga_steps api g) s of
        (completed, True, s1) \<Rightarrow> (True, s1)
      | (completed, False, s1) \<Rightarrow>
          (case run_undo (saga_undo api g) completed s1 of
             (clean, s2) \<Rightarrow>
               let s3 = mark_failed (sg_transfer_id g) s2 in
               (False, if clean then s3
                       else on_infra (\<lambda>w. snd (mq_publish ''transfer_compensation_dlq''
                              (TransferCompensationFailed (sg_transfer_id g)) w)) s3)))"

subsection \<open>Starting a transfer\<close>

record 'n transfer_answer =
  an_transferId :: string
  an_status :: string
  an_info :: "'n enriched option"

text \<open>
  After the record is created, the buyer's phone gets a code; the buyer is verified first.
\<close>

definition initiate_otp ::
  "'x otp_api \<Rightarrow> string \<Rightarrow> string \<Rightarrow> string \<Rightarrow> string \<Rightarrow> ('n, 'x) sys \<Rightarrow> 'n transfer_answer reply \<times> ('n, 'x) sys" where
  "initiate_otp otp buyer seller lid tid s =
     (case call_service UNAVAILABLE (ep_read (\<lambda>s. get_user buyer (users s))) s of
        (Inl e, s1) \<Rightarrow> (Fail 503 UNAVAILABLE, s1)
      | (Inr u, s1) \<Rightarrow>
          (case call_service UNAVAILABLE (ep_send_otp otp (us_phoneNumber u)) s1 of
             (Inl e, s2) \<Rightarrow> (Fail 503 UNAVAILABLE, s2)
           | (Inr sid, s2) \<Rightarrow>
               let s3 = snd (call_service UNAVAILABLE (ep_patch_transfer tid
                          [TrBuyerVerificationSid (Some sid), TrStatus (Some ''pending_buyer_otp'')]) s2);
                   s4 = on_infra (publish_transfer_timeout tid lid buyer seller) s3;
                   s5 = broadcast_transfer_notification \<lparr>tv_listingId = None, tv_buyerId = Some buyer,
                          tv_sellerId = Some seller, tv_ticketId = None\<rparr> s4
               in (case enrich_transfer \<lparr>tv_listingId = Some lid, tv_buyerId = Some buyer,
                          tv_sellerId = Some seller, tv_ticketId = None\<rparr> s5 of
                     (info, s6) \<Rightarrow>
                       (Done 201 \<lparr>an_transferId = tid, an_status = ''pending_buyer_otp'', an_info = Some info\<rparr>, s6))))"

definition initiate ::
  "('n::{zero,ord}, 'x) credit_api \<Rightarrow> 'x otp_api \<Rightarrow> string \<Rightarrow> string option
    \<Rightarrow> ('n, 'x) sys \<Rightarrow> 'n transfer_answer reply \<times> ('n, 'x) sys" where
  "initiate api otp buyer lid_field s =
     (if \<not> truthy lid_field then (Fail 400 ''VALIDATION_ERROR'', s)
      else let lid = the lid_field in
      (case call_service UNAVAILABLE (ep_get_listing lid) s of
         (Inl e, s1) \<Rightarrow>
           (if e = ''LISTING_NOT_FOUND'' then Fail 404 ''LISTING_NOT_FOUND'' else Fail 503 UNAVAILABLE, s1)
       | (Inr l, s1) \<Rightarrow>
           if li_status l \<noteq> ''active'' then (Fail 400 ''LISTING_NOT_FOUND'', s1)
           else if li_sellerId l = buyer then (Fail 403 ''AUTH_FORBIDDEN'', s1)
           else
             (case call_credit_get api buyer s1 of
                (Inl e, s2) \<Rightarrow> (Fail 503 UNAVAILABLE, s2)
              | (Inr d, s2) \<Rightarrow>
                  if read_balance d < li_price l then (Fail 402 ''INSUFFICIENT_CREDITS'', s2)
                  else
                    (case call_service UNAVAILABLE (ep_create_transfer \<lparr>fb_listingId = Some (Some lid),
                        fb_buyerId = Some (Some buyer), fb_sellerId = Some (Some (li_sellerId l)),
                        fb_creditAmount = Some (Some (li_price l)), fb_buyerVerificationSid = None,
                        fb_sellerVerificationSid = None\<rparr>) s2 of
                       (Inl e, s3) \<Rightarrow> (Fail 500 ''INTERNAL_ERROR'', s3)
                     | (Inr tr, s3) \<Rightarrow> initiate_otp otp buyer (li_sellerId l) lid (transferId tr) s3))))"

subsection \<open>The confirmations\<close>

text \<open>A wrong or expired code and a failed check are the same answer.\<close>

definition otp_accepted ::
  "'x otp_api \<Rightarrow> string \<Rightarrow> string \<Rightarrow> string \<Rightarrow> ('n, 'x) sys \<Rightarrow> bool \<times> ('n, 'x) sys" where
  "otp_accepted otp sid code phone s =
     (case call_service UNAVAILABLE (ep_verify_otp otp sid code phone) s of
        (Inl e, s1) \<Rightarrow> (False, s1)
      | (Inr b, s1) \<Rightarrow> (b, s1))"

definition patch_ignored :: "string \<Rightarrow> transfer_field list \<Rightarrow> ('n, 'x) sys \<Rightarrow> ('n, 'x) sys" where
  "patch_ignored tid body s = snd (call_service UNAVAILABLE (ep_patch_transfer tid body) s)"

definition buyer_verified ::
  "'x otp_api \<Rightarrow> 'n transfer \<Rightarrow> string \<Rightarrow> ('n, 'x) sys \<Rightarrow> 'n transfer_answer reply \<times> ('n, 'x) sys" where
  "buyer_verified otp tr tid s =
     (let s1 = patch_ignored tid [TrBuyerOtpVerified (Some True)] s in
      case call_service UNAVAILABLE (ep_read (\<lambda>s. get_user (tr_sellerId tr) (users s))) s1 of
        (Inl e, s2) \<Rightarrow> (Fail 503 UNAVAILABLE, s2)
      | (Inr seller, s2) \<Rightarrow>
          (case call_service UNAVAILABLE (ep_send_otp otp (us_phoneNumber seller)) s2 of
             (Inl e, s3) \<Rightarrow> (Fail 503 UNAVAILABLE, s3)
           | (Inr sid, s3) \<Rightarrow>
               let s4 = patch_ignored tid [TrBuyerOtpVerified (Some True), TrSellerVerificationSid (Some sid),
                          TrStatus (Some ''pending_seller_otp'')] s3
               in (case load_enriched_transfer tid (tview_of tr) s4 of
                     (info, s5) \<Rightarrow>
                       let s6 = on_infra (publish_seller_notification tid (tr_sellerId tr)) s5;
                           s7 = broadcast_transfer_notification \<lparr>tv_listingId = None,
                                  tv_buyerId = Some (tr_buyerId tr), tv_sellerId = Some (tr_sellerId tr),
                                  tv_ticketId = None\<rparr> s6
                       in (Done 200 \<lparr>an_transferId = tid, an_status = ''pending_seller_otp'', an_info = Some info\<rparr>, s7))))"

definition buyer_verify ::
  "'x otp_api \<Rightarrow> string \<Rightarrow> string option \<Rightarrow> string \<Rightarrow> ('n, 'x) sys \<Rightarrow> 'n transfer_answer reply \<times> ('n, 'x) sys" where
  "buyer_verify otp buyer code tid s =
     (if \<not> truthy code then (Fail 400 ''VALIDATION_ERROR'', s)
      else (case call_service UNAVAILABLE (ep_get_transfer tid) s of
        (Inl e, s1) \<Rightarrow> (Fail 404 ''TRANSFER_NOT_FOUND'', s1)
      | (Inr tr, s1) \<Rightarrow>
          if tr_buyerId tr \<noteq> buyer then (Fail 403 ''AUTH_FORBIDDEN'', s1)
          else if tr_status tr \<noteq> ''pending_buyer_otp'' \<or> buyerOtpVerified tr \<or> \<not> truthy (buyerVerificationSid tr) then
            (Fail 400 ''VALIDATION_ERROR'', s1)
          else
            (case call_service UNAVAILABLE (ep_read (\<lambda>s. get_user (tr_buyerId tr) (users s))) s1 of
               (Inl e, s2) \<Rightarrow> (Fail 503 UNAVAILABLE, s2)
             | (Inr u, s2) \<Rightarrow>
                 (case otp_accepted otp (the (buyerVerificationSid tr)) (the code) (us_phoneNumber u) s2 of
                    (False, s3) \<Rightarrow> (Fail 400 ''VALIDATION_ERROR'', s3)
                  | (True, s3) \<Rightarrow> buyer_verified otp tr tid s3))))"

text \<open>
  The second half of the seller's confirmation, from the end: the saga and its announcement, the
  two balances, and the ticket of the listing. A listing that cannot be read leaves the ticket id
  None, which is the text None in the URL of the ticket.
\<close>

definition settle_saga ::
  "('n::{plus,minus,uminus}, 'x) credit_api \<Rightarrow> 'n transfer \<Rightarrow> string \<Rightarrow> string \<Rightarrow> 'n \<Rightarrow> 'n
    \<Rightarrow> ('n, 'x) sys \<Rightarrow> 'n transfer_answer reply \<times> ('n, 'x) sys" where
  "settle_saga api tr tid ticket_id buyer_balance seller_balance s =
     (case execute_saga api \<lparr>sg_transfer_id = tid, sg_buyer_id = tr_buyerId tr,
         sg_seller_id = tr_sellerId tr, sg_credit_amount = tr_creditAmount tr,
         sg_ticket_id = ticket_id, sg_listing_id = tr_listingId tr,
         sg_buyer_balance = buyer_balance, sg_seller_balance = seller_balance\<rparr> s of
        (False, s1) \<Rightarrow> (Fail 500 ''INTERNAL_ERROR'', s1)
      | (True, s1) \<Rightarrow>
          let s2 = broadcast_notification (snd (enrich_transfer \<lparr>tv_listingId = Some (tr_listingId tr),
                     tv_buyerId = Some (tr_buyerId tr), tv_sellerId = Some (tr_sellerId tr),
                     tv_ticketId = Some ticket_id\<rparr> s1));
              s3 = broadcast_notification s2
          in (case load_enriched_transfer tid ((tview_of tr)\<lparr>tv_ticketId := Some ticket_id\<rparr>) s3 of
                (info, s4) \<Rightarrow>
                  (Done 200 \<lparr>an_transferId = tid, an_status = ''completed'', an_info = Some info\<rparr>, s4)))"

definition settle_balances ::
  "('n::{zero,ord,plus,minus,uminus}, 'x) credit_api \<Rightarrow> 'n transfer \<Rightarrow> string \<Rightarrow> string
    \<Rightarrow> ('n, 'x) sys \<Rightarrow> 'n transfer_answer reply \<times> ('n, 'x) sys" where
  "settle_balances api tr tid ticket_id s =
     (case call_credit_get api (tr_buyerId tr) s of
        (Inl e, s1) \<Rightarrow> (Fail 503 UNAVAILABLE, mark_failed tid s1)
      | (Inr bd, s1) \<Rightarrow>
          if read_balance bd < tr_creditAmount tr then (Fail 402 ''INSUFFICIENT_CREDITS'', mark_failed tid s1)
          else
            (case call_credit_get api (tr_sellerId tr) s1 of
               (Inl e, s2) \<Rightarrow> (Fail 503 UNAVAILABLE, s2)
             | (Inr sd, s2) \<Rightarrow> settle_saga api tr tid ticket_id (read_balance bd) (read_balance sd) s2))"

definition settle ::
  "('n::{zero,ord,plus,minus,uminus}, 'x) credit_api \<Rightarrow> 'n transfer \<Rightarrow> string
    \<Rightarrow> ('n, 'x) sys \<Rightarrow> 'n transfer_answer reply \<times> ('n, 'x) sys" where
  "settle api tr tid s =
     (case call_service UNAVAILABLE (ep_get_listing (tr_listingId tr))
             (patch_ignored tid [TrSellerOtpVerified (Some True)] s) of
        (Inl e, s1) \<Rightarrow> settle_balances api tr tid ''None'' s1
      | (Inr l, s1) \<Rightarrow> settle_balances api tr tid (li_ticketId l) s1)"

definition seller_verify ::
  "('n::{zero,ord,plus,minus,uminus}, 'x) credit_api \<Rightarrow> 'x otp_api \<Rightarrow> string \<Rightarrow> string option \<Rightarrow> string
    \<Rightarrow> ('n, 'x) sys \<Rightarrow> 'n transfer_answer reply \<times> ('n, 'x) sys" where
  "seller_verify api otp seller code tid s =
     (if \<not> truthy code then (Fail 400 ''VALIDATION_ERROR'', s)
      else (case call_service UNAVAILABLE (ep_get_transfer tid) s of
        (Inl e, s1) \<Rightarrow> (Fail 404 ''TRANSFER_NOT_FOUND'', s1)
      | (Inr tr, s1) \<Rightarrow>
          if tr_sellerId tr \<noteq> seller then (Fail 403 ''AUTH_FORBIDDEN'', s1)
          else if tr_status tr \<noteq> ''pending_seller_otp'' \<or> sellerOtpVerified tr \<or> \<not> buyerOtpVerified tr
              \<or> \<not> truthy (sellerVerificationSid tr) then (Fail 400 ''VALIDATION_ERROR'', s1)
          else
            (case call_service UNAVAILABLE (ep_read (\<lambda>s. get_user (tr_sellerId tr) (users s))) s1 of
               (Inl e, s2) \<Rightarrow> (Fail 503 UNAVAILABLE, s2)
             | (Inr u, s2) \<Rightarrow>
                 (case otp_accepted otp (the (sellerVerificationSid tr)) (the code) (us_phoneNumber u) s2 of
                    (False, s3) \<Rightarrow> (Fail 400 ''VALIDATION_ERROR'', s3)
                  | (True, s3) \<Rightarrow> settle api tr tid s3))))"

subsection \<open>Accepting, rejecting and cancelling\<close>

definition seller_accept ::
  "'x otp_api \<Rightarrow> string \<Rightarrow> string \<Rightarrow> ('n, 'x) sys \<Rightarrow> 'n transfer_answer reply \<times> ('n, 'x) sys" where
  "seller_accept otp seller tid s =
     (case call_service UNAVAILABLE (ep_get_transfer tid) s of
        (Inl e, s1) \<Rightarrow> (Fail 404 ''TRANSFER_NOT_FOUND'', s1)
      | (Inr tr, s1) \<Rightarrow>
          if tr_sellerId tr \<noteq> seller then (Fail 403 ''AUTH_FORBIDDEN'', s1)
          else if tr_status tr \<noteq> ''pending_seller_acceptance'' then (Fail 400 ''VALIDATION_ERROR'', s1)
          else
            (case call_service UNAVAILABLE (ep_read (\<lambda>s. get_user (tr_buyerId tr) (users s))) s1 of
               (Inl e, s2) \<Rightarrow> (Fail 503 UNAVAILABLE, s2)
             | (Inr u, s2) \<Rightarrow>
                 (case call_service UNAVAILABLE (ep_send_otp otp (us_phoneNumber u)) s2 of
                    (Inl e, s3) \<Rightarrow> (Fail 503 UNAVAILABLE, s3)
                  | (Inr sid, s3) \<Rightarrow>
                      let s4 = patch_ignored tid [TrBuyerVerificationSid (Some sid),
                                 TrStatus (Some ''pending_buyer_otp'')] s3
                      in (case load_enriched_transfer tid (tview_of tr) s4 of
                            (info, s5) \<Rightarrow>
                              (Done 200 \<lparr>an_transferId = tid, an_status = ''pending_buyer_otp'', an_info = Some info\<rparr>,
                               broadcast_transfer_notification \<lparr>tv_listingId = None, tv_buyerId = Some (tr_buyerId tr),
                                 tv_sellerId = Some seller, tv_ticketId = None\<rparr> s5)))))"

text \<open>
  What rejecting and cancelling share: the transfer is cancelled, and if the listing can be read it
  and its ticket go back on the market. None of the outcomes is looked at.
\<close>

definition call_off :: "'n transfer \<Rightarrow> string \<Rightarrow> ('n, 'x) sys \<Rightarrow> ('n, 'x) sys" where
  "call_off tr tid s =
     (let s1 = patch_ignored tid [TrStatus (Some ''cancelled'')] s in
      case call_service UNAVAILABLE (ep_get_listing (tr_listingId tr)) s1 of
        (Inl e, s2) \<Rightarrow> s2
      | (Inr l, s2) \<Rightarrow>
          let s3 = snd (call_service UNAVAILABLE (ep_update_listing (tr_listingId tr) [LiStatus (Some ''active'')]) s2)
          in snd (call_service UNAVAILABLE (ep_update_ticket (li_ticketId l) [TkStatus (Some ''listed'')]) s3))"

definition seller_reject :: "string \<Rightarrow> string \<Rightarrow> ('n, 'x) sys \<Rightarrow> string reply \<times> ('n, 'x) sys" where
  "seller_reject seller tid s =
     (case call_service UNAVAILABLE (ep_get_transfer tid) s of
        (Inl e, s1) \<Rightarrow> (Fail 404 ''TRANSFER_NOT_FOUND'', s1)
      | (Inr tr, s1) \<Rightarrow>
          if tr_sellerId tr \<noteq> seller then (Fail 403 ''AUTH_FORBIDDEN'', s1)
          else if tr_status tr \<noteq> ''pending_seller_acceptance'' then (Fail 400 ''VALIDATION_ERROR'', s1)
          else (Done 200 ''cancelled'', broadcast_transfer_notification \<lparr>tv_listingId = None,
                  tv_buyerId = Some (tr_buyerId tr), tv_sellerId = Some seller, tv_ticketId = None\<rparr> (call_off tr tid s1)))"

definition orch_cancel_transfer :: "string \<Rightarrow> string \<Rightarrow> ('n, 'x) sys \<Rightarrow> string reply \<times> ('n, 'x) sys" where
  "orch_cancel_transfer user tid s =
     (case call_service UNAVAILABLE (ep_get_transfer tid) s of
        (Inl e, s1) \<Rightarrow> (Fail 404 ''TRANSFER_NOT_FOUND'', s1)
      | (Inr tr, s1) \<Rightarrow>
          if user \<notin> {tr_buyerId tr, tr_sellerId tr} then (Fail 403 ''AUTH_FORBIDDEN'', s1)
          else if tr_status tr = ''completed'' then (Fail 400 ''VALIDATION_ERROR'', s1)
          else if tr_status tr = ''cancelled'' \<or> tr_status tr = ''failed'' then (Fail 400 ''VALIDATION_ERROR'', s1)
          else (Done 200 ''cancelled'', broadcast_transfer_notification \<lparr>tv_listingId = None,
                  tv_buyerId = Some (tr_buyerId tr), tv_sellerId = Some (tr_sellerId tr), tv_ticketId = None\<rparr>
                  (call_off tr tid s1)))"

subsection \<open>Sending a code again\<close>

definition resend_to ::
  "'x otp_api \<Rightarrow> string \<Rightarrow> (string \<Rightarrow> transfer_field) \<Rightarrow> string \<Rightarrow> ('n, 'x) sys \<Rightarrow> string reply \<times> ('n, 'x) sys" where
  "resend_to otp user field tid s =
     (case call_service UNAVAILABLE (ep_read (\<lambda>s. get_user user (users s))) s of
        (Inl e, s1) \<Rightarrow> (Fail 503 UNAVAILABLE, s1)
      | (Inr u, s1) \<Rightarrow>
          (case call_service UNAVAILABLE (ep_send_otp otp (us_phoneNumber u)) s1 of
             (Inl e, s2) \<Rightarrow> (Fail 503 UNAVAILABLE, s2)
           | (Inr sid, s2) \<Rightarrow> (Done 200 ''OTP resent to your phone.'', patch_ignored tid [field sid] s2)))"

definition resend_otp :: "'x otp_api \<Rightarrow> string \<Rightarrow> string \<Rightarrow> ('n, 'x) sys \<Rightarrow> string reply \<times> ('n, 'x) sys" where
  "resend_otp otp user tid s =
     (case call_service UNAVAILABLE (ep_get_transfer tid) s of
        (Inl e, s1) \<Rightarrow> (Fail 404 ''TRANSFER_NOT_FOUND'', s1)
      | (Inr tr, s1) \<Rightarrow>
          if user \<notin> {tr_buyerId tr, tr_sellerId tr} then (Fail 403 ''AUTH_FORBIDDEN'', s1)
          else if tr_status tr = ''pending_buyer_otp'' \<and> tr_buyerId tr = user then
            resend_to otp (tr_buyerId tr) (\<lambda>sid. TrBuyerVerificationSid (Some sid)) tid s1
          else if tr_status tr = ''pending_seller_otp'' \<and> tr_sellerId tr = user then
            resend_to otp (tr_sellerId tr) (\<lambda>sid. TrSellerVerificationSid (Some sid)) tid s1
          else (Fail 400 ''VALIDATION_ERROR'', s1))"

subsection \<open>Reading transfers\<close>

text \<open>\<^verbatim>\<open>[_enrich_transfer(t) for t in ts]\<close>\<close>

fun enrich_all :: "'n transfer list \<Rightarrow> ('n, 'x) sys \<Rightarrow> ('n transfer \<times> 'n enriched) list \<times> ('n, 'x) sys" where
  "enrich_all [] s = ([], s)"
| "enrich_all (tr # trs) s =
     (case enrich_transfer (tview_of tr) s of (i, s1) \<Rightarrow>
        (case enrich_all trs s1 of (rest, s2) \<Rightarrow> ((tr, i) # rest, s2)))"

definition list_and_enrich ::
  "string option \<Rightarrow> string option \<Rightarrow> string \<Rightarrow> ('n, 'x) sys
    \<Rightarrow> ('n transfer \<times> 'n enriched) list reply \<times> ('n, 'x) sys" where
  "list_and_enrich seller buyer st s =
     (case call_service UNAVAILABLE (ep_read (\<lambda>s. list_transfers seller buyer (Some st) (transfers s))) s of
        (Inl e, s1) \<Rightarrow> (Fail 503 UNAVAILABLE, s1)
      | (Inr ts, s1) \<Rightarrow> (case enrich_all ts s1 of (xs, s2) \<Rightarrow> (Done 200 xs, s2)))"

definition get_my_pending_transfers ::
  "string \<Rightarrow> ('n, 'x) sys \<Rightarrow> ('n transfer \<times> 'n enriched) list reply \<times> ('n, 'x) sys" where
  "get_my_pending_transfers buyer s = list_and_enrich None (Some buyer) ''pending_buyer_otp'' s"

definition get_transfer_history ::
  "string \<Rightarrow> ('n, 'x) sys \<Rightarrow> ('n transfer \<times> 'n enriched) list reply \<times> ('n, 'x) sys" where
  "get_transfer_history seller s = list_and_enrich (Some seller) None ''completed'' s"

text \<open>
  The seller's pending transfers are two queries; the dictionary keeps the last transfer of an id at
  the place of the first.
\<close>

fun unique_by_id :: "'n transfer list \<Rightarrow> 'n transfer list \<Rightarrow> 'n transfer list" where
  "unique_by_id acc [] = acc"
| "unique_by_id acc (tr # trs) =
     unique_by_id (if row_get transferId (transferId tr) acc \<noteq> None
                   then row_upd transferId (transferId tr) (\<lambda>_. tr) acc else acc @ [tr]) trs"

definition get_pending_transfers ::
  "string \<Rightarrow> ('n, 'x) sys \<Rightarrow> ('n transfer \<times> 'n enriched) list reply \<times> ('n, 'x) sys" where
  "get_pending_transfers seller s =
     (case call_service UNAVAILABLE (ep_read (\<lambda>s. list_transfers (Some seller) None (Some ''pending_seller_otp'') (transfers s))) s of
        (Inl e, s1) \<Rightarrow> (Fail 503 UNAVAILABLE, s1)
      | (Inr ts1, s1) \<Rightarrow>
          (case call_service UNAVAILABLE (ep_read (\<lambda>s. list_transfers (Some seller) None
                    (Some ''pending_seller_acceptance'') (transfers s))) s1 of
             (Inl e, s2) \<Rightarrow> (Fail 503 UNAVAILABLE, s2)
           | (Inr ts2, s2) \<Rightarrow>
               (case enrich_all (unique_by_id [] (ts1 @ ts2)) s2 of (xs, s3) \<Rightarrow> (Done 200 xs, s3))))"

definition orch_get_transfer ::
  "string \<Rightarrow> string \<Rightarrow> ('n, 'x) sys \<Rightarrow> ('n transfer \<times> 'n enriched) reply \<times> ('n, 'x) sys" where
  "orch_get_transfer user tid s =
     (case call_service UNAVAILABLE (ep_get_transfer tid) s of
        (Inl e, s1) \<Rightarrow> (Fail 404 ''TRANSFER_NOT_FOUND'', s1)
      | (Inr tr, s1) \<Rightarrow>
          if user \<notin> {tr_buyerId tr, tr_sellerId tr} then (Fail 403 ''AUTH_FORBIDDEN'', s1)
          else (case enrich_transfer (tview_of tr) s1 of (i, s2) \<Rightarrow> (Done 200 (tr, i), s2)))"

subsection \<open>The consumer of timeouts\<close>

text \<open>
  \<^verbatim>\<open>_cancel_transfer\<close> and the handler of one message of \<^verbatim>\<open>transfer_timeout_queue\<close>. The body of the
  PATCH also carries the keys \<^verbatim>\<open>cancelledAt\<close> and \<^verbatim>\<open>cancelReason\<close>.
\<close>

definition timeout_cancel_transfer :: "string \<Rightarrow> string \<Rightarrow> ('n, 'x) sys \<Rightarrow> ('n, 'x) sys" where
  "timeout_cancel_transfer tid lid s =
     snd (call_service UNAVAILABLE (ep_update_listing lid [LiStatus (Some ''active'')])
       (patch_ignored tid [TrStatus (Some ''cancelled''), TrOther ''cancelledAt'', TrOther ''cancelReason''] s))"

definition on_timeout_message :: "string option \<Rightarrow> string option \<Rightarrow> ('n, 'x) sys \<Rightarrow> ('n, 'x) sys" where
  "on_timeout_message tid lid s =
     (case call_service UNAVAILABLE (ep_get_transfer (or_empty tid)) s of
        (Inl e, s1) \<Rightarrow> s1
      | (Inr tr, s1) \<Rightarrow>
          if tr_status tr \<notin> {''pending_seller_acceptance'', ''pending_buyer_otp'', ''pending_seller_otp''} then s1
          else timeout_cancel_transfer (or_empty tid) (or_empty lid) s1)"

subsection \<open>Enrichment only reads\<close>

definition net_only :: "('n, 'x) sys \<Rightarrow> ('n, 'x) sys \<Rightarrow> bool" where
  "net_only s s' \<longleftrightarrow> (\<exists>n. s' = s\<lparr>net := n\<rparr>)"

lemma net_only_refl [simp]: "net_only s s"
  unfolding net_only_def by (intro exI [of _ "net s"]) simp

lemma net_only_trans: "net_only s t \<Longrightarrow> net_only t u \<Longrightarrow> net_only s u"
  by (auto simp: net_only_def)

lemma net_only_keeps:
  assumes "net_only s s'"
  shows "tickets s' = tickets s" "listings s' = listings s" "transfers s' = transfers s" "ledger s' = ledger s"
    "ext s' = ext s" "inventory s' = inventory s" "users s' = users s" "logs s' = logs s"
  using assms by (auto simp: net_only_def)

lemma safe_get_net: "safe_get f s = (r, s') \<Longrightarrow> net_only s s'"
  by (auto simp: safe_get_def net_only_def split: prod.splits sum.splits dest!: call_read)

lemma safe_get_if_net: "safe_get_if b f s = (r, s') \<Longrightarrow> net_only s s'"
  by (auto simp: safe_get_if_def split: if_splits dest: safe_get_net)

lemma find_place_net: "find_place e i v s = (r, s') \<Longrightarrow> net_only s s'"
  by (auto simp: find_place_def Let_def split: if_splits prod.splits dest!: safe_get_net intro: net_only_trans)

lemma build_transfer_context_net:
  assumes "build_transfer_context v s = (c, s')"
  shows "net_only s s'"
proof -
  obtain l s1 where 1: "safe_get_if (truthy (tv_listingId v)) (\<lambda>s. get_listing (or_empty (tv_listingId v)) (listings s)) s = (l, s1)"
    by fastforce
  define tid where "tid = first_present [tv_ticketId v, map_option li_ticketId l]"
  obtain k s2 where 2: "safe_get_if (truthy tid) (\<lambda>s. get_ticket (or_empty tid) (tickets s)) s1 = (k, s2)" by fastforce
  define eid where "eid = map_option tk_eventId k"
  obtain e s3 where 3: "safe_get_if (truthy eid) (\<lambda>s. get_event (or_empty eid) (events s)) s2 = (e, s3)" by fastforce
  define vid where "vid = first_present [map_option ev_venueId e, map_option tk_venueId k]"
  obtain w s4 where 4: "safe_get_if (truthy vid) (\<lambda>s. get_venue (or_empty vid) (venues s)) s3 = (w, s4)" by fastforce
  obtain x s5 where 5: "safe_get_if (truthy (tv_sellerId v)) (\<lambda>s. get_user (or_empty (tv_sellerId v)) (users s)) s4 = (x, s5)"
    by fastforce
  obtain y s6 where 6: "safe_get_if (truthy (tv_buyerId v)) (\<lambda>s. get_user (or_empty (tv_buyerId v)) (users s)) s5 = (y, s6)"
    by fastforce
  obtain z s7 where 7: "find_place eid (map_option tk_inventoryId k) vid s6 = (z, s7)" by fastforce
  have "s' = s7"
    using assms 1 2 3 4 5 6 7
    by (simp add: build_transfer_context_def Let_def tid_def [symmetric] eid_def [symmetric] vid_def [symmetric])
  moreover note safe_get_if_net [OF 1] safe_get_if_net [OF 2] safe_get_if_net [OF 3] safe_get_if_net [OF 4]
    safe_get_if_net [OF 5] safe_get_if_net [OF 6] find_place_net [OF 7]
  ultimately show ?thesis by (blast intro: net_only_trans)
qed

lemma enrich_transfer_net: "enrich_transfer v s = (i, s') \<Longrightarrow> net_only s s'"
  by (auto simp: enrich_transfer_def split: prod.splits dest!: build_transfer_context_net)

lemma enrich_transfer_net': "net_only s (snd (enrich_transfer v s))"
  using enrich_transfer_net [OF prod.collapse [symmetric]] .

lemma broadcast_notification_net: "net_only s (broadcast_notification s)"
proof -
  obtain r s1 where c: "call_service UNAVAILABLE (ep_read (\<lambda>_. Done 200 ())) s = (r, s1)" by fastforce
  with call_read [OF c] show ?thesis by (auto simp: broadcast_notification_def net_only_def)
qed

lemma broadcast_transfer_notification_net: "net_only s (broadcast_transfer_notification v s)"
  unfolding broadcast_transfer_notification_def
  by (rule net_only_trans [OF enrich_transfer_net' broadcast_notification_net])

text \<open>Reloading a transfer may only mark it expired.\<close>

lemma load_enriched_transfer_shape:
  assumes "load_enriched_transfer tid v s = (i, s')"
  shows "\<exists>n t. s' = s\<lparr>transfers := t, net := n\<rparr> \<and> (t = transfers s \<or> (\<exists>rep. get_transfer tid (time_now s) (transfers s) = (rep, t)))"
proof -
  obtain r s1 where c: "call_service UNAVAILABLE (ep_get_transfer tid) s = (r, s1)" by fastforce
  from call_get_transfer [OF c] obtain t where s1: "s1 = s\<lparr>net := tl (net s), transfers := t\<rparr>"
    and t: "t = transfers s \<or> (\<exists>rep. get_transfer tid (time_now s) (transfers s) = (rep, t))" by blast
  have "net_only s1 s'"
    using assms c by (auto simp: load_enriched_transfer_def split: sum.splits dest: enrich_transfer_net)
  then obtain n where "s' = s\<lparr>transfers := t, net := n\<rparr>" using s1 by (auto simp: net_only_def)
  with t show ?thesis by blast
qed

end
