(* ===== verification/TransferSaga.thy ===== *)
theory TransferSaga
  imports TransferOrchestrator
begin

text \<open>
  Proofs about the saga that settles a transfer: what a completed saga has done, what a failed one
  has restored, and what it has not.
\<close>

subsection \<open>The pieces\<close>

lemma succeeds_iff: "succeeds (r, s) = (b, s') \<longleftrightarrow> s' = s \<and> (b \<longleftrightarrow> (\<exists>v. r = Inr v))"
  by (cases r) (auto simp: succeeds_def)

text \<open>What the saga is about: the books, and the balances apart from them.\<close>

definition books :: "('n, 'x) sys \<Rightarrow> 'n ticket list \<times> 'n listing list \<times> 'n transfer list \<times> 'n credit_txn list" where
  "books s = (tickets s, listings s, transfers s, ledger s)"

lemma set_balance_result:
  assumes "set_balance api u v s = (ok, s')" and "credit_laws bal api"
  shows "books s' = books s \<and> inventory s' = inventory s
    \<and> (ok \<longrightarrow> bal (ext s') = (bal (ext s))(u := v))
    \<and> (\<not> ok \<longrightarrow> bal (ext s') = bal (ext s) \<or> bal (ext s') = (bal (ext s))(u := v))"
proof -
  obtain e s1 where c: "call_credit_patch api u v s = (e, s1)" by fastforce
  from call_credit_patch_is [OF c] obtain x where s1: "s1 = s\<lparr>ext := x\<rparr>"
    and x: "credit_patch api u v (ext s) = (e, x)" by blast
  have "s' = s1" "ok = (e = None)" using assms(1) c by (simp_all add: set_balance_def)
  with s1 credit_patch_law [OF assms(2) x] show ?thesis by (simp add: books_def)
qed

definition entry :: "string \<Rightarrow> 'n \<Rightarrow> string \<Rightarrow> string \<Rightarrow> 'n credit_txn \<Rightarrow> bool" where
  "entry u d reason ref x \<longleftrightarrow> ct_userId x = u \<and> ct_delta x = d \<and> ct_reason x = reason \<and> ct_referenceId x = Some ref"

lemma log_txn_result:
  assumes "log_txn u d reason ref s = (ok, s')"
  shows "tickets s' = tickets s \<and> listings s' = listings s \<and> transfers s' = transfers s \<and> ext s' = ext s
    \<and> inventory s' = inventory s
    \<and> (ledger s' = ledger s \<and> \<not> ok \<or> (\<exists>x. ledger s' = ledger s @ [x] \<and> entry u d reason ref x))"
proof -
  obtain r s1 where c: "call_service UNAVAILABLE (ep_create_txn \<lparr>xb_userId = Some (Some u), xb_delta = Some (Some d),
       xb_reason = Some (Some reason), xb_referenceId = Some ref\<rparr>) s = (r, s1)" by fastforce
  have "s' = s1" "ok = (\<exists>v. r = Inr v)" using assms c by (auto simp: log_txn_def succeeds_iff)
  with call_create_txn [OF c] show ?thesis
    by (auto simp: create_credit_transaction_def Let_def entry_def split: if_splits)
qed

lemma owner_patch_result:
  assumes "succeeds (call_service UNAVAILABLE (ep_update_ticket tid [TkOwnerId (Some u), TkStatus (Some st)]) s) = (ok, s')"
  shows "listings s' = listings s \<and> transfers s' = transfers s \<and> ledger s' = ledger s \<and> ext s' = ext s \<and> inventory s' = inventory s
    \<and> (tickets s' = tickets s \<and> \<not> ok
       \<or> (\<exists>t. row_get ticketId tid (tickets s) = Some t \<and> st \<in> set ticket_ALLOWED_STATUS_VALUES
            \<and> tickets s' = save_ticket tid [TkOwnerId (Some u), TkStatus (Some st)] (tickets s)))"
proof -
  obtain r s1 where c: "call_service UNAVAILABLE (ep_update_ticket tid [TkOwnerId (Some u), TkStatus (Some st)]) s = (r, s1)"
    by fastforce
  have "s' = s1" "ok = (\<exists>v. r = Inr v)" using assms c by (auto simp: succeeds_iff)
  with call_update_ticket [OF c] show ?thesis
    by (auto dest!: update_ticket_effect dest: outcome_done)
qed

lemma listing_patch_result:
  assumes "succeeds (call_service UNAVAILABLE (ep_update_listing lid [LiStatus (Some st)]) s) = (ok, s')"
  shows "tickets s' = tickets s \<and> transfers s' = transfers s \<and> ledger s' = ledger s \<and> ext s' = ext s \<and> inventory s' = inventory s
    \<and> (listings s' = listings s \<and> \<not> ok
       \<or> (\<exists>l. row_get listingId lid (listings s) = Some l \<and> listings s' = save_listing lid st (listings s)))"
proof -
  obtain r s1 where c: "call_service UNAVAILABLE (ep_update_listing lid [LiStatus (Some st)]) s = (r, s1)" by fastforce
  have "s' = s1" "ok = (\<exists>v. r = Inr v)" using assms c by (auto simp: succeeds_iff)
  with call_update_listing [OF c] show ?thesis
    by (auto simp: update_listing_def split: if_splits option.splits)
qed

lemma transfer_patch_result:
  assumes "succeeds (call_service UNAVAILABLE (ep_patch_transfer tid body) s) = (ok, s')"
  shows "tickets s' = tickets s \<and> listings s' = listings s \<and> ledger s' = ledger s \<and> ext s' = ext s \<and> inventory s' = inventory s
    \<and> (\<not> ok \<or> (\<exists>tr. row_get transferId tid (transfers s) = Some tr
          \<and> transfers s' = save_transfer tid body (transfers s)))"
proof -
  obtain r s1 where c: "call_service UNAVAILABLE (ep_patch_transfer tid body) s = (r, s1)" by fastforce
  have "s' = s1" "ok = (\<exists>v. r = Inr v)" using assms c by (auto simp: succeeds_iff)
  with call_patch_transfer [OF c] show ?thesis
    by (auto dest!: patch_transfer_effect dest: outcome_done)
qed

subsection \<open>A completed saga\<close>

lemma run_steps_all: "run_steps ((n, f) # fs) s = (c, True, s') \<longleftrightarrow>
    (\<exists>s1 c1. f s = (True, s1) \<and> run_steps fs s1 = (c1, True, s') \<and> c = n # c1)"
  by (auto split: prod.splits bool.splits)

lemma execute_saga_True:
  assumes "execute_saga api g s = (True, s')"
  shows "\<exists>c. run_steps (saga_steps api g) s = (c, True, s')"
  using assms by (auto simp: execute_saga_def Let_def split: prod.splits bool.splits)

text \<open>The effect of a completed saga on every table, and on the balances.\<close>

definition settled :: "'n::{plus,minus,uminus} saga \<Rightarrow> ('n, 'x) sys \<Rightarrow> ('n, 'x) sys \<Rightarrow> bool" where
  "settled g s s' \<longleftrightarrow>
     (\<exists>x y. ledger s' = ledger s @ [x, y]
        \<and> entry (sg_buyer_id g) (- sg_credit_amount g) ''p2p_sent'' (sg_transfer_id g) x
        \<and> entry (sg_seller_id g) (sg_credit_amount g) ''p2p_received'' (sg_transfer_id g) y)
   \<and> (\<exists>t. row_get ticketId (sg_ticket_id g) (tickets s) = Some t)
   \<and> tickets s' = save_ticket (sg_ticket_id g) [TkOwnerId (Some (sg_buyer_id g)), TkStatus (Some ''active'')] (tickets s)
   \<and> (\<exists>l. row_get listingId (sg_listing_id g) (listings s) = Some l)
   \<and> listings s' = save_listing (sg_listing_id g) ''completed'' (listings s)
   \<and> (\<exists>tr now. row_get transferId (sg_transfer_id g) (transfers s) = Some tr
        \<and> transfers s' = save_transfer (sg_transfer_id g)
             [TrStatus (Some ''completed''), TrCompletedAt (Some (TIso (Aware now)))] (transfers s))"

lemma completed_saga:
  assumes laws: "credit_laws bal api" and run: "execute_saga api g s = (True, s')"
  shows "settled g s s' \<and> inventory s' = inventory s
    \<and> bal (ext s') = (bal (ext s))(sg_buyer_id g := sg_buyer_balance g - sg_credit_amount g,
                                   sg_seller_id g := sg_seller_balance g + sg_credit_amount g)"
proof -
  from execute_saga_True [OF run] obtain s1 s2 s3 s4 s5 s6 where
    c1: "set_balance api (sg_buyer_id g) (sg_buyer_balance g - sg_credit_amount g) s = (True, s1)"
    and c2: "set_balance api (sg_seller_id g) (sg_seller_balance g + sg_credit_amount g) s1 = (True, s2)"
    and c3: "log_txn (sg_buyer_id g) (- sg_credit_amount g) ''p2p_sent'' (sg_transfer_id g) s2 = (True, s3)"
    and c4: "log_txn (sg_seller_id g) (sg_credit_amount g) ''p2p_received'' (sg_transfer_id g) s3 = (True, s4)"
    and c5: "succeeds (call_service UNAVAILABLE (ep_update_ticket (sg_ticket_id g)
         [TkOwnerId (Some (sg_buyer_id g)), TkStatus (Some ''active'')]) s4) = (True, s5)"
    and c6: "succeeds (call_service UNAVAILABLE (ep_update_listing (sg_listing_id g) [LiStatus (Some ''completed'')]) s5) = (True, s6)"
    and c7: "succeeds (call_service UNAVAILABLE (ep_patch_transfer (sg_transfer_id g)
         [TrStatus (Some ''completed''), TrCompletedAt (Some (TIso (Aware (time_now s6))))]) s6) = (True, s')"
    unfolding saga_steps_def run_steps_all run_steps.simps(1) by blast
  note r1 = set_balance_result [OF c1 laws] and r2 = set_balance_result [OF c2 laws]
  obtain x where r3: "tickets s3 = tickets s2" "listings s3 = listings s2" "transfers s3 = transfers s2"
      "ext s3 = ext s2" "inventory s3 = inventory s2" "ledger s3 = ledger s2 @ [x]"
      "entry (sg_buyer_id g) (- sg_credit_amount g) ''p2p_sent'' (sg_transfer_id g) x"
    using log_txn_result [OF c3] by auto
  obtain y where r4: "tickets s4 = tickets s3" "listings s4 = listings s3" "transfers s4 = transfers s3"
      "ext s4 = ext s3" "inventory s4 = inventory s3" "ledger s4 = ledger s3 @ [y]"
      "entry (sg_seller_id g) (sg_credit_amount g) ''p2p_received'' (sg_transfer_id g) y"
    using log_txn_result [OF c4] by auto
  note r5 = owner_patch_result [OF c5] and r6 = listing_patch_result [OF c6] and r7 = transfer_patch_result [OF c7]
  have base: "tickets s2 = tickets s" "listings s2 = listings s" "transfers s2 = transfers s" "ledger s2 = ledger s"
    using r1 r2 by (simp_all add: books_def)
  have "ledger s' = ledger s @ [x, y]" "inventory s' = inventory s" "ext s' = ext s2"
    using r1 r2 r3 r4 r5 r6 r7 base by simp_all
  moreover have "bal (ext s2) = (bal (ext s))(sg_buyer_id g := sg_buyer_balance g - sg_credit_amount g,
                                   sg_seller_id g := sg_seller_balance g + sg_credit_amount g)"
    using r1 r2 by simp
  moreover have "settled g s s'"
    unfolding settled_def
  proof (intro conjI)
    show "\<exists>x y. ledger s' = ledger s @ [x, y]
        \<and> entry (sg_buyer_id g) (- sg_credit_amount g) ''p2p_sent'' (sg_transfer_id g) x
        \<and> entry (sg_seller_id g) (sg_credit_amount g) ''p2p_received'' (sg_transfer_id g) y"
      using \<open>ledger s' = ledger s @ [x, y]\<close> r3(7) r4(7) by blast
  qed (use r3 r4 r5 r6 r7 base in auto)
  ultimately show ?thesis by simp
qed

subsection \<open>A failed saga\<close>

text \<open>A credit service that confirms every write.\<close>

definition credit_up :: "('n, 'x) credit_api \<Rightarrow> bool" where
  "credit_up api \<longleftrightarrow> (\<forall>u v x. fst (credit_patch api u v x) = None)"

lemma set_balance_up:
  assumes "credit_laws bal api" and "credit_up api"
  shows "\<exists>s'. set_balance api u v s = (True, s') \<and> books s' = books s \<and> bal (ext s') = (bal (ext s))(u := v)"
proof -
  obtain ok s' where c: "set_balance api u v s = (ok, s')" by fastforce
  obtain e x where x: "credit_patch api u v (ext s) = (e, x)" by fastforce
  have "fst (credit_patch api u v (ext s)) = None" using assms(2) by (simp add: credit_up_def)
  with c x have ok by (simp add: set_balance_def call_credit_patch_def)
  with c set_balance_result [OF c assms(1)] show ?thesis by simp
qed

definition keeps_ext :: "(('n, 'x) sys \<Rightarrow> bool \<times> ('n, 'x) sys) \<Rightarrow> bool" where
  "keeps_ext f \<longleftrightarrow> (\<forall>s. ext (snd (f s)) = ext s)"

lemma keeps_extI: "(\<And>s ok s'. f s = (ok, s') \<Longrightarrow> ext s' = ext s) \<Longrightarrow> keeps_ext f"
  unfolding keeps_ext_def by (metis prod.collapse)

lemma keeps_ext_log: "keeps_ext (log_txn u d reason ref)"
  by (rule keeps_extI) (drule log_txn_result, simp)

lemma keeps_ext_ticket:
  "keeps_ext (\<lambda>s. succeeds (call_service UNAVAILABLE (ep_update_ticket tid [TkOwnerId (Some u), TkStatus (Some st)]) s))"
  by (rule keeps_extI) (drule owner_patch_result, simp)

lemma keeps_ext_listing:
  "keeps_ext (\<lambda>s. succeeds (call_service UNAVAILABLE (ep_update_listing lid [LiStatus (Some st)]) s))"
  by (rule keeps_extI) (drule listing_patch_result, simp)

lemma keeps_ext_transfer:
  "keeps_ext (\<lambda>s. succeeds (call_service UNAVAILABLE (ep_patch_transfer tid (body s)) s))"
  by (rule keeps_extI) (drule transfer_patch_result, simp)

lemma txn_patch_result:
  assumes "succeeds (call_service UNAVAILABLE (ep_patch_txn ref) s) = (ok, s')"
  shows "s' = s\<lparr>net := tl (net s)\<rparr> \<and> \<not> ok"
proof -
  obtain r s1 where c: "call_service UNAVAILABLE (ep_patch_txn ref) s = (r, s1)" by fastforce
  from call_patch_txn [OF c] c assms show ?thesis by (auto simp: succeeds_iff)
qed

lemma keeps_ext_txn: "keeps_ext (\<lambda>s. succeeds (call_service UNAVAILABLE (ep_patch_txn ref) s))"
  by (rule keeps_extI) (drule txn_patch_result, simp)

lemmas keeps_ext_calls = keeps_ext_log keeps_ext_ticket keeps_ext_listing keeps_ext_transfer keeps_ext_txn

text \<open>What every step does, reflexive and transitive, a run of steps or compensations does.\<close>

lemma run_steps_rel:
  assumes "run_steps fs s = (c, ok, s')" and refl: "\<And>s. R s s" and trans: "\<And>s t u. R s t \<Longrightarrow> R t u \<Longrightarrow> R s u"
    and each: "\<And>n f s. (n, f) \<in> set fs \<Longrightarrow> R s (snd (f s))"
  shows "R s s'"
  using assms(1) each
proof (induction fs arbitrary: s c)
  case (Cons nf fs)
  obtain n f where nf: "nf = (n, f)" by fastforce
  obtain b s1 where b: "f s = (b, s1)" by fastforce
  have "R s s1" using Cons.prems(2) [of n f s] by (simp add: nf b)
  moreover have "R s1 s'" if "run_steps fs s1 = (c1, ok, s')" for c1
    by (rule Cons.IH [OF that]) (use Cons.prems(2) in auto)
  ultimately show ?case using Cons.prems(1) nf b trans by (auto split: bool.splits prod.splits)
qed (simp add: refl)

lemma run_undo_rel:
  assumes "run_undo fs c s = (ok, s')" and refl: "\<And>s. R s s" and trans: "\<And>s t u. R s t \<Longrightarrow> R t u \<Longrightarrow> R s u"
    and each: "\<And>n f s. (n, f) \<in> set fs \<Longrightarrow> R s (snd (f s))"
  shows "R s s'"
  using assms(1) each
proof (induction fs arbitrary: s ok)
  case (Cons nf fs)
  obtain n f where nf: "nf = (n, f)" by fastforce
  obtain b s1 where b: "f s = (b, s1)" by fastforce
  have "R s s1" using Cons.prems(2) [of n f s] by (simp add: nf b)
  moreover have "R q s'" if "run_undo fs c q = (k, s')" for q k
    by (rule Cons.IH [OF that]) (use Cons.prems(2) in auto)
  ultimately show ?case using Cons.prems(1) nf b trans by (auto split: if_splits prod.splits)
qed (simp add: refl)

lemma run_steps_ext:
  assumes "list_all (\<lambda>(n, f). keeps_ext f) fs" and "run_steps fs s = (c, ok, s')"
  shows "ext s' = ext s"
proof (rule run_steps_rel [OF assms(2), where R = "\<lambda>s s'. ext s' = ext s"])
  show "ext (snd (f q)) = ext q" if "(n, f) \<in> set fs" for n f q
    using assms(1) that by (auto simp: list_all_iff keeps_ext_def)
qed simp_all

lemma run_undo_ext:
  assumes "list_all (\<lambda>(n, f). keeps_ext f) fs" and "run_undo fs c s = (ok, s')"
  shows "ext s' = ext s"
proof (rule run_undo_rel [OF assms(2), where R = "\<lambda>s s'. ext s' = ext s"])
  show "ext (snd (f q)) = ext q" if "(n, f) \<in> set fs" for n f q
    using assms(1) that by (auto simp: list_all_iff keeps_ext_def)
qed simp_all

lemma mark_failed_keeps:
  "tickets (mark_failed tid s) = tickets s" "listings (mark_failed tid s) = listings s"
  "ledger (mark_failed tid s) = ledger s" "ext (mark_failed tid s) = ext s" "inventory (mark_failed tid s) = inventory s"
proof -
  obtain r s1 where c: "call_service UNAVAILABLE (ep_patch_transfer tid [TrStatus (Some ''failed'')]) s = (r, s1)" by fastforce
  from call_patch_transfer [OF c] obtain t where "s1 = s\<lparr>net := tl (net s), transfers := t\<rparr>" by blast
  with c show "tickets (mark_failed tid s) = tickets s" "listings (mark_failed tid s) = listings s"
    "ledger (mark_failed tid s) = ledger s" "ext (mark_failed tid s) = ext s" "inventory (mark_failed tid s) = inventory s"
    by (simp_all add: mark_failed_def)
qed

text \<open>A failed saga ran some steps, then the compensations of the completed ones.\<close>

lemma execute_saga_False:
  assumes "execute_saga api g s = (False, s')"
  obtains c s1 clean s2 where "run_steps (saga_steps api g) s = (c, False, s1)"
    and "run_undo (saga_undo api g) c s1 = (clean, s2)"
    and "tickets s' = tickets s2" and "ledger s' = ledger s2" and "ext s' = ext s2" and "listings s' = listings s2"
proof -
  obtain c b s1 where r: "run_steps (saga_steps api g) s = (c, b, s1)" by (metis prod_cases3)
  obtain clean s2 where u: "run_undo (saga_undo api g) c s1 = (clean, s2)" by fastforce
  have "\<not> b" using assms r by (auto simp: execute_saga_def)
  with assms r u that show ?thesis
    by (auto simp: execute_saga_def Let_def mark_failed_keeps split: if_splits)
qed

text \<open>The steps after the two payments, and the compensations before and after those of the payments.\<close>

definition later_steps :: "('n::{plus,minus,uminus}, 'x) credit_api \<Rightarrow> 'n saga \<Rightarrow> (saga_step \<times> (('n, 'x) sys \<Rightarrow> bool \<times> ('n, 'x) sys)) list" where
  "later_steps api g = drop 2 (saga_steps api g)"

definition first_undo :: "('n, 'x) credit_api \<Rightarrow> 'n saga \<Rightarrow> (saga_step \<times> (('n, 'x) sys \<Rightarrow> bool \<times> ('n, 'x) sys)) list" where
  "first_undo api g = take 2 (saga_undo api g)"

definition last_undo :: "('n, 'x) credit_api \<Rightarrow> 'n saga \<Rightarrow> (saga_step \<times> (('n, 'x) sys \<Rightarrow> bool \<times> ('n, 'x) sys)) list" where
  "last_undo api g = drop 4 (saga_undo api g)"

lemma saga_steps_split: "saga_steps api g =
    (BuyerDeducted, set_balance api (sg_buyer_id g) (sg_buyer_balance g - sg_credit_amount g)) #
    (SellerCredited, set_balance api (sg_seller_id g) (sg_seller_balance g + sg_credit_amount g)) # later_steps api g"
  by (simp add: later_steps_def saga_steps_def)

lemma saga_undo_split: "saga_undo api g = first_undo api g @
    [(SellerCredited, set_balance api (sg_seller_id g) (sg_seller_balance g)),
     (BuyerDeducted, set_balance api (sg_buyer_id g) (sg_buyer_balance g))] @ last_undo api g"
  by (simp add: first_undo_def last_undo_def saga_undo_def)

lemma parts_keep_ext:
  "list_all (\<lambda>(n, f). keeps_ext f) (later_steps api g)"
  "list_all (\<lambda>(n, f). keeps_ext f) (first_undo api g)"
  "list_all (\<lambda>(n, f). keeps_ext f) (last_undo api g)"
  by (simp_all add: later_steps_def saga_steps_def first_undo_def last_undo_def saga_undo_def keeps_ext_calls)

lemma run_undo_append: "run_undo (xs @ ys) c s =
    (case run_undo xs c s of (k1, p1) \<Rightarrow> (case run_undo ys c p1 of (k2, p2) \<Rightarrow> (k1 \<and> k2, p2)))"
  by (induction xs arbitrary: s) (auto split: prod.splits)

text \<open>With a credit service that confirms every write, a failed saga restores the balances.\<close>

lemma failed_saga_balances:
  assumes laws: "credit_laws bal api" and up: "credit_up api" and run: "execute_saga api g s = (False, s')"
    and bb: "sg_buyer_balance g = bal (ext s) (sg_buyer_id g)" and sb: "sg_seller_balance g = bal (ext s) (sg_seller_id g)"
  shows "bal (ext s') = bal (ext s)"
proof -
  obtain c s1 clean s2 where
    f: "run_steps (saga_steps api g) s = (c, False, s1)" and u: "run_undo (saga_undo api g) c s1 = (clean, s2)"
    and "tickets s' = tickets s2" and "ledger s' = ledger s2" and e: "ext s' = ext s2" and "listings s' = listings s2"
    by (rule execute_saga_False [OF run])
  obtain q1 where q1: "set_balance api (sg_buyer_id g) (sg_buyer_balance g - sg_credit_amount g) s = (True, q1)"
      "bal (ext q1) = (bal (ext s))(sg_buyer_id g := sg_buyer_balance g - sg_credit_amount g)"
    using set_balance_up [OF laws up, of "sg_buyer_id g" _ s] by blast
  obtain q2 where q2: "set_balance api (sg_seller_id g) (sg_seller_balance g + sg_credit_amount g) q1 = (True, q2)"
      "bal (ext q2) = (bal (ext q1))(sg_seller_id g := sg_seller_balance g + sg_credit_amount g)"
    using set_balance_up [OF laws up] by blast
  obtain c' ok s1' where l: "run_steps (later_steps api g) q2 = (c', ok, s1')" by (metis prod_cases3)
  have c: "c = BuyerDeducted # SellerCredited # c'" and s1': "s1' = s1"
    using f q1(1) q2(1) l by (simp_all add: saga_steps_split)
  from run_steps_ext [OF parts_keep_ext(1) l] s1' have s1: "ext s1 = ext q2" by simp
  obtain k1 p1 where k1: "run_undo (first_undo api g) c s1 = (k1, p1)" by fastforce
  from run_undo_ext [OF parts_keep_ext(2) k1] have p1: "ext p1 = ext s1" .
  obtain p2 where p2: "set_balance api (sg_seller_id g) (sg_seller_balance g) p1 = (True, p2)"
      "bal (ext p2) = (bal (ext p1))(sg_seller_id g := sg_seller_balance g)"
    using set_balance_up [OF laws up] by blast
  obtain p3 where p3: "set_balance api (sg_buyer_id g) (sg_buyer_balance g) p2 = (True, p3)"
      "bal (ext p3) = (bal (ext p2))(sg_buyer_id g := sg_buyer_balance g)"
    using set_balance_up [OF laws up] by blast
  obtain k p4 where k: "run_undo (last_undo api g) c p3 = (k, p4)" by fastforce
  have "s2 = p4" using u k1 p2(1) p3(1) c k by (simp add: saga_undo_split run_undo_append)
  with run_undo_ext [OF parts_keep_ext(3) k] have "ext s2 = ext p3" by simp
  then have "bal (ext s') = (bal (ext q2))(sg_seller_id g := sg_seller_balance g, sg_buyer_id g := sg_buyer_balance g)"
    by (simp add: e p3(2) p2(2) p1 s1)
  also have "\<dots> = bal (ext s)" unfolding q2(2) q1(2) bb sb by (simp add: fun_eq_iff)
  finally show ?thesis .
qed

subsection \<open>What a failed saga does not undo\<close>

text \<open>
  The ticket: no step and no compensation gives it to anybody but the buyer. The ledger: entries
  are added, never removed.
\<close>

definition moved :: "'n saga \<Rightarrow> ('n, 'x) sys \<Rightarrow> ('n, 'x) sys \<Rightarrow> bool" where
  "moved g s s' \<longleftrightarrow> tickets s' = tickets s
     \<or> ((\<exists>t. row_get ticketId (sg_ticket_id g) (tickets s) = Some t)
        \<and> tickets s' = save_ticket (sg_ticket_id g) [TkOwnerId (Some (sg_buyer_id g)), TkStatus (Some ''active'')] (tickets s))"

lemma save_ticket_twice:
  "save_ticket k [TkOwnerId (Some u), TkStatus (Some st)] (save_ticket k [TkOwnerId (Some u), TkStatus (Some st)] rows)
    = save_ticket k [TkOwnerId (Some u), TkStatus (Some st)] rows"
  by (simp add: save_ticket_def row_upd_def set_ticket_fields_def)

lemma moved_refl: "moved g s s"
  by (simp add: moved_def)

lemma moved_trans: "moved g s t \<Longrightarrow> moved g t u \<Longrightarrow> moved g s u"
  by (auto simp: moved_def save_ticket_twice)

definition extends_ledger :: "('n, 'x) sys \<Rightarrow> ('n, 'x) sys \<Rightarrow> bool" where
  "extends_ledger s s' \<longleftrightarrow> (\<exists>more. ledger s' = ledger s @ more)"

lemma extends_ledger_refl: "extends_ledger s s"
  by (simp add: extends_ledger_def)

lemma extends_ledger_trans: "extends_ledger s t \<Longrightarrow> extends_ledger t u \<Longrightarrow> extends_ledger s u"
  by (auto simp: extends_ledger_def)

lemma set_balance_books:
  assumes "set_balance api u v s = (ok, s')"
  shows "tickets s' = tickets s \<and> ledger s' = ledger s"
proof -
  obtain e s1 where c: "call_credit_patch api u v s = (e, s1)" by fastforce
  from call_credit_patch_is [OF c] obtain x where "s1 = s\<lparr>ext := x\<rparr>" by blast
  with assms c show ?thesis by (auto simp: set_balance_def)
qed

lemma saga_step_moves:
  assumes "(n, f) \<in> set (saga_steps api g)"
  shows "moved g s (snd (f s)) \<and> extends_ledger s (snd (f s))"
proof -
  obtain b s1 where fs: "f s = (b, s1)" by fastforce
  have cases: "f = set_balance api (sg_buyer_id g) (sg_buyer_balance g - sg_credit_amount g)
    \<or> f = set_balance api (sg_seller_id g) (sg_seller_balance g + sg_credit_amount g)
    \<or> f = log_txn (sg_buyer_id g) (- sg_credit_amount g) ''p2p_sent'' (sg_transfer_id g)
    \<or> f = log_txn (sg_seller_id g) (sg_credit_amount g) ''p2p_received'' (sg_transfer_id g)
    \<or> f = (\<lambda>s. succeeds (call_service UNAVAILABLE (ep_update_ticket (sg_ticket_id g)
         [TkOwnerId (Some (sg_buyer_id g)), TkStatus (Some ''active'')]) s))
    \<or> f = (\<lambda>s. succeeds (call_service UNAVAILABLE (ep_update_listing (sg_listing_id g) [LiStatus (Some ''completed'')]) s))
    \<or> f = (\<lambda>s. succeeds (call_service UNAVAILABLE (ep_patch_transfer (sg_transfer_id g)
         [TrStatus (Some ''completed''), TrCompletedAt (Some (TIso (Aware (time_now s))))]) s))"
    using assms(1) by (simp add: saga_steps_def) blast
  then have "moved g s s1 \<and> extends_ledger s s1"
    using fs by (elim disjE) (auto simp: moved_def extends_ledger_def
        dest!: set_balance_books log_txn_result owner_patch_result listing_patch_result transfer_patch_result)
  with fs show ?thesis by simp
qed

lemma saga_undo_moves:
  assumes "(n, f) \<in> set (saga_undo api g)"
  shows "tickets (snd (f s)) = tickets s \<and> ledger (snd (f s)) = ledger s"
proof -
  obtain b s1 where fs: "f s = (b, s1)" by fastforce
  have cases: "f = (\<lambda>s. succeeds (call_service UNAVAILABLE (ep_update_listing (sg_listing_id g) [LiStatus (Some ''active'')]) s))
    \<or> f = (\<lambda>s. succeeds (call_service UNAVAILABLE (ep_update_ticket (sg_ticket_id g)
         [TkOwnerId (Some (sg_seller_id g)), TkStatus (Some ''sold'')]) s))
    \<or> f = set_balance api (sg_seller_id g) (sg_seller_balance g)
    \<or> f = set_balance api (sg_buyer_id g) (sg_buyer_balance g)
    \<or> f = (\<lambda>s. succeeds (call_service UNAVAILABLE (ep_patch_txn (sg_transfer_id g)) s))"
    using assms(1) by (simp add: saga_undo_def) blast
  have "''sold'' \<notin> set ticket_ALLOWED_STATUS_VALUES" by (simp add: ticket_ALLOWED_STATUS_VALUES_def)
  with cases fs have "tickets s1 = tickets s \<and> ledger s1 = ledger s"
    by (elim disjE) (auto dest!: set_balance_books owner_patch_result listing_patch_result txn_patch_result)
  with fs show ?thesis by simp
qed

lemma failed_saga_tickets:
  assumes "execute_saga api g s = (False, s')"
  shows "moved g s s' \<and> extends_ledger s s'"
proof -
  obtain c s1 clean s2 where
    f: "run_steps (saga_steps api g) s = (c, False, s1)" and u: "run_undo (saga_undo api g) c s1 = (clean, s2)"
    and t: "tickets s' = tickets s2" and l: "ledger s' = ledger s2" and "ext s' = ext s2" and "listings s' = listings s2"
    by (rule execute_saga_False [OF assms])
  have "moved g s s1 \<and> extends_ledger s s1"
    by (rule run_steps_rel [OF f, where R = "\<lambda>s s'. moved g s s' \<and> extends_ledger s s'"])
      (use moved_refl moved_trans extends_ledger_refl extends_ledger_trans saga_step_moves in blast)+
  moreover have "tickets s2 = tickets s1 \<and> ledger s2 = ledger s1"
    by (rule run_undo_rel [OF u, where R = "\<lambda>s s'. tickets s' = tickets s \<and> ledger s' = ledger s"])
      (use saga_undo_moves in \<open>simp_all\<close>)
  ultimately show ?thesis using t l by (simp add: moved_def extends_ledger_def)
qed

subsection \<open>The seller's confirmation\<close>

lemma patch_ignored_shape:
  "\<exists>t. patch_ignored tid body s = s\<lparr>net := tl (net s), transfers := t\<rparr>
    \<and> (t = transfers s \<or> (\<exists>rep. patch_transfer tid body (time_now s) (transfers s) = (rep, t)))"
proof -
  obtain r s1 where c: "call_service UNAVAILABLE (ep_patch_transfer tid body) s = (r, s1)" by fastforce
  with call_patch_transfer [OF c] show ?thesis by (auto simp: patch_ignored_def)
qed

lemma otp_accepted_shape:
  assumes "otp_accepted otp sid code ph s = (b, s')"
  shows "\<exists>w x. s' = s\<lparr>net := tl (net s), inventory := (inventory s)\<lparr>world := w\<rparr>, ext := x\<rparr>
    \<and> (x = ext s \<or> (\<exists>i c a. smu_verify otp i c (ext s) = (a, x)))"
proof -
  obtain r s1 where c: "call_service UNAVAILABLE (ep_verify_otp otp sid code ph) s = (r, s1)" by fastforce
  have "s' = s1" using assms c by (simp add: otp_accepted_def split: sum.splits)
  with call_verify_otp [OF c] show ?thesis by simp
qed

lemma smu_verify_bal: "otp_laws bal otp \<Longrightarrow> smu_verify otp i c x = (a, x') \<Longrightarrow> bal x' = bal x"
  by (auto simp: otp_laws_def) (metis snd_conv)

text \<open>A transfer that is read as pending is stored as pending.\<close>

lemma get_transfer_pending:
  assumes "get_transfer tid now rows = (Done st tr, rows')" and "tr_status tr \<noteq> ''expired''"
  shows "rows' = rows \<and> row_get transferId tid rows = Some tr"
  using assms by (auto simp: get_transfer_def split: option.splits if_splits)

lemma call_get_transfer_pending:
  assumes "call_service tmo (ep_get_transfer tid) s = (Inr tr, s')" and "tr_status tr \<noteq> ''expired''"
  shows "s' = s\<lparr>net := tl (net s)\<rparr> \<and> row_get transferId tid (transfers s) = Some tr"
proof -
  from call_get_transfer [OF assms(1)] obtain t rep where s': "s' = s\<lparr>net := tl (net s), transfers := t\<rparr>"
    and g: "get_transfer tid (time_now s) (transfers s) = (rep, t)" and o: "outcome (Inr tr) rep" by auto
  from o obtain st where "rep = Done st tr" by (cases rep) auto
  with get_transfer_pending g assms(2) s' show ?thesis by fastforce
qed

lemma load_enriched_transfer_keeps_completed:
  assumes "load_enriched_transfer tid v s = (i, s')"
    and "row_get transferId tid (transfers s) = Some tr" and "tr_status tr = ''completed''"
  shows "transfers s' = transfers s"
proof -
  have "get_transfer tid (time_now s) (transfers s) = (Done 200 tr, transfers s)"
    using assms(2,3) by (simp add: get_transfer_def lapses_def transfer_final_def)
  with load_enriched_transfer_shape [OF assms(1)] show ?thesis by auto
qed

text \<open>What settling with the ticket \<open>k\<close> does when it succeeds.\<close>

definition deal_done ::
  "('x \<Rightarrow> string \<Rightarrow> 'n::{ord,plus,minus,uminus}) \<Rightarrow> 'n transfer \<Rightarrow> string \<Rightarrow> string \<Rightarrow> ('n, 'x) sys \<Rightarrow> ('n, 'x) sys \<Rightarrow> bool" where
  "deal_done bal tr tid k s s' \<longleftrightarrow>
     \<not> bal (ext s) (tr_buyerId tr) < tr_creditAmount tr
   \<and> bal (ext s') = (bal (ext s))(tr_buyerId tr := bal (ext s) (tr_buyerId tr) - tr_creditAmount tr,
                                  tr_sellerId tr := bal (ext s) (tr_sellerId tr) + tr_creditAmount tr)
   \<and> (\<exists>t. row_get ticketId k (tickets s) = Some t)
   \<and> tickets s' = save_ticket k [TkOwnerId (Some (tr_buyerId tr)), TkStatus (Some ''active'')] (tickets s)
   \<and> listings s' = save_listing (tr_listingId tr) ''completed'' (listings s)
   \<and> (\<exists>x y. ledger s' = ledger s @ [x, y] \<and> entry (tr_buyerId tr) (- tr_creditAmount tr) ''p2p_sent'' tid x
        \<and> entry (tr_sellerId tr) (tr_creditAmount tr) ''p2p_received'' tid y)
   \<and> (\<exists>tr'. row_get transferId tid (transfers s') = Some tr' \<and> tr_status tr' = ''completed'')"

lemma deal_done_frame:
  assumes "deal_done bal tr tid k s1 s'" and "tickets s1 = tickets s" and "listings s1 = listings s"
    and "ledger s1 = ledger s" and "bal (ext s1) = bal (ext s)"
  shows "deal_done bal tr tid k s s'"
  using assms by (simp add: deal_done_def)

lemma settle_saga_success:
  assumes laws: "credit_laws bal api" and run: "settle_saga api tr tid k bb sb s = (Done st a, s')"
    and bb: "bb = bal (ext s) (tr_buyerId tr)" and sb: "sb = bal (ext s) (tr_sellerId tr)"
    and enough: "\<not> bb < tr_creditAmount tr"
  shows "deal_done bal tr tid k s s'"
proof -
  let ?g = "\<lparr>sg_transfer_id = tid, sg_buyer_id = tr_buyerId tr, sg_seller_id = tr_sellerId tr,
    sg_credit_amount = tr_creditAmount tr, sg_ticket_id = k, sg_listing_id = tr_listingId tr,
    sg_buyer_balance = bb, sg_seller_balance = sb\<rparr>"
  let ?v = "\<lparr>tv_listingId = Some (tr_listingId tr), tv_buyerId = Some (tr_buyerId tr),
    tv_sellerId = Some (tr_sellerId tr), tv_ticketId = Some k\<rparr>"
  obtain ok s1 where c: "execute_saga api ?g s = (ok, s1)" by fastforce
  define s3 where "s3 = broadcast_notification (broadcast_notification (snd (enrich_transfer ?v s1)))"
  obtain info s4 where l: "load_enriched_transfer tid ((tview_of tr)\<lparr>tv_ticketId := Some k\<rparr>) s3 = (info, s4)" by fastforce
  have ok: "ok = True" and s': "s' = s4"
    using run c l by (auto simp: settle_saga_def s3_def Let_def split: bool.splits)
  have "net_only s1 s3"
    unfolding s3_def by (blast intro: net_only_trans enrich_transfer_net' broadcast_notification_net)
  note net_only_keeps [OF this]
  with load_enriched_transfer_shape [OF l] s'
  have tail: "tickets s' = tickets s1" "listings s' = listings s1" "ledger s' = ledger s1" "ext s' = ext s1"
    and tr3: "transfers s3 = transfers s1" by auto
  from completed_saga [OF laws c [unfolded ok]] bb sb enough
  have "deal_done bal tr tid k s s1"
    by (auto simp: settled_def deal_done_def transfer_table.get_upd)
  moreover have "transfers s' = transfers s1"
    using load_enriched_transfer_keeps_completed [OF l] calculation s' tr3 by (auto simp: deal_done_def)
  ultimately show ?thesis using tail by (simp add: deal_done_def)
qed

lemma settle_balances_success:
  assumes laws: "credit_laws bal api" and run: "settle_balances api tr tid k s = (Done st a, s')"
  shows "deal_done bal tr tid k s s'"
proof -
  obtain br s1 where c1: "call_credit_get api (tr_buyerId tr) s = (br, s1)" by fastforce
  then obtain bd where bd: "br = Inr bd" and enough: "\<not> read_balance bd < tr_creditAmount tr"
    using run by (auto simp: settle_balances_def split: sum.splits if_splits)
  obtain sr s2 where c2: "call_credit_get api (tr_sellerId tr) s1 = (sr, s2)" by fastforce
  then obtain sd where sd: "sr = Inr sd"
    using run c1 bd enough by (auto simp: settle_balances_def split: sum.splits)
  obtain x1 where x1: "s1 = s\<lparr>ext := x1\<rparr>" "credit_get api (tr_buyerId tr) (ext s) = (Inr bd, x1)"
    using call_credit_get_is [OF c1] bd by blast
  obtain x2 where x2: "s2 = s1\<lparr>ext := x2\<rparr>" "credit_get api (tr_sellerId tr) (ext s1) = (Inr sd, x2)"
    using call_credit_get_is [OF c2] sd by blast
  have b: "bal (ext s2) = bal (ext s)" "read_balance bd = bal (ext s) (tr_buyerId tr)" "read_balance sd = bal (ext s) (tr_sellerId tr)"
    using credit_get_law [OF laws x1(2)] credit_get_law [OF laws x2(2)] x1(1) x2(1) by auto
  have "settle_saga api tr tid k (read_balance bd) (read_balance sd) s2 = (Done st a, s')"
    using run c1 bd enough c2 sd by (simp add: settle_balances_def)
  from settle_saga_success [OF laws this] b enough have "deal_done bal tr tid k s2 s'" by simp
  then show ?thesis by (rule deal_done_frame) (simp_all add: x1 x2 b [unfolded x1 x2, simplified])
qed

lemma settle_success:
  assumes laws: "credit_laws bal api" and run: "settle api tr tid s = (Done st a, s')"
    and named: "row_get ticketId ''None'' (tickets s) = None"
  shows "\<exists>l. row_get listingId (tr_listingId tr) (listings s) = Some l \<and> deal_done bal tr tid (li_ticketId l) s s'"
proof -
  obtain t1 where p: "patch_ignored tid [TrSellerOtpVerified (Some True)] s = s\<lparr>net := tl (net s), transfers := t1\<rparr>"
    using patch_ignored_shape by blast
  obtain lr s1 where c: "call_service UNAVAILABLE (ep_get_listing (tr_listingId tr))
      (s\<lparr>net := tl (net s), transfers := t1\<rparr>) = (lr, s1)" by fastforce
  from call_get_listing [OF c] have s1: "tickets s1 = tickets s" "listings s1 = listings s" "ledger s1 = ledger s" "ext s1 = ext s"
    and l: "\<And>l. lr = Inr l \<Longrightarrow> row_get listingId (tr_listingId tr) (listings s) = Some l" by auto
  show ?thesis
  proof (cases lr)
    case (Inl e)
    with run p c have "settle_balances api tr tid ''None'' s1 = (Done st a, s')" by (simp add: settle_def)
    from settle_balances_success [OF laws this] s1 named show ?thesis by (simp add: deal_done_def)
  next
    case (Inr li)
    with run p c have "settle_balances api tr tid (li_ticketId li) s1 = (Done st a, s')" by (simp add: settle_def)
    from deal_done_frame [OF settle_balances_success [OF laws this]] s1 l [OF Inr] show ?thesis by auto
  qed
qed

end
