(* ===== verification/TransferProperties.thy ===== *)
theory TransferProperties
  imports TransferSaga
begin

text \<open>
  The properties of the transfer orchestrator: what a confirmed transfer does, that a failed one
  gives the credits back, what it does not give back, who can act in which state, and what
  cancelling and the timeout consumer do to the listing.
\<close>

subsection \<open>The seller's confirmation\<close>

lemma seller_verify_success:
  assumes laws: "credit_laws bal api" and otp: "otp_laws bal otp"
    and named: "row_get ticketId ''None'' (tickets s) = None"
    and run: "seller_verify api otp seller code tid s = (Done st a, s')"
  shows "\<exists>tr l. row_get transferId tid (transfers s) = Some tr \<and> tr_sellerId tr = seller
    \<and> tr_status tr = ''pending_seller_otp'' \<and> buyerOtpVerified tr \<and> \<not> sellerOtpVerified tr
    \<and> row_get listingId (tr_listingId tr) (listings s) = Some l \<and> deal_done bal tr tid (li_ticketId l) s s'"
proof -
  have code: "truthy code" using run by (auto simp: seller_verify_def split: if_splits)
  obtain gr s1 where g: "call_service UNAVAILABLE (ep_get_transfer tid) s = (gr, s1)" by fastforce
  then obtain tr where tr: "gr = Inr tr" using run code by (auto simp: seller_verify_def split: sum.splits)
  have ok: "tr_sellerId tr = seller" "tr_status tr = ''pending_seller_otp''" "buyerOtpVerified tr" "\<not> sellerOtpVerified tr"
      "truthy (sellerVerificationSid tr)"
    using run code g tr by (auto simp: seller_verify_def split: if_splits)
  from call_get_transfer_pending [of _ tid s tr s1] g tr ok(2)
  have s1: "s1 = s\<lparr>net := tl (net s)\<rparr>" and row: "row_get transferId tid (transfers s) = Some tr" by auto
  obtain ur s2 where u: "call_service UNAVAILABLE (ep_read (\<lambda>s. get_user (tr_sellerId tr) (users s))) s1 = (ur, s2)" by fastforce
  then obtain usr where usr: "ur = Inr usr" using run code g tr ok by (auto simp: seller_verify_def split: sum.splits)
  have s2: "s2 = s1\<lparr>net := tl (net s1)\<rparr>" using call_read [OF u] by simp
  obtain b s3 where o: "otp_accepted otp (the (sellerVerificationSid tr)) (the code) (us_phoneNumber usr) s2 = (b, s3)" by fastforce
  have "b" and set: "settle api tr tid s3 = (Done st a, s')"
    using run code g tr ok u usr o by (auto simp: seller_verify_def split: bool.splits)
  from otp_accepted_shape [OF o] obtain w x where
    s3: "s3 = s2\<lparr>net := tl (net s2), inventory := (inventory s2)\<lparr>world := w\<rparr>, ext := x\<rparr>"
    and x: "x = ext s2 \<or> (\<exists>i c a. smu_verify otp i c (ext s2) = (a, x))" by blast
  have bx: "bal x = bal (ext s)" using x smu_verify_bal [OF otp] s1 s2 by auto
  from settle_success [OF laws set] named s1 s2 s3 obtain l where
    l: "row_get listingId (tr_listingId tr) (listings s) = Some l" and d: "deal_done bal tr tid (li_ticketId l) s3 s'" by auto
  have "deal_done bal tr tid (li_ticketId l) s s'"
    by (rule deal_done_frame [OF d]) (simp_all add: s1 s2 s3 bx)
  with row ok l show ?thesis by blast
qed

lemma mark_failed_ext: "mark_failed tid s = s' \<Longrightarrow> ext s' = ext s \<and> tickets s' = tickets s \<and> ledger s' = ledger s"
  using mark_failed_keeps by blast

text \<open>What a refused confirmation leaves: the balances, and the ticket where it was or with the buyer.\<close>

definition deal_off :: "('x \<Rightarrow> string \<Rightarrow> 'n) \<Rightarrow> string \<Rightarrow> string \<Rightarrow> ('n, 'x) sys \<Rightarrow> ('n, 'x) sys \<Rightarrow> bool" where
  "deal_off bal k buyer s s' \<longleftrightarrow> bal (ext s') = bal (ext s)
     \<and> (tickets s' = tickets s \<or> tickets s' = save_ticket k [TkOwnerId (Some buyer), TkStatus (Some ''active'')] (tickets s))
     \<and> (\<exists>more. ledger s' = ledger s @ more)"

lemma deal_off_frame:
  assumes "deal_off bal k buyer s1 s'" and "tickets s1 = tickets s" and "ledger s1 = ledger s" and "bal (ext s1) = bal (ext s)"
  shows "deal_off bal k buyer s s'"
  using assms by (simp add: deal_off_def)

lemma deal_off_refl: "tickets s' = tickets s \<Longrightarrow> ledger s' = ledger s \<Longrightarrow> bal (ext s') = bal (ext s) \<Longrightarrow> deal_off bal k buyer s s'"
  by (simp add: deal_off_def)

lemma settle_balances_refused:
  assumes laws: "credit_laws bal api" and up: "credit_up api"
    and run: "settle_balances api tr tid k s = (Fail st c, s')"
  shows "deal_off bal k (tr_buyerId tr) s s'"
proof -
  obtain br s1 where c1: "call_credit_get api (tr_buyerId tr) s = (br, s1)" by fastforce
  from call_credit_get_is [OF c1] obtain x1 where x1: "s1 = s\<lparr>ext := x1\<rparr>" "credit_get api (tr_buyerId tr) (ext s) = (br, x1)" by blast
  note g1 = credit_get_law [OF laws x1(2)]
  show ?thesis
  proof (cases "\<exists>bd. br = Inr bd \<and> \<not> read_balance bd < tr_creditAmount tr")
    case False
    with run c1 have "s' = mark_failed tid s1" by (auto simp: settle_balances_def split: sum.splits if_splits)
    then show ?thesis using x1 g1 by (intro deal_off_refl) (simp_all add: mark_failed_keeps)
  next
    case True
    then obtain bd where bd: "br = Inr bd" "\<not> read_balance bd < tr_creditAmount tr" by blast
    obtain sr s2 where c2: "call_credit_get api (tr_sellerId tr) s1 = (sr, s2)" by fastforce
    from call_credit_get_is [OF c2] obtain x2 where x2: "s2 = s1\<lparr>ext := x2\<rparr>" "credit_get api (tr_sellerId tr) (ext s1) = (sr, x2)" by blast
    note g2 = credit_get_law [OF laws x2(2)]
    have b: "bal x2 = bal (ext s)" using g1 g2 x1 by simp
    show ?thesis
    proof (cases sr)
      case (Inl e)
      with run c1 bd c2 have "s' = s2" by (simp add: settle_balances_def)
      then show ?thesis using b by (intro deal_off_refl) (simp_all add: x1 x2)
    next
      case (Inr sd)
      let ?g = "\<lparr>sg_transfer_id = tid, sg_buyer_id = tr_buyerId tr, sg_seller_id = tr_sellerId tr,
        sg_credit_amount = tr_creditAmount tr, sg_ticket_id = k, sg_listing_id = tr_listingId tr,
        sg_buyer_balance = read_balance bd, sg_seller_balance = read_balance sd\<rparr>"
      have "settle_saga api tr tid k (read_balance bd) (read_balance sd) s2 = (Fail st c, s')"
        using run c1 bd c2 Inr by (simp add: settle_balances_def)
      then have f: "execute_saga api ?g s2 = (False, s')"
        by (auto simp: settle_saga_def Let_def split: prod.splits bool.splits)
      have "bal (ext s') = bal (ext s2)"
        by (rule failed_saga_balances [OF laws up f]) (use bd g1 g2 x1 x2 Inr in simp_all)
      with failed_saga_tickets [OF f] have "deal_off bal k (tr_buyerId tr) s2 s'"
        by (auto simp: deal_off_def moved_def extends_ledger_def)
      then show ?thesis by (rule deal_off_frame) (simp_all add: x1 x2 b [unfolded x1 x2, simplified])
    qed
  qed
qed

lemma settle_refused:
  assumes "credit_laws bal api" and "credit_up api" and run: "settle api tr tid s = (Fail st c, s')"
  shows "\<exists>k. deal_off bal k (tr_buyerId tr) s s'
    \<and> (k = ''None'' \<or> (\<exists>l. row_get listingId (tr_listingId tr) (listings s) = Some l \<and> k = li_ticketId l))"
proof -
  obtain t1 where p: "patch_ignored tid [TrSellerOtpVerified (Some True)] s = s\<lparr>net := tl (net s), transfers := t1\<rparr>"
    using patch_ignored_shape by blast
  obtain lr s1 where c: "call_service UNAVAILABLE (ep_get_listing (tr_listingId tr))
      (s\<lparr>net := tl (net s), transfers := t1\<rparr>) = (lr, s1)" by fastforce
  from call_get_listing [OF c] have s1: "tickets s1 = tickets s" "ledger s1 = ledger s" "ext s1 = ext s"
    and l: "\<And>l. lr = Inr l \<Longrightarrow> row_get listingId (tr_listingId tr) (listings s) = Some l" by auto
  define k where "k = (case lr of Inl e \<Rightarrow> ''None'' | Inr l \<Rightarrow> li_ticketId l)"
  have "settle_balances api tr tid k s1 = (Fail st c, s')"
    using run p c by (simp add: settle_def k_def split: sum.splits)
  from deal_off_frame [OF settle_balances_refused [OF assms(1,2) this]] s1
  have "deal_off bal k (tr_buyerId tr) s s'" by simp
  moreover have "k = ''None'' \<or> (\<exists>l. row_get listingId (tr_listingId tr) (listings s) = Some l \<and> k = li_ticketId l)"
    using l by (auto simp: k_def split: sum.splits)
  ultimately show ?thesis by blast
qed

lemma seller_verify_refused:
  assumes laws: "credit_laws bal api" and up: "credit_up api" and otp: "otp_laws bal otp"
    and run: "seller_verify api otp seller code tid s = (Fail st c, s')"
  shows "\<exists>k buyer. deal_off bal k buyer s s'"
proof -
  obtain gr s1 where g: "call_service UNAVAILABLE (ep_get_transfer tid) s = (gr, s1)" by fastforce
  from call_get_transfer [OF g] have s1: "tickets s1 = tickets s" "ledger s1 = ledger s" "ext s1 = ext s" by auto
  consider "s' = s" | "s' = s1"
    | (user) tr where "gr = Inr tr" "\<not> (\<not> truthy code)" "\<not> tr_sellerId tr \<noteq> seller" "\<not> (tr_status tr \<noteq> ''pending_seller_otp'' \<or> sellerOtpVerified tr \<or> \<not> buyerOtpVerified tr
              \<or> \<not> truthy (sellerVerificationSid tr))"
    using run g by (auto simp: seller_verify_def split: if_splits sum.splits)
  then show ?thesis
  proof cases
    case (user tr)
    obtain ur s2 where u: "call_service UNAVAILABLE (ep_read (\<lambda>s. get_user (tr_sellerId tr) (users s))) s1 = (ur, s2)" by fastforce
    have s2: "s2 = s1\<lparr>net := tl (net s1)\<rparr>" using call_read [OF u] by simp
    show ?thesis
    proof (cases ur)
      case (Inl e)
      then have "s' = s2" using run g user u by (simp add: seller_verify_def)
      then show ?thesis using s1 s2 by (intro exI deal_off_refl) simp_all
    next
      case (Inr usr)
      obtain b s3 where o: "otp_accepted otp (the (sellerVerificationSid tr)) (the code) (us_phoneNumber usr) s2 = (b, s3)" by fastforce
      from otp_accepted_shape [OF o] obtain w x where
        s3: "s3 = s2\<lparr>net := tl (net s2), inventory := (inventory s2)\<lparr>world := w\<rparr>, ext := x\<rparr>"
        and x: "x = ext s2 \<or> (\<exists>i c a. smu_verify otp i c (ext s2) = (a, x))" by blast
      have bx: "bal x = bal (ext s)" using x smu_verify_bal [OF otp] s1 s2 by auto
      have "b \<and> settle api tr tid s3 = (Fail st c, s') \<or> s' = s3"
        using run g user u Inr o by (auto simp: seller_verify_def split: bool.splits)
      then obtain k buyer where "deal_off bal k buyer s3 s'"
        using settle_refused [OF laws up] by (metis deal_off_refl)
      then have "deal_off bal k buyer s s'" by (rule deal_off_frame) (simp_all add: s1 s2 s3 bx)
      then show ?thesis by blast
    qed
  qed (intro exI deal_off_refl, simp_all add: s1)+
qed

lemma run_steps_append: "run_steps (xs @ ys) s =
    (case run_steps xs s of (c, ok, s1) \<Rightarrow>
       if ok then (case run_steps ys s1 of (c2, ok2, s2) \<Rightarrow> (c @ c2, ok2, s2)) else (c, False, s1))"
  by (induction xs arbitrary: s) (auto split: prod.splits bool.splits)

lemma run_steps_names: "run_steps fs s = (c, ok, s') \<Longrightarrow> set c \<subseteq> fst ` set fs"
  by (induction fs arbitrary: s c) (fastforce split: prod.splits bool.splits)+

lemma step_keeps_tickets:
  "tickets (snd (set_balance api u v s)) = tickets s"
  "tickets (snd (log_txn u d reason ref s)) = tickets s"
  "tickets (snd (succeeds (call_service UNAVAILABLE (ep_update_listing lid [LiStatus (Some st)]) s))) = tickets s"
  "tickets (snd (succeeds (call_service UNAVAILABLE (ep_patch_transfer tid body) s))) = tickets s"
  by (rule prod.collapse [symmetric, THEN set_balance_books, THEN conjunct1]
      prod.collapse [symmetric, THEN log_txn_result, THEN conjunct1]
      prod.collapse [symmetric, THEN listing_patch_result, THEN conjunct1]
      prod.collapse [symmetric, THEN transfer_patch_result, THEN conjunct1])+

text \<open>The step that gives the ticket to the buyer, once completed, is not undone.\<close>

lemma saga_ticket_moved:
  assumes run: "run_steps (saga_steps api g) s = (c, ok, s1)" and moved: "TicketTransferred \<in> set c"
  shows "tickets s1 = save_ticket (sg_ticket_id g) [TkOwnerId (Some (sg_buyer_id g)), TkStatus (Some ''active'')] (tickets s)"
proof -
  let ?f = "\<lambda>s. succeeds (call_service UNAVAILABLE (ep_update_ticket (sg_ticket_id g)
         [TkOwnerId (Some (sg_buyer_id g)), TkStatus (Some ''active'')]) s)"
  define xs where "xs = take 4 (saga_steps api g)"
  define ys where "ys = drop 5 (saga_steps api g)"
  have split: "saga_steps api g = xs @ (TicketTransferred, ?f) # ys" by (simp add: xs_def ys_def saga_steps_def)
  have names: "TicketTransferred \<notin> fst ` set xs" by (simp add: xs_def saga_steps_def)
  have keep: "tickets (snd (f q)) = tickets q" if "(n, f) \<in> set xs" for n f q
    using that by (auto simp: xs_def saga_steps_def step_keeps_tickets)
  have keep': "tickets (snd (f q)) = tickets q" if "(n, f) \<in> set ys" for n f q
    using that by (auto simp: ys_def saga_steps_def step_keeps_tickets)
  obtain c1 o1 q1 where r1: "run_steps xs s = (c1, o1, q1)" by (metis prod_cases3)
  have q1: "tickets q1 = tickets s"
    by (rule run_steps_rel [OF r1, where R = "\<lambda>s s'. tickets s' = tickets s"]) (simp_all add: keep)
  have "o1" using run moved names run_steps_names [OF r1] r1 by (auto simp: split run_steps_append split: if_splits prod.splits)
  obtain b q2 where b: "?f q1 = (b, q2)" by fastforce
  have "b"
    using run moved names run_steps_names [OF r1] r1 b \<open>o1\<close>
    by (cases b) (auto simp: split run_steps_append split: prod.splits)
  obtain c3 o3 q3 where r3: "run_steps ys q2 = (c3, o3, q3)" by (metis prod_cases3)
  have "s1 = q3" using run r1 b r3 \<open>o1\<close> \<open>b\<close> by (simp add: split run_steps_append)
  moreover have "tickets q3 = tickets q2"
    by (rule run_steps_rel [OF r3, where R = "\<lambda>s s'. tickets s' = tickets s"]) (simp_all add: keep')
  moreover have "tickets q2 = save_ticket (sg_ticket_id g) [TkOwnerId (Some (sg_buyer_id g)), TkStatus (Some ''active'')] (tickets q1)"
    using owner_patch_result [OF b] \<open>b\<close> by blast
  ultimately show ?thesis by (simp add: q1)
qed

subsection \<open>An example\<close>

definition ex_user :: "string \<Rightarrow> string \<Rightarrow> user" where
  "ex_user u ph = \<lparr>us_userId = u, us_email = u, us_password = [], us_salt = [], us_phoneNumber = ph, us_role = ''user'',
     us_isFlagged = False, us_venueId = None, us_favoriteEvents = [], us_createdAt = 0\<rparr>"

definition ex_otp :: "'x otp_api" where
  "ex_otp = \<lparr>smu_send = (\<lambda>p x. (SentBody \<lparr>sid_verification_sid = Some ''sid'', sid_verificationSid = None,
        sid_sid = None, sid_VerificationSid = None\<rparr>, x)),
     smu_verify = (\<lambda>sid otp x. (CheckBody \<lparr>vd_verified = Some True, vd_is_verified = None, vd_isVerified = None,
        vd_success = None, vd_Success = None\<rparr>, x))\<rparr>"

lemma ex_otp_laws: "otp_laws bal ex_otp"
  by (simp add: otp_laws_def ex_otp_def)

definition ex_deal :: "(int, (string \<Rightarrow> int) \<times> bool) sys" where
  "ex_deal = ex_sys\<lparr>transfers := [ex_transfer\<lparr>expiresAt := Some (Naive 1000000)\<rparr>],
     users := [ex_user ''u1'' ''555'', ex_user ''u2'' ''556'']\<rparr>"

lemma ex_deal_done: "\<exists>st a s'. seller_verify ex_credit ex_otp ''u1'' (Some ''1234'') ''x1'' ex_deal = (Done st a, s')"
proof -
  have "is_done (fst (seller_verify ex_credit ex_otp ''u1'' (Some ''1234'') ''x1'' ex_deal))" by code_simp
  then show ?thesis by (metis is_done_iff prod.collapse)
qed

subsection \<open>Properties\<close>

text \<open>
  Property C3: a confirmation by the seller that is answered with success settles exactly the deal
  of the transfer. The transfer was pending on the seller, who is the caller, and the buyer had
  confirmed; the buyer could pay. Afterwards the buyer's balance is less and the seller's more by
  the amount, nobody else's changed, the ticket of the listing belongs to the buyer and is active,
  the listing and the transfer are completed, and the ledger has exactly the two matching entries
  more, whatever the network did to the other calls.
\<close>

theorem transfer_settlement:
  assumes "credit_laws bal api" and "otp_laws bal otp"
    and "row_get ticketId ''None'' (tickets s) = None"
    and "seller_verify api otp seller code tid s = (Done st a, s')"
  shows "\<exists>tr l. row_get transferId tid (transfers s) = Some tr \<and> tr_sellerId tr = seller
    \<and> tr_status tr = ''pending_seller_otp'' \<and> buyerOtpVerified tr \<and> \<not> sellerOtpVerified tr
    \<and> row_get listingId (tr_listingId tr) (listings s) = Some l \<and> deal_done bal tr tid (li_ticketId l) s s'"
  by (rule seller_verify_success [OF assms])

theorem transfer_settlement_witness:
  "fst (ext (snd (seller_verify ex_credit ex_otp ''u1'' (Some ''1234'') ''x1'' ex_deal))) ''u2'' = 40
    \<and> fst (ext (snd (seller_verify ex_credit ex_otp ''u1'' (Some ''1234'') ''x1'' ex_deal))) ''u1'' = 160
    \<and> map tk_ownerId (tickets (snd (seller_verify ex_credit ex_otp ''u1'' (Some ''1234'') ''x1'' ex_deal))) = [''u2'']"
proof -
  obtain st a s' where run: "seller_verify ex_credit ex_otp ''u1'' (Some ''1234'') ''x1'' ex_deal = (Done st a, s')"
    using ex_deal_done by blast
  have "row_get ticketId ''None'' (tickets ex_deal) = None" by (simp add: ex_deal_def ex_sys_def ex_ticket_def)
  from transfer_settlement [OF ex_credit_laws ex_otp_laws this run] run show ?thesis
    by (auto simp: deal_done_def ex_deal_def ex_sys_def ex_transfer_def ex_listing_def ex_ticket_def save_ticket_def
        row_upd_def set_ticket_fields_def)
qed

text \<open>
  Property C19: a confirmation by the seller that is refused or fails, at whatever step, changes no
  balance, provided the credit service confirms its writes: the compensations of the saga give
  back both payments. The ledger keeps what it had and every ticket is unchanged, or one ticket
  has gone to a buyer and stays there.
\<close>

theorem refused_confirmation_keeps_credits:
  assumes "credit_laws bal api" and "credit_up api" and "otp_laws bal otp"
    and "seller_verify api otp seller code tid s = (Fail st c, s')"
  shows "bal (ext s') = bal (ext s)
    \<and> (tickets s' = tickets s
       \<or> (\<exists>k buyer. tickets s' = save_ticket k [TkOwnerId (Some buyer), TkStatus (Some ''active'')] (tickets s)))
    \<and> (\<exists>more. ledger s' = ledger s @ more)"
  using seller_verify_refused [OF assms] by (auto simp: deal_off_def)

definition ex_cut :: "(int, (string \<Rightarrow> int) \<times> bool) sys" where
  "ex_cut = ex_deal\<lparr>net := replicate 8 NetOk @ [ReqLost TimedOut]\<rparr>"

definition ex_credit_ok :: "(int, (string \<Rightarrow> int) \<times> bool) credit_api" where
  "ex_credit_ok = \<lparr>credit_get = credit_get ex_credit, credit_patch = (\<lambda>u v x. (None, ((fst x)(u := v), snd x)))\<rparr>"

lemma ex_credit_ok_up: "credit_up ex_credit_ok"
  by (simp add: credit_up_def ex_credit_ok_def)

lemma ex_credit_ok_laws: "credit_laws fst ex_credit_ok"
  by (auto simp: credit_laws_def ex_credit_ok_def ex_credit_def read_balance_def)

theorem refused_confirmation_keeps_credits_witness:
  "fst (ext (snd (seller_verify ex_credit_ok ex_otp ''u1'' (Some ''1234'') ''x1'' ex_cut))) = fst (ext ex_cut)"
proof -
  let ?run = "seller_verify ex_credit_ok ex_otp ''u1'' (Some ''1234'') ''x1'' ex_cut"
  have "\<not> is_done (fst ?run)" by code_simp
  then obtain st c where "?run = (Fail st c, snd ?run)" by (cases "fst ?run") (auto simp: prod_eq_iff)
  from refused_confirmation_keeps_credits [OF ex_credit_ok_laws ex_credit_ok_up ex_otp_laws this] show ?thesis by simp
qed

text \<open>
  Property C20: a saga that fails after it has given the ticket to the buyer gives the credits back
  and leaves the ticket with the buyer. The compensation asks the ticket service for the status
  sold, which that service refuses, so the buyer ends with the ticket without having paid.
\<close>

theorem failed_saga_gives_ticket_away:
  assumes "credit_laws bal api" and "credit_up api"
    and "sg_buyer_balance g = bal (ext s) (sg_buyer_id g)" and "sg_seller_balance g = bal (ext s) (sg_seller_id g)"
    and "run_steps (saga_steps api g) s = (c, False, s1)" and "TicketTransferred \<in> set c"
  shows "\<not> fst (execute_saga api g s)
    \<and> bal (ext (snd (execute_saga api g s))) = bal (ext s)
    \<and> tickets (snd (execute_saga api g s)) =
        save_ticket (sg_ticket_id g) [TkOwnerId (Some (sg_buyer_id g)), TkStatus (Some ''active'')] (tickets s)"
proof -
  obtain ok s' where ex: "execute_saga api g s = (ok, s')" by fastforce
  have "\<not> ok" using ex assms(5) by (auto simp: execute_saga_def Let_def split: prod.splits)
  then have f: "execute_saga api g s = (False, s')" using ex by simp
  obtain c' s1' clean s2 where r: "run_steps (saga_steps api g) s = (c', False, s1')"
    and u: "run_undo (saga_undo api g) c' s1' = (clean, s2)" and t: "tickets s' = tickets s2"
    by (rule execute_saga_False [OF f])
  have "tickets s2 = tickets s1'"
    by (rule run_undo_rel [OF u, where R = "\<lambda>s s'. tickets s' = tickets s"]) (simp_all add: saga_undo_moves [THEN conjunct1])
  with saga_ticket_moved [OF assms(5,6)] r t assms(5)
  have "tickets s' = save_ticket (sg_ticket_id g) [TkOwnerId (Some (sg_buyer_id g)), TkStatus (Some ''active'')] (tickets s)"
    by simp
  with failed_saga_balances [OF assms(1,2) f assms(3,4)] f show ?thesis by simp
qed

definition ex_saga :: "int saga" where
  "ex_saga = \<lparr>sg_transfer_id = ''x1'', sg_buyer_id = ''u2'', sg_seller_id = ''u1'', sg_credit_amount = 60,
     sg_ticket_id = ''k1'', sg_listing_id = ''l1'', sg_buyer_balance = 100, sg_seller_balance = 100\<rparr>"

definition ex_cut_saga :: "(int, (string \<Rightarrow> int) \<times> bool) sys" where
  "ex_cut_saga = ex_deal\<lparr>net := [NetOk, NetOk, NetOk, ReqLost TimedOut]\<rparr>"

theorem failed_saga_gives_ticket_away_witness:
  "fst (ext (snd (execute_saga ex_credit_ok ex_saga ex_cut_saga))) ''u2'' = 100
    \<and> map tk_ownerId (tickets (snd (execute_saga ex_credit_ok ex_saga ex_cut_saga))) = [''u2'']"
proof -
  obtain c ok s1 where r: "run_steps (saga_steps ex_credit_ok ex_saga) ex_cut_saga = (c, ok, s1)" by (metis prod_cases3)
  have "fst (run_steps (saga_steps ex_credit_ok ex_saga) ex_cut_saga)
      = [BuyerDeducted, SellerCredited, BuyerTxnLogged, SellerTxnLogged, TicketTransferred]"
    and "\<not> fst (snd (run_steps (saga_steps ex_credit_ok ex_saga) ex_cut_saga))" by code_simp+
  with r have run: "run_steps (saga_steps ex_credit_ok ex_saga) ex_cut_saga = (c, False, s1)" and c: "TicketTransferred \<in> set c"
    by simp_all
  have b: "sg_buyer_balance ex_saga = fst (ext ex_cut_saga) (sg_buyer_id ex_saga)"
    "sg_seller_balance ex_saga = fst (ext ex_cut_saga) (sg_seller_id ex_saga)"
    by (simp_all add: ex_saga_def ex_cut_saga_def ex_deal_def ex_sys_def)
  from failed_saga_gives_ticket_away [OF ex_credit_ok_laws ex_credit_ok_up b run c] show ?thesis
    by (simp add: ex_saga_def ex_cut_saga_def ex_deal_def ex_sys_def ex_ticket_def save_ticket_def row_upd_def
        set_ticket_fields_def)
qed

end
