(* ===== verification/TransferOrder.thy ===== *)
theory TransferOrder
  imports TransferProperties
begin

text \<open>
  The order of the confirmations over whole histories. Every handler of the transfer orchestrator
  and its consumer is a step; other components may change everything but the transfers. In every
  reachable state a transfer that waits for the seller's code, or is completed, has been confirmed
  by the buyer.
\<close>

subsection \<open>One change of the table\<close>

definition otp_ok :: "'n transfer \<Rightarrow> bool" where
  "otp_ok tr \<longleftrightarrow> (tr_status tr = ''pending_seller_otp'' \<or> tr_status tr = ''completed'' \<longrightarrow> buyerOtpVerified tr)"

text \<open>
  Rows stay, confirmed rows stay confirmed, rows that are in order stay so and new rows are.
\<close>

definition orderly :: "'n transfer list \<Rightarrow> 'n transfer list \<Rightarrow> bool" where
  "orderly rows rows' \<longleftrightarrow> (\<forall>j.
     case row_get transferId j rows of
       Some tr \<Rightarrow> (\<exists>tr'. row_get transferId j rows' = Some tr' \<and> (otp_ok tr \<longrightarrow> otp_ok tr')
                        \<and> (buyerOtpVerified tr \<longrightarrow> buyerOtpVerified tr'))
     | None \<Rightarrow> (\<forall>tr'. row_get transferId j rows' = Some tr' \<longrightarrow> otp_ok tr'))"

lemma orderly_refl [simp, intro]: "orderly rows rows"
  by (simp add: orderly_def split: option.split)

lemma orderly_trans:
  assumes "orderly a b" and "orderly b c"
  shows "orderly a c"
  unfolding orderly_def
proof
  fix j
  show "case row_get transferId j a of
       Some tr \<Rightarrow> (\<exists>tr'. row_get transferId j c = Some tr' \<and> (otp_ok tr \<longrightarrow> otp_ok tr')
                        \<and> (buyerOtpVerified tr \<longrightarrow> buyerOtpVerified tr'))
     | None \<Rightarrow> (\<forall>tr'. row_get transferId j c = Some tr' \<longrightarrow> otp_ok tr')"
    using assms(1) [unfolded orderly_def, rule_format, of j] assms(2) [unfolded orderly_def, rule_format, of j]
    by (auto split: option.splits)
qed

definition keeps_order :: "transfer_field list \<Rightarrow> 'n transfer \<Rightarrow> bool" where
  "keeps_order body tr \<longleftrightarrow> (otp_ok tr \<longrightarrow> otp_ok (set_transfer_fields body tr))
     \<and> (buyerOtpVerified tr \<longrightarrow> buyerOtpVerified (set_transfer_fields body tr))"

lemma orderly_save:
  "(\<And>tr. row_get transferId tid rows = Some tr \<Longrightarrow> keeps_order body tr) \<Longrightarrow> orderly rows (save_transfer tid body rows)"
  by (auto simp: orderly_def keeps_order_def transfer_table.get_upd split: option.split)

lemma orderly_expire: "orderly rows (expire tid rows)"
  unfolding expire_def by (rule orderly_save) (simp add: keeps_order_def otp_ok_def)

lemma orderly_patch:
  assumes "patch_transfer tid body now rows = (rep, rows')"
    and "\<And>tr. row_get transferId tid rows = Some tr \<Longrightarrow> keeps_order body tr"
  shows "orderly rows rows'"
  using patch_transfer_effect [OF assms(1)] orderly_expire orderly_save [OF assms(2)] by auto

lemma orderly_get: "get_transfer tid now rows = (rep, rows') \<Longrightarrow> orderly rows rows'"
  by (auto simp: get_transfer_def orderly_expire split: option.splits if_splits)

lemma orderly_create:
  assumes "create_transfer b uuid now rows = (rep, rows')"
  shows "orderly rows rows'"
  using create_transfer_effect [OF assms]
  by (auto simp: orderly_def otp_ok_def row_get_append split: option.split if_splits)

subsection \<open>Every call\<close>

definition in_order :: "('n, 'x) sys \<Rightarrow> ('n, 'x) sys \<Rightarrow> bool" where
  "in_order s s' \<longleftrightarrow> orderly (transfers s) (transfers s')"

lemma in_order_same: "transfers s' = transfers s \<Longrightarrow> in_order s s'"
  by (simp add: in_order_def)

lemma in_order_trans: "in_order s s1 \<Longrightarrow> in_order s1 s2 \<Longrightarrow> in_order s s2"
  by (auto simp: in_order_def intro: orderly_trans)

lemma in_order_net: "net_only s s' \<Longrightarrow> in_order s s'"
  by (simp add: in_order_same net_only_keeps)

lemma in_order_patch:
  assumes "call_service tmo (ep_patch_transfer tid body) s = (r, s')"
    and "\<And>tr. row_get transferId tid (transfers s) = Some tr \<Longrightarrow> keeps_order body tr"
  shows "in_order s s'"
  using call_patch_transfer [OF assms(1)] orderly_patch [OF _ assms(2)] by (auto simp: in_order_def)

lemma in_order_patch_ignored:
  assumes "\<And>tr. row_get transferId tid (transfers s) = Some tr \<Longrightarrow> keeps_order body tr"
  shows "in_order s (patch_ignored tid body s)"
  unfolding patch_ignored_def by (rule in_order_patch [OF prod.collapse [symmetric] assms])

lemma in_order_get: "call_service tmo (ep_get_transfer tid) s = (r, s') \<Longrightarrow> in_order s s'"
  by (auto simp: in_order_def dest!: call_get_transfer intro: orderly_get)

lemma in_order_create: "call_service tmo (ep_create_transfer b) s = (r, s') \<Longrightarrow> in_order s s'"
  by (auto simp: in_order_def dest!: call_create_transfer intro: orderly_create)

lemma in_order_load: "load_enriched_transfer tid v s = (i, s') \<Longrightarrow> in_order s s'"
  by (auto simp: in_order_def dest!: load_enriched_transfer_shape intro: orderly_get)

lemma in_order_calls:
  "call_service tmo (ep_read f) s = (r1, s') \<Longrightarrow> in_order s s'"
  "call_service tmo (ep_get_listing lid) s = (r2, s') \<Longrightarrow> in_order s s'"
  "call_service tmo (ep_update_listing lid lb) s = (r2, s') \<Longrightarrow> in_order s s'"
  "call_service tmo (ep_update_ticket kid kb) s = (r3, s') \<Longrightarrow> in_order s s'"
  "call_service tmo (ep_send_otp otp p) s = (r4, s') \<Longrightarrow> in_order s s'"
  "otp_accepted otp sid code p s = (r5, s') \<Longrightarrow> in_order s s'"
  "call_credit_get api u s = (r6, s') \<Longrightarrow> in_order s s'"
  by (auto intro!: in_order_same dest!: call_read call_get_listing call_update_listing call_update_ticket
      call_send_otp otp_accepted_shape call_credit_get_is)

lemma in_order_writes:
  "in_order s (broadcast_notification s)" "in_order s (broadcast_transfer_notification v s)"
  "in_order s (on_infra f s)" "in_order s (snd (enrich_transfer v s))"
  "in_order s (snd (call_service tmo (ep_update_listing lid lb) s))"
  "in_order s (snd (call_service tmo (ep_update_ticket kid kb) s))"
  by (simp_all add: in_order_net broadcast_notification_net broadcast_transfer_notification_net in_order_same
      enrich_transfer_net' in_order_calls [OF prod.collapse [symmetric]])

lemma transfers_of_writes [simp]:
  "transfers (broadcast_notification s) = transfers s" "transfers (broadcast_transfer_notification v s) = transfers s"
  "transfers (snd (enrich_transfer v s)) = transfers s"
  by (simp_all add: net_only_keeps [OF broadcast_notification_net] net_only_keeps [OF broadcast_transfer_notification_net]
      net_only_keeps [OF enrich_transfer_net'])

lemma in_order_through [simp]:
  "in_order (broadcast_notification s) t \<longleftrightarrow> in_order s t" "in_order s (broadcast_notification t) \<longleftrightarrow> in_order s t"
  "in_order (broadcast_transfer_notification v s) t \<longleftrightarrow> in_order s t"
  "in_order s (broadcast_transfer_notification v t) \<longleftrightarrow> in_order s t"
  "in_order (on_infra f s) t \<longleftrightarrow> in_order s t" "in_order s (on_infra f t) \<longleftrightarrow> in_order s t"
  "in_order (snd (enrich_transfer v s)) t \<longleftrightarrow> in_order s t" "in_order s (snd (enrich_transfer v t)) \<longleftrightarrow> in_order s t"
  by (simp_all add: in_order_def)

lemma in_order_patch_back:
  fixes s :: "('n, 'x) sys"
  assumes "in_order (patch_ignored tid body s) s'" and "\<And>tr :: 'n transfer. keeps_order body tr"
  shows "in_order s s'"
  using assms(2) by (blast intro: in_order_trans [OF in_order_patch_ignored assms(1)])

lemma in_order_next:
  fixes s :: "('n, 'x) sys"
  shows "in_order s t \<Longrightarrow> in_order s (snd (call_service tmo (ep_update_listing lid lb) t))"
    and "in_order s t \<Longrightarrow> in_order s (snd (call_service tmo (ep_update_ticket kid kb) t))"
    and "in_order s t \<Longrightarrow> (\<And>tr :: 'n transfer. keeps_order body tr) \<Longrightarrow> in_order s (patch_ignored tid body t)"
  using in_order_writes(5) [of t] in_order_writes(6) [of t] in_order_patch_ignored [of tid t body]
  by (blast intro: in_order_trans)+

text \<open>The bodies that the orchestrator sends; only completing a transfer needs the buyer's confirmation.\<close>

lemma keeps_order_bodies [simp]:
  "keeps_order [TrBuyerVerificationSid sid, TrStatus (Some ''pending_buyer_otp'')] tr"
  "keeps_order [TrBuyerOtpVerified (Some True)] tr"
  "keeps_order [TrBuyerOtpVerified (Some True), TrSellerVerificationSid sid, TrStatus (Some ''pending_seller_otp'')] tr"
  "keeps_order [TrSellerOtpVerified (Some True)] tr"
  "keeps_order [TrStatus (Some ''cancelled'')] tr" "keeps_order [TrStatus (Some ''failed'')] tr"
  "keeps_order [TrBuyerVerificationSid sid] tr" "keeps_order [TrSellerVerificationSid sid] tr"
  "keeps_order [TrStatus (Some ''cancelled''), TrOther k, TrOther m] tr"
  by (simp_all add: keeps_order_def otp_ok_def)

lemma keeps_order_completed:
  "buyerOtpVerified tr \<Longrightarrow> keeps_order [TrStatus (Some ''completed''), TrCompletedAt (Some (TIso d))] tr"
  by (simp add: keeps_order_def otp_ok_def)

subsection \<open>The saga\<close>

definition confirmed :: "string \<Rightarrow> ('n, 'x) sys \<Rightarrow> bool" where
  "confirmed tid s \<longleftrightarrow> (\<exists>tr. row_get transferId tid (transfers s) = Some tr \<and> buyerOtpVerified tr)"

lemma confirmed_in_order: "confirmed tid s \<Longrightarrow> in_order s s' \<Longrightarrow> confirmed tid s'"
  unfolding confirmed_def in_order_def orderly_def by (auto dest!: spec [of _ tid])

definition saga_order :: "string \<Rightarrow> ('n, 'x) sys \<Rightarrow> ('n, 'x) sys \<Rightarrow> bool" where
  "saga_order tid s s' \<longleftrightarrow> (confirmed tid s \<longrightarrow> in_order s s')"

lemma saga_order_refl: "saga_order tid s s"
  by (simp add: saga_order_def in_order_same)

lemma saga_order_trans: "saga_order tid s t \<Longrightarrow> saga_order tid t u \<Longrightarrow> saga_order tid s u"
  by (meson saga_order_def confirmed_in_order in_order_trans)

lemma set_balance_transfers: "transfers (snd (set_balance api u v s)) = transfers s"
  using call_credit_patch_is [OF prod.collapse [symmetric]]
  by (auto simp: set_balance_def split: prod.splits dest!: call_credit_patch_is)

lemma log_txn_transfers: "transfers (snd (log_txn u d reason ref s)) = transfers s"
  by (rule prod.collapse [symmetric, THEN log_txn_result, THEN conjunct2, THEN conjunct2, THEN conjunct1])

lemma succeeds_snd: "snd (succeeds r) = snd r"
  by (cases r; cases "fst r") (auto simp: succeeds_def)

lemma ep_patch_txn_order: "in_order s (snd (call_service tmo (ep_patch_txn ref) s))"
  using call_patch_txn [OF prod.collapse [symmetric], of tmo ref s] by (simp add: in_order_same)

lemma saga_step_order: "(n, f) \<in> set (saga_steps api g) \<Longrightarrow> saga_order (sg_transfer_id g) s (snd (f s))"
  unfolding saga_steps_def saga_order_def
  by (auto simp: set_balance_transfers log_txn_transfers succeeds_snd in_order_writes in_order_same confirmed_def
      intro!: in_order_patch [OF prod.collapse [symmetric]] keeps_order_completed)

lemma saga_undo_order: "(n, f) \<in> set (saga_undo api g) \<Longrightarrow> in_order s (snd (f s))"
  unfolding saga_undo_def
  by (auto simp: set_balance_transfers succeeds_snd in_order_writes in_order_same ep_patch_txn_order)

lemma mark_failed_order: "in_order s (mark_failed tid s)"
  unfolding mark_failed_def by (rule in_order_patch [OF prod.collapse [symmetric]]) simp

lemma execute_saga_order:
  assumes "execute_saga api g s = (ok, s')" and "confirmed (sg_transfer_id g) s"
  shows "in_order s s'"
proof -
  obtain c b s1 where r: "run_steps (saga_steps api g) s = (c, b, s1)" by (metis prod_cases3)
  have "saga_order (sg_transfer_id g) s s1"
    by (rule run_steps_rel [OF r]) (use saga_order_refl saga_order_trans saga_step_order in blast)+
  then have 1: "in_order s s1" using assms(2) by (simp add: saga_order_def)
  obtain clean s2 where u: "run_undo (saga_undo api g) c s1 = (clean, s2)" by fastforce
  have 2: "in_order s1 s2"
    by (rule run_undo_rel [OF u]) (auto intro: in_order_same in_order_trans saga_undo_order)
  have 3: "in_order s2 (mark_failed (sg_transfer_id g) s2)" by (rule mark_failed_order)
  show ?thesis
    using assms(1) r u 1 2 3 by (cases b) (auto simp: execute_saga_def Let_def split: if_splits intro: in_order_trans)
qed

subsection \<open>The handlers\<close>

lemmas order_calls = in_order_calls in_order_get in_order_create in_order_load

lemma initiate_otp_order: "initiate_otp otp buyer seller lid tid s = (r, s') \<Longrightarrow> in_order s s'"
  by (auto simp: initiate_otp_def Let_def patch_ignored_def [symmetric] split: prod.splits sum.splits
      dest!: order_calls enrich_transfer_net [THEN in_order_net] in_order_patch_back intro: in_order_trans)
    (blast intro: in_order_trans)?

lemma initiate_order: "initiate api otp buyer lid s = (r, s') \<Longrightarrow> in_order s s'"
  by (auto simp: initiate_def Let_def in_order_same split: prod.splits sum.splits if_splits
      dest!: order_calls initiate_otp_order intro: in_order_trans)
    (blast intro: in_order_trans)?

lemma buyer_verified_order: "buyer_verified otp tr tid s = (r, s') \<Longrightarrow> in_order s s'"
  by (auto simp: buyer_verified_def Let_def split: prod.splits sum.splits
      dest!: order_calls in_order_patch_back intro: in_order_trans)
    (blast intro: in_order_trans)?

lemma buyer_verify_order: "buyer_verify otp buyer code tid s = (r, s') \<Longrightarrow> in_order s s'"
  by (auto simp: buyer_verify_def in_order_same split: prod.splits sum.splits if_splits bool.splits
      dest!: order_calls buyer_verified_order intro: in_order_trans)
    (blast intro: in_order_trans)?

lemma seller_accept_order: "seller_accept otp seller tid s = (r, s') \<Longrightarrow> in_order s s'"
  by (auto simp: seller_accept_def Let_def split: prod.splits sum.splits if_splits
      dest!: order_calls in_order_patch_back intro: in_order_trans)
    (blast intro: in_order_trans)?

lemma call_off_order: "in_order s (call_off tr tid s)"
proof -
  have "in_order s (patch_ignored tid [TrStatus (Some ''cancelled'')] s)" by (rule in_order_patch_ignored) simp
  then show ?thesis
    by (auto simp: call_off_def Let_def split: prod.splits sum.splits dest!: order_calls intro!: in_order_next
        intro: in_order_trans)
qed

lemma call_off_next: "in_order s t \<Longrightarrow> in_order s (call_off tr tid t)"
  by (rule in_order_trans [OF _ call_off_order])

lemma seller_reject_order: "seller_reject seller tid s = (r, s') \<Longrightarrow> in_order s s'"
  by (auto simp: seller_reject_def split: prod.splits sum.splits if_splits dest!: order_calls intro!: call_off_next)

lemma orch_cancel_transfer_order: "orch_cancel_transfer user tid s = (r, s') \<Longrightarrow> in_order s s'"
  by (auto simp: orch_cancel_transfer_def split: prod.splits sum.splits if_splits dest!: order_calls intro!: call_off_next)

lemma resend_otp_order: "resend_otp otp user tid s = (r, s') \<Longrightarrow> in_order s s'"
  by (auto simp: resend_otp_def resend_to_def split: prod.splits sum.splits if_splits
      dest!: order_calls intro!: in_order_next intro: in_order_trans)

lemma on_timeout_message_order: "in_order s (on_timeout_message tid lid s)"
  by (auto simp: on_timeout_message_def timeout_cancel_transfer_def split: prod.splits sum.splits
      dest!: order_calls intro!: in_order_next)

lemma settle_order:
  assumes "settle api tr tid s = (r, s')" and "confirmed tid s"
  shows "in_order s s'"
proof -
  have saga: "in_order q q'" if "settle_saga api tr tid k bb sb q = (r, q')" and "confirmed tid q" for k bb sb q r q'
    using that by (auto simp: settle_saga_def Let_def split: prod.splits bool.splits
        dest!: execute_saga_order in_order_load intro: in_order_trans)
  have bal: "in_order q q'" if b: "settle_balances api tr tid k q = (r, q')" and c: "confirmed tid q" for k q r q'
  proof -
    obtain br q1 where 1: "call_credit_get api (tr_buyerId tr) q = (br, q1)" by fastforce
    obtain sr q2 where 2: "call_credit_get api (tr_sellerId tr) q1 = (sr, q2)" by fastforce
    note o = in_order_calls(7) [OF 1] in_order_calls(7) [OF 2] mark_failed_order [of q1 tid]
    have "confirmed tid q2" using c o confirmed_in_order by blast
    with b 1 2 o saga show ?thesis
      by (auto simp: settle_balances_def split: sum.splits if_splits intro: in_order_trans)
        (blast intro: in_order_trans)?
  qed
  define q where "q = patch_ignored tid [TrSellerOtpVerified (Some True)] s"
  have 1: "in_order s q" unfolding q_def by (rule in_order_patch_ignored) simp
  obtain lr q1 where 2: "call_service UNAVAILABLE (ep_get_listing (tr_listingId tr)) q = (lr, q1)" by fastforce
  note o = in_order_calls(2) [OF 2]
  have "confirmed tid q1" using assms(2) 1 o confirmed_in_order by blast
  moreover have "\<exists>k. settle_balances api tr tid k q1 = (r, s')"
    using assms(1) 2 by (auto simp: settle_def q_def [symmetric] split: sum.splits)
  ultimately show ?thesis using bal 1 o by (blast intro: in_order_trans)
qed

lemma seller_verify_order:
  assumes "seller_verify api otp seller code tid s = (r, s')"
  shows "in_order s s'"
proof -
  obtain gr s1 where g: "call_service UNAVAILABLE (ep_get_transfer tid) s = (gr, s1)" by fastforce
  note 1 = in_order_get [OF g]
  show ?thesis
  proof (cases "s' = s \<or> s' = s1")
    case False
    with assms g obtain tr where tr: "gr = Inr tr" and ok: "truthy code" "tr_sellerId tr = seller" "tr_status tr = ''pending_seller_otp''"
        "\<not> sellerOtpVerified tr" "buyerOtpVerified tr" "truthy (sellerVerificationSid tr)"
      by (auto simp: seller_verify_def split: sum.splits if_splits)
    from call_get_transfer_pending [OF g [unfolded tr]] ok have c: "confirmed tid s1" by (simp add: confirmed_def)
    obtain ur s2 where u: "call_service UNAVAILABLE (ep_read (\<lambda>s. get_user (tr_sellerId tr) (users s))) s1 = (ur, s2)" by fastforce
    note 2 = in_order_calls(1) [OF u]
    show ?thesis
    proof (cases ur)
      case (Inl e)
      with assms g tr ok u 1 2 show ?thesis by (auto simp: seller_verify_def intro: in_order_trans)
    next
      case (Inr usr)
      obtain b s3 where o: "otp_accepted otp (the (sellerVerificationSid tr)) (the code) (us_phoneNumber usr) s2 = (b, s3)" by fastforce
      note 3 = in_order_calls(6) [OF o]
      have "confirmed tid s3" using c 2 3 confirmed_in_order by blast
      moreover have "s' = s3 \<or> settle api tr tid s3 = (r, s')"
        using assms g tr ok u Inr o by (auto simp: seller_verify_def split: bool.splits)
      ultimately show ?thesis using settle_order 1 2 3 by (blast intro: in_order_trans)
    qed
  qed (use 1 in \<open>auto intro: in_order_same\<close>)
qed

subsection \<open>Histories\<close>

inductive transfer_step ::
  "('n::{zero,ord,plus,minus,uminus}, 'x) credit_api \<Rightarrow> 'x otp_api \<Rightarrow> ('n, 'x) sys \<Rightarrow> ('n, 'x) sys \<Rightarrow> bool"
  for api otp where
  st_initiate: "initiate api otp buyer lid s = (r, s') \<Longrightarrow> transfer_step api otp s s'"
| st_buyer_verify: "buyer_verify otp buyer code tid s = (r, s') \<Longrightarrow> transfer_step api otp s s'"
| st_seller_accept: "seller_accept otp seller tid s = (r, s') \<Longrightarrow> transfer_step api otp s s'"
| st_seller_reject: "seller_reject seller tid s = (ra, s') \<Longrightarrow> transfer_step api otp s s'"
| st_seller_verify: "seller_verify api otp seller code tid s = (r, s') \<Longrightarrow> transfer_step api otp s s'"
| st_cancel: "orch_cancel_transfer user tid s = (ra, s') \<Longrightarrow> transfer_step api otp s s'"
| st_resend: "resend_otp otp user tid s = (ra, s') \<Longrightarrow> transfer_step api otp s s'"
| st_timeout: "on_timeout_message mtid mlid s = s' \<Longrightarrow> transfer_step api otp s s'"
| st_read: "call_service tmo (ep_get_transfer tid) s = (rg, s') \<Longrightarrow> transfer_step api otp s s'"
| st_others: "transfers s' = transfers s \<Longrightarrow> transfer_step api otp s s'"

inductive transfer_reachable ::
  "('n::{zero,ord,plus,minus,uminus}, 'x) credit_api \<Rightarrow> 'x otp_api \<Rightarrow> ('n, 'x) sys \<Rightarrow> bool"
  for api otp where
  tr_start: "transfers s = [] \<Longrightarrow> transfer_reachable api otp s"
| tr_step: "transfer_reachable api otp s \<Longrightarrow> transfer_step api otp s s' \<Longrightarrow> transfer_reachable api otp s'"

lemma transfer_step_order: "transfer_step api otp s s' \<Longrightarrow> in_order s s'"
  by (induction rule: transfer_step.induct)
    (auto intro: initiate_order buyer_verify_order seller_accept_order seller_reject_order seller_verify_order
      orch_cancel_transfer_order resend_otp_order on_timeout_message_order in_order_get in_order_same)

lemma in_order_otp_ok:
  assumes "in_order s s'" and "\<And>j tr. row_get transferId j (transfers s) = Some tr \<Longrightarrow> otp_ok tr"
    and "row_get transferId j (transfers s') = Some tr'"
  shows "otp_ok tr'"
  using assms(1) [unfolded in_order_def orderly_def, rule_format, of j] assms(2) [of j] assms(3)
  by (auto split: option.splits)

lemma reachable_otp_ok: "transfer_reachable api otp s \<Longrightarrow> row_get transferId j (transfers s) = Some tr \<Longrightarrow> otp_ok tr"
proof (induction arbitrary: j tr rule: transfer_reachable.induct)
  case (tr_step s s')
  show ?case by (rule in_order_otp_ok [OF transfer_step_order [OF tr_step.hyps(2)] tr_step.IH tr_step.prems])
qed simp

subsection \<open>Properties\<close>

text \<open>
  Property C21: in every state that any sequence of requests, timeouts, lost calls and changes by
  other components leads to from an empty table, a transfer that waits for the seller's code or is
  completed has been confirmed by the buyer.
\<close>

theorem completed_transfers_confirmed:
  assumes "transfer_reachable api otp s" and "row_get transferId tid (transfers s) = Some tr"
    and "tr_status tr = ''pending_seller_otp'' \<or> tr_status tr = ''completed''"
  shows "buyerOtpVerified tr"
  using reachable_otp_ok [OF assms(1,2)] assms(3) by (simp add: otp_ok_def)

definition ex_market :: "(int, (string \<Rightarrow> int) \<times> bool) sys" where
  "ex_market = ex_sys\<lparr>users := [ex_user ''u1'' ''555'', ex_user ''u2'' ''556'']\<rparr>"

definition ex_started :: "(int, (string \<Rightarrow> int) \<times> bool) sys" where
  "ex_started = snd (initiate ex_credit ex_otp ''u2'' (Some ''l1'') ex_market)"

definition ex_buyer_ok :: "(int, (string \<Rightarrow> int) \<times> bool) sys" where
  "ex_buyer_ok = snd (buyer_verify ex_otp ''u2'' (Some ''1234'') ''f'' ex_started)"

definition ex_settled :: "(int, (string \<Rightarrow> int) \<times> bool) sys" where
  "ex_settled = snd (seller_verify ex_credit ex_otp ''u1'' (Some ''1234'') ''f'' ex_buyer_ok)"

lemma ex_settled_reachable: "transfer_reachable ex_credit ex_otp ex_settled"
proof -
  have "transfer_reachable ex_credit ex_otp ex_market"
    by (rule tr_start) (simp add: ex_market_def ex_sys_def)
  then have "transfer_reachable ex_credit ex_otp ex_started"
    unfolding ex_started_def by (rule tr_step) (rule st_initiate [OF prod.collapse [symmetric]])
  then have "transfer_reachable ex_credit ex_otp ex_buyer_ok"
    unfolding ex_buyer_ok_def by (rule tr_step) (rule st_buyer_verify [OF prod.collapse [symmetric]])
  then show ?thesis
    unfolding ex_settled_def by (rule tr_step) (rule st_seller_verify [OF prod.collapse [symmetric]])
qed

theorem completed_transfers_confirmed_witness:
  "\<exists>tr. row_get transferId ''f'' (transfers ex_settled) = Some tr \<and> tr_status tr = ''completed'' \<and> buyerOtpVerified tr"
proof -
  have "map_option tr_status (row_get transferId ''f'' (transfers ex_settled)) = Some ''completed''" by code_simp
  then obtain tr where tr: "row_get transferId ''f'' (transfers ex_settled) = Some tr" "tr_status tr = ''completed''" by auto
  from completed_transfers_confirmed [OF ex_settled_reachable tr(1)] tr show ?thesis by blast
qed

text \<open>
  When no call is lost, cancelling a pending transfer by one of its parties answers
  success, cancels the transfer, puts the listing back to active and its ticket back to listed,
  and changes no owner and no balance. This does not depend on the status of the listing: a
  listing that was completed by another transfer is put back on the market with the buyer's ticket.
\<close>

theorem cancelling_puts_back_on_market:
  assumes "net s = []" and "row_get transferId tid (transfers s) = Some tr" and "\<not> lapses (time_now s) tr"
    and "user = tr_buyerId tr \<or> user = tr_sellerId tr"
    and "tr_status tr \<notin> {''completed'', ''cancelled'', ''failed''}"
    and "row_get listingId (tr_listingId tr) (listings s) = Some l"
    and "row_get ticketId (li_ticketId l) (tickets s) = Some k" and "unique_tickets (tickets s)"
  shows "\<exists>s'. orch_cancel_transfer user tid s = (Done 200 ''cancelled'', s')
    \<and> transfers s' = save_transfer tid [TrStatus (Some ''cancelled'')] (transfers s)
    \<and> listings s' = save_listing (tr_listingId tr) ''active'' (listings s)
    \<and> tickets s' = save_ticket (li_ticketId l) [TkStatus (Some ''listed'')] (tickets s) \<and> ext s' = ext s"
proof -
  have g: "call_service UNAVAILABLE (ep_get_transfer tid) s = (Inr tr, s)"
    using assms(1-3) by (simp add: call_answered ep_get_transfer_def get_transfer_def)
  have p: "patch_ignored tid [TrStatus (Some ''cancelled'')] s
      = s\<lparr>transfers := save_transfer tid [TrStatus (Some ''cancelled'')] (transfers s)\<rparr>" (is "_ = ?s1")
    using assms(1-3) by (simp add: patch_ignored_def call_answered ep_patch_transfer_def patch_transfer_def
        transfer_UPDATABLE_FIELDS_def)
  have l: "call_service UNAVAILABLE (ep_get_listing (tr_listingId tr)) ?s1 = (Inr l, ?s1)"
    using assms(1,6) by (simp add: call_answered ep_get_listing_def get_listing_def)
  have ul: "snd (call_service UNAVAILABLE (ep_update_listing (tr_listingId tr) [LiStatus (Some ''active'')]) ?s1)
      = ?s1\<lparr>listings := save_listing (tr_listingId tr) ''active'' (listings s)\<rparr>" (is "_ = ?s2")
    using assms(1) update_listing_status [OF assms(6), of "''active''"]
    by (simp add: call_answered ep_update_listing_def listing_ALLOWED_STATUSES_def)
  have ut: "snd (call_service UNAVAILABLE (ep_update_ticket (li_ticketId l) [TkStatus (Some ''listed'')]) ?s2)
      = ?s2\<lparr>tickets := save_ticket (li_ticketId l) [TkStatus (Some ''listed'')] (tickets s)\<rparr>" (is "_ = ?s3")
    using assms(1) update_ticket_plain [OF assms(8) _ _ assms(7), of "[TkStatus (Some ''listed'')]"]
    by (simp add: call_answered ep_update_ticket_def ticket_ALLOWED_STATUS_VALUES_def)
  have "call_off tr tid s = ?s3" by (simp add: call_off_def p l ul ut Let_def)
  then have "orch_cancel_transfer user tid s = (Done 200 ''cancelled'', broadcast_transfer_notification
      \<lparr>tv_listingId = None, tv_buyerId = Some (tr_buyerId tr), tv_sellerId = Some (tr_sellerId tr), tv_ticketId = None\<rparr> ?s3)"
    using assms(4,5) by (auto simp: orch_cancel_transfer_def g)
  then show ?thesis by (simp add: net_only_keeps [OF broadcast_transfer_notification_net])
qed

definition ex_offer :: "(int, (string \<Rightarrow> int) \<times> bool) sys" where
  "ex_offer = ex_deal\<lparr>listings := [ex_listing\<lparr>li_status := ''completed''\<rparr>]\<rparr>"

theorem cancelling_puts_back_on_market_witness:
  "fst (orch_cancel_transfer ''u2'' ''x1'' ex_offer) = Done 200 ''cancelled''
    \<and> map li_status (listings (snd (orch_cancel_transfer ''u2'' ''x1'' ex_offer))) = [''active'']"
proof -
  define tr where "tr = ex_transfer\<lparr>expiresAt := Some (Naive 1000000)\<rparr>"
  have "net ex_offer = []" "row_get transferId ''x1'' (transfers ex_offer) = Some tr" "\<not> lapses (time_now ex_offer) tr"
    "''u2'' = tr_buyerId tr \<or> ''u2'' = tr_sellerId tr" "tr_status tr \<notin> {''completed'', ''cancelled'', ''failed''}"
    "row_get listingId (tr_listingId tr) (listings ex_offer) = Some (ex_listing\<lparr>li_status := ''completed''\<rparr>)"
    "row_get ticketId (li_ticketId (ex_listing\<lparr>li_status := ''completed''\<rparr>)) (tickets ex_offer) = Some ex_ticket"
    "unique_tickets (tickets ex_offer)"
    by (simp_all add: tr_def ex_offer_def ex_deal_def ex_sys_def ex_transfer_def ex_listing_def ex_ticket_def
        lapses_def is_transfer_expired_def time_now_def ex_seat_defs unique_tickets_def)
  from cancelling_puts_back_on_market [OF this] show ?thesis
    by (auto simp: ex_offer_def ex_deal_def ex_sys_def ex_listing_def tr_def ex_transfer_def save_listing_def
        set_listing_status_def row_upd_def)
qed

text \<open>
  The consumer of timeout messages never cancels a transfer. Its PATCH carries keys that the
  transfer service refuses, so every transfer keeps its status or expires by age; but when the transfer is
  pending and no call is lost, the listing goes back to active although the transfer stays pending.
\<close>

theorem timeout_never_cancels:
  "(transfers (on_timeout_message tid lid s) = transfers s
      \<or> (\<exists>k. transfers (on_timeout_message tid lid s) = expire k (transfers s)))
    \<and> (net s = [] \<longrightarrow> row_get transferId (or_empty tid) (transfers s) = Some tr \<longrightarrow> \<not> lapses (time_now s) tr \<longrightarrow>
       tr_status tr = ''pending_buyer_otp'' \<longrightarrow> row_get listingId (or_empty lid) (listings s) = Some l \<longrightarrow>
       transfers (on_timeout_message tid lid s) = transfers s
       \<and> listings (on_timeout_message tid lid s) = save_listing (or_empty lid) ''active'' (listings s))"
proof -
  let ?body = "[TrStatus (Some ''cancelled''), TrOther ''cancelledAt'', TrOther ''cancelReason'']"
  have refused: "patch_transfer k ?body now rows = (Fail 400 ''VALIDATION_ERROR'', rows)" for k now and rows :: "'a transfer list"
    by (rule patch_transfer_refused_keys) (simp add: transfer_UPDATABLE_FIELDS_def)
  have pi: "patch_ignored k ?body q = q\<lparr>net := tl (net q)\<rparr>" for k and q :: "('a, 'b) sys"
    using patch_ignored_shape [of k ?body q] by (auto simp: refused)
  have cancel: "transfers (timeout_cancel_transfer k j q) = transfers q" for k j and q :: "('a, 'b) sys"
  proof -
    obtain r q' where c: "call_service UNAVAILABLE (ep_update_listing j [LiStatus (Some ''active'')]) (q\<lparr>net := tl (net q)\<rparr>) = (r, q')"
      by fastforce
    with call_update_listing [OF c] show ?thesis by (auto simp: timeout_cancel_transfer_def pi)
  qed
  obtain gr s1 where g: "call_service UNAVAILABLE (ep_get_transfer (or_empty tid)) s = (gr, s1)" by fastforce
  have "transfers s1 = transfers s \<or> (\<exists>k. transfers s1 = expire k (transfers s))"
    using call_get_transfer [OF g] by (auto simp: get_transfer_def split: option.splits if_splits)
  moreover have "transfers (on_timeout_message tid lid s) = transfers s1"
    using g by (auto simp: on_timeout_message_def cancel split: sum.splits)
  moreover have "transfers (on_timeout_message tid lid s) = transfers s
       \<and> listings (on_timeout_message tid lid s) = save_listing (or_empty lid) ''active'' (listings s)"
    if "net s = []" "row_get transferId (or_empty tid) (transfers s) = Some tr" "\<not> lapses (time_now s) tr"
      "tr_status tr = ''pending_buyer_otp''" "row_get listingId (or_empty lid) (listings s) = Some l"
  proof -
    have "on_timeout_message tid lid s = timeout_cancel_transfer (or_empty tid) (or_empty lid) s"
      using that by (simp add: on_timeout_message_def call_answered ep_get_transfer_def get_transfer_def)
    moreover have "timeout_cancel_transfer (or_empty tid) (or_empty lid) s = s\<lparr>listings := save_listing (or_empty lid) ''active'' (listings s)\<rparr>"
      using that update_listing_status [OF that(5), of "''active''"]
      by (simp add: timeout_cancel_transfer_def pi call_answered ep_update_listing_def listing_ALLOWED_STATUSES_def)
    ultimately show ?thesis by simp
  qed
  ultimately show ?thesis by auto
qed

theorem timeout_never_cancels_witness:
  "map tr_status (transfers (on_timeout_message (Some ''f'') (Some ''l1'') ex_started)) = [''pending_buyer_otp'']"
proof -
  have "transfers (on_timeout_message (Some ''f'') (Some ''l1'') ex_started) = transfers ex_started"
  proof -
    have n: "net ex_started = []" and l: "row_get listingId (or_empty (Some ''l1'')) (listings ex_started) = Some ex_listing"
      by code_simp+
    obtain tr where tr: "row_get transferId (or_empty (Some ''f'')) (transfers ex_started) = Some tr"
      "\<not> lapses (time_now ex_started) tr" "tr_status tr = ''pending_buyer_otp''"
    proof -
      have "(case row_get transferId (or_empty (Some ''f'')) (transfers ex_started) of None \<Rightarrow> False
        | Some tr \<Rightarrow> \<not> lapses (time_now ex_started) tr \<and> tr_status tr = ''pending_buyer_otp'')" by code_simp
      then show thesis using that by (auto split: option.splits)
    qed
    from timeout_never_cancels [of "Some ''f''" "Some ''l1''" ex_started tr ex_listing] n l tr show ?thesis by blast
  qed
  moreover have "map tr_status (transfers ex_started) = [''pending_buyer_otp'']" by code_simp
  ultimately show ?thesis by simp
qed

end
