(* ===== verification/MarketplaceOrchestrator.thy ===== *)
theory MarketplaceOrchestrator
  imports System
begin

text \<open>
  The marketplace orchestrator (\<^verbatim>\<open>orchestrators/marketplace-orchestrator/routes.py\<close>): browsing the
  listings, putting a ticket up for resale with a compensation when the listing cannot be created,
  and taking a listing back. Its client names a timeout \<^verbatim>\<open>SERVICE_TIMEOUT\<close>.
\<close>

definition SERVICE_TIMEOUT :: string where
  "SERVICE_TIMEOUT = ''SERVICE_TIMEOUT''"

subsection \<open>Browsing\<close>

record 'n listing_view =
  lv_listing :: "'n listing"
  lv_sellerName :: "string option"
  lv_event :: "(string \<times> string \<times> datetime) option"

definition opt :: "(string + 'a) \<Rightarrow> 'a option" where
  "opt r = (case r of Inl e \<Rightarrow> None | Inr v \<Rightarrow> Some v)"

definition seller_display :: "string \<Rightarrow> string option" where
  "seller_display email = (if email = [] then None else Some (takeWhile (\<lambda>c. c \<noteq> CHR ''@'') email))"

definition enrich_listing :: "'n listing \<Rightarrow> ('n, 'x) sys \<Rightarrow> 'n listing_view \<times> ('n, 'x) sys" where
  "enrich_listing l s =
     (case call_service SERVICE_TIMEOUT (ep_get_ticket (li_ticketId l)) s of (kr, s1) \<Rightarrow>
      case (case opt kr of
              Some k \<Rightarrow>
                if tk_eventId k \<noteq> [] then
                  (case call_service SERVICE_TIMEOUT (ep_read (\<lambda>s. get_event (tk_eventId k) (events s))) s1 of
                     (er, s2) \<Rightarrow> (opt er, s2))
                else (None, s1)
            | None \<Rightarrow> (None, s1)) of (ev, s2) \<Rightarrow>
      case call_service SERVICE_TIMEOUT (ep_read (\<lambda>s. get_user (li_sellerId l) (users s))) s2 of (ur, s3) \<Rightarrow>
        (\<lparr>lv_listing = l,
          lv_sellerName = (case opt ur of None \<Rightarrow> None | Some u \<Rightarrow> seller_display (us_email u)),
          lv_event = map_option (\<lambda>e. (ev_eventId e, ev_name e, ev_date e)) ev\<rparr>, s3))"

fun enrich_listings :: "'n listing list \<Rightarrow> ('n, 'x) sys \<Rightarrow> 'n listing_view list \<times> ('n, 'x) sys" where
  "enrich_listings [] s = ([], s)"
| "enrich_listings (l # ls) s =
     (case enrich_listing l s of (v, s1) \<Rightarrow> (case enrich_listings ls s1 of (vs, s2) \<Rightarrow> (v # vs, s2)))"

text \<open>
  A request for one event asks upstream without paging parameters, which is the first page of
  twenty, filters it and pages the rest itself.
\<close>

definition for_event :: "string \<Rightarrow> 'n listing_view \<Rightarrow> bool" where
  "for_event e v \<longleftrightarrow> (case lv_event v of None \<Rightarrow> False | Some (eid, nm, dt) \<Rightarrow> eid = e)"

definition browse ::
  "int option \<Rightarrow> int option \<Rightarrow> string option \<Rightarrow> ('n, 'x) sys
    \<Rightarrow> ('n listing_view list \<times> nat \<times> nat \<times> nat) reply \<times> ('n, 'x) sys" where
  "browse page limit event s =
     (case page_params page limit of
        None \<Rightarrow> (Fail 400 ''VALIDATION_ERROR'', s)
      | Some (p, l) \<Rightarrow>
          (case call_service SERVICE_TIMEOUT (ep_read (\<lambda>s. if truthy event then list_active_listings None None (listings s)
                  else list_active_listings (Some (int p)) (Some (int l)) (listings s))) s of
             (Inl e, s1) \<Rightarrow> (Fail 503 UNAVAILABLE, s1)
           | (Inr (ls, up, ul, tot), s1) \<Rightarrow>
               (case enrich_listings ls s1 of (vs, s2) \<Rightarrow>
                  if truthy event then
                    let hits = filter (for_event (the event)) vs
                    in (Done 200 (paginate p l hits, p, l, length hits), s2)
                  else (Done 200 (vs, up, ul, tot), s2))))"

definition orch_get_listing :: "string \<Rightarrow> ('n, 'x) sys \<Rightarrow> 'n listing_view reply \<times> ('n, 'x) sys" where
  "orch_get_listing lid s =
     (case call_service SERVICE_TIMEOUT (ep_get_listing lid) s of
        (Inl e, s1) \<Rightarrow>
          (if e = ''LISTING_NOT_FOUND'' then Fail 404 ''LISTING_NOT_FOUND'' else Fail 503 UNAVAILABLE, s1)
      | (Inr l, s1) \<Rightarrow> (case enrich_listing l s1 of (v, s2) \<Rightarrow> (Done 200 v, s2)))"

subsection \<open>Listing and taking back\<close>

text \<open>
  The price asked for, which defaults to the price paid (also when it is 0), and the creation of
  the listing, which puts the ticket back to active when it fails.
\<close>

definition listing_amount :: "'n::zero option \<Rightarrow> 'n ticket \<Rightarrow> 'n" where
  "listing_amount price k = (case price of None \<Rightarrow> tk_price k | Some p \<Rightarrow> if p = 0 then tk_price k else p)"

definition place_listing ::
  "string \<Rightarrow> string \<Rightarrow> 'n \<Rightarrow> ('n, 'x) sys \<Rightarrow> 'n listing reply \<times> ('n, 'x) sys" where
  "place_listing user tid amount s =
     (case call_service SERVICE_TIMEOUT (ep_create_listing \<lparr>lb_ticketId = Some (Some tid),
         lb_sellerId = Some (Some user), lb_price = Some (Some amount), lb_status = None\<rparr>) s of
        (Inl e, s1) \<Rightarrow>
          (Fail 500 ''INTERNAL_ERROR'',
           snd (call_service SERVICE_TIMEOUT (ep_update_ticket tid [TkStatus (Some ''active'')]) s1))
      | (Inr l, s1) \<Rightarrow> (Done 201 l, s1))"

definition list_ticket ::
  "string \<Rightarrow> string option \<Rightarrow> 'n::zero option \<Rightarrow> ('n, 'x) sys \<Rightarrow> 'n listing reply \<times> ('n, 'x) sys" where
  "list_ticket user tid_field price s =
     (if \<not> truthy tid_field then (Fail 400 ''VALIDATION_ERROR'', s)
      else let tid = the tid_field in
      (case call_service SERVICE_TIMEOUT (ep_get_ticket tid) s of
         (Inl e, s1) \<Rightarrow>
           (if e = ''TICKET_NOT_FOUND'' then Fail 404 ''TICKET_NOT_FOUND'' else Fail 503 UNAVAILABLE, s1)
       | (Inr k, s1) \<Rightarrow>
           if tk_ownerId k \<noteq> user then (Fail 403 ''AUTH_FORBIDDEN'', s1)
           else if tk_status k \<noteq> ''active'' then (Fail 400 ''TICKET_NOT_FOUND'', s1)
           else
             (case call_service SERVICE_TIMEOUT (ep_update_ticket tid [TkStatus (Some ''listed'')]) s1 of
                (Inl e, s2) \<Rightarrow> (Fail 503 UNAVAILABLE, s2)
              | (Inr k2, s2) \<Rightarrow>
                  place_listing user tid (listing_amount price k) s2)))"

definition delist :: "string \<Rightarrow> string \<Rightarrow> ('n, 'x) sys \<Rightarrow> (string \<times> string) reply \<times> ('n, 'x) sys" where
  "delist user lid s =
     (case call_service SERVICE_TIMEOUT (ep_get_listing lid) s of
        (Inl e, s1) \<Rightarrow>
          (if e = ''LISTING_NOT_FOUND'' then Fail 404 ''LISTING_NOT_FOUND'' else Fail 503 UNAVAILABLE, s1)
      | (Inr l, s1) \<Rightarrow>
          if li_sellerId l \<noteq> user then (Fail 403 ''AUTH_FORBIDDEN'', s1)
          else if li_status l \<noteq> ''active'' then (Fail 400 ''LISTING_NOT_FOUND'', s1)
          else
            (case call_service SERVICE_TIMEOUT (ep_update_listing lid [LiStatus (Some ''cancelled'')]) s1 of
               (Inl e, s2) \<Rightarrow> (Fail 503 UNAVAILABLE, s2)
             | (Inr l2, s2) \<Rightarrow>
                 (Done 200 (lid, ''cancelled''),
                  snd (call_service SERVICE_TIMEOUT (ep_update_ticket (li_ticketId l) [TkStatus (Some ''active'')]) s2))))"

subsection \<open>Lemmas\<close>

text \<open>A PATCH of a ticket's status, by its outcome.\<close>

lemma status_patch:
  assumes "call_service tmo (ep_update_ticket tid [TkStatus (Some st)]) s = (r, s')"
  shows "\<exists>t. s' = s\<lparr>net := tl (net s), tickets := t\<rparr>
    \<and> (t = tickets s \<and> (\<exists>c. r = Inl c) \<or> t = save_ticket tid [TkStatus (Some st)] (tickets s))"
proof -
  from call_update_ticket [OF assms] obtain t where s': "s' = s\<lparr>net := tl (net s), tickets := t\<rparr>"
    and t: "(\<exists>c. r = Inl c) \<and> t = tickets s
      \<or> (\<exists>rep. update_ticket tid [TkStatus (Some st)] (tickets s) = (rep, t) \<and> outcome r rep)" by blast
  have "t = tickets s \<and> (\<exists>c. r = Inl c) \<or> t = save_ticket tid [TkStatus (Some st)] (tickets s)"
    using t
  proof (elim disjE exE conjE)
    fix rep assume u: "update_ticket tid [TkStatus (Some st)] (tickets s) = (rep, t)" and o: "outcome r rep"
    from update_ticket_effect [OF u] o show ?thesis by (cases r) (auto dest: outcome_done)
  qed simp
  with s' show ?thesis by blast
qed

lemma save_status_twice:
  "save_ticket tid [TkStatus (Some a)] (save_ticket tid [TkStatus (Some b)] rows) = save_ticket tid [TkStatus (Some a)] rows"
  by (simp add: save_ticket_def row_upd_def set_ticket_fields_def)

lemma save_status_same:
  assumes "distinct (map ticketId rows)" and "row_get ticketId tid rows = Some k" and "tk_status k = st"
  shows "save_ticket tid [TkStatus (Some st)] rows = rows"
proof -
  have "set_ticket_fields [TkStatus (Some st)] t = t" if "t \<in> set rows" "ticketId t = tid" for t
  proof -
    from row_get_unique [OF assms(1)] that assms(2) have "t = k" by (metis option.inject)
    with assms(3) show ?thesis by (simp add: set_ticket_fields_def)
  qed
  then show ?thesis by (auto simp: save_ticket_def row_upd_def intro: map_idI)
qed

lemma place_listing_result:
  assumes "place_listing user tid amount s = (rep, s')"
  shows "rep = Fail 500 ''INTERNAL_ERROR'' \<and> (listings s' = listings s \<or> (\<exists>l. listings s' = listings s @ [l]))
        \<and> (tickets s' = tickets s \<or> tickets s' = save_ticket tid [TkStatus (Some ''active'')] (tickets s))
    \<or> (\<exists>l. rep = Done 201 l \<and> listings s' = listings s @ [l] \<and> tickets s' = tickets s
        \<and> li_ticketId l = tid \<and> li_sellerId l = user \<and> li_price l = amount \<and> li_status l = ''active'')"
proof -
  let ?b = "\<lparr>lb_ticketId = Some (Some tid), lb_sellerId = Some (Some user), lb_price = Some (Some amount), lb_status = None\<rparr>"
  obtain lr s1 where c: "call_service SERVICE_TIMEOUT (ep_create_listing ?b) s = (lr, s1)" by fastforce
  from call_create_listing [OF c] obtain ls d where s1: "s1 = s\<lparr>net := tl (net s), drawn := d, listings := ls\<rparr>"
    and ls: "(\<exists>c. lr = Inl c) \<and> ls = listings s
      \<or> (\<exists>rep. create_listing ?b (fresh s (drawn s)) (time_now s) (listings s) = (rep, ls) \<and> outcome lr rep)" by blast
  have grow: "ls = listings s \<or> (\<exists>l. ls = listings s @ [l])" using ls create_listing_effect by fastforce
  show ?thesis
  proof (cases lr)
    case (Inl e)
    obtain ar s2 where a: "call_service SERVICE_TIMEOUT (ep_update_ticket tid [TkStatus (Some ''active'')]) s1 = (ar, s2)" by fastforce
    have "rep = Fail 500 ''INTERNAL_ERROR''" "s' = s2" using assms c Inl a by (simp_all add: place_listing_def)
    with status_patch [OF a] s1 grow show ?thesis by auto
  next
    case (Inr l)
    then have "rep = Done 201 l" "s' = s1" using assms c by (simp_all add: place_listing_def)
    with ls Inr s1 show ?thesis by (auto simp: create_listing_def Let_def split: if_splits)
  qed
qed

text \<open>What listing a ticket did, for every answer.\<close>

lemma list_ticket_result:
  assumes run: "list_ticket user tid_field price s = (rep, s')"
  shows "(\<exists>st c. rep = Fail st c) \<and> tickets s' = tickets s \<and> listings s' = listings s
    \<or> (\<exists>tid k. tid_field = Some tid \<and> row_get ticketId tid (tickets s) = Some k \<and> tk_ownerId k = user \<and> tk_status k = ''active''
        \<and> (rep = Fail 503 UNAVAILABLE \<and> listings s' = listings s \<and> tickets s' = save_ticket tid [TkStatus (Some ''listed'')] (tickets s)
         \<or> rep = Fail 500 ''INTERNAL_ERROR'' \<and> (listings s' = listings s \<or> (\<exists>l. listings s' = listings s @ [l]))
            \<and> (\<exists>st. (st = ''listed'' \<or> st = ''active'') \<and> tickets s' = save_ticket tid [TkStatus (Some st)] (tickets s))
         \<or> (\<exists>l. rep = Done 201 l \<and> listings s' = listings s @ [l] \<and> tickets s' = save_ticket tid [TkStatus (Some ''listed'')] (tickets s)
              \<and> li_ticketId l = tid \<and> li_sellerId l = user \<and> li_price l = listing_amount price k \<and> li_status l = ''active'')))"
proof (cases tid_field)
  case (Some tid)
  obtain kr s1 where g: "call_service SERVICE_TIMEOUT (ep_get_ticket tid) s = (kr, s1)" by fastforce
  have s1: "s1 = s\<lparr>net := tl (net s)\<rparr>" and row: "\<And>k. kr = Inr k \<Longrightarrow> row_get ticketId tid (tickets s) = Some k"
    using call_get_ticket [OF g] by auto
  show ?thesis
  proof (cases "truthy tid_field \<and> (\<exists>k. kr = Inr k \<and> tk_ownerId k = user \<and> tk_status k = ''active'')")
    case False
    with run Some g s1 show ?thesis by (auto simp: list_ticket_def Let_def split: if_splits sum.splits)
  next
    case True
    then obtain k where k: "kr = Inr k" "tk_ownerId k = user" "tk_status k = ''active''" and ne: "truthy tid_field" by blast
    obtain pr s2 where p: "call_service SERVICE_TIMEOUT (ep_update_ticket tid [TkStatus (Some ''listed'')]) s1 = (pr, s2)" by fastforce
    from status_patch [OF p] obtain t where s2: "s2 = s1\<lparr>net := tl (net s1), tickets := t\<rparr>"
      and t: "t = tickets s1 \<and> (\<exists>c. pr = Inl c) \<or> t = save_ticket tid [TkStatus (Some ''listed'')] (tickets s1)" by blast
    show ?thesis
    proof (cases pr)
      case (Inl e)
      with run Some g k ne p have "rep = Fail 503 UNAVAILABLE \<and> s' = s2" by (simp add: list_ticket_def)
      with Some row k t s1 s2 show ?thesis by auto
    next
      case (Inr k2)
      with run Some g k ne p have "place_listing user tid (listing_amount price k) s2 = (rep, s')" by (simp add: list_ticket_def)
      note place_listing_result [OF this]
      moreover have "tickets s2 = save_ticket tid [TkStatus (Some ''listed'')] (tickets s)" "listings s2 = listings s"
        using t Inr s1 s2 by auto
      ultimately show ?thesis using Some row [OF k(1)] k by (auto simp: save_status_twice)
    qed
  qed
qed (use run in \<open>auto simp: list_ticket_def\<close>)

subsection \<open>Properties\<close>

text \<open>
  Listing a ticket that is answered with success had the caller as the owner of an active
  ticket; the ticket is now listed and exactly one active listing of it, by the caller and at the price
  asked for or else paid, was added.
\<close>

theorem list_ticket_success:
  assumes "list_ticket user tid_field price s = (Done st l, s')"
  shows "\<exists>tid k. tid_field = Some tid \<and> row_get ticketId tid (tickets s) = Some k \<and> tk_ownerId k = user
    \<and> tk_status k = ''active'' \<and> tickets s' = save_ticket tid [TkStatus (Some ''listed'')] (tickets s)
    \<and> listings s' = listings s @ [l] \<and> li_ticketId l = tid \<and> li_sellerId l = user
    \<and> li_price l = listing_amount price k \<and> li_status l = ''active''"
  using list_ticket_result [OF assms] by auto

lemma ex_list_done: "\<exists>st l s'. list_ticket ''u1'' (Some ''k1'') None ex_sys = (Done st l, s')"
proof -
  have "is_done (fst (list_ticket ''u1'' (Some ''k1'') None ex_sys))" by code_simp
  then show ?thesis by (metis is_done_iff prod.collapse)
qed

theorem list_ticket_success_witness:
  "map tk_status (tickets (snd (list_ticket ''u1'' (Some ''k1'') None ex_sys))) = [''listed'']"
proof -
  obtain st l s' where run: "list_ticket ''u1'' (Some ''k1'') None ex_sys = (Done st l, s')" using ex_list_done by blast
  from list_ticket_success [OF run] run show ?thesis
    by (auto simp: ex_sys_def ex_ticket_def save_ticket_def row_upd_def set_ticket_fields_def)
qed

text \<open>
  When listing a ticket fails, the ticket is as before, or a call was lost and it is left
  listed: then the answer is 503, or 500 with a lost compensation.
\<close>

theorem list_ticket_failure:
  assumes "list_ticket user tid_field price s = (Fail st c, s')" and "distinct (map ticketId (tickets s))"
  shows "tickets s' = tickets s
    \<or> (\<exists>tid. tid_field = Some tid \<and> st \<in> {500, 503} \<and> tickets s' = save_ticket tid [TkStatus (Some ''listed'')] (tickets s))"
  using list_ticket_result [OF assms(1)] save_status_same [OF assms(2)] by auto

theorem list_ticket_failure_witness:
  "map tk_status (tickets (snd (list_ticket ''u1'' (Some ''k1'') None
      (ex_sys\<lparr>net := [NetOk, NetOk, ReqLost TimedOut, NetOk]\<rparr>)))) \<in> {[''active''], [''listed'']}"
proof -
  let ?s = "ex_sys\<lparr>net := [NetOk, NetOk, ReqLost TimedOut, NetOk]\<rparr>"
  let ?run = "list_ticket ''u1'' (Some ''k1'') None ?s"
  have "\<not> is_done (fst ?run)" by code_simp
  then obtain st c where "?run = (Fail st c, snd ?run)" by (cases "fst ?run") (auto simp: prod_eq_iff)
  from list_ticket_failure [OF this] show ?thesis
    by (auto simp: ex_sys_def ex_ticket_def save_ticket_def row_upd_def set_ticket_fields_def)
qed

text \<open>
  Taking back a listing with success had the caller as the seller of an active listing; it is
  cancelled now, and the ticket is active again unless that last call was lost.
\<close>

theorem delist_success:
  assumes "delist user lid s = (Done st v, s')"
  shows "\<exists>l. row_get listingId lid (listings s) = Some l \<and> li_sellerId l = user \<and> li_status l = ''active''
    \<and> listings s' = save_listing lid ''cancelled'' (listings s)
    \<and> (tickets s' = tickets s \<or> tickets s' = save_ticket (li_ticketId l) [TkStatus (Some ''active'')] (tickets s))"
proof -
  obtain lr s1 where g: "call_service SERVICE_TIMEOUT (ep_get_listing lid) s = (lr, s1)" by fastforce
  then obtain l where l: "lr = Inr l" "li_sellerId l = user" "li_status l = ''active''"
    using assms by (auto simp: delist_def split: sum.splits if_splits)
  have s1: "s1 = s\<lparr>net := tl (net s)\<rparr>" "row_get listingId lid (listings s) = Some l"
    using call_get_listing [OF g] l by auto
  obtain ur s2 where u: "call_service SERVICE_TIMEOUT (ep_update_listing lid [LiStatus (Some ''cancelled'')]) s1 = (ur, s2)" by fastforce
  then obtain l2 where "ur = Inr l2" using assms g l by (auto simp: delist_def split: sum.splits)
  with call_update_listing [OF u] s1 have s2: "tickets s2 = tickets s" "listings s2 = save_listing lid ''cancelled'' (listings s)"
    by (auto simp: update_listing_def split: if_splits option.splits)
  obtain ar s3 where a: "call_service SERVICE_TIMEOUT (ep_update_ticket (li_ticketId l) [TkStatus (Some ''active'')]) s2 = (ar, s3)"
    by fastforce
  have "s' = s3" using assms g l u \<open>ur = Inr l2\<close> a by (simp add: delist_def)
  with status_patch [OF a] s2 s1 l show ?thesis by auto
qed

theorem delist_success_witness:
  "map li_status (listings (snd (delist ''u1'' ''l1'' ex_sys))) = [''cancelled'']"
proof -
  have "is_done (fst (delist ''u1'' ''l1'' ex_sys))" by code_simp
  then obtain st v s' where run: "delist ''u1'' ''l1'' ex_sys = (Done st v, s')" by (metis is_done_iff prod.collapse)
  from delist_success [OF run] run show ?thesis
    by (auto simp: ex_sys_def ex_listing_def save_listing_def row_upd_def set_listing_status_def)
qed

end
