(* ===== verification/QrOrchestrator.thy ===== *)
theory QrOrchestrator
  imports MarketplaceOrchestrator
begin

text \<open>
  The QR orchestrator (\<^verbatim>\<open>orchestrators/qr-orchestrator/routes.py\<close>): an owner's tickets and the
  rotating QR codes of active tickets.
\<close>

text \<open>
  What \<^verbatim>\<open>_generate_qr\<close> takes from outside: the SHA-256 hex digest, the ISO text of an instant in
  UTC, and the secret of the environment. The digest is any function here.
\<close>

record qr_env =
  sha256_hex :: "string \<Rightarrow> string"
  isoformat :: "int \<Rightarrow> string"
  QR_SECRET :: string

definition QR_TTL_SECONDS :: int where
  "QR_TTL_SECONDS = 60"

definition generate_qr :: "qr_env \<Rightarrow> string \<Rightarrow> string \<Rightarrow> string \<Rightarrow> string \<Rightarrow> int \<Rightarrow> string" where
  "generate_qr env ticket_id user_id event_id venue_id now =
     sha256_hex env (ticket_id @ ''|'' @ user_id @ ''|'' @ event_id @ ''|'' @ venue_id @ ''|''
       @ isoformat env now @ ''|'' @ QR_SECRET env)"

text \<open>The event and the venue of a ticket, each missing if it cannot be read.\<close>

definition ticket_context ::
  "'n ticket \<Rightarrow> ('n, 'x) sys \<Rightarrow> ('n event option \<times> venue option) \<times> ('n, 'x) sys" where
  "ticket_context k s =
     (case call_service SERVICE_TIMEOUT (ep_read (\<lambda>s. get_event (tk_eventId k) (events s))) s of (er, s1) \<Rightarrow>
      case call_service SERVICE_TIMEOUT (ep_read (\<lambda>s. get_venue (tk_venueId k) (venues s))) s1 of (vr, s2) \<Rightarrow>
        ((opt er, opt vr), s2))"

fun contexts_of ::
  "'n ticket list \<Rightarrow> ('n, 'x) sys \<Rightarrow> ('n ticket \<times> 'n event option \<times> venue option) list \<times> ('n, 'x) sys" where
  "contexts_of [] s = ([], s)"
| "contexts_of (k # ks) s =
     (case ticket_context k s of (c, s1) \<Rightarrow> (case contexts_of ks s1 of (rest, s2) \<Rightarrow> ((k, c) # rest, s2)))"

definition list_tickets ::
  "string \<Rightarrow> ('n, 'x) sys \<Rightarrow> ('n ticket \<times> 'n event option \<times> venue option) list reply \<times> ('n, 'x) sys" where
  "list_tickets user s =
     (case call_service SERVICE_TIMEOUT (ep_read (\<lambda>s. Done 200 (get_tickets_by_owner user (tickets s)))) s of
        (Inl e, s1) \<Rightarrow> (Fail 503 UNAVAILABLE, s1)
      | (Inr ks, s1) \<Rightarrow> (case contexts_of ks s1 of (xs, s2) \<Rightarrow> (Done 200 xs, s2)))"

record 'n qr_answer =
  qa_ticketId :: string
  qa_qrHash :: string
  qa_generatedAt :: int
  qa_expiresAt :: int
  qa_event :: "'n event option"
  qa_venue :: "venue option"

definition get_qr :: "qr_env \<Rightarrow> string \<Rightarrow> string \<Rightarrow> ('n, 'x) sys \<Rightarrow> 'n qr_answer reply \<times> ('n, 'x) sys" where
  "get_qr env user tid s =
     (case call_service SERVICE_TIMEOUT (ep_get_ticket tid) s of
        (Inl e, s1) \<Rightarrow>
          (if e = ''TICKET_NOT_FOUND'' then Fail 404 ''TICKET_NOT_FOUND'' else Fail 503 UNAVAILABLE, s1)
      | (Inr k, s1) \<Rightarrow>
          if tk_ownerId k \<noteq> user then (Fail 403 ''AUTH_FORBIDDEN'', s1)
          else if tk_status k \<noteq> ''active'' then (Fail 400 ''QR_INVALID'', s1)
          else
            let now = time_now s1; h = generate_qr env tid user (tk_eventId k) (tk_venueId k) now in
            (case call_service SERVICE_TIMEOUT (ep_update_ticket tid
                [TkQrHash (Some h), TkQrTimestamp (Some (TIso (Aware now)))]) s1 of
               (Inl e, s2) \<Rightarrow> (Fail 500 ''INTERNAL_ERROR'', s2)
             | (Inr k2, s2) \<Rightarrow>
                 (case ticket_context k s2 of
                    ((ev, ve), s3) \<Rightarrow>
                      (Done 200 \<lparr>qa_ticketId = tid, qa_qrHash = h, qa_generatedAt = now,
                         qa_expiresAt = now + secs QR_TTL_SECONDS, qa_event = ev, qa_venue = ve\<rparr>, s3))))"

text \<open>The answer's seat has four fields that a ticket never has, so they are null.\<close>

record 'n qr_context =
  qc_ticketId :: string
  qc_qrHash :: string
  qc_status :: string
  qc_event :: "'n event option"
  qc_venue :: "venue option"

definition get_ticket_context_by_qr :: "string \<Rightarrow> string \<Rightarrow> ('n, 'x) sys \<Rightarrow> 'n qr_context reply \<times> ('n, 'x) sys" where
  "get_ticket_context_by_qr user qr s =
     (case call_service SERVICE_TIMEOUT (ep_read (\<lambda>s. get_ticket_by_qr_hash qr (tickets s))) s of
        (Inl e, s1) \<Rightarrow>
          (if e = ''TICKET_NOT_FOUND'' then Fail 404 ''TICKET_NOT_FOUND'' else Fail 503 UNAVAILABLE, s1)
      | (Inr k, s1) \<Rightarrow>
          if tk_ownerId k \<noteq> user then (Fail 403 ''AUTH_FORBIDDEN'', s1)
          else
            (case ticket_context k s1 of
               ((ev, ve), s2) \<Rightarrow>
                 (Done 200 \<lparr>qc_ticketId = ticketId k, qc_qrHash = (if truthy (qrHash k) then the (qrHash k) else qr),
                    qc_status = tk_status k, qc_event = ev, qc_venue = ve\<rparr>, s2)))"

subsection \<open>Lemmas\<close>

lemma call_read_net: "call_service tmo (ep_read f) s = (r, s') \<Longrightarrow> s' = s\<lparr>net := tl (net s)\<rparr>"
  using call_read by blast

lemma ticket_context_frame:
  "ticket_context k s = (c, s') \<Longrightarrow> \<exists>n. s' = s\<lparr>net := n\<rparr>"
  by (auto simp: ticket_context_def split: prod.splits dest!: call_read_net)

end
