(* ===== verification/VerificationOrchestrator.thy ===== *)
theory VerificationOrchestrator
  imports QrOrchestrator
begin

text \<open>
  The ticket verification orchestrator (\<^verbatim>\<open>orchestrators/ticket-verification-orchestrator/routes.py\<close>):
  staff scan a QR code or enter a ticket id at the door. A scan takes a lock in Redis for the
  ticket; both handlers make the same checks from the event on (\<open>admit\<close>).
\<close>

subsection \<open>The scan lock\<close>

definition CLOCK_SKEW_SECONDS :: int where
  "CLOCK_SKEW_SECONDS = 300"

definition LOCK_TTL_SECONDS :: int where
  "LOCK_TTL_SECONDS = 5"

definition MAX_LOCK_RETRIES :: nat where
  "MAX_LOCK_RETRIES = 3"

definition scan_lock_key :: "string \<Rightarrow> string" where
  "scan_lock_key tid = ''scan_lock:'' @ tid"

text \<open>The token is the ticket id and the instant; without Redis the code proceeds without a lock.\<close>

datatype scan_lock = NoLock | HasLock rval

text \<open>\<^verbatim>\<open>SET key token NX EX ttl\<close>, at most \<open>n\<close> times; waiting in between does not move the clock.\<close>

fun try_lock :: "nat \<Rightarrow> string \<Rightarrow> rval \<Rightarrow> infra \<Rightarrow> bool \<times> infra" where
  "try_lock 0 k tok w = (False, w)"
| "try_lock (Suc n) k tok w =
     (case redis_step w of
        (False, w1) \<Rightarrow> try_lock n k tok w1
      | (True, w1) \<Rightarrow>
          if redis_live k w1 = None then (True, redis_setex k LOCK_TTL_SECONDS tok w1)
          else try_lock n k tok w1)"

definition acquire_scan_lock :: "string \<Rightarrow> infra \<Rightarrow> scan_lock option \<times> infra" where
  "acquire_scan_lock tid w =
     (case redis_step w of
        (False, w1) \<Rightarrow> (Some NoLock, w1)
      | (True, w1) \<Rightarrow>
          (case try_lock MAX_LOCK_RETRIES (scan_lock_key tid) (RLock tid (clock w1)) w1 of
             (True, w2) \<Rightarrow> (Some (HasLock (RLock tid (clock w1))), w2)
           | (False, w2) \<Rightarrow> (None, w2)))"

text \<open>The script deletes the key only if it still holds the caller's token.\<close>

fun release_scan_lock :: "string \<Rightarrow> scan_lock \<Rightarrow> infra \<Rightarrow> infra" where
  "release_scan_lock tid NoLock w = w"
| "release_scan_lock tid (HasLock tok) w =
     (case redis_step w of
        (False, w1) \<Rightarrow> w1
      | (True, w1) \<Rightarrow>
          (case redis_step w1 of
             (False, w2) \<Rightarrow> w2
           | (True, w2) \<Rightarrow>
               if redis_live (scan_lock_key tid) w2 = Some tok then redis_delete (scan_lock_key tid) w2 else w2))"

subsection \<open>The lock as an interface\<close>

text \<open>
  A lock service: what a client may rely on while the store answers. The clients' facts, that a
  second caller is refused while the lock is held, whatever the first did in between, and that
  releasing lets the next one in, follow from these laws.
\<close>

locale lock_service =
  fixes acquire :: "'w \<Rightarrow> 'l option \<times> 'w" and release :: "'l \<Rightarrow> 'w \<Rightarrow> 'w"
    and holder :: "'w \<Rightarrow> 'l option" and up :: "'w \<Rightarrow> bool"
  assumes acquire_free: "up w \<Longrightarrow> holder w = None \<Longrightarrow> \<exists>l w'. acquire w = (Some l, w') \<and> holder w' = Some l \<and> up w'"
    and acquire_busy: "up w \<Longrightarrow> holder w = Some l \<Longrightarrow> \<exists>w'. acquire w = (None, w') \<and> holder w' = Some l \<and> up w'"
    and release_own: "up w \<Longrightarrow> holder w = Some l \<Longrightarrow> holder (release l w) = None \<and> up (release l w)"
    and release_other: "up w \<Longrightarrow> holder w = Some l \<Longrightarrow> m \<noteq> l \<Longrightarrow> holder (release m w) = Some l \<and> up (release m w)"
begin

lemma exclusion:
  assumes "up w" and "acquire w = (Some l, w1)" and "up w2" and "holder w2 = holder w1"
  shows "fst (acquire w2) = None"
proof -
  have "holder w = None"
  proof (rule ccontr)
    assume "holder w \<noteq> None"
    then obtain m where "holder w = Some m" by blast
    with acquire_busy [OF assms(1) this] assms(2) show False by auto
  qed
  with acquire_free [OF assms(1)] assms(2) have "holder w1 = Some l" by auto
  with acquire_busy [OF assms(3)] assms(4) show ?thesis by auto
qed

lemma reacquire:
  assumes "up w" and "acquire w = (Some l, w1)"
  shows "\<exists>m w2. acquire (release l w1) = (Some m, w2)"
proof -
  have "holder w = None"
  proof (rule ccontr)
    assume "holder w \<noteq> None"
    then obtain m where "holder w = Some m" by blast
    with acquire_busy [OF assms(1) this] assms(2) show False by auto
  qed
  with acquire_free [OF assms(1)] assms(2) have "holder w1 = Some l" "up w1" by auto
  with release_own acquire_free show ?thesis by blast
qed

end

definition scan_holder :: "string \<Rightarrow> infra \<Rightarrow> scan_lock option" where
  "scan_holder tid w = map_option HasLock (redis_live (scan_lock_key tid) w)"

lemma try_lock_up:
  "redis_io w = [] \<Longrightarrow> try_lock n k tok w =
    (if redis_live k w = None \<and> 0 < n then (True, redis_setex k LOCK_TTL_SECONDS tok w) else (False, w))"
  by (induction n) (auto simp: redis_step_up)

lemma acquire_scan_lock_up: "redis_io w = [] \<Longrightarrow> acquire_scan_lock tid w =
    (if redis_live (scan_lock_key tid) w = None
     then (Some (HasLock (RLock tid (clock w))), redis_setex (scan_lock_key tid) LOCK_TTL_SECONDS (RLock tid (clock w)) w)
     else (None, w))"
  by (simp add: acquire_scan_lock_def redis_step_up try_lock_up MAX_LOCK_RETRIES_def)

lemma release_scan_lock_up: "redis_io w = [] \<Longrightarrow> release_scan_lock tid (HasLock tok) w =
    (if redis_live (scan_lock_key tid) w = Some tok then redis_delete (scan_lock_key tid) w else w)"
  by (simp add: redis_step_up)

lemma release_no_lock_or: "release_scan_lock tid m w = w \<or> (\<exists>tok. m = HasLock tok)"
  by (cases m) simp_all

interpretation scan_mutex: lock_service "acquire_scan_lock tid" "release_scan_lock tid" "scan_holder tid" "\<lambda>w. redis_io w = []"
proof unfold_locales
  fix w :: infra and l m
  assume up: "redis_io w = []"
  show "\<exists>l w'. acquire_scan_lock tid w = (Some l, w') \<and> scan_holder tid w' = Some l \<and> redis_io w' = []" if "scan_holder tid w = None"
    using up that by (simp add: acquire_scan_lock_up scan_holder_def LOCK_TTL_SECONDS_def)
  show "\<exists>w'. acquire_scan_lock tid w = (None, w') \<and> scan_holder tid w' = Some l \<and> redis_io w' = []" if "scan_holder tid w = Some l"
    using up that by (auto simp: acquire_scan_lock_up scan_holder_def)
  show "scan_holder tid (release_scan_lock tid l w) = None \<and> redis_io (release_scan_lock tid l w) = []" if "scan_holder tid w = Some l"
    using up that by (auto simp: release_scan_lock_up scan_holder_def simp del: release_scan_lock.simps)
  show "scan_holder tid (release_scan_lock tid m w) = Some l \<and> redis_io (release_scan_lock tid m w) = []"
    if "scan_holder tid w = Some l" "m \<noteq> l"
    using up that by (cases m) (auto simp: release_scan_lock_up scan_holder_def simp del: release_scan_lock.simps(2))
qed

lemma try_lock_frame: "try_lock n k tok w = (b, w') \<Longrightarrow> clock w' = clock w"
proof (induction n arbitrary: w)
  case (Suc n)
  obtain ok w1 where s: "redis_step w = (ok, w1)" by fastforce
  with Suc redis_step_frame(4) [OF s] show ?case by (cases ok) (auto simp: redis_setex_def split: if_splits)
qed simp

lemma acquire_scan_lock_frame:
  assumes "acquire_scan_lock tid w = (r, w')"
  shows "clock w' = clock w"
proof -
  obtain ok w1 where s: "redis_step w = (ok, w1)" by fastforce
  with assms redis_step_frame(4) [OF s] show ?thesis
    by (cases ok) (auto simp: acquire_scan_lock_def split: prod.splits bool.splits dest: try_lock_frame)
qed

subsection \<open>Admission\<close>

record staff =
  sf_userId :: string
  sf_venueId :: "string option"

definition write_log :: "string \<Rightarrow> string \<Rightarrow> string \<Rightarrow> ('n, 'x) sys \<Rightarrow> ('n, 'x) sys" where
  "write_log tid who st s =
     snd (call_service SERVICE_TIMEOUT (ep_create_log \<lparr>gb_ticketId = Some (Some tid), gb_staffId = Some (Some who),
       gb_status = Some (Some st)\<rparr>) s)"

record 'n scan_answer =
  sa_ticketId :: string
  sa_scannedAt :: int
  sa_event :: "'n event"
  sa_seatId :: string
  sa_owner :: string

text \<open>The last checks and the admission itself; the outcomes of the writes are not looked at.\<close>

definition admit_checked ::
  "staff \<Rightarrow> string option \<Rightarrow> 'n ticket \<Rightarrow> 'n event \<Rightarrow> seat \<Rightarrow> ('n, 'x) sys \<Rightarrow> 'n scan_answer reply \<times> ('n, 'x) sys" where
  "admit_checked stf selected_event k ev seat s =
     (if truthy (sf_venueId stf) \<and> Some (tk_venueId k) \<noteq> sf_venueId stf then
        let s1 = snd (call_service SERVICE_TIMEOUT (ep_read (\<lambda>s. get_venue (tk_venueId k) (venues s))) s)
        in (Fail 400 ''WRONG_HALL'', write_log (ticketId k) (sf_userId stf) ''wrong_venue'' s1)
      else if truthy selected_event \<and> Some (tk_eventId k) \<noteq> selected_event then
        (Fail 400 ''WRONG_EVENT'', write_log (ticketId k) (sf_userId stf) ''wrong_event'' s)
      else
        let s1 = snd (call_service SERVICE_TIMEOUT (ep_update_ticket (ticketId k) [TkStatus (Some ''used'')]) s);
            s2 = write_log (ticketId k) (sf_userId stf) ''checked_in'' s1
        in (Done 200 \<lparr>sa_ticketId = ticketId k, sa_scannedAt = time_now s2, sa_event = ev,
              sa_seatId = seatId seat, sa_owner = tk_ownerId k\<rparr>, s2))"

definition already_in :: "ticket_log list option \<Rightarrow> bool" where
  "already_in entries \<longleftrightarrow> (case entries of None \<Rightarrow> False | Some xs \<Rightarrow> list_ex (\<lambda>x. tl_status x = ''checked_in'') xs)"

definition admit ::
  "staff \<Rightarrow> string option \<Rightarrow> 'n ticket \<Rightarrow> ('n, 'x) sys \<Rightarrow> 'n scan_answer reply \<times> ('n, 'x) sys" where
  "admit stf selected_event k s =
     (case call_service SERVICE_TIMEOUT (ep_read (\<lambda>s. get_event (tk_eventId k) (events s))) s of
        (Inl e, s1) \<Rightarrow> (Fail 400 ''TICKET_NOT_FOUND'', write_log (ticketId k) (sf_userId stf) ''invalid'' s1)
      | (Inr ev, s1) \<Rightarrow>
          (case call_service SERVICE_TIMEOUT (ep_read (\<lambda>s. Done 200 (list_inventory_by_event (tk_eventId k)
                  (seats (inventory s))))) s1 of (ir, s2) \<Rightarrow>
             (case find (\<lambda>r. inventoryId r = tk_inventoryId k) (case opt ir of None \<Rightarrow> [] | Some rs \<Rightarrow> rs) of
                None \<Rightarrow> (Fail 400 ''TICKET_NOT_FOUND'', write_log (ticketId k) (sf_userId stf) ''invalid'' s2)
              | Some seat \<Rightarrow>
                  if seat_status seat \<noteq> ''sold'' then
                    (Fail 400 ''TICKET_NOT_FOUND'', write_log (ticketId k) (sf_userId stf) ''invalid'' s2)
                  else if tk_status k \<noteq> ''active'' then
                    (Fail 400 ''QR_INVALID'', write_log (ticketId k) (sf_userId stf) ''invalid'' s2)
                  else
                    (case call_service SERVICE_TIMEOUT (ep_read (\<lambda>s. Done 200
                            (get_ticket_logs_by_ticket_id (ticketId k) (logs s)))) s2 of (lr, s3) \<Rightarrow>
                       if already_in (opt lr) then
                         (Fail 409 ''ALREADY_CHECKED_IN'', write_log (ticketId k) (sf_userId stf) ''duplicate'' s3)
                       else admit_checked stf selected_event k ev seat s3))))"

text \<open>The age of the QR code: too far in the future, too old, or fine; without a timestamp it is not checked.\<close>

definition check_qr_age :: "int \<Rightarrow> datetime option \<Rightarrow> (string \<times> string) option" where
  "check_qr_age now ts =
     (case ts of
        None \<Rightarrow> None
      | Some d \<Rightarrow>
          if now + secs CLOCK_SKEW_SECONDS < utc_instant d then Some (''QR_INVALID'', ''invalid'')
          else if secs QR_TTL_SECONDS < now - utc_instant d then Some (''QR_EXPIRED'', ''expired'')
          else None)"

text \<open>What happens under the lock.\<close>

definition scan_locked ::
  "staff \<Rightarrow> string option \<Rightarrow> 'n ticket \<Rightarrow> ('n, 'x) sys \<Rightarrow> 'n scan_answer reply \<times> ('n, 'x) sys" where
  "scan_locked stf selected_event k s =
     (case check_qr_age (time_now s) (qrTimestamp k) of
        Some (code, st) \<Rightarrow> (Fail 400 code, write_log (ticketId k) (sf_userId stf) st s)
      | None \<Rightarrow> admit stf selected_event k s)"

definition scan ::
  "staff \<Rightarrow> string option \<Rightarrow> string option \<Rightarrow> ('n, 'x) sys \<Rightarrow> 'n scan_answer reply \<times> ('n, 'x) sys" where
  "scan stf qr selected_event s =
     (if \<not> truthy qr then (Fail 400 ''VALIDATION_ERROR'', s)
      else
        (case call_service SERVICE_TIMEOUT (ep_read (\<lambda>s. get_ticket_by_qr_hash (the qr) (tickets s))) s of
           (Inl e, s1) \<Rightarrow> (Fail 404 ''TICKET_NOT_FOUND'', s1)
         | (Inr k, s1) \<Rightarrow>
             (case acquire_scan_lock (ticketId k) (world (inventory s1)) of
                (None, w) \<Rightarrow> (Fail 409 ''CONCURRENT_SCAN'', on_infra (\<lambda>_. w) s1)
              | (Some lock, w) \<Rightarrow>
                  (case scan_locked stf selected_event k (on_infra (\<lambda>_. w) s1) of
                     (r, s2) \<Rightarrow> (r, on_infra (release_scan_lock (ticketId k) lock) s2)))))"

definition manual_verify ::
  "staff \<Rightarrow> string option \<Rightarrow> string option \<Rightarrow> ('n, 'x) sys \<Rightarrow> 'n scan_answer reply \<times> ('n, 'x) sys" where
  "manual_verify stf tid selected_event s =
     (if \<not> truthy tid then (Fail 400 ''VALIDATION_ERROR'', s)
      else
        (case call_service SERVICE_TIMEOUT (ep_get_ticket (the tid)) s of
           (Inl e, s1) \<Rightarrow> (Fail 404 ''TICKET_NOT_FOUND'', s1)
         | (Inr k, s1) \<Rightarrow> admit stf selected_event k s1))"

subsection \<open>What the handlers leave behind\<close>

text \<open>Only the log, the network and the drawn ids have changed, and the log has only grown.\<close>

definition logged :: "('n, 'x) sys \<Rightarrow> ('n, 'x) sys \<Rightarrow> bool" where
  "logged s s' \<longleftrightarrow> (\<exists>n d more. s' = s\<lparr>net := n, drawn := d, logs := logs s @ more\<rparr>)"

lemma logged_refl [simp, intro]: "logged s s"
  unfolding logged_def by (intro exI [of _ "net s"] exI [of _ "drawn s"] exI [of _ "[]"]) simp

lemma logged_trans [trans]: "logged s t \<Longrightarrow> logged t u \<Longrightarrow> logged s u"
  unfolding logged_def by (elim exE) (simp, blast)

lemma logged_net [intro]: "logged s (s\<lparr>net := n\<rparr>)"
  unfolding logged_def by (intro exI [of _ n] exI [of _ "drawn s"] exI [of _ "[]"]) simp

lemma logged_keeps:
  assumes "logged s s'"
  shows "tickets s' = tickets s" "inventory s' = inventory s" "events s' = events s" "time_now s' = time_now s"
    "listings s' = listings s" "transfers s' = transfers s" "ledger s' = ledger s" "ext s' = ext s"
    and "\<exists>more. logs s' = logs s @ more"
  using assms by (auto simp: logged_def time_now_def)

lemma write_log_logged: "logged s (write_log tid who st s)"
proof -
  obtain r s1 where c: "call_service SERVICE_TIMEOUT (ep_create_log \<lparr>gb_ticketId = Some (Some tid),
      gb_staffId = Some (Some who), gb_status = Some (Some st)\<rparr>) s = (r, s1)" by fastforce
  from call_create_log [OF c] obtain g d where s1: "s1 = s\<lparr>net := tl (net s), drawn := d, logs := g\<rparr>"
    and g: "g = logs s \<or> (\<exists>rep. create_ticket_log \<lparr>gb_ticketId = Some (Some tid), gb_staffId = Some (Some who),
      gb_status = Some (Some st)\<rparr> (fresh s (drawn s)) (time_now s) (logs s) = (rep, g))" by blast
  have "\<exists>more. g = logs s @ more" using g create_ticket_log_effect by fastforce
  then show ?thesis using s1 c by (auto simp: logged_def write_log_def)
qed

lemma read_logged: "call_service tmo (ep_read f) s = (r, s') \<Longrightarrow> logged s s'"
  using call_read_net logged_net by blast

lemma read_snd_logged: "logged s (snd (call_service tmo (ep_read f) s))"
  by (rule read_logged [OF prod.collapse [symmetric]])

text \<open>The state with a ticket marked as used.\<close>

definition use_ticket :: "string \<Rightarrow> ('n, 'x) sys \<Rightarrow> ('n, 'x) sys" where
  "use_ticket tid s = s\<lparr>tickets := save_ticket tid [TkStatus (Some ''used'')] (tickets s)\<rparr>"

lemma logged_use:
  assumes "logged s t"
  shows "logged (use_ticket k s) (use_ticket k t)"
proof -
  from assms obtain n d more where "t = s\<lparr>net := n, drawn := d, logs := logs s @ more\<rparr>" by (auto simp: logged_def)
  then have "use_ticket k t = (use_ticket k s)\<lparr>net := n, drawn := d, logs := logs (use_ticket k s) @ more\<rparr>"
    by (cases s) (simp add: use_ticket_def)
  then show ?thesis unfolding logged_def by blast
qed

lemma use_patch: "snd (call_service tmo (ep_update_ticket tid [TkStatus (Some ''used'')]) s) \<in>
    {s\<lparr>net := tl (net s)\<rparr>, use_ticket tid (s\<lparr>net := tl (net s)\<rparr>)}"
  using status_patch [OF prod.collapse [symmetric], of tmo tid "''used''" s] by (auto simp: use_ticket_def)

lemma admit_checked_result:
  assumes "admit_checked stf sel k ev seat s = (rep, s')"
  shows "(\<exists>st c. rep = Fail st c) \<and> logged s s'
    \<or> (truthy (sf_venueId stf) \<longrightarrow> Some (tk_venueId k) = sf_venueId stf) \<and> (truthy sel \<longrightarrow> Some (tk_eventId k) = sel)
      \<and> (\<exists>a. rep = Done 200 a \<and> sa_ticketId a = ticketId k \<and> sa_owner a = tk_ownerId k)
      \<and> (logged s s' \<or> logged (use_ticket (ticketId k) s) s')"
proof -
  consider "truthy (sf_venueId stf) \<and> Some (tk_venueId k) \<noteq> sf_venueId stf"
    | "\<not> (truthy (sf_venueId stf) \<and> Some (tk_venueId k) \<noteq> sf_venueId stf)" "truthy sel \<and> Some (tk_eventId k) \<noteq> sel"
    | (fine) "\<not> (truthy (sf_venueId stf) \<and> Some (tk_venueId k) \<noteq> sf_venueId stf)" "\<not> (truthy sel \<and> Some (tk_eventId k) \<noteq> sel)"
    by blast
  then show ?thesis
  proof cases
    case fine
    define q where "q = snd (call_service SERVICE_TIMEOUT (ep_update_ticket (ticketId k) [TkStatus (Some ''used'')]) s)"
    have s': "s' = write_log (ticketId k) (sf_userId stf) ''checked_in'' q"
      and rep: "\<exists>a. rep = Done 200 a \<and> sa_ticketId a = ticketId k \<and> sa_owner a = tk_ownerId k"
      using assms fine by (auto simp: admit_checked_def Let_def q_def)
    have "q = s\<lparr>net := tl (net s)\<rparr> \<or> q = use_ticket (ticketId k) (s\<lparr>net := tl (net s)\<rparr>)"
      using use_patch unfolding q_def by blast
    moreover have "use_ticket (ticketId k) (s\<lparr>net := tl (net s)\<rparr>) = (use_ticket (ticketId k) s)\<lparr>net := tl (net s)\<rparr>"
      by (simp add: use_ticket_def)
    ultimately have "logged s q \<or> logged (use_ticket (ticketId k) s) q" by auto
    with s' rep fine write_log_logged [of q] show ?thesis by (blast intro: logged_trans)
  qed (use assms in \<open>auto simp: admit_checked_def Let_def intro: logged_trans [OF read_snd_logged] write_log_logged\<close>)
qed

text \<open>What a ticket that is admitted satisfies.\<close>

definition admissible :: "staff \<Rightarrow> string option \<Rightarrow> 'n ticket \<Rightarrow> ('n, 'x) sys \<Rightarrow> bool" where
  "admissible stf sel k s \<longleftrightarrow> tk_status k = ''active''
     \<and> (\<exists>seat \<in> set (seats (inventory s)). inventoryId seat = tk_inventoryId k \<and> seat_eventId seat = tk_eventId k
          \<and> seat_status seat = ''sold'')
     \<and> (\<exists>ev. row_get ev_eventId (tk_eventId k) (events s) = Some ev)
     \<and> (truthy (sf_venueId stf) \<longrightarrow> Some (tk_venueId k) = sf_venueId stf)
     \<and> (truthy sel \<longrightarrow> Some (tk_eventId k) = sel)"

lemma seat_read:
  assumes "call_service tmo (ep_read (\<lambda>s. Done 200 (list_inventory_by_event e (seats (inventory s))))) s = (ir, s')"
    and "find (\<lambda>r. inventoryId r = i) (case opt ir of None \<Rightarrow> [] | Some rs \<Rightarrow> rs) = Some r"
  shows "r \<in> set (seats (inventory s)) \<and> inventoryId r = i \<and> seat_eventId r = e"
proof (cases ir)
  case (Inr rs)
  with call_read [OF assms(1)] have "rs = list_inventory_by_event e (seats (inventory s))" by simp
  with find_found [OF assms(2)] Inr show ?thesis by (simp add: opt_def list_inventory_by_event_def)
qed (use assms(2) in \<open>simp add: opt_def\<close>)

text \<open>The two ways a visit to the door ends.\<close>

definition turned_away :: "('n, 'x) sys \<Rightarrow> 'n scan_answer reply \<Rightarrow> ('n, 'x) sys \<Rightarrow> bool" where
  "turned_away s rep s' \<longleftrightarrow> (\<exists>st c. rep = Fail st c) \<and> tickets s' = tickets s \<and> (\<exists>more. logs s' = logs s @ more)"

definition checked_in :: "string \<Rightarrow> ('n, 'x) sys \<Rightarrow> bool" where
  "checked_in tid s \<longleftrightarrow> (\<exists>x \<in> set (logs s). tl_ticketId x = tid \<and> tl_status x = ''checked_in'')"

definition let_in ::
  "staff \<Rightarrow> string option \<Rightarrow> 'n ticket \<Rightarrow> ('n, 'x) sys \<Rightarrow> 'n scan_answer reply \<Rightarrow> ('n, 'x) sys \<Rightarrow> bool" where
  "let_in stf sel k s rep s' \<longleftrightarrow> admissible stf sel k s
     \<and> (\<exists>a. rep = Done 200 a \<and> sa_ticketId a = ticketId k \<and> sa_owner a = tk_ownerId k)
     \<and> (tickets s' = tickets s \<or> tickets s' = save_ticket (ticketId k) [TkStatus (Some ''used'')] (tickets s))
     \<and> (\<exists>more. logs s' = logs s @ more) \<and> (net s = [] \<longrightarrow> \<not> checked_in (ticketId k) s)"

lemma logged_turned_away: "logged s s' \<Longrightarrow> turned_away s (Fail st c) s'"
  by (simp add: turned_away_def logged_keeps)

lemma admit_result:
  assumes "admit stf sel k s = (rep, s')"
  shows "turned_away s rep s' \<or> let_in stf sel k s rep s'"
proof -
  obtain er s1 where e: "call_service SERVICE_TIMEOUT (ep_read (\<lambda>s. get_event (tk_eventId k) (events s))) s = (er, s1)" by fastforce
  obtain ir s2 where i: "call_service SERVICE_TIMEOUT (ep_read (\<lambda>s. Done 200 (list_inventory_by_event (tk_eventId k)
      (seats (inventory s))))) s1 = (ir, s2)" by fastforce
  obtain lr s3 where l: "call_service SERVICE_TIMEOUT (ep_read (\<lambda>s. Done 200 (get_ticket_logs_by_ticket_id (ticketId k) (logs s)))) s2
      = (lr, s3)" by fastforce
  define seat where "seat = find (\<lambda>r. inventoryId r = tk_inventoryId k) (case opt ir of None \<Rightarrow> [] | Some rs \<Rightarrow> rs)"
  note lg = read_logged [OF e] read_logged [OF i] read_logged [OF l]
  show ?thesis
  proof (cases "\<exists>ev r. er = Inr ev \<and> seat = Some r \<and> seat_status r = ''sold'' \<and> tk_status k = ''active'' \<and> \<not> already_in (opt lr)")
    case False
    with assms e i l obtain st c q lst where "rep = Fail st c" "q \<in> {s1, s2, s3}"
      "s' = write_log (ticketId k) (sf_userId stf) lst q"
      by (auto simp: admit_def seat_def [symmetric] split: sum.splits option.splits if_splits)
    moreover from this lg write_log_logged have "logged s s'" by (blast intro: logged_trans)
    ultimately show ?thesis using logged_turned_away by blast
  next
    case True
    then obtain ev r where ev: "er = Inr ev" and r: "seat = Some r" "seat_status r = ''sold''" and act: "tk_status k = ''active''"
      and ni: "\<not> already_in (opt lr)" by blast
    have run: "admit_checked stf sel k ev r s3 = (rep, s')"
      using assms e i l ev r act ni by (simp add: admit_def seat_def [symmetric])
    have s3: "logged s s3" using lg by (blast intro: logged_trans)
    have row: "row_get ev_eventId (tk_eventId k) (events s) = Some ev"
      using call_read [OF e] ev by (auto simp: get_event_def split: option.splits)
    have seat_in: "r \<in> set (seats (inventory s))" "inventoryId r = tk_inventoryId k" "seat_eventId r = tk_eventId k"
      using seat_read [OF i r(1) [unfolded seat_def]] call_read_net [OF e] by simp_all
    have "\<not> checked_in (ticketId k) s" if n: "net s = []"
    proof -
      have "s1 = s" "s2 = s" using call_read_net [OF e] call_read_net [OF i] n by simp_all
      then have "lr = Inr (get_ticket_logs_by_ticket_id (ticketId k) (logs s))"
        using l n by (auto simp: call_answered ep_read_def)
      with ni show ?thesis by (auto simp: already_in_def opt_def list_ex_iff set_ticket_logs checked_in_def)
    qed
    moreover have "tickets s' = tickets s \<or> tickets s' = save_ticket (ticketId k) [TkStatus (Some ''used'')] (tickets s)"
      "\<exists>more. logs s' = logs s @ more" if "logged s3 s' \<or> logged (use_ticket (ticketId k) s3) s'"
      using that logged_keeps [OF logged_trans [OF s3, of s']] logged_keeps [OF logged_trans [OF logged_use [OF s3], of _ s']]
      by (auto simp: use_ticket_def)
    ultimately show ?thesis
      using admit_checked_result [OF run] act seat_in r row logged_turned_away [OF logged_trans [OF s3, of s']]
      unfolding let_in_def admissible_def by blast
  qed
qed

lemma on_infra_tables [simp]:
  "events (on_infra f s) = events s" "net (on_infra f s) = net s" "world (inventory (on_infra f s)) = f (world (inventory s))"
  by (simp_all add: on_infra_def)

lemma turned_away_infra: "turned_away s rep s' \<Longrightarrow> turned_away s rep (on_infra f s')"
  by (simp add: turned_away_def)

lemma let_in_infra: "let_in stf sel k s rep s' \<Longrightarrow> let_in stf sel k s rep (on_infra f s')"
  by (simp add: let_in_def)

text \<open>The starting point may differ in the network and the shared stores.\<close>

lemma ended_frame:
  assumes "tickets q = tickets s" and "logs q = logs s" and "events q = events s"
    and "seats (inventory q) = seats (inventory s)" and "net s = [] \<longrightarrow> net q = []"
  shows "turned_away q rep s' \<Longrightarrow> turned_away s rep s'"
    and "let_in stf sel k q rep s' \<Longrightarrow> let_in stf sel k s rep s'"
  using assms by (auto simp: turned_away_def let_in_def admissible_def checked_in_def)

definition qr_fresh :: "int \<Rightarrow> 'n ticket \<Rightarrow> bool" where
  "qr_fresh now k \<longleftrightarrow> (\<forall>d. qrTimestamp k = Some d \<longrightarrow>
     now - utc_instant d \<le> secs QR_TTL_SECONDS \<and> utc_instant d \<le> now + secs CLOCK_SKEW_SECONDS)"

lemma check_qr_age_None: "check_qr_age now (qrTimestamp k) = None \<longleftrightarrow> qr_fresh now k"
  by (auto simp: check_qr_age_def qr_fresh_def split: option.splits)

lemma scan_locked_result:
  assumes "scan_locked stf sel k s = (rep, s')"
  shows "turned_away s rep s' \<or> qr_fresh (time_now s) k \<and> let_in stf sel k s rep s'"
proof (cases "check_qr_age (time_now s) (qrTimestamp k)")
  case (Some cs)
  with assms show ?thesis
    by (cases cs) (auto simp: scan_locked_def intro: logged_turned_away write_log_logged)
next
  case None
  with assms admit_result [of stf sel k s rep s'] show ?thesis by (auto simp: scan_locked_def check_qr_age_None)
qed

text \<open>A scan: what it answered and what happened to the tickets and the log.\<close>

lemma scan_result:
  assumes "scan stf qr sel s = (rep, s')"
  shows "turned_away s rep s'
    \<or> (\<exists>k. truthy qr \<and> get_ticket_by_qr_hash (the qr) (tickets s) = Done 200 k
        \<and> qr_fresh (time_now s) k \<and> let_in stf sel k s rep s')"
proof -
  obtain kr s1 where g: "call_service SERVICE_TIMEOUT (ep_read (\<lambda>s. get_ticket_by_qr_hash (the qr) (tickets s))) s = (kr, s1)" by fastforce
  have s1: "s1 = s\<lparr>net := tl (net s)\<rparr>" using call_read_net [OF g] .
  show ?thesis
  proof (cases "truthy qr \<and> (\<exists>k lk w. kr = Inr k \<and> acquire_scan_lock (ticketId k) (world (inventory s1)) = (Some lk, w))")
    case False
    with assms g s1 show ?thesis
      by (auto simp: scan_def turned_away_def split: sum.splits prod.splits option.splits if_splits)
  next
    case True
    then obtain k lk w where qr: "truthy qr" and k: "kr = Inr k" and
      lk: "acquire_scan_lock (ticketId k) (world (inventory s1)) = (Some lk, w)" by blast
    have found: "get_ticket_by_qr_hash (the qr) (tickets s) = Done 200 k"
      using call_read [OF g] k by (auto simp: get_ticket_by_qr_hash_def split: option.splits)
    define s2 where "s2 = on_infra (\<lambda>_. w) s1"
    obtain s3 where run: "scan_locked stf sel k s2 = (rep, s3)" and s': "s' = on_infra (release_scan_lock (ticketId k) lk) s3"
      using assms qr g k lk by (auto simp: scan_def s2_def split: prod.splits)
    have clock: "time_now s2 = time_now s"
      using acquire_scan_lock_frame [OF lk] by (simp add: s2_def on_infra_def time_now_def s1)
    have s2: "tickets s2 = tickets s" "logs s2 = logs s" "events s2 = events s" "seats (inventory s2) = seats (inventory s)"
      "net s = [] \<longrightarrow> net s2 = []" by (simp_all add: s2_def s1)
    from scan_locked_result [OF run] ended_frame [OF s2] clock qr found s' show ?thesis
      by (metis turned_away_infra let_in_infra)
  qed
qed

lemma manual_result:
  assumes "manual_verify stf tid sel s = (rep, s')"
  shows "turned_away s rep s'
    \<or> (\<exists>k. truthy tid \<and> row_get ticketId (the tid) (tickets s) = Some k \<and> let_in stf sel k s rep s')"
proof -
  obtain kr s1 where g: "call_service SERVICE_TIMEOUT (ep_get_ticket (the tid)) s = (kr, s1)" by fastforce
  have s1: "s1 = s\<lparr>net := tl (net s)\<rparr>" and k: "\<And>k. kr = Inr k \<Longrightarrow> row_get ticketId (the tid) (tickets s) = Some k"
    using call_get_ticket [OF g] by auto
  show ?thesis
  proof (cases "\<exists>k. truthy tid \<and> kr = Inr k")
    case False
    with assms g s1 show ?thesis by (auto simp: manual_verify_def turned_away_def split: sum.splits if_splits)
  next
    case True
    then obtain k where "truthy tid" "kr = Inr k" by blast
    moreover from this assms g have "admit stf sel k s1 = (rep, s')" by (simp add: manual_verify_def)
    ultimately show ?thesis using admit_result [of stf sel k s1 rep s'] k ended_frame [of s1 s] s1 by auto
  qed
qed

subsection \<open>Without faults\<close>

lemma write_log_ok:
  assumes "net s = []" and "fresh s (drawn s) \<notin> logId ` set (logs s)" and "distinct (map logId (logs s))"
  shows "write_log tid who st s = s\<lparr>drawn := Suc (drawn s),
    logs := logs s @ [\<lparr>logId = fresh s (drawn s), tl_ticketId = tid, tl_staffId = who, tl_status = st, tl_timestamp = time_now s\<rparr>]\<rparr>"
  using assms
  by (auto simp: write_log_def call_answered ep_create_log_def draw_def create_ticket_log_def time_now_def Let_def)

lemma admit_effect_ok:
  assumes "net s = []" and "unique_tickets (tickets s)" and "row_get ticketId (ticketId k) (tickets s) = Some k"
    and "fresh s (drawn s) \<notin> logId ` set (logs s)" and "distinct (map logId (logs s))"
    and run: "admit stf sel k s = (Done st a, s')"
  shows "tickets s' = save_ticket (ticketId k) [TkStatus (Some ''used'')] (tickets s) \<and> checked_in (ticketId k) s'"
proof -
  obtain ev seat where "admit_checked stf sel k ev seat s = (Done st a, s')"
    using run assms(1)
    by (auto simp: admit_def call_answered ep_read_def opt_def split: reply.splits option.splits if_splits)
  moreover have "snd (call_service SERVICE_TIMEOUT (ep_update_ticket (ticketId k) [TkStatus (Some ''used'')]) s) = use_ticket (ticketId k) s"
    using update_ticket_plain [OF assms(2) _ _ assms(3), of "[TkStatus (Some ''used'')]"] assms(1)
    by (simp add: call_answered ep_update_ticket_def ticket_ALLOWED_STATUS_VALUES_def use_ticket_def)
  ultimately have "s' = write_log (ticketId k) (sf_userId stf) ''checked_in'' (use_ticket (ticketId k) s)"
    by (auto simp: admit_checked_def Let_def split: if_splits)
  with write_log_ok [of "use_ticket (ticketId k) s"] assms show ?thesis
    by (simp add: use_ticket_def checked_in_def)
qed

lemma scan_effect_ok:
  assumes net: "net s = []" and uniq: "unique_tickets (tickets s)"
    and ids: "fresh s (drawn s) \<notin> logId ` set (logs s)" "distinct (map logId (logs s))"
    and run: "scan stf qr sel s = (Done st a, s')"
  shows "(\<exists>k. row_get ticketId (sa_ticketId a) (tickets s') = Some k \<and> tk_status k = ''used'') \<and> checked_in (sa_ticketId a) s'"
proof -
  obtain kr s1 where g: "call_service SERVICE_TIMEOUT (ep_read (\<lambda>s. get_ticket_by_qr_hash (the qr) (tickets s))) s = (kr, s1)" by fastforce
  have s1: "s1 = s" using call_read_net [OF g] net by simp
  obtain k lk w where qr: "truthy qr" and k: "kr = Inr k" and
    lk: "acquire_scan_lock (ticketId k) (world (inventory s1)) = (Some lk, w)"
    using run g by (auto simp: scan_def split: if_splits sum.splits prod.splits option.splits)
  define s2 where "s2 = on_infra (\<lambda>_. w) s"
  obtain s3 where locked: "scan_locked stf sel k s2 = (Done st a, s3)" and s': "s' = on_infra (release_scan_lock (ticketId k) lk) s3"
    using run qr g k lk by (auto simp: scan_def s2_def s1 split: prod.splits)
  then have adm: "admit stf sel k s2 = (Done st a, s3)" by (auto simp: scan_locked_def split: option.splits)
  have "k \<in> set (tickets s)"
    using call_read [OF g] k by (auto simp: get_ticket_by_qr_hash_def split: option.splits dest: find_found)
  then have row: "row_get ticketId (ticketId k) (tickets s) = Some k"
    using uniq by (auto simp: unique_tickets_def row_get_unique)
  have s2: "tickets s2 = tickets s" "logs s2 = logs s" "net s2 = []" "fresh s2 = fresh s" "drawn s2 = drawn s"
    by (simp_all add: s2_def on_infra_def net)
  have "tickets s3 = save_ticket (ticketId k) [TkStatus (Some ''used'')] (tickets s2)" "checked_in (ticketId k) s3"
    using admit_effect_ok [OF _ _ _ _ _ adm] s2 uniq row ids by simp_all
  moreover have "sa_ticketId a = ticketId k" using admit_result [OF adm] by (auto simp: turned_away_def let_in_def)
  ultimately show ?thesis
    using s' s2 row by (simp add: ticket_table.get_upd checked_in_def set_ticket_fields_def)
qed

text \<open>A ticket that is used, or whose admission is in a readable log, is not admitted.\<close>

lemma no_entry:
  assumes "unique_tickets (tickets q)"
    and "(\<exists>k. row_get ticketId tid (tickets q) = Some k \<and> tk_status k = ''used'') \<or> net q = [] \<and> checked_in tid q"
  shows "manual_verify stf (Some tid) sel q \<noteq> (Done st b, q')" and "scan stf qr sel q = (Done st b, q') \<Longrightarrow> sa_ticketId b \<noteq> tid"
proof -
  have no: False if "row_get ticketId tid (tickets q) = Some k" and "let_in stf sel k q rep q'" for k rep
  proof -
    have "tk_status k = ''active''" "net q = [] \<longrightarrow> \<not> checked_in (ticketId k) q"
      using that(2) by (simp_all add: let_in_def admissible_def)
    with assms(2) that(1) row_get_key [OF that(1)] show False by auto
  qed
  show "manual_verify stf (Some tid) sel q \<noteq> (Done st b, q')"
  proof
    assume run: "manual_verify stf (Some tid) sel q = (Done st b, q')"
    have "\<not> turned_away q (Done st b) q'" by (simp add: turned_away_def)
    with manual_result [OF run] obtain k where "row_get ticketId tid (tickets q) = Some k" "let_in stf sel k q (Done st b) q'"
      by auto
    with no show False by blast
  qed
  show "sa_ticketId b \<noteq> tid" if run: "scan stf qr sel q = (Done st b, q')"
  proof
    assume b: "sa_ticketId b = tid"
    have "\<not> turned_away q (Done st b) q'" by (simp add: turned_away_def)
    with scan_result [OF run] obtain k where k: "get_ticket_by_qr_hash (the qr) (tickets q) = Done 200 k"
      and l: "let_in stf sel k q (Done st b) q'" by blast
    from l b have tid: "ticketId k = tid" by (simp add: let_in_def)
    have "k \<in> set (tickets q)" by (rule by_qr_found [OF k])
    with assms(1) row_get_unique [of ticketId "tickets q" k] tid have "row_get ticketId tid (tickets q) = Some k"
      by (simp add: unique_tickets_def)
    with no l show False by blast
  qed
qed

lemma admit_ok:
  assumes net: "net s = []" and ev: "row_get ev_eventId (tk_eventId k) (events s) = Some ev"
    and ids: "distinct (map inventoryId (seats (inventory s)))"
    and r: "row_get inventoryId (tk_inventoryId k) (seats (inventory s)) = Some r" "seat_eventId r = tk_eventId k" "seat_status r = ''sold''"
    and k: "tk_status k = ''active''" and new: "\<not> checked_in (ticketId k) s"
    and venue: "truthy (sf_venueId stf) \<longrightarrow> Some (tk_venueId k) = sf_venueId stf" and sel: "truthy sel \<longrightarrow> Some (tk_eventId k) = sel"
  shows "\<exists>b s'. admit stf sel k s = (Done 200 b, s') \<and> sa_ticketId b = ticketId k"
proof -
  have "find (\<lambda>r. inventoryId r = tk_inventoryId k) (list_inventory_by_event (tk_eventId k) (seats (inventory s))) = Some r"
  proof (rule find_unique)
    show "r \<in> set (list_inventory_by_event (tk_eventId k) (seats (inventory s)))"
      using row_get_Some [OF r(1)] r(2) by (simp add: list_inventory_by_event_def)
    show "inventoryId r = tk_inventoryId k" using row_get_key [OF r(1)] .
    show "y = r" if "y \<in> set (list_inventory_by_event (tk_eventId k) (seats (inventory s)))" "inventoryId y = tk_inventoryId k" for y
      using row_get_unique [OF ids, of y] that r(1) by (simp add: list_inventory_by_event_def)
  qed
  moreover have "\<not> already_in (Some (get_ticket_logs_by_ticket_id (ticketId k) (logs s)))"
    using new by (auto simp: already_in_def checked_in_def list_ex_iff set_ticket_logs)
  ultimately have "admit stf sel k s = admit_checked stf sel k ev r s"
    using ev r(3) k by (simp add: admit_def call_answered [OF net] ep_read_def get_event_def opt_def)
  moreover have "\<not> (truthy (sf_venueId stf) \<and> Some (tk_venueId k) \<noteq> sf_venueId stf)"
    "\<not> (truthy sel \<and> Some (tk_eventId k) \<noteq> sel)" using venue sel by blast+
  ultimately show ?thesis unfolding admit_checked_def Let_def by (simp only: if_False) simp
qed

lemma get_qr_result:
  assumes "get_qr env user tid s = (Done st a, s')"
  shows "\<exists>k. row_get ticketId tid (tickets s) = Some k \<and> tk_ownerId k = user \<and> tk_status k = ''active''
    \<and> qa_qrHash a = generate_qr env tid user (tk_eventId k) (tk_venueId k) (time_now s)
    \<and> qa_generatedAt a = time_now s \<and> qa_expiresAt a = time_now s + secs QR_TTL_SECONDS
    \<and> tickets s' = save_ticket tid [TkQrHash (Some (qa_qrHash a)), TkQrTimestamp (Some (TIso (Aware (time_now s))))] (tickets s)
    \<and> unique_tickets (tickets s')"
proof -
  obtain kr s1 where g: "call_service SERVICE_TIMEOUT (ep_get_ticket tid) s = (kr, s1)" by fastforce
  then obtain k where k: "kr = Inr k" "tk_ownerId k = user" "tk_status k = ''active''"
    using assms by (auto simp: get_qr_def split: sum.splits if_splits)
  have s1: "s1 = s\<lparr>net := tl (net s)\<rparr>" "row_get ticketId tid (tickets s) = Some k" using call_get_ticket [OF g] k by auto
  have now: "time_now s1 = time_now s" by (simp add: s1 time_now_def)
  define h where "h = generate_qr env tid user (tk_eventId k) (tk_venueId k) (time_now s)"
  obtain pr s2 where p: "call_service SERVICE_TIMEOUT (ep_update_ticket tid [TkQrHash (Some h),
      TkQrTimestamp (Some (TIso (Aware (time_now s))))]) s1 = (pr, s2)" by fastforce
  then obtain k2 where pr: "pr = Inr k2" using assms g k now by (auto simp: get_qr_def Let_def h_def split: sum.splits)
  obtain c s3 where cx: "ticket_context k s2 = (c, s3)" by fastforce
  have a: "qa_qrHash a = h" "qa_generatedAt a = time_now s" "qa_expiresAt a = time_now s + secs QR_TTL_SECONDS" "s' = s3"
    using assms g k now p pr cx by (auto simp: get_qr_def Let_def h_def split: prod.splits)
  have "tickets s2 = save_ticket tid [TkQrHash (Some h), TkQrTimestamp (Some (TIso (Aware (time_now s))))] (tickets s)"
    "unique_tickets (tickets s2)"
    using call_update_ticket [OF p] pr s1 by (auto dest!: update_ticket_effect dest: outcome_done)
  moreover have "tickets s' = tickets s2" using ticket_context_frame [OF cx] a by auto
  ultimately show ?thesis using a s1 k h_def by auto
qed

subsection \<open>Properties\<close>

text \<open>
  Property C22: every scan and every manual check ends in one of two ways. Either it is refused, and no
  ticket changed and the log only grew; or it answers 200 for a ticket that was active, belongs to
  an existing event, to a seat of it marked as sold, to the staff's venue and to the selected
  event, and, for a scan, carries the scanned code with an age of at most 60 seconds; then at
  most that ticket was marked as used.
\<close>

theorem door_outcomes:
  "(scan stf qr sel s = (rep, s') \<longrightarrow> turned_away s rep s'
      \<or> (\<exists>k. truthy qr \<and> get_ticket_by_qr_hash (the qr) (tickets s) = Done 200 k
            \<and> qr_fresh (time_now s) k \<and> let_in stf sel k s rep s'))
    \<and> (manual_verify stf tid sel s = (rep, s') \<longrightarrow> turned_away s rep s'
      \<or> (\<exists>k. truthy tid \<and> row_get ticketId (the tid) (tickets s) = Some k \<and> let_in stf sel k s rep s'))"
  using scan_result [of stf qr sel s rep s'] manual_result [of stf tid sel s rep s'] by blast

text \<open>A sold seat with an active ticket, at the door.\<close>

definition ex_door :: "(int, (string \<Rightarrow> int) \<times> bool) sys" where
  "ex_door = ex_sys\<lparr>inventory := snd (SellSeat ex_request ex_held)\<rparr>"

definition ex_staff :: staff where
  "ex_staff = \<lparr>sf_userId = ''s1'', sf_venueId = Some ''v1''\<rparr>"

lemma ex_scan: "is_done (fst (scan ex_staff (Some ''q1'') None ex_door))"
  by code_simp

theorem door_outcomes_witness:
  "\<exists>k. get_ticket_by_qr_hash ''q1'' (tickets ex_door) = Done 200 k
    \<and> admissible ex_staff None k ex_door"
proof -
  obtain rep s' where run: "scan ex_staff (Some ''q1'') None ex_door = (rep, s')" by fastforce
  with ex_scan have "\<not> turned_away ex_door rep s'" by (auto simp: turned_away_def)
  with door_outcomes [of ex_staff "Some ''q1''" None ex_door rep s' None] run show ?thesis by (auto simp: let_in_def)
qed



text \<open>
  Property C23: while Redis answers, the scan lock of a ticket is exclusive. Once a scan has it, no other
  scan of that ticket gets it as long as the key is there, whatever else happened to the store; the
  owner's release lets the next one in.
\<close>

theorem scan_lock_excludes:
  assumes "redis_io w = []" and "acquire_scan_lock tid w = (Some l, w1)"
  shows "(redis_io w2 = [] \<longrightarrow> scan_holder tid w2 = scan_holder tid w1 \<longrightarrow> fst (acquire_scan_lock tid w2) = None)
    \<and> (\<exists>m w3. acquire_scan_lock tid (release_scan_lock tid l w1) = (Some m, w3))"
  using scan_mutex.exclusion [OF assms] scan_mutex.reacquire [OF assms] by blast

theorem scan_lock_excludes_witness:
  "fst (acquire_scan_lock ''k1'' (snd (acquire_scan_lock ''k1'' (world ex_held)))) = None"
proof -
  have "redis_io (world ex_held) = []" by code_simp
  moreover obtain l w1 where run: "acquire_scan_lock ''k1'' (world ex_held) = (Some l, w1)"
  proof -
    have "fst (acquire_scan_lock ''k1'' (world ex_held)) \<noteq> None" by code_simp
    then show thesis using that by (metis option.exhaust prod.collapse)
  qed
  moreover have "redis_io (snd (acquire_scan_lock ''k1'' (world ex_held))) = []" by code_simp
  ultimately show ?thesis using scan_lock_excludes [of "world ex_held" "''k1''" l w1 w1] by simp
qed

text \<open>
  A QR code that the owner has just fetched lets the ticket in. For 60 seconds, with no lost
  call and a free scan lock, a scan of the new code answers 200 for that ticket, provided its seat
  is sold, its event exists, it has not been checked in and the staff is of its venue.
\<close>

theorem fresh_qr_admits:
  assumes qr: "get_qr env user tid s = (Done st a, s1)" and "qa_qrHash a \<noteq> []"
    and q: "tickets q = tickets s1" "net q = []" "redis_io (world (inventory q)) = []"
      "scan_holder tid (world (inventory q)) = None"
    and time: "qa_generatedAt a \<le> time_now q" "time_now q \<le> qa_expiresAt a"
    and k: "row_get ticketId tid (tickets s) = Some k" and ev: "row_get ev_eventId (tk_eventId k) (events q) = Some ev"
    and ids: "distinct (map inventoryId (seats (inventory q)))"
    and r: "row_get inventoryId (tk_inventoryId k) (seats (inventory q)) = Some r" "seat_eventId r = tk_eventId k" "seat_status r = ''sold''"
    and new: "\<not> checked_in tid q" and venue: "truthy (sf_venueId stf) \<longrightarrow> Some (tk_venueId k) = sf_venueId stf"
  shows "\<exists>b. fst (scan stf (Some (qa_qrHash a)) None q) = Done 200 b \<and> sa_ticketId b = tid"
proof -
  let ?body = "[TkQrHash (Some (qa_qrHash a)), TkQrTimestamp (Some (TIso (Aware (time_now s))))]"
  from get_qr_result [OF qr] k have act: "tk_status k = ''active''" and gen: "qa_generatedAt a = time_now s"
    "qa_expiresAt a = time_now s + secs QR_TTL_SECONDS"
    and tk: "tickets q = save_ticket tid ?body (tickets s)" and uniq: "unique_tickets (tickets q)" using q(1) by auto
  define k' where "k' = set_ticket_fields ?body k"
  have k': "ticketId k' = tid" "tk_status k' = ''active''" "qrHash k' = Some (qa_qrHash a)"
    "qrTimestamp k' = Some (stored (Aware (time_now s)))" "tk_eventId k' = tk_eventId k" "tk_inventoryId k' = tk_inventoryId k"
    "tk_venueId k' = tk_venueId k"
    using row_get_key [OF k] act by (simp_all add: k'_def set_ticket_fields_def)
  have row: "row_get ticketId tid (tickets q) = Some k'" using k by (simp add: tk ticket_table.get_upd k'_def)
  have "find (\<lambda>t. qrHash t = Some (qa_qrHash a)) (tickets q) = Some k'"
    by (rule find_by_qr [OF _ row_get_Some [OF row, THEN conjunct2] k'(3)]) (use uniq in \<open>simp add: unique_tickets_def\<close>)
  then have found: "call_service SERVICE_TIMEOUT (ep_read (\<lambda>s. get_ticket_by_qr_hash (qa_qrHash a) (tickets s))) q = (Inr k', q)"
    using q(2) by (simp add: call_answered ep_read_def get_ticket_by_qr_hash_def)
  obtain l w where lk: "acquire_scan_lock tid (world (inventory q)) = (Some l, w)"
    using scan_mutex.acquire_free [OF q(3,4)] by blast
  define q2 where "q2 = on_infra (\<lambda>_. w) q"
  have q2: "net q2 = []" "events q2 = events q" "seats (inventory q2) = seats (inventory q)" "logs q2 = logs q"
    by (simp_all add: q2_def q(2))
  have now: "time_now q2 = time_now q"
    using acquire_scan_lock_frame [OF lk] by (simp add: q2_def time_now_def on_infra_def)
  have "check_qr_age (time_now q2) (qrTimestamp k') = None"
    using time gen by (simp add: check_qr_age_def k'(4) now stored_def secs_def CLOCK_SKEW_SECONDS_def)
  then have "scan_locked stf None k' q2 = admit stf None k' q2" by (simp add: scan_locked_def)
  moreover obtain b q3 where "admit stf None k' q2 = (Done 200 b, q3)" "sa_ticketId b = tid"
    using admit_ok [of q2 k' ev r stf None] q2 ev ids r k' new venue by (auto simp: checked_in_def)
  ultimately have "fst (scan stf (Some (qa_qrHash a)) None q) = Done 200 b"
    using assms(2) found lk k'(1) by (simp add: scan_def q2_def)
  with \<open>sa_ticketId b = tid\<close> show ?thesis by blast
qed

definition ex_qr_env :: qr_env where
  "ex_qr_env = \<lparr>sha256_hex = (\<lambda>x. ''h'' @ x), isoformat = (\<lambda>n. ''t''), QR_SECRET = ''s''\<rparr>"

theorem fresh_qr_admits_witness:
  "\<exists>a b. fst (get_qr ex_qr_env ''u1'' ''k1'' ex_door) = Done 200 a
    \<and> fst (scan ex_staff (Some (qa_qrHash a)) None (snd (get_qr ex_qr_env ''u1'' ''k1'' ex_door))) = Done 200 b
    \<and> sa_ticketId b = ''k1''"
proof -
  let ?q = "snd (get_qr ex_qr_env ''u1'' ''k1'' ex_door)"
  have "(case fst (get_qr ex_qr_env ''u1'' ''k1'' ex_door) of Fail st c \<Rightarrow> False
      | Done st a \<Rightarrow> st = 200 \<and> qa_qrHash a \<noteq> [] \<and> qa_generatedAt a \<le> time_now ?q \<and> time_now ?q \<le> qa_expiresAt a)" by code_simp
  then obtain a where run: "get_qr ex_qr_env ''u1'' ''k1'' ex_door = (Done 200 a, ?q)"
    and a: "qa_qrHash a \<noteq> []" "qa_generatedAt a \<le> time_now ?q" "time_now ?q \<le> qa_expiresAt a"
    by (cases "get_qr ex_qr_env ''u1'' ''k1'' ex_door") (auto split: reply.splits)
  have q: "net ?q = []" "redis_io (world (inventory ?q)) = []" "scan_holder ''k1'' (world (inventory ?q)) = None"
    "row_get ev_eventId (tk_eventId ex_ticket) (events ?q) = Some ex_event" "distinct (map inventoryId (seats (inventory ?q)))"
    "\<not> checked_in ''k1'' ?q" by code_simp+
  have k: "row_get ticketId ''k1'' (tickets ex_door) = Some ex_ticket" by code_simp
  have "(case row_get inventoryId (tk_inventoryId ex_ticket) (seats (inventory ?q)) of None \<Rightarrow> False
      | Some r \<Rightarrow> seat_eventId r = tk_eventId ex_ticket \<and> seat_status r = ''sold'')" by code_simp
  then obtain r where r: "row_get inventoryId (tk_inventoryId ex_ticket) (seats (inventory ?q)) = Some r"
    "seat_eventId r = tk_eventId ex_ticket" "seat_status r = ''sold''" by (auto split: option.splits)
  have "truthy (sf_venueId ex_staff) \<longrightarrow> Some (tk_venueId ex_ticket) = sf_venueId ex_staff"
    by (simp add: ex_staff_def ex_ticket_def)
  from fresh_qr_admits [OF run a(1) refl q(1,2,3) a(2,3) k q(4,5) r q(6) this] run show ?thesis by (metis fst_conv)
qed

end
