(* ===== verification/StripeWrapper.thy ===== *)
theory StripeWrapper
  imports Prelude Complex_Main
begin

text \<open>
  The Stripe wrapper (\<^verbatim>\<open>services/stripe-wrapper/routes.py\<close>): the checks in front of the external
  payment service and what it passes on of its answers. Stripe is not part of the repository: its
  three operations are parameters, and an answer of None is an exception of its library.
\<close>

text \<open>
  What a JSON body can hold where a number is expected: nothing, a truth value, an integer, a
  finite float (by its exact value), a float that is not finite, or something else.
\<close>

datatype json_value = JNull | JBool bool | JInt int | JFloat rat | JNaN | JPosInf | JNegInf | JOther

text \<open>A metadata text, by what \<^verbatim>\<open>int\<close> makes of it: a number, or a ValueError.\<close>

datatype int_text = IntText int | NoIntText

record intent =
  in_id :: "string option"
  in_status :: "string option"
  in_userId :: "string option"
  in_credits :: "int_text option"

record stripe_event =
  se_type :: "string option"
  se_object :: intent

record 'x stripe_api =
  pi_create :: "int \<Rightarrow> string \<Rightarrow> int \<Rightarrow> 'x \<Rightarrow> (string \<times> string) option \<times> 'x"
  pi_retrieve :: "string \<Rightarrow> 'x \<Rightarrow> intent option \<times> 'x"
  construct_event :: "string \<Rightarrow> string \<Rightarrow> stripe_event option"

text \<open>The amount is charged in cents; the metadata carries the user and the credits as texts.\<close>

definition create_payment_intent ::
  "'x stripe_api \<Rightarrow> string option \<Rightarrow> json_value \<Rightarrow> 'x \<Rightarrow> (string \<times> string \<times> int) reply \<times> 'x" where
  "create_payment_intent api user amount x =
     (if amount = JNull \<or> user = None then (Fail 400 ''VALIDATION_ERROR'', x)
      else (case amount of
        JInt n \<Rightarrow>
          if n \<le> 0 then (Fail 400 ''VALIDATION_ERROR'', x)
          else (case pi_create api (n * 100) (the user) n x of
                  (None, x') \<Rightarrow> (Fail 500 ''INTERNAL_ERROR'', x')
                | (Some (secret, pid), x') \<Rightarrow> (Done 200 (secret, pid, n), x'))
      | _ \<Rightarrow> (Fail 400 ''VALIDATION_ERROR'', x)))"

record payment =
  pay_userId :: "string option"
  pay_credits :: "int_text option"
  pay_intentId :: "string option"

definition payment_of :: "intent \<Rightarrow> payment" where
  "payment_of i = \<lparr>pay_userId = in_userId i, pay_credits = in_credits i, pay_intentId = in_id i\<rparr>"

definition retrieve_payment_intent :: "'x stripe_api \<Rightarrow> string option \<Rightarrow> 'x \<Rightarrow> payment reply \<times> 'x" where
  "retrieve_payment_intent api pid x =
     (if \<not> truthy pid then (Fail 400 ''VALIDATION_ERROR'', x)
      else (case pi_retrieve api (the pid) x of
              (None, x') \<Rightarrow> (Fail 500 ''INTERNAL_ERROR'', x')
            | (Some i, x') \<Rightarrow>
                if in_status i \<noteq> Some ''succeeded'' then (Fail 400 ''PAYMENT_NOT_SUCCEEDED'', x')
                else (Done 200 (payment_of i), x')))"

text \<open>The answer carries a payment only for the event of a succeeded payment.\<close>

definition wrapper_webhook :: "'x stripe_api \<Rightarrow> string \<Rightarrow> string \<Rightarrow> payment option reply" where
  "wrapper_webhook api payload signature =
     (case construct_event api payload signature of
        None \<Rightarrow> Fail 400 ''INVALID_SIGNATURE''
      | Some e \<Rightarrow>
          Done 200 (if se_type e = Some ''payment_intent.succeeded'' then Some (payment_of (se_object e)) else None))"

end
