(* ===== verification/CreditOrchestrator.thy ===== *)
theory CreditOrchestrator
  imports System StripeWrapper
begin

text \<open>
  The credit orchestrator (\<^verbatim>\<open>orchestrators/credit-orchestrator/routes.py\<close>): the balance, topping up
  through Stripe, by the user's confirmation or by Stripe's webhook, and the list of movements. A
  top-up is recorded in the ledger under the id of its payment, which guards against crediting it
  again.
\<close>

subsection \<open>Calls to the wrapper\<close>

definition ep_create_intent ::
  "'x stripe_api \<Rightarrow> string \<Rightarrow> json_value \<Rightarrow> ('n, 'x, string \<times> string \<times> int) endpoint" where
  "ep_create_intent api user amount s =
     (case create_payment_intent api (Some user) amount (ext s) of (r, x) \<Rightarrow> (r, s\<lparr>ext := x\<rparr>))"

definition ep_retrieve_intent :: "'x stripe_api \<Rightarrow> string \<Rightarrow> ('n, 'x, payment) endpoint" where
  "ep_retrieve_intent api pid s =
     (case retrieve_payment_intent api (Some pid) (ext s) of (r, x) \<Rightarrow> (r, s\<lparr>ext := x\<rparr>))"

definition ep_by_reference :: "string \<Rightarrow> ('n, 'x, 'n credit_txn) endpoint" where
  "ep_by_reference ref = ep_read (\<lambda>s. get_credit_transaction_by_reference ref (ledger s))"

subsection \<open>The routes\<close>

definition get_balance :: "('n, 'x) credit_api \<Rightarrow> string \<Rightarrow> ('n, 'x) sys \<Rightarrow> 'n credit_data reply \<times> ('n, 'x) sys" where
  "get_balance api user s =
     (case call_credit_get api user s of (Inl e, s1) \<Rightarrow> (Fail 503 UNAVAILABLE, s1) | (Inr d, s1) \<Rightarrow> (Done 200 d, s1))"

text \<open>
  The amount of a top-up: a positive number, cut to an integer. The conversion of a float that is
  not a number or infinite raises.
\<close>

fun topup_amount :: "json_value \<Rightarrow> (nat \<times> string) + int" where
  "topup_amount (JInt n) = (if n \<le> 0 then Inl (400, ''VALIDATION_ERROR'') else Inr n)"
| "topup_amount (JFloat r) = (if r \<le> 0 then Inl (400, ''VALIDATION_ERROR'') else Inr \<lfloor>r\<rfloor>)"
| "topup_amount JNaN = Inl (500, [])"
| "topup_amount JPosInf = Inl (500, [])"
| "topup_amount _ = Inl (400, ''VALIDATION_ERROR'')"

definition initiate_topup ::
  "'x stripe_api \<Rightarrow> string \<Rightarrow> json_value \<Rightarrow> ('n, 'x) sys \<Rightarrow> (string \<times> string \<times> int) reply \<times> ('n, 'x) sys" where
  "initiate_topup stripe user amount s =
     (case topup_amount amount of
        Inl (st, c) \<Rightarrow> (Fail st c, s)
      | Inr n \<Rightarrow>
          (case call_service UNAVAILABLE (ep_create_intent stripe user (JInt n)) s of
             (Inl e, s1) \<Rightarrow> (Fail 503 UNAVAILABLE, s1)
           | (Inr (secret, pid, amt), s1) \<Rightarrow> (Done 200 (secret, pid, n), s1)))"

text \<open>
  \<^verbatim>\<open>int(result.get("credits", 0))\<close>: the key is always there, so a missing value is None and raises.
  An unset user id is the text None in a comparison of texts and in a path.
\<close>

definition read_credits :: "int_text option \<Rightarrow> int option" where
  "read_credits c = (case c of Some (IntText n) \<Rightarrow> Some n | _ \<Rightarrow> None)"

definition py_str :: "string option \<Rightarrow> string" where
  "py_str v = (case v of None \<Rightarrow> ''None'' | Some t \<Rightarrow> t)"

datatype 'n topup_answer = AlreadyProcessed | Confirmed 'n

text \<open>
  Reading the balance, writing the new one and logging the movement, which both routes share. Only
  the first of the three names of the balance is read here.
\<close>

definition credit_user ::
  "('n::ring_1, 'x) credit_api \<Rightarrow> string option \<Rightarrow> int \<Rightarrow> string option \<Rightarrow> ('n, 'x) sys
    \<Rightarrow> 'n option \<times> ('n, 'x) sys" where
  "credit_user api user credits ref s =
     (case call_credit_get api (py_str user) s of
        (Inl e, s1) \<Rightarrow> (None, s1)
      | (Inr d, s1) \<Rightarrow>
          let new = (case cd_creditBalance d of None \<Rightarrow> 0 | Some b \<Rightarrow> b) + of_int credits in
          (case call_credit_patch api (py_str user) new s1 of
             (Some e, s2) \<Rightarrow> (None, s2)
           | (None, s2) \<Rightarrow>
               (Some new, snd (call_service UNAVAILABLE (ep_create_txn \<lparr>xb_userId = Some user,
                  xb_delta = Some (Some (of_int credits)), xb_reason = Some (Some ''topup''), xb_referenceId = ref\<rparr>) s2))))"

definition confirm_topup ::
  "('n::ring_1, 'x) credit_api \<Rightarrow> 'x stripe_api \<Rightarrow> string \<Rightarrow> string option \<Rightarrow> ('n, 'x) sys
    \<Rightarrow> 'n topup_answer reply \<times> ('n, 'x) sys" where
  "confirm_topup api stripe user pid_field s =
     (if \<not> truthy pid_field then (Fail 400 ''VALIDATION_ERROR'', s)
      else let pid = the pid_field in
      (case call_service UNAVAILABLE (ep_retrieve_intent stripe pid) s of
         (Inl e, s1) \<Rightarrow> (Fail 503 UNAVAILABLE, s1)
       | (Inr p, s1) \<Rightarrow>
           (case read_credits (pay_credits p) of
              None \<Rightarrow> (unhandled, s1)
            | Some credits \<Rightarrow>
                if py_str (pay_userId p) \<noteq> user then (Fail 403 ''FORBIDDEN'', s1)
                else
                  (case call_service UNAVAILABLE (ep_by_reference pid) s1 of
                     (Inr x, s2) \<Rightarrow> (Done 200 AlreadyProcessed, s2)
                   | (Inl e, s2) \<Rightarrow>
                       (case credit_user api (pay_userId p) credits (Some pid) s2 of
                          (None, s3) \<Rightarrow> (Fail 503 UNAVAILABLE, s3)
                        | (Some b, s3) \<Rightarrow> (Done 200 (Confirmed b), s3))))))"

text \<open>
  The webhook. The wrapper's answer never has the key \<^verbatim>\<open>eventId\<close>, so the guard is always the one by
  the payment.
\<close>

definition stripe_webhook ::
  "('n::ring_1, 'x) credit_api \<Rightarrow> 'x stripe_api \<Rightarrow> string \<Rightarrow> string \<Rightarrow> ('n, 'x) sys \<Rightarrow> unit reply \<times> ('n, 'x) sys" where
  "stripe_webhook api stripe payload signature s =
     (case call_service UNAVAILABLE (ep_read (\<lambda>_. wrapper_webhook stripe payload signature)) s of
        (Inl e, s1) \<Rightarrow> (Fail 400 ''INTERNAL_ERROR'', s1)
      | (Inr None, s1) \<Rightarrow> (Done 200 (), s1)
      | (Inr (Some p), s1) \<Rightarrow>
          if \<not> truthy (pay_userId p) then (Done 200 (), s1)
          else
            (case read_credits (pay_credits p) of
               None \<Rightarrow> (unhandled, s1)
             | Some credits \<Rightarrow>
                 (case call_service UNAVAILABLE (ep_by_reference (py_str (pay_intentId p))) s1 of
                    (Inr x, s2) \<Rightarrow> (Done 200 (), s2)
                  | (Inl e, s2) \<Rightarrow>
                      (case credit_user api (pay_userId p) credits (pay_intentId p) s2 of
                         (None, s3) \<Rightarrow> (Fail 503 UNAVAILABLE, s3)
                       | (Some b, s3) \<Rightarrow> (Done 200 (), s3)))))"

definition get_transactions ::
  "string \<Rightarrow> int option \<Rightarrow> int option \<Rightarrow> ('n, 'x) sys
    \<Rightarrow> ('n credit_txn list \<times> nat \<times> nat \<times> nat) reply \<times> ('n, 'x) sys" where
  "get_transactions user page limit s =
     (case call_service UNAVAILABLE (ep_read (\<lambda>s. list_credit_transactions_by_user user page limit (ledger s))) s of
        (Inl e, s1) \<Rightarrow> (Fail 503 UNAVAILABLE, s1)
      | (Inr v, s1) \<Rightarrow> (Done 200 v, s1))"

subsection \<open>What the calls leave behind\<close>

text \<open>
  What the code relies on of Stripe, that it leaves the balances alone, and of the credit service
  here, that an answer has the balance under its first name.
\<close>

definition stripe_laws :: "('x \<Rightarrow> string \<Rightarrow> 'n) \<Rightarrow> 'x stripe_api \<Rightarrow> bool" where
  "stripe_laws bal api \<longleftrightarrow> (\<forall>pid x. bal (snd (pi_retrieve api pid x)) = bal x)
     \<and> (\<forall>a u c x. bal (snd (pi_create api a u c x)) = bal x)"

definition plain_balance :: "('n, 'x) credit_api \<Rightarrow> bool" where
  "plain_balance api \<longleftrightarrow> (\<forall>u x d x'. credit_get api u x = (Inr d, x') \<longrightarrow> cd_creditBalance d \<noteq> None)"

lemma ep_retrieve_result:
  assumes "ep_retrieve_intent stripe pid s = (rep, s')" and "stripe_laws bal stripe"
  shows "\<exists>x. s' = s\<lparr>ext := x\<rparr> \<and> bal x = bal (ext s) \<and> (\<forall>st p. rep = Done st p \<longrightarrow>
    (\<exists>i. fst (pi_retrieve stripe pid (ext s)) = Some i \<and> in_status i = Some ''succeeded'' \<and> p = payment_of i))"
proof -
  obtain o1 x1 where o: "pi_retrieve stripe pid (ext s) = (o1, x1)" by fastforce
  have b: "bal x1 = bal (ext s)" using assms(2) o unfolding stripe_laws_def by (metis snd_conv)
  show ?thesis
  proof (cases "truthy (Some pid)")
    case False
    with assms(1) show ?thesis
      by (intro exI [of _ "ext s"]) (auto simp: ep_retrieve_intent_def retrieve_payment_intent_def)
  next
    case True
    with assms(1) o b show ?thesis
      by (intro exI [of _ x1]) (auto simp: ep_retrieve_intent_def retrieve_payment_intent_def split: if_splits option.splits)
  qed
qed

lemma call_retrieve:
  assumes "call_service tmo (ep_retrieve_intent stripe pid) s = (r, s')" and "stripe_laws bal stripe"
  shows "\<exists>x. s' = s\<lparr>net := tl (net s), ext := x\<rparr> \<and> bal x = bal (ext s)
    \<and> (\<forall>p. r = Inr p \<longrightarrow> (\<exists>i. fst (pi_retrieve stripe pid (ext s)) = Some i \<and> in_status i = Some ''succeeded'' \<and> p = payment_of i))"
  using assms(1)
proof (cases rule: call_service_cases)
  case (lost c)
  then show ?thesis by (intro exI [of _ "ext s"]) simp
qed (auto dest!: ep_retrieve_result [OF _ assms(2)])

definition topup_entry :: "string option \<Rightarrow> 'n \<Rightarrow> string option \<Rightarrow> 'n credit_txn \<Rightarrow> bool" where
  "topup_entry u d ref x \<longleftrightarrow> Some (ct_userId x) = u \<and> ct_delta x = d \<and> ct_reason x = ''topup'' \<and> ct_referenceId x = ref"

lemma credit_user_result:
  assumes run: "credit_user api user credits ref s = (r, s')" and laws: "credit_laws bal api" and plain: "plain_balance api"
  shows "case r of
      Some b \<Rightarrow> b = bal (ext s) (py_str user) + of_int credits \<and> bal (ext s') = (bal (ext s))(py_str user := b)
        \<and> (ledger s' = ledger s \<or> (\<exists>x. ledger s' = ledger s @ [x] \<and> topup_entry user (of_int credits) ref x))
    | None \<Rightarrow> ledger s' = ledger s"
proof -
  obtain gr s1 where g: "call_credit_get api (py_str user) s = (gr, s1)" by fastforce
  from call_credit_get_is [OF g] obtain x1 where s1: "s1 = s\<lparr>ext := x1\<rparr>" "credit_get api (py_str user) (ext s) = (gr, x1)" by blast
  show ?thesis
  proof (cases gr)
    case (Inl e)
    with run g s1 show ?thesis by (auto simp: credit_user_def)
  next
    case (Inr d)
    from plain s1(2) Inr obtain b0 where b0: "cd_creditBalance d = Some b0" unfolding plain_balance_def by blast
    with credit_get_law [OF laws s1(2)] Inr have bal: "bal x1 = bal (ext s)" "b0 = bal (ext s) (py_str user)"
      by (auto simp: read_balance_def)
    let ?new = "bal (ext s) (py_str user) + of_int credits"
    obtain pe s2 where p: "call_credit_patch api (py_str user) ?new s1 = (pe, s2)" by fastforce
    from call_credit_patch_is [OF p] obtain x2 where s2: "s2 = s1\<lparr>ext := x2\<rparr>"
      "credit_patch api (py_str user) ?new (ext s1) = (pe, x2)" by blast
    let ?b = "\<lparr>xb_userId = Some user, xb_delta = Some (Some (of_int credits)), xb_reason = Some (Some ''topup''), xb_referenceId = ref\<rparr>"
    obtain tr s3 where t: "call_service UNAVAILABLE (ep_create_txn ?b) s2 = (tr, s3)" by fastforce
    show ?thesis
    proof (cases pe)
      case (Some e)
      with run g Inr b0 bal p have "r = None \<and> s' = s2" by (simp add: credit_user_def)
      with s1 s2 show ?thesis by simp
    next
      case None
      with run g Inr b0 bal p t have r: "r = Some ?new" "s' = s3" by (simp_all add: credit_user_def)
      have e2: "bal (ext s2) = (bal (ext s))(py_str user := ?new)"
        using credit_patch_law [OF laws s2(2)] None s1 s2 bal by simp
      from call_create_txn [OF t] have "ext s3 = ext s2 \<and> (ledger s3 = ledger s2
          \<or> (\<exists>x. ledger s3 = ledger s2 @ [x] \<and> topup_entry user (of_int credits) ref x))"
        by (auto simp: create_credit_transaction_def topup_entry_def Let_def split: if_splits option.splits)
      with r e2 s1 s2 show ?thesis by auto
    qed
  qed
qed

text \<open>A payment is recorded once the ledger has a movement under its id.\<close>

definition recorded :: "string \<Rightarrow> ('n, 'x) sys \<Rightarrow> bool" where
  "recorded pid s \<longleftrightarrow> (\<exists>x \<in> set (ledger s). ct_referenceId x = Some pid)"

lemma by_reference_is:
  assumes "call_service tmo (ep_by_reference pid) s = (r, s')"
  shows "s' = s\<lparr>net := tl (net s)\<rparr> \<and> (\<forall>x. r = Inr x \<longrightarrow> x \<in> set (ledger s) \<and> ct_referenceId x = Some pid)"
  using call_read [OF assms [unfolded ep_by_reference_def]] by (auto dest: get_by_reference_is)

lemma by_reference_answered:
  assumes "net s = []"
  shows "\<exists>r. call_service tmo (ep_by_reference pid) s = (r, s) \<and> (isl r \<longleftrightarrow> \<not> recorded pid s)"
proof -
  let ?g = "get_credit_transaction_by_reference pid (ledger s)"
  have "is_done ?g \<longleftrightarrow> recorded pid s" by (simp add: get_by_reference_found recorded_def)
  then show ?thesis using assms by (cases ?g) (auto simp: ep_by_reference_def call_answered ep_read_def)
qed

lemma confirm_topup_result:
  assumes run: "confirm_topup api stripe user pid_field s = (Done st a, s')" and laws: "credit_laws bal api"
    and plain: "plain_balance api" and stripe: "stripe_laws bal stripe"
  shows "\<exists>pid i c. pid_field = Some pid \<and> fst (pi_retrieve stripe pid (ext s)) = Some i
    \<and> in_status i = Some ''succeeded'' \<and> py_str (in_userId i) = user \<and> in_credits i = Some (IntText c)
    \<and> (a = AlreadyProcessed \<and> recorded pid s \<and> bal (ext s') = bal (ext s) \<and> ledger s' = ledger s
      \<or> a = Confirmed (bal (ext s) user + of_int c) \<and> bal (ext s') = (bal (ext s))(user := bal (ext s) user + of_int c)
        \<and> (ledger s' = ledger s \<or> (\<exists>x. ledger s' = ledger s @ [x] \<and> topup_entry (in_userId i) (of_int c) (Some pid) x)))"
proof -
  obtain pid where pid: "pid_field = Some pid" "pid \<noteq> []"
    using run by (cases pid_field) (auto simp: confirm_topup_def split: if_splits)
  obtain pr s1 where g: "call_service UNAVAILABLE (ep_retrieve_intent stripe pid) s = (pr, s1)" by fastforce
  from call_retrieve [OF g stripe] obtain x where s1: "s1 = s\<lparr>net := tl (net s), ext := x\<rparr>" "bal x = bal (ext s)"
    and pi: "\<forall>p. pr = Inr p \<longrightarrow> (\<exists>i. fst (pi_retrieve stripe pid (ext s)) = Some i \<and> in_status i = Some ''succeeded''
      \<and> p = payment_of i)" by blast
  obtain p c where p: "pr = Inr p" "read_credits (pay_credits p) = Some c" "py_str (pay_userId p) = user"
    using run pid g by (auto simp: confirm_topup_def unhandled_def split: sum.splits option.splits if_splits)
  from pi p obtain i where i: "fst (pi_retrieve stripe pid (ext s)) = Some i" "in_status i = Some ''succeeded''" "p = payment_of i"
    by blast
  have c: "in_credits i = Some (IntText c)" "py_str (in_userId i) = user" "pay_userId p = in_userId i"
    using p i by (auto simp: read_credits_def payment_of_def split: option.splits int_text.splits)
  obtain er s2 where e: "call_service UNAVAILABLE (ep_by_reference pid) s1 = (er, s2)" by fastforce
  from by_reference_is [OF e] have s2: "s2 = s1\<lparr>net := tl (net s1)\<rparr>"
    and rec: "\<And>x. er = Inr x \<Longrightarrow> recorded pid s" using s1 by (auto simp: recorded_def)
  show ?thesis
  proof (cases er)
    case (Inr x)
    with run pid g p e have "a = AlreadyProcessed" "s' = s2" by (simp_all add: confirm_topup_def)
    with pid i c rec [OF Inr] s1 s2 show ?thesis by simp
  next
    case (Inl err)
    obtain cr s3 where cu: "credit_user api (in_userId i) c (Some pid) s2 = (cr, s3)" by fastforce
    then obtain b where b: "cr = Some b" and a: "a = Confirmed b" and s': "s' = s3"
      using run pid g p e Inl c(3) by (auto simp: confirm_topup_def split: option.splits)
    from credit_user_result [OF cu laws plain] b c(2) s1 s2 a s' pid(1) i(1,2) c(1,2) show ?thesis by simp
  qed
qed

text \<open>Without lost calls, a credited payment is recorded, and a recorded payment is not credited.\<close>

lemma credit_user_records:
  assumes run: "credit_user api (Some u) c (Some pid) s = (Some b, s')"
    and net: "net s = []" and ids: "distinct (map txnId (ledger s))" "fresh s (drawn s) \<notin> txnId ` set (ledger s)"
  shows "recorded pid s'"
proof -
  obtain d s1 where g: "call_credit_get api u s = (Inr d, s1)"
    using run by (auto simp: credit_user_def py_str_def split: prod.splits sum.splits)
  from call_credit_get_is [OF g] obtain x1 where s1: "s1 = s\<lparr>ext := x1\<rparr>" by blast
  define new where "new = (case cd_creditBalance d of None \<Rightarrow> 0 | Some b \<Rightarrow> b) + of_int c"
  obtain pe s2 where p: "call_credit_patch api u new s1 = (pe, s2)" by fastforce
  from call_credit_patch_is [OF p] obtain x2 where s2: "s2 = s\<lparr>ext := x2\<rparr>" using s1 by auto
  have "pe = None" using run g p by (auto simp: credit_user_def py_str_def new_def Let_def split: option.splits)
  then have "s' = snd (call_service UNAVAILABLE (ep_create_txn \<lparr>xb_userId = Some (Some u), xb_delta = Some (Some (of_int c)),
      xb_reason = Some (Some ''topup''), xb_referenceId = Some pid\<rparr>) s2)"
    using run g p by (auto simp: credit_user_def py_str_def new_def Let_def)
  moreover have "net s2 = []" using net s2 by simp
  ultimately show ?thesis
    using ids s2 by (auto simp: call_answered ep_create_txn_def draw_def create_credit_transaction_def recorded_def Let_def)
qed

lemma confirmed_records:
  assumes run: "confirm_topup api stripe user (Some pid) s = (Done st (Confirmed b), s')" and "user \<noteq> ''None''"
    and net: "net s = []" and ids: "distinct (map txnId (ledger s))" "fresh s (drawn s) \<notin> txnId ` set (ledger s)"
  shows "recorded pid s'"
proof -
  obtain p s1 where g: "call_service UNAVAILABLE (ep_retrieve_intent stripe pid) s = (Inr p, s1)"
    using run by (auto simp: confirm_topup_def split: if_splits prod.splits sum.splits)
  have s1: "\<exists>x. s1 = s\<lparr>ext := x\<rparr>"
    using g net by (auto simp: call_answered ep_retrieve_intent_def split: prod.splits reply.splits)
  then have n1: "net s1 = []" using net by auto
  obtain er where e: "call_service UNAVAILABLE (ep_by_reference pid) s1 = (er, s1)"
    using by_reference_answered [OF n1] by blast
  obtain c where c: "read_credits (pay_credits p) = Some c" "py_str (pay_userId p) = user" "isl er"
    using run g e by (cases er) (auto simp: confirm_topup_def unhandled_def split: if_splits option.splits)
  have "pay_userId p = Some user" using c(2) assms(2) by (auto simp: py_str_def split: option.splits)
  with run g c e have "credit_user api (Some user) c (Some pid) s1 = (Some b, s')"
    by (cases er) (auto simp: confirm_topup_def split: if_splits option.splits prod.splits)
  with credit_user_records n1 ids s1 show ?thesis by fastforce
qed

lemma recorded_not_credited:
  assumes "recorded pid s" and net: "net s = []" and stripe: "stripe_laws bal stripe"
  shows "bal (ext (snd (confirm_topup api stripe user (Some pid) s))) = bal (ext s)"
    and "wrapper_webhook stripe payload sg = Done st (Some p) \<Longrightarrow> pay_intentId p = Some pid \<Longrightarrow>
      bal (ext (snd (stripe_webhook api stripe payload sg s))) = bal (ext s)"
proof -
  obtain pr s1 where g: "call_service UNAVAILABLE (ep_retrieve_intent stripe pid) s = (pr, s1)" by fastforce
  from call_retrieve [OF g stripe] obtain x where s1: "s1 = s\<lparr>net := tl (net s), ext := x\<rparr>" "bal x = bal (ext s)" by blast
  have "recorded pid s1" "net s1 = []" using assms s1 by (simp_all add: recorded_def)
  then obtain v where e: "call_service UNAVAILABLE (ep_by_reference pid) s1 = (Inr v, s1)"
    using by_reference_answered [of s1 UNAVAILABLE pid] by (metis Inr_Inl_False sum.collapse(2))
  show "bal (ext (snd (confirm_topup api stripe user (Some pid) s))) = bal (ext s)"
    using g e s1 by (simp add: confirm_topup_def unhandled_def split: sum.split option.split)
  obtain w where f: "call_service UNAVAILABLE (ep_by_reference pid) s = (Inr w, s)"
    using by_reference_answered [OF net, of UNAVAILABLE pid] assms(1) by (metis Inr_Inl_False sum.collapse(2))
  show "bal (ext (snd (stripe_webhook api stripe payload sg s))) = bal (ext s)"
    if "wrapper_webhook stripe payload sg = Done st (Some p)" and "pay_intentId p = Some pid"
    using that net f by (simp add: stripe_webhook_def call_answered [OF net, of _ "ep_read f" for f] ep_read_def py_str_def unhandled_def split: option.split)
qed

subsection \<open>Properties\<close>

text \<open>
  Property C24: a confirmed top-up is a payment of the caller that Stripe reports as succeeded. Either it had been
  recorded before and nothing changed, or exactly the caller's balance grew by the credits of the payment and the
  ledger has at most the matching movement more.
\<close>

theorem topup_credits_payment:
  assumes "credit_laws bal api" and "plain_balance api" and "stripe_laws bal stripe"
    and "confirm_topup api stripe user pid_field s = (Done st a, s')"
  shows "\<exists>pid i c. pid_field = Some pid \<and> fst (pi_retrieve stripe pid (ext s)) = Some i
    \<and> in_status i = Some ''succeeded'' \<and> py_str (in_userId i) = user \<and> in_credits i = Some (IntText c)
    \<and> (a = AlreadyProcessed \<and> recorded pid s \<and> bal (ext s') = bal (ext s) \<and> ledger s' = ledger s
      \<or> a = Confirmed (bal (ext s) user + of_int c) \<and> bal (ext s') = (bal (ext s))(user := bal (ext s) user + of_int c)
        \<and> (ledger s' = ledger s \<or> (\<exists>x. ledger s' = ledger s @ [x] \<and> topup_entry (in_userId i) (of_int c) (Some pid) x)))"
  by (rule confirm_topup_result [OF assms(4,1,2,3)])

definition ex_stripe :: "'x stripe_api" where
  "ex_stripe = \<lparr>pi_create = (\<lambda>a u c x. (Some (''secret'', ''p1''), x)),
     pi_retrieve = (\<lambda>pid x. (Some \<lparr>in_id = Some pid, in_status = Some ''succeeded'', in_userId = Some ''u1'',
        in_credits = Some (IntText 25)\<rparr>, x)),
     construct_event = (\<lambda>p g. Some \<lparr>se_type = Some ''payment_intent.succeeded'', se_object = \<lparr>in_id = Some ''p1'',
        in_status = Some ''succeeded'', in_userId = Some ''u1'', in_credits = Some (IntText 25)\<rparr>\<rparr>)\<rparr>"

lemma ex_stripe_laws: "stripe_laws bal ex_stripe"
  by (simp add: stripe_laws_def ex_stripe_def)

lemma ex_plain_balance: "plain_balance ex_credit"
  by (auto simp: plain_balance_def ex_credit_def)

lemma ex_topup: "(case fst (confirm_topup ex_credit ex_stripe ''u1'' (Some ''p1'') ex_sys) of Done st (Confirmed b) \<Rightarrow> True | _ \<Rightarrow> False)"
  by code_simp

lemma ex_topup_run: "\<exists>st b s'. confirm_topup ex_credit ex_stripe ''u1'' (Some ''p1'') ex_sys = (Done st (Confirmed b), s')"
  using ex_topup by (cases "confirm_topup ex_credit ex_stripe ''u1'' (Some ''p1'') ex_sys") (auto split: reply.splits topup_answer.splits)

theorem topup_credits_payment_witness:
  "fst (ext (snd (confirm_topup ex_credit ex_stripe ''u1'' (Some ''p1'') ex_sys))) ''u1'' = 125"
proof -
  obtain st b s' where run: "confirm_topup ex_credit ex_stripe ''u1'' (Some ''p1'') ex_sys = (Done st (Confirmed b), s')"
    using ex_topup_run by blast
  from topup_credits_payment [OF ex_credit_laws ex_plain_balance ex_stripe_laws run] run show ?thesis
    by (auto simp: ex_stripe_def ex_sys_def)
qed


definition ex_topped :: "(int, (string \<Rightarrow> int) \<times> bool) sys" where
  "ex_topped = snd (confirm_topup ex_credit ex_stripe ''u1'' (Some ''p1'') ex_sys)"


text \<open>
  A lost ledger entry credits a payment twice. When the write of the movement is lost, the top-up is
  still confirmed; the next confirmation of the same payment finds no movement and credits it again.
\<close>

theorem lost_ledger_entry_credits_twice:
  assumes "credit_laws bal api" and "plain_balance api" and "stripe_laws bal stripe"
    and "confirm_topup api stripe user (Some pid) s = (Done st (Confirmed b), s1)" and "ledger s1 = ledger s"
    and "confirm_topup api stripe user (Some pid) s1 = (Done st2 a, s2)" and "\<not> recorded pid s"
    and "\<And>x y. map_option in_credits (fst (pi_retrieve stripe pid x)) = map_option in_credits (fst (pi_retrieve stripe pid y))"
  shows "\<exists>c. bal (ext s1) user = bal (ext s) user + of_int c \<and> bal (ext s2) user = bal (ext s) user + of_int c + of_int c"
proof -
  from confirm_topup_result [OF assms(4,1-3)] obtain i c where
    i: "fst (pi_retrieve stripe pid (ext s)) = Some i" "in_credits i = Some (IntText c)"
    and b1: "bal (ext s1) = (bal (ext s))(user := bal (ext s) user + of_int c)" by auto
  have nr: "\<not> recorded pid s1" using assms(5,7) by (simp add: recorded_def)
  from confirm_topup_result [OF assms(6,1-3)] nr obtain j d where
    j: "fst (pi_retrieve stripe pid (ext s1)) = Some j" "in_credits j = Some (IntText d)"
    and b2: "bal (ext s2) = (bal (ext s1))(user := bal (ext s1) user + of_int d)" by auto
  have "d = c" using assms(8) [of "ext s" "ext s1"] i j by simp
  with b1 b2 show ?thesis by auto
qed

definition ex_lossy :: "(int, (string \<Rightarrow> int) \<times> bool) sys" where
  "ex_lossy = ex_sys\<lparr>net := [NetOk, NetOk, ReqLost TimedOut]\<rparr>"

theorem lost_ledger_entry_credits_twice_witness:
  "fst (ext (snd (confirm_topup ex_credit ex_stripe ''u1'' (Some ''p1'')
      (snd (confirm_topup ex_credit ex_stripe ''u1'' (Some ''p1'') ex_lossy))))) ''u1'' = 150"
proof -
  let ?r1 = "confirm_topup ex_credit ex_stripe ''u1'' (Some ''p1'') ex_lossy"
  let ?r2 = "confirm_topup ex_credit ex_stripe ''u1'' (Some ''p1'') (snd ?r1)"
  have "(case fst ?r1 of Done st (Confirmed b) \<Rightarrow> True | _ \<Rightarrow> False)" by code_simp
  then obtain st b s1 where r1: "?r1 = (Done st (Confirmed b), s1)"
    by (cases ?r1) (auto split: reply.splits topup_answer.splits)
  have "is_done (fst ?r2)" by code_simp
  then obtain st2 a s2 where r2: "?r2 = (Done st2 a, s2)" by (metis is_done_iff prod.collapse)
  have l: "ledger (snd ?r1) = ledger ex_lossy" by code_simp
  have n: "\<not> recorded ''p1'' ex_lossy" by (simp add: recorded_def ex_lossy_def ex_sys_def)
  have "fst (ext (snd ?r1)) ''u1'' = 125" by code_simp
  moreover obtain c where "fst (ext s1) ''u1'' = fst (ext ex_lossy) ''u1'' + of_int c"
    "fst (ext s2) ''u1'' = fst (ext ex_lossy) ''u1'' + of_int c + of_int c"
    using lost_ledger_entry_credits_twice [OF ex_credit_laws ex_plain_balance ex_stripe_laws r1, of st2 a s2] r1 r2 l n
    by (auto simp: ex_stripe_def)
  ultimately show ?thesis using r1 r2 by (simp add: ex_lossy_def ex_sys_def)
qed

end
