(* ===== verification/Queries.thy ===== *)
theory Queries
  imports Prelude "HOL-Library.Sublist"
begin

text \<open>
  Searching and paging as several services do it: the pattern match \<^verbatim>\<open>ILIKE\<close> of the database, the
  stripping of a search term, and the pages that refuse a large limit. The lemmas show that a
  pattern made of a term without wildcards is a search for a substring.
\<close>

subsection \<open>Pages\<close>

text \<open>The pages of searches and of flagged users refuse a limit above 100, where other routes cut it.\<close>

definition strict_page :: "int option \<Rightarrow> int option \<Rightarrow> (nat \<times> nat) option" where
  "strict_page page limit =
     (let p = (case page of None \<Rightarrow> 1 | Some x \<Rightarrow> x); l = (case limit of None \<Rightarrow> 20 | Some x \<Rightarrow> x) in
      if p < 1 \<or> l < 1 \<or> l > 100 then None else Some (nat p, nat l))"

subsection \<open>Patterns\<close>

text \<open>
  \<^verbatim>\<open>ILIKE\<close> of PostgreSQL: both sides in lower case; \<^verbatim>\<open>%\<close> stands for any text, \<^verbatim>\<open>_\<close> for one
  character, and a backslash takes the next character of the pattern literally. Lower case is that
  of ASCII letters.
\<close>

definition lower_char :: "char \<Rightarrow> char" where
  "lower_char c = (let n = (of_char c :: nat) in if 65 \<le> n \<and> n \<le> 90 then char_of (n + 32) else c)"

function like :: "string \<Rightarrow> string \<Rightarrow> bool" where
  "like [] s = (s = [])"
| "like (p # ps) s =
     (if p = CHR ''%'' then like ps s \<or> (case s of [] \<Rightarrow> False | c # cs \<Rightarrow> like (p # ps) cs)
      else if p = CHR ''_'' then (case s of [] \<Rightarrow> False | c # cs \<Rightarrow> like ps cs)
      else if p = CHR 0x5C then
        (case (ps, s) of (q # qs, c # cs) \<Rightarrow> c = q \<and> like qs cs | _ \<Rightarrow> False)
      else (case s of [] \<Rightarrow> False | c # cs \<Rightarrow> c = p \<and> like ps cs))"
  by pat_completeness auto

termination
  by (relation "measure (\<lambda>(ps, s). length ps + length s)") auto

definition ilike :: "string \<Rightarrow> string \<Rightarrow> bool" where
  "ilike pat s = like (map lower_char pat) (map lower_char s)"

text \<open>\<^verbatim>\<open>str.strip()\<close> on the white space of ASCII.\<close>

definition py_space :: "char \<Rightarrow> bool" where
  "py_space c \<longleftrightarrow> (let n = (of_char c :: nat) in (9 \<le> n \<and> n \<le> 13) \<or> (28 \<le> n \<and> n \<le> 32))"

definition py_strip :: "string \<Rightarrow> string" where
  "py_strip s = rev (dropWhile py_space (rev (dropWhile py_space s)))"

subsection \<open>Lemmas\<close>

definition plain_char :: "char \<Rightarrow> bool" where
  "plain_char c \<longleftrightarrow> c \<noteq> CHR ''%'' \<and> c \<noteq> CHR ''_'' \<and> c \<noteq> CHR 0x5C"

lemma like_percent: "like ''%'' s"
  by (induction s) simp_all

lemma like_plain_prefix:
  "list_all plain_char ps \<Longrightarrow> like (ps @ ''%'') s \<longleftrightarrow> prefix ps s"
proof (induction ps arbitrary: s)
  case Nil
  then show ?case using like_percent by simp
next
  case (Cons p ps)
  then show ?case by (cases s) (auto simp: plain_char_def)
qed

lemma like_contains:
  "list_all plain_char ps \<Longrightarrow> like (CHR ''%'' # ps @ ''%'') s \<longleftrightarrow> sublist ps s"
proof (induction s)
  case Nil
  then show ?case using like_plain_prefix [of ps "[]"] by (auto simp: sublist_Nil_right)
next
  case (Cons c s)
  then show ?case using like_plain_prefix [of ps "c # s"] by (auto simp: sublist_Cons_right)
qed

text \<open>Lower case never makes or removes a character that is no letter.\<close>

lemma lower_char_iff:
  assumes "\<not> (65 \<le> (of_char d :: nat) \<and> (of_char d :: nat) \<le> 90)" "\<not> (97 \<le> (of_char d :: nat) \<and> (of_char d :: nat) \<le> 122)"
  shows "lower_char c = d \<longleftrightarrow> c = d"
proof (cases "65 \<le> (of_char c :: nat) \<and> (of_char c :: nat) \<le> 90")
  case True
  then have "lower_char c = char_of ((of_char c :: nat) + 32)" and "c \<noteq> d"
    using assms(1) by (auto simp: lower_char_def Let_def)
  moreover from True have "(of_char (char_of ((of_char c :: nat) + 32) :: char) :: nat) = of_char c + 32" by simp
  ultimately show ?thesis using True assms(2) by auto
next
  case False
  then show ?thesis by (auto simp: lower_char_def Let_def)
qed

lemma plain_lower: "plain_char (lower_char c) \<longleftrightarrow> plain_char c"
  by (simp add: plain_char_def lower_char_iff)

lemma ilike_contains:
  assumes "list_all plain_char q"
  shows "ilike (''%'' @ q @ ''%'') s \<longleftrightarrow> sublist (map lower_char q) (map lower_char s)"
proof -
  have "lower_char CHR ''%'' = CHR ''%''" by (simp add: lower_char_iff)
  moreover have "list_all plain_char (map lower_char q)" using assms by (simp add: list.pred_map plain_lower comp_def)
  ultimately show ?thesis using like_contains [of "map lower_char q"] by (simp add: ilike_def del: like.simps)
qed

text \<open>The reference of the search: the term occurs in the text, in upper or lower case.\<close>

definition contains_ci :: "string \<Rightarrow> string \<Rightarrow> bool" where
  "contains_ci q s \<longleftrightarrow> sublist (map lower_char q) (map lower_char s)"

lemma plain_strip:
  assumes "list_all plain_char q"
  shows "list_all plain_char (py_strip q)"
proof -
  have "set (py_strip q) \<subseteq> set q"
    unfolding py_strip_def using set_dropWhileD [of _ py_space q] set_dropWhileD [of _ py_space "rev (dropWhile py_space q)"]
    by auto
  with assms show ?thesis by (auto simp: list_all_iff)
qed

lemma ilike_any: "ilike (''%'' @ ''%'' @ ''%'') s"
proof -
  have "map lower_char (''%'' @ ''%'' @ ''%'') = ''%%%''" by (simp add: lower_char_iff)
  moreover have "like ''%%%'' t" for t using like_percent by simp
  ultimately show ?thesis unfolding ilike_def by metis
qed

lemma strip_percent: "py_strip ''%'' = ''%''"
  by (simp add: py_strip_def py_space_def)

end
