(* ===== verification/UserService.thy ===== *)
theory UserService
  imports Catalog Queries
begin

text \<open>
  The user service (\<^verbatim>\<open>services/user-service\<close>): the routes of \<^verbatim>\<open>routes.py\<close> that change users, the
  administration routes and the password reset, on the tables of \<^verbatim>\<open>models.py\<close>. The two lookups that
  the other processes call are in the theory of the catalogue.

  The lemmas give the invariant of the two tables, what a change of a user keeps, which answers
  carry the password hash, that the search is a search for a substring, and that no stored reset
  token can be used.
\<close>

subsection \<open>What a route answers\<close>

text \<open>\<^verbatim>\<open>User.to_dict\<close>: the password and the salt are there only when they are asked for.\<close>

record user_dict =
  ud_userId :: string
  ud_email :: string
  ud_phoneNumber :: string
  ud_role :: string
  ud_isFlagged :: bool
  ud_venueId :: "string option"
  ud_favoriteEvents :: "string list"
  ud_createdAt :: int
  ud_password :: "string option"
  ud_salt :: "string option"

definition user_to_dict :: "bool \<Rightarrow> user \<Rightarrow> user_dict" where
  "user_to_dict include_sensitive u =
     \<lparr>ud_userId = us_userId u, ud_email = us_email u, ud_phoneNumber = us_phoneNumber u, ud_role = us_role u,
      ud_isFlagged = us_isFlagged u, ud_venueId = us_venueId u, ud_favoriteEvents = us_favoriteEvents u,
      ud_createdAt = us_createdAt u,
      ud_password = (if include_sensitive then Some (us_password u) else None),
      ud_salt = (if include_sensitive then Some (us_salt u) else None)\<rparr>"

subsection \<open>Listing and creating users\<close>

definition list_users :: "user list \<Rightarrow> user_dict list" where
  "list_users rows = map (user_to_dict False) (sort_key us_createdAt rows)"

text \<open>
  The body of a registration. A field is absent, null or a value. A null in a required field
  passes the check of the keys and breaks the NOT NULL constraint at the commit; a null role or flag
  is replaced by the default of its column.
\<close>

record user_body =
  ub_email :: "string option option"
  ub_password :: "string option option"
  ub_salt :: "string option option"
  ub_phoneNumber :: "string option option"
  ub_role :: "string option option"
  ub_isFlagged :: "bool option option"
  ub_venueId :: "string option option"

definition or_default :: "'a \<Rightarrow> 'a option option \<Rightarrow> 'a" where
  "or_default d x = (case x of Some (Some v) \<Rightarrow> v | _ \<Rightarrow> d)"

definition unique_users :: "user list \<Rightarrow> bool" where
  "unique_users rows \<longleftrightarrow> distinct (map us_userId rows) \<and> distinct (map us_email rows)"

definition create_user :: "user_body \<Rightarrow> string \<Rightarrow> int \<Rightarrow> user list \<Rightarrow> user_dict reply \<times> user list" where
  "create_user b uuid now rows =
     (case (ub_email b, ub_password b, ub_salt b, ub_phoneNumber b) of
        (Some em, Some pw, Some sa, Some ph) \<Rightarrow>
          if list_ex (\<lambda>u. Some (us_email u) = em) rows then (Fail 409 ''EMAIL_ALREADY_EXISTS'', rows)
          else (case (em, pw, sa, ph) of
             (Some em', Some pw', Some sa', Some ph') \<Rightarrow>
               let u = \<lparr>us_userId = uuid, us_email = em', us_password = pw', us_salt = sa', us_phoneNumber = ph',
                        us_role = or_default ''user'' (ub_role b), us_isFlagged = or_default False (ub_isFlagged b),
                        us_venueId = or_default None (map_option (map_option Some) (ub_venueId b)),
                        us_favoriteEvents = [], us_createdAt = now\<rparr>
               in if unique_users (rows @ [u]) then (Done 201 (user_to_dict False u), rows @ [u])
                  else (Fail 500 ''INTERNAL_ERROR'', rows)
           | _ \<Rightarrow> (Fail 500 ''INTERNAL_ERROR'', rows))
      | _ \<Rightarrow> (Fail 400 ''VALIDATION_ERROR'', rows))"

subsection \<open>Changing a user\<close>

datatype user_field =
    UsEmail "string option"
  | UsPassword "string option"
  | UsSalt "string option"
  | UsPhoneNumber "string option"
  | UsRole "string option"
  | UsIsFlagged "bool option"
  | UsVenueId "string option"
  | UsOther string

primrec user_field_key :: "user_field \<Rightarrow> string" where
  "user_field_key (UsEmail x) = ''email''"
| "user_field_key (UsPassword x) = ''password''"
| "user_field_key (UsSalt x) = ''salt''"
| "user_field_key (UsPhoneNumber x) = ''phoneNumber''"
| "user_field_key (UsRole x) = ''role''"
| "user_field_key (UsIsFlagged x) = ''isFlagged''"
| "user_field_key (UsVenueId x) = ''venueId''"
| "user_field_key (UsOther k) = k"

definition user_UPDATABLE_FIELDS :: "string list" where
  "user_UPDATABLE_FIELDS = [''email'', ''password'', ''salt'', ''phoneNumber'', ''role'', ''isFlagged'', ''venueId'']"

text \<open>\<^verbatim>\<open>setattr\<close> of one field. A null in a NOT NULL column is not written: the commit fails.\<close>

fun set_user_field :: "user_field \<Rightarrow> user \<Rightarrow> user" where
  "set_user_field (UsEmail (Some x)) u = u\<lparr>us_email := x\<rparr>"
| "set_user_field (UsPassword (Some x)) u = u\<lparr>us_password := x\<rparr>"
| "set_user_field (UsSalt (Some x)) u = u\<lparr>us_salt := x\<rparr>"
| "set_user_field (UsPhoneNumber (Some x)) u = u\<lparr>us_phoneNumber := x\<rparr>"
| "set_user_field (UsRole (Some x)) u = u\<lparr>us_role := x\<rparr>"
| "set_user_field (UsIsFlagged (Some x)) u = u\<lparr>us_isFlagged := x\<rparr>"
| "set_user_field (UsVenueId x) u = u\<lparr>us_venueId := x\<rparr>"
| "set_user_field f u = u"

fun null_user_column :: "user_field \<Rightarrow> bool" where
  "null_user_column (UsEmail x) = (x = None)"
| "null_user_column (UsPassword x) = (x = None)"
| "null_user_column (UsSalt x) = (x = None)"
| "null_user_column (UsPhoneNumber x) = (x = None)"
| "null_user_column (UsRole x) = (x = None)"
| "null_user_column (UsIsFlagged x) = (x = None)"
| "null_user_column f = False"

definition set_user_fields :: "user_field list \<Rightarrow> user \<Rightarrow> user" where
  "set_user_fields body u = fold set_user_field body u"

definition save_user :: "string \<Rightarrow> user_field list \<Rightarrow> user list \<Rightarrow> user list" where
  "save_user uid body rows = row_upd us_userId uid (set_user_fields body) rows"

text \<open>The email is one that another user has: the first row with it is not the row of the request.\<close>

fun email_taken :: "user \<Rightarrow> user list \<Rightarrow> user_field \<Rightarrow> bool" where
  "email_taken u rows (UsEmail (Some em)) =
     (case find (\<lambda>v. us_email v = em) rows of None \<Rightarrow> False | Some v \<Rightarrow> us_userId v \<noteq> us_userId u)"
| "email_taken u rows f = False"

definition update_user ::
  "string \<Rightarrow> user_field list \<Rightarrow> user list \<Rightarrow> user_dict reply \<times> user list" where
  "update_user uid body rows =
     (if body = [] then (Fail 400 ''VALIDATION_ERROR'', rows)
      else if \<not> list_all (\<lambda>f. user_field_key f \<in> set user_UPDATABLE_FIELDS) body then
        (Fail 400 ''VALIDATION_ERROR'', rows)
      else case row_get us_userId uid rows of
        None \<Rightarrow> (Fail 404 ''USER_NOT_FOUND'', rows)
      | Some u \<Rightarrow>
          if list_ex (email_taken u rows) body then (Fail 409 ''EMAIL_ALREADY_EXISTS'', rows)
          else let rows' = save_user uid body rows in
            if list_ex null_user_column body \<or> \<not> unique_users rows' then
              (Fail 409 ''EMAIL_ALREADY_EXISTS'', rows)
            else (Done 200 (user_to_dict True (set_user_fields body u)), rows'))"

subsection \<open>Favourites\<close>

definition get_user_favorites :: "string \<Rightarrow> user list \<Rightarrow> string list reply" where
  "get_user_favorites uid rows =
     (case row_get us_userId uid rows of
        None \<Rightarrow> Fail 404 ''USER_NOT_FOUND'' | Some u \<Rightarrow> Done 200 (us_favoriteEvents u))"

text \<open>The field is absent, a value that is no array, or an array.\<close>

definition update_user_favorites ::
  "string \<Rightarrow> string list option option \<Rightarrow> user list \<Rightarrow> string list reply \<times> user list" where
  "update_user_favorites uid eventIds rows =
     (case eventIds of
        Some (Some es) \<Rightarrow>
          (case row_get us_userId uid rows of
             None \<Rightarrow> (Fail 404 ''USER_NOT_FOUND'', rows)
           | Some u \<Rightarrow> (Done 200 es, row_upd us_userId uid (\<lambda>u. u\<lparr>us_favoriteEvents := es\<rparr>) rows))
      | _ \<Rightarrow> (Fail 400 ''VALIDATION_ERROR'', rows))"

subsection \<open>Administration\<close>

definition admin_flag_user ::
  "string \<Rightarrow> bool option option \<Rightarrow> user list \<Rightarrow> user_dict reply \<times> user list" where
  "admin_flag_user uid isFlagged rows =
     (case isFlagged of
        None \<Rightarrow> (Fail 400 ''VALIDATION_ERROR'', rows)
      | Some x \<Rightarrow>
          (case row_get us_userId uid rows of
             None \<Rightarrow> (Fail 404 ''USER_NOT_FOUND'', rows)
           | Some u \<Rightarrow>
               (case x of
                  None \<Rightarrow> (Fail 500 ''INTERNAL_ERROR'', rows)
                | Some b \<Rightarrow> (Done 200 (user_to_dict False (u\<lparr>us_isFlagged := b\<rparr>)),
                            row_upd us_userId uid (\<lambda>u. u\<lparr>us_isFlagged := b\<rparr>) rows))))"

definition admin_unflag_user :: "string \<Rightarrow> user list \<Rightarrow> user_dict reply \<times> user list" where
  "admin_unflag_user uid rows =
     (case row_get us_userId uid rows of
        None \<Rightarrow> (Fail 404 ''USER_NOT_FOUND'', rows)
      | Some u \<Rightarrow>
          if \<not> us_isFlagged u then (Fail 400 ''USER_NOT_FLAGGED'', rows)
          else (Done 200 (user_to_dict False (u\<lparr>us_isFlagged := False\<rparr>)),
                row_upd us_userId uid (\<lambda>u. u\<lparr>us_isFlagged := False\<rparr>) rows))"

definition admin_list_users :: "string option \<Rightarrow> user list \<Rightarrow> user_dict list" where
  "admin_list_users flagged rows =
     (let chosen = (if flagged = Some ''true'' then filter us_isFlagged rows
                    else if flagged = Some ''false'' then filter (\<lambda>u. \<not> us_isFlagged u) rows
                    else rows)
      in map (user_to_dict False) (sort_key us_createdAt chosen))"

definition admin_get_user :: "string \<Rightarrow> user list \<Rightarrow> user_dict reply" where
  "admin_get_user uid rows =
     (case row_get us_userId uid rows of
        None \<Rightarrow> Fail 404 ''USER_NOT_FOUND'' | Some u \<Rightarrow> Done 200 (user_to_dict True u))"

type_synonym user_page = "user_dict list \<times> nat \<times> nat \<times> nat"

definition user_page_of :: "nat \<times> nat \<Rightarrow> user list \<Rightarrow> user_page" where
  "user_page_of pl chosen =
     (case pl of (p, l) \<Rightarrow> (map (user_to_dict False) (paginate p l (sort_key us_createdAt chosen)), p, l, length chosen))"

definition list_flagged_users :: "int option \<Rightarrow> int option \<Rightarrow> user list \<Rightarrow> user_page reply" where
  "list_flagged_users page limit rows =
     (case strict_page page limit of
        None \<Rightarrow> Fail 400 ''VALIDATION_ERROR''
      | Some pl \<Rightarrow> Done 200 (user_page_of pl (filter us_isFlagged rows)))"

subsection \<open>Searching users\<close>

definition admin_search_users :: "string option \<Rightarrow> int option \<Rightarrow> int option \<Rightarrow> user list \<Rightarrow> user_page reply" where
  "admin_search_users q page limit rows =
     (if or_empty q = [] then Fail 400 ''VALIDATION_ERROR''
      else case strict_page page limit of
        None \<Rightarrow> Fail 400 ''VALIDATION_ERROR''
      | Some pl \<Rightarrow>
          let search_term = ''%'' @ py_strip (or_empty q) @ ''%''
          in Done 200 (user_page_of pl
               (filter (\<lambda>u. ilike search_term (us_email u) \<or> ilike search_term (us_phoneNumber u)) rows)))"

subsection \<open>Resetting a password\<close>

record reset_token =
  rt_id :: string
  rt_userId :: string
  rt_token :: string
  rt_expiresAt :: datetime
  rt_used :: bool
  rt_createdAt :: int

record user_db =
  db_users :: "user list"
  db_resets :: "reset_token list"

definition RESET_TOKEN_TTL_HOURS :: int where
  "RESET_TOKEN_TTL_HOURS = 24"

datatype forgot_answer = SentIfExists | TokenGenerated string int

definition unique_resets :: "reset_token list \<Rightarrow> bool" where
  "unique_resets rs \<longleftrightarrow> distinct (map rt_id rs) \<and> distinct (map rt_token rs)"

text \<open>\<^verbatim>\<open>uuid\<close> and \<^verbatim>\<open>token\<close> are the fresh id and the result of \<^verbatim>\<open>secrets.token_urlsafe\<close>.\<close>

definition forgot_password ::
  "string option option \<Rightarrow> string \<Rightarrow> string \<Rightarrow> int \<Rightarrow> user_db \<Rightarrow> forgot_answer reply \<times> user_db" where
  "forgot_password email uuid token now d =
     (case email of
        None \<Rightarrow> (Fail 400 ''VALIDATION_ERROR'', d)
      | Some em \<Rightarrow>
          (case find (\<lambda>u. Some (us_email u) = em) (db_users d) of
             None \<Rightarrow> (Done 200 SentIfExists, d)
           | Some u \<Rightarrow>
               let expires_at = now + secs (RESET_TOKEN_TTL_HOURS * 3600);
                   old = map (\<lambda>r. if rt_userId r = us_userId u \<and> \<not> rt_used r then r\<lparr>rt_used := True\<rparr> else r) (db_resets d);
                   r = \<lparr>rt_id = uuid, rt_userId = us_userId u, rt_token = token,
                        rt_expiresAt = stored (Aware expires_at), rt_used = False, rt_createdAt = now\<rparr>
               in if unique_resets (old @ [r]) then (Done 200 (TokenGenerated token expires_at), d\<lparr>db_resets := old @ [r]\<rparr>)
                  else (Fail 500 ''INTERNAL_ERROR'', d)))"

definition find_reset :: "string option \<Rightarrow> reset_token list \<Rightarrow> reset_token option" where
  "find_reset tok rs = find (\<lambda>r. Some (rt_token r) = tok \<and> \<not> rt_used r) rs"

definition mark_reset_used :: "reset_token \<Rightarrow> reset_token list \<Rightarrow> reset_token list" where
  "mark_reset_used r rs = row_upd rt_id (rt_id r) (\<lambda>r. r\<lparr>rt_used := True\<rparr>) rs"

definition reset_password ::
  "string option option \<Rightarrow> string option option \<Rightarrow> string option option \<Rightarrow> int \<Rightarrow> user_db \<Rightarrow> unit reply \<times> user_db" where
  "reset_password token newPassword salt now d =
     (case (token, newPassword, salt) of
        (Some tok, Some pw, Some sa) \<Rightarrow>
          (case find_reset tok (db_resets d) of
             None \<Rightarrow> (Fail 400 ''INVALID_TOKEN'', d)
           | Some r \<Rightarrow>
               (case py_before (rt_expiresAt r) (Aware now) of
                  None \<Rightarrow> (Fail 500 ''INTERNAL_ERROR'', d)
                | Some True \<Rightarrow> (Fail 400 ''TOKEN_EXPIRED'', d\<lparr>db_resets := mark_reset_used r (db_resets d)\<rparr>)
                | Some False \<Rightarrow>
                    (case row_get us_userId (rt_userId r) (db_users d) of
                       None \<Rightarrow> (Fail 404 ''USER_NOT_FOUND'', d)
                     | Some u \<Rightarrow>
                         (case (pw, sa) of
                            (Some pw', Some sa') \<Rightarrow>
                              (Done 200 (), d\<lparr>db_users := save_user (us_userId u) [UsPassword pw, UsSalt sa] (db_users d),
                                             db_resets := mark_reset_used r (db_resets d)\<rparr>)
                          | _ \<Rightarrow> (Fail 500 ''INTERNAL_ERROR'', d)))))
      | _ \<Rightarrow> (Fail 400 ''VALIDATION_ERROR'', d))"

datatype verify_answer = ResetValid | ResetUnknown | ResetExpired

definition verify_reset_token :: "string option option \<Rightarrow> int \<Rightarrow> user_db \<Rightarrow> verify_answer reply" where
  "verify_reset_token token now d =
     (case token of
        None \<Rightarrow> Fail 400 ''VALIDATION_ERROR''
      | Some tok \<Rightarrow>
          (case find_reset tok (db_resets d) of
             None \<Rightarrow> Done 200 ResetUnknown
           | Some r \<Rightarrow>
               (case py_before (rt_expiresAt r) (Aware now) of
                  None \<Rightarrow> Fail 500 ''INTERNAL_ERROR''
                | Some True \<Rightarrow> Done 200 ResetExpired
                | Some False \<Rightarrow> Done 200 ResetValid)))"

subsection \<open>Lemmas: the tables\<close>

lemma set_user_field_id [simp]: "us_userId (set_user_field f u) = us_userId u"
  by (cases "(f, u)" rule: set_user_field.cases) simp_all

lemma set_user_fields_id [simp]: "us_userId (set_user_fields body u) = us_userId u"
  unfolding set_user_fields_def by (induction body arbitrary: u) simp_all

interpretation user_table: keyed_table us_userId save_user set_user_fields
  by unfold_locales (simp_all add: save_user_def)

text \<open>
  Ids and emails of users and tokens of resets are unique, every stored expiry is naive, and a user
  has at most one token that is not used.
\<close>

definition naive_expiry :: "reset_token \<Rightarrow> bool" where
  "naive_expiry r \<longleftrightarrow> is_naive (rt_expiresAt r)"

definition open_resets :: "string \<Rightarrow> reset_token list \<Rightarrow> reset_token list" where
  "open_resets uid rs = filter (\<lambda>r. rt_userId r = uid \<and> \<not> rt_used r) rs"

definition user_db_ok :: "user_db \<Rightarrow> bool" where
  "user_db_ok d \<longleftrightarrow> unique_users (db_users d) \<and> unique_resets (db_resets d)
     \<and> list_all naive_expiry (db_resets d)
     \<and> (\<forall>uid. length (open_resets uid (db_resets d)) \<le> 1)"

lemma create_user_effect:
  assumes "create_user b uuid now rows = (rep, rows')"
  shows "(rows' = rows \<and> \<not> is_done rep)
    \<or> (\<exists>u. rep = Done 201 (user_to_dict False u) \<and> rows' = rows @ [u] \<and> unique_users rows' \<and> us_userId u = uuid)"
  using assms by (auto simp: create_user_def Let_def split: if_splits option.splits)

text \<open>The user that a registration adds.\<close>

lemma create_user_new:
  assumes "create_user b uuid now rows = (Done st ud, rows')"
  shows "\<exists>u. rows' = rows @ [u] \<and> ud = user_to_dict False u \<and> us_userId u = uuid
    \<and> ub_email b = Some (Some (us_email u)) \<and> us_email u \<notin> us_email ` set rows
    \<and> ub_password b = Some (Some (us_password u)) \<and> us_role u = or_default ''user'' (ub_role b)
    \<and> us_isFlagged u = or_default False (ub_isFlagged b)"
  using assms by (auto simp: create_user_def Let_def unique_users_def split: if_splits option.splits)

lemma update_user_effect:
  assumes "update_user uid body rows = (rep, rows')"
  shows "(rows' = rows \<and> \<not> is_done rep)
    \<or> (\<exists>u. row_get us_userId uid rows = Some u \<and> rep = Done 200 (user_to_dict True (set_user_fields body u))
         \<and> rows' = save_user uid body rows \<and> unique_users rows')"
  using assms by (auto simp: update_user_def Let_def split: if_splits option.splits)

lemma row_upd_unique_users:
  assumes "unique_users rows" and "\<And>u. us_userId (f u) = us_userId u" and "\<And>u. us_email (f u) = us_email u"
  shows "unique_users (row_upd us_userId uid f rows)"
proof -
  have "map us_email (row_upd us_userId uid f rows) = map us_email rows"
    using assms(3) by (induction rows) auto
  with assms(1,2) show ?thesis by (simp add: unique_users_def row_upd_keys)
qed

lemma update_user_favorites_unique:
  "unique_users rows \<Longrightarrow> unique_users (snd (update_user_favorites uid es rows))"
  by (simp add: update_user_favorites_def row_upd_unique_users split: option.splits)

lemma admin_flag_user_unique: "unique_users rows \<Longrightarrow> unique_users (snd (admin_flag_user uid b rows))"
  by (simp add: admin_flag_user_def row_upd_unique_users split: option.splits)

lemma admin_unflag_user_unique: "unique_users rows \<Longrightarrow> unique_users (snd (admin_unflag_user uid rows))"
  by (simp add: admin_unflag_user_def row_upd_unique_users split: option.splits)

text \<open>Setting a password and a salt.\<close>

lemma save_password_unique:
  "unique_users rows \<Longrightarrow> unique_users (save_user uid [UsPassword (Some p), UsSalt (Some s)] rows)"
  unfolding save_user_def by (rule row_upd_unique_users) (simp_all add: set_user_fields_def)

text \<open>Which answers carry the secrets.\<close>

lemma user_dict_secret: "ud_password (user_to_dict b u) = None \<longleftrightarrow> \<not> b" "ud_salt (user_to_dict b u) = None \<longleftrightarrow> \<not> b"
  by (simp_all add: user_to_dict_def)

subsection \<open>Lemmas: resets\<close>

lemma open_resets_mark_all:
  "open_resets uid (map (\<lambda>r. if rt_userId r = v \<and> \<not> rt_used r then r\<lparr>rt_used := True\<rparr> else r) rs)
    = (if uid = v then [] else open_resets uid rs)"
  by (induction rs) (auto simp: open_resets_def)

lemma open_resets_mark_used: "length (open_resets uid (mark_reset_used r rs)) \<le> length (open_resets uid rs)"
  by (induction rs) (auto simp: open_resets_def mark_reset_used_def)

lemma mark_reset_used_keeps:
  "unique_resets (mark_reset_used r rs) = unique_resets rs"
  "list_all naive_expiry (mark_reset_used r rs) = list_all naive_expiry rs"
proof -
  have "map rt_token (mark_reset_used r rs) = map rt_token rs" "map rt_id (mark_reset_used r rs) = map rt_id rs"
    by (simp_all add: mark_reset_used_def row_upd_def)
  then show "unique_resets (mark_reset_used r rs) = unique_resets rs" by (simp add: unique_resets_def)
  show "list_all naive_expiry (mark_reset_used r rs) = list_all naive_expiry rs"
    by (induction rs) (auto simp: mark_reset_used_def naive_expiry_def)
qed

lemma forgot_password_ok:
  assumes "user_db_ok d"
  shows "user_db_ok (snd (forgot_password email uuid token now d))"
proof -
  have "list_all naive_expiry (map (\<lambda>r. if rt_userId r = v \<and> \<not> rt_used r then r\<lparr>rt_used := True\<rparr> else r) (db_resets d))" for v
    using assms by (auto simp: user_db_ok_def list_all_iff naive_expiry_def)
  moreover have "open_resets uid (rs @ [r]) = open_resets uid rs @ open_resets uid [r]" for uid rs r
    by (simp add: open_resets_def)
  ultimately show ?thesis
    using assms by (auto simp: forgot_password_def Let_def user_db_ok_def open_resets_mark_all naive_expiry_def
        open_resets_def [of _ "[r]" for r] split: option.splits)
qed

lemma reset_password_ok:
  assumes "user_db_ok d"
  shows "user_db_ok (snd (reset_password token pw salt now d))"
proof -
  have "\<forall>uid. length (open_resets uid (mark_reset_used r (db_resets d))) \<le> 1" for r
    using assms open_resets_mark_used order_trans unfolding user_db_ok_def by blast
  with assms show ?thesis
    by (auto simp: reset_password_def user_db_ok_def mark_reset_used_keeps save_password_unique
        split: option.splits bool.splits)
qed

text \<open>A token that is found has a naive expiry, which cannot be compared with the aware clock.\<close>

lemma find_reset_uncomparable:
  assumes "user_db_ok d" and "find_reset tok (db_resets d) = Some r"
  shows "py_before (rt_expiresAt r) (Aware now) = None"
proof -
  have "naive_expiry r"
    using assms by (auto simp: find_reset_def user_db_ok_def list_all_iff dest: find_found)
  then show ?thesis by (simp add: naive_expiry_def naive_uncomparable)
qed

subsection \<open>Lemmas: secrets\<close>

text \<open>No entry of a page or a list has a secret.\<close>

definition no_secret :: "user_dict \<Rightarrow> bool" where
  "no_secret d \<longleftrightarrow> ud_password d = None \<and> ud_salt d = None"

lemma no_secret_public [simp]: "no_secret (user_to_dict False u)"
  by (simp add: no_secret_def user_to_dict_def)

lemma no_secret_page: "list_all no_secret (fst (user_page_of pl rows))"
  by (simp add: user_page_of_def list.pred_map comp_def list_all_iff split: prod.splits)

subsection \<open>Properties\<close>

definition ex_user :: user where
  "ex_user = \<lparr>us_userId = ''u1'', us_email = ''ann@x.io'', us_password = ''h1'', us_salt = ''s1'',
     us_phoneNumber = ''+6591'', us_role = ''user'', us_isFlagged = False, us_venueId = None,
     us_favoriteEvents = [], us_createdAt = 5\<rparr>"

definition ex_user_db :: user_db where
  "ex_user_db = \<lparr>db_users = [ex_user], db_resets = []\<rparr>"

lemma ex_user_db_ok: "user_db_ok ex_user_db"
  by (simp add: user_db_ok_def ex_user_db_def unique_users_def unique_resets_def open_resets_def)

text \<open>
  The tables of the user service keep their invariant. Whatever the requests hold,
  registering, changing, flagging and unflagging a user, storing favourites and asking for or doing a
  password reset keep the ids and emails of users and the ids and tokens of resets unique, every
  stored expiry naive, and at most one unused reset token per user.
\<close>

theorem user_tables_stay_ok:
  assumes "user_db_ok d"
  shows "user_db_ok (d\<lparr>db_users := snd (create_user b uuid now (db_users d))\<rparr>)
    \<and> user_db_ok (d\<lparr>db_users := snd (update_user uid body (db_users d))\<rparr>)
    \<and> user_db_ok (d\<lparr>db_users := snd (update_user_favorites uid es (db_users d))\<rparr>)
    \<and> user_db_ok (d\<lparr>db_users := snd (admin_flag_user uid fl (db_users d))\<rparr>)
    \<and> user_db_ok (d\<lparr>db_users := snd (admin_unflag_user uid (db_users d))\<rparr>)
    \<and> user_db_ok (snd (forgot_password email uuid token now d))
    \<and> user_db_ok (snd (reset_password tok pw salt now d))"
proof -
  have u: "unique_users (db_users d)" using assms by (simp add: user_db_ok_def)
  have users: "user_db_ok (d\<lparr>db_users := us\<rparr>)" if "unique_users us" for us
    using assms that by (simp add: user_db_ok_def)
  have "unique_users (snd (create_user b uuid now (db_users d)))"
    using create_user_effect [OF surjective_pairing] u by (metis fst_conv snd_conv)
  moreover have "unique_users (snd (update_user uid body (db_users d)))"
    using update_user_effect [OF surjective_pairing] u by metis
  ultimately show ?thesis
    using u by (simp add: users forgot_password_ok reset_password_ok assms update_user_favorites_unique
        admin_flag_user_unique admin_unflag_user_unique)
qed

theorem user_tables_stay_ok_witness:
  "user_db_ok (ex_user_db\<lparr>db_users := snd (update_user ''u1'' [UsEmail (Some ''b@x.io'')] [ex_user])\<rparr>)
    \<and> user_db_ok (snd (forgot_password (Some (Some ''ann@x.io'')) ''r1'' ''tok'' 7 ex_user_db))"
  using user_tables_stay_ok [OF ex_user_db_ok, of _ "''r1''" 7 "''u1''" "[UsEmail (Some ''b@x.io'')]" _ _
      "Some (Some ''ann@x.io'')" "''tok''"]
  by (simp add: ex_user_db_def)

text \<open>
  Property C26: the search of users is a search for a substring. For a term without the wildcards
  of a pattern (percent sign, underscore, backslash) the answer is the page of exactly those users
  whose email or phone number contains the term, stripped of white space at its ends, in upper or
  lower case. A percent sign as the term finds every user.
\<close>

theorem search_is_substring:
  assumes "list_all plain_char q" and "q \<noteq> []"
  shows "admin_search_users (Some q) page limit rows =
      (case strict_page page limit of
         None \<Rightarrow> Fail 400 ''VALIDATION_ERROR''
       | Some pl \<Rightarrow> Done 200 (user_page_of pl (filter (\<lambda>u. contains_ci (py_strip q) (us_email u)
           \<or> contains_ci (py_strip q) (us_phoneNumber u)) rows)))
    \<and> admin_search_users (Some ''%'') (Some 1) (Some 20) rows = Done 200 (user_page_of (1, 20) rows)"
proof
  have "ilike (''%'' @ py_strip q @ ''%'') s = contains_ci (py_strip q) s" for s
    unfolding contains_ci_def by (rule ilike_contains [OF plain_strip [OF assms(1)]])
  then show "admin_search_users (Some q) page limit rows =
      (case strict_page page limit of
         None \<Rightarrow> Fail 400 ''VALIDATION_ERROR''
       | Some pl \<Rightarrow> Done 200 (user_page_of pl (filter (\<lambda>u. contains_ci (py_strip q) (us_email u)
           \<or> contains_ci (py_strip q) (us_phoneNumber u)) rows)))"
    unfolding admin_search_users_def Let_def by (simp only: or_empty_def option.case assms(2) if_False)
  have "ilike (''%'' @ py_strip ''%'' @ ''%'') s" for s unfolding strip_percent by (rule ilike_any)
  then show "admin_search_users (Some ''%'') (Some 1) (Some 20) rows = Done 200 (user_page_of (1, 20) rows)"
    unfolding admin_search_users_def Let_def or_empty_def option.case by (simp add: strict_page_def)
qed

theorem search_is_substring_witness:
  "admin_search_users (Some '' ANN'') None None [ex_user] = Done 200 ([user_to_dict False ex_user], 1, 20, 1)"
proof -
  have "list_all plain_char '' ANN''" by (simp add: plain_char_def)
  moreover have "contains_ci (py_strip '' ANN'') (us_email ex_user)" by (simp add: ex_user_def) code_simp
  ultimately show ?thesis
    using search_is_substring [of "'' ANN''" None None "[ex_user]"]
    by (simp add: strict_page_def user_page_of_def paginate_def)
qed

text \<open>
  A password cannot be reset. Every expiry in the table is naive and is compared
  with an aware clock, which raises TypeError: with a token that the table has, unused, the reset
  answers 500 and changes nothing, for the token of a fresh request as for any other; so no request
  ever resets a password, and the check of a token answers 500 or that the token is unknown.
\<close>

theorem reset_never_works:
  assumes "user_db_ok d"
  shows "\<not> is_done (fst (reset_password tok pw salt now d)) \<and> snd (reset_password tok pw salt now d) = d
    \<and> verify_reset_token tok now d \<in> {Fail 400 ''VALIDATION_ERROR'', Fail 500 ''INTERNAL_ERROR'', Done 200 ResetUnknown}
    \<and> (\<forall>e. fst (forgot_password em uuid token t0 d) = Done 200 (TokenGenerated token e) \<longrightarrow>
         fst (reset_password (Some (Some token)) (Some p) (Some s) now (snd (forgot_password em uuid token t0 d)))
           = Fail 500 ''INTERNAL_ERROR'')"
proof -
  have f: "fst (reset_password (Some (Some token)) (Some p) (Some s) now (snd (forgot_password em uuid token t0 d)))
      = Fail 500 ''INTERNAL_ERROR''"
    if "fst (forgot_password em uuid token t0 d) = Done 200 (TokenGenerated token e)" for e
  proof -
    define d' where "d' = snd (forgot_password em uuid token t0 d)"
    have "\<exists>r \<in> set (db_resets d'). rt_token r = token \<and> \<not> rt_used r"
      using that unfolding d'_def by (auto simp: forgot_password_def Let_def split: option.splits if_splits)
    then obtain r where r: "find_reset (Some token) (db_resets d') = Some r"
      unfolding find_reset_def by (cases "find (\<lambda>r. Some (rt_token r) = Some token \<and> \<not> rt_used r) (db_resets d')")
        (auto simp: find_None_iff)
    have "user_db_ok d'" unfolding d'_def by (rule forgot_password_ok [OF assms])
    from find_reset_uncomparable [OF this r] r show ?thesis
      unfolding d'_def [symmetric] by (simp add: reset_password_def)
  qed
  show ?thesis
    using f find_reset_uncomparable [OF assms]
    by (auto simp: reset_password_def verify_reset_token_def split: option.splits)
qed

theorem reset_never_works_witness:
  "fst (reset_password (Some (Some ''tok'')) (Some (Some ''h2'')) (Some (Some ''s2'')) 8
      (snd (forgot_password (Some (Some ''ann@x.io'')) ''r1'' ''tok'' 7 ex_user_db))) = Fail 500 ''INTERNAL_ERROR''"
proof -
  have "fst (forgot_password (Some (Some ''ann@x.io'')) ''r1'' ''tok'' 7 ex_user_db)
      = Done 200 (TokenGenerated ''tok'' (7 + secs (RESET_TOKEN_TTL_HOURS * 3600)))"
    by (simp add: forgot_password_def ex_user_db_def ex_user_def Let_def unique_resets_def)
  then show ?thesis using reset_never_works [OF ex_user_db_ok, of _ _ _ 8] by blast
qed

text \<open>
  Which answers carry a password hash. Lists, pages, searches and registrations never
  do, on any table and any request; the single user of the administration and the answer to a PATCH
  always do.
\<close>

theorem secrets_only_in_single_users:
  shows "list_all no_secret (list_users rows) \<and> list_all no_secret (admin_list_users fl rows)
    \<and> (\<forall>pg. list_flagged_users page limit rows = Done 200 pg \<longrightarrow> list_all no_secret (fst pg))
    \<and> (\<forall>pg. admin_search_users q page limit rows = Done 200 pg \<longrightarrow> list_all no_secret (fst pg))
    \<and> (\<forall>st d. fst (create_user b uuid now rows) = Done st d \<longrightarrow> no_secret d)
    \<and> (\<forall>st d. fst (admin_flag_user uid f rows) = Done st d \<longrightarrow> no_secret d)
    \<and> (\<forall>st d. fst (update_user uid body rows) = Done st d \<longrightarrow> \<not> no_secret d)
    \<and> (\<forall>st d. admin_get_user uid rows = Done st d \<longrightarrow> \<not> no_secret d)"
proof (intro conjI allI impI)
  show "list_all no_secret (list_users rows)" "list_all no_secret (admin_list_users fl rows)"
    by (simp_all add: list_users_def admin_list_users_def Let_def list.pred_map comp_def list_all_iff)
  show "list_all no_secret (fst pg)" if "list_flagged_users page limit rows = Done 200 pg" for pg
    using that no_secret_page by (auto simp: list_flagged_users_def split: option.splits)
  show "list_all no_secret (fst pg)" if "admin_search_users q page limit rows = Done 200 pg" for pg
    using that no_secret_page by (auto simp: admin_search_users_def Let_def split: option.splits if_splits)
  show "no_secret d" if "fst (create_user b uuid now rows) = Done st d" for st d
    using that create_user_effect [OF surjective_pairing, of b uuid now rows] by auto
  show "no_secret d" if "fst (admin_flag_user uid f rows) = Done st d" for st d
    using that by (auto simp: admin_flag_user_def split: option.splits)
  show "\<not> no_secret d" if "fst (update_user uid body rows) = Done st d" for st d
    using that update_user_effect [OF surjective_pairing, of uid body rows]
    by (auto simp: no_secret_def user_dict_secret)
  show "\<not> no_secret d" if "admin_get_user uid rows = Done st d" for st d
    using that by (auto simp: admin_get_user_def no_secret_def user_dict_secret split: option.splits)
qed

theorem secrets_only_in_single_users_witness:
  "\<not> no_secret (user_to_dict True ex_user) \<and> list_all no_secret (list_users [ex_user])"
  using secrets_only_in_single_users [of "[ex_user]" _ _ _ _ _ _ _ "''u1''"]
  by (simp add: admin_get_user_def ex_user_def)

end
