(* ===== verification/TokenBlacklist.thy ===== *)
theory TokenBlacklist
  imports Infra
begin

text \<open>
  Bearer tokens: the blacklist of revoked tokens in Redis (\<^verbatim>\<open>shared/token_blacklist.py\<close>) and the
  decorators that guard the routes (\<^verbatim>\<open>middleware.py\<close> of each orchestrator). The authentication
  orchestrator's decorators ask the blacklist; those of the other orchestrators do not.

  The JWT library is a parameter. \<open>jwt_laws\<close> states its documented behaviour: a token that was
  encoded with the secret decodes to its claims until its expiry, and can be read without
  verification.
\<close>

subsection \<open>Tokens\<close>

text \<open>The claims of a payload; a missing one is None. \<open>cl_exp\<close> is in seconds.\<close>

record claims =
  cl_userId :: "string option"
  cl_email :: "string option"
  cl_role :: "string option"
  cl_jti :: "string option"
  cl_exp :: "int option"
  cl_venueId :: "string option"

text \<open>\<^verbatim>\<open>jwt.decode\<close>: the payload, ExpiredSignatureError, or another InvalidTokenError.\<close>

datatype decoded = Decoded claims | ExpiredSignature | InvalidToken

record jwt_api =
  jwt_encode :: "claims \<Rightarrow> string"
  jwt_decode :: "string \<Rightarrow> int \<Rightarrow> decoded"
  jwt_peek :: "string \<Rightarrow> claims option"

definition jwt_laws :: "jwt_api \<Rightarrow> bool" where
  "jwt_laws jwt \<longleftrightarrow>
     (\<forall>c now. jwt_decode jwt (jwt_encode jwt c) now =
        (case cl_exp c of None \<Rightarrow> Decoded c | Some e \<Rightarrow> if secs e \<le> now then ExpiredSignature else Decoded c))
   \<and> (\<forall>c. jwt_peek jwt (jwt_encode jwt c) = Some c)"

subsection \<open>The blacklist\<close>

definition BLACKLIST_PREFIX :: string where
  "BLACKLIST_PREFIX = ''token_blacklist:''"

definition BLACKLIST_TTL_BUFFER :: int where
  "BLACKLIST_TTL_BUFFER = 300"

text \<open>
  The object holds whether its client has answered a ping once; it never asks again. The state is
  that flag and the shared stores.
\<close>

type_synonym blacklist = "bool \<times> infra"

definition get_client :: "blacklist \<Rightarrow> bool \<times> blacklist" where
  "get_client b =
     (if fst b then (True, b)
      else (case redis_step (snd b) of (ok, w) \<Rightarrow> (ok, (ok, w))))"

definition unix_time :: "infra \<Rightarrow> int" where
  "unix_time w = clock w div 1000000"

definition blacklist_ttl :: "int \<Rightarrow> infra \<Rightarrow> int" where
  "blacklist_ttl ex w =
     (let ttl = ex - unix_time w + BLACKLIST_TTL_BUFFER in if ttl \<le> 0 then BLACKLIST_TTL_BUFFER else ttl)"

definition blacklist_token :: "string \<Rightarrow> int \<Rightarrow> string option \<Rightarrow> blacklist \<Rightarrow> bool \<times> blacklist" where
  "blacklist_token token_id ex jti b =
     (case get_client b of
        (False, b1) \<Rightarrow> (False, b1)
      | (True, b1) \<Rightarrow>
          let key = BLACKLIST_PREFIX @ (if truthy jti then the jti else token_id);
              ttl = blacklist_ttl ex (snd b1)
          in (case redis_step (snd b1) of
                (False, w) \<Rightarrow> (False, (fst b1, w))
              | (True, w) \<Rightarrow> (True, (fst b1, redis_setex key ttl (RText ''revoked'') w))))"

definition is_blacklisted :: "string \<Rightarrow> blacklist \<Rightarrow> bool \<times> blacklist" where
  "is_blacklisted token_id b =
     (case get_client b of
        (False, b1) \<Rightarrow> (False, b1)
      | (True, b1) \<Rightarrow>
          (case redis_step (snd b1) of
             (ok, w) \<Rightarrow> (ok \<and> redis_live (BLACKLIST_PREFIX @ token_id) w \<noteq> None, (fst b1, w))))"

text \<open>
  \<^verbatim>\<open>revoke_all_user_tokens\<close> walks over the pages that SCAN answers and does nothing with the keys;
  \<open>scans\<close> is the number of pages, and each page is one interaction.
\<close>

fun scan_pages :: "nat \<Rightarrow> infra \<Rightarrow> bool \<times> infra" where
  "scan_pages 0 w = (True, w)"
| "scan_pages (Suc n) w =
     (case redis_step w of (False, w1) \<Rightarrow> (False, w1) | (True, w1) \<Rightarrow> scan_pages n w1)"

definition revoke_all_user_tokens :: "string \<Rightarrow> nat \<Rightarrow> blacklist \<Rightarrow> bool \<times> blacklist" where
  "revoke_all_user_tokens user_id scans b =
     (case get_client b of
        (False, b1) \<Rightarrow> (False, b1)
      | (True, b1) \<Rightarrow> (case scan_pages scans (snd b1) of (ok, w) \<Rightarrow> (ok, (fst b1, w))))"

definition cleanup_expired :: "blacklist \<Rightarrow> nat \<times> blacklist" where
  "cleanup_expired b = (0, b)"

text \<open>The statistics count the keys on the pages of SCAN; None is the answer with an error.\<close>

definition get_stats :: "string list list \<Rightarrow> blacklist \<Rightarrow> nat option \<times> blacklist" where
  "get_stats pages b =
     (case get_client b of
        (False, b1) \<Rightarrow> (None, b1)
      | (True, b1) \<Rightarrow>
          (case scan_pages (length pages) (snd b1) of
             (ok, w) \<Rightarrow> (if ok then Some (sum_list (map length pages)) else None, (fst b1, w))))"

subsection \<open>The decorators\<close>

text \<open>The token of an \<^verbatim>\<open>Authorization\<close> header.\<close>

definition bearer :: "string option \<Rightarrow> string option" where
  "bearer header =
     (let auth = or_empty header in
      if take 7 auth = ''Bearer '' then Some (drop 7 auth) else None)"

text \<open>The decorators of the orchestrators other than authentication: the error to answer, or the payload.\<close>

definition require_auth :: "jwt_api \<Rightarrow> string option \<Rightarrow> int \<Rightarrow> claims reply" where
  "require_auth jwt header now =
     (case bearer header of
        None \<Rightarrow> Fail 401 ''AUTH_MISSING_TOKEN''
      | Some token \<Rightarrow>
          (case jwt_decode jwt token now of
             Decoded c \<Rightarrow> Done 200 c
           | ExpiredSignature \<Rightarrow> Fail 401 ''AUTH_TOKEN_EXPIRED''
           | InvalidToken \<Rightarrow> Fail 401 ''AUTH_MISSING_TOKEN''))"

definition require_staff :: "jwt_api \<Rightarrow> string option \<Rightarrow> int \<Rightarrow> claims reply" where
  "require_staff jwt header now =
     (case require_auth jwt header now of
        Fail st c \<Rightarrow> Fail st c
      | Done st c \<Rightarrow> if cl_role c \<in> {Some ''staff'', Some ''admin''} then Done st c else Fail 403 ''AUTH_FORBIDDEN'')"

definition require_admin :: "jwt_api \<Rightarrow> string option \<Rightarrow> int \<Rightarrow> claims reply" where
  "require_admin jwt header now =
     (case require_auth jwt header now of
        Fail st c \<Rightarrow> Fail st c
      | Done st c \<Rightarrow> if cl_role c = Some ''admin'' then Done st c else Fail 403 ''AUTH_FORBIDDEN'')"

text \<open>The decorators of the authentication orchestrator.\<close>

definition auth_require_auth :: "jwt_api \<Rightarrow> string option \<Rightarrow> blacklist \<Rightarrow> claims reply \<times> blacklist" where
  "auth_require_auth jwt header b =
     (case bearer header of
        None \<Rightarrow> (Fail 401 ''AUTH_MISSING_TOKEN'', b)
      | Some token \<Rightarrow>
          (case jwt_decode jwt token (clock (snd b)) of
             Decoded c \<Rightarrow>
               if truthy (cl_jti c) then
                 (case is_blacklisted (the (cl_jti c)) b of
                    (True, b1) \<Rightarrow> (Fail 401 ''AUTH_TOKEN_REVOKED'', b1)
                  | (False, b1) \<Rightarrow> (Done 200 c, b1))
               else (Done 200 c, b)
           | ExpiredSignature \<Rightarrow> (Fail 401 ''AUTH_TOKEN_EXPIRED'', b)
           | InvalidToken \<Rightarrow> (Fail 401 ''AUTH_MISSING_TOKEN'', b)))"

definition auth_require_staff :: "jwt_api \<Rightarrow> string option \<Rightarrow> blacklist \<Rightarrow> claims reply \<times> blacklist" where
  "auth_require_staff jwt header b =
     (case auth_require_auth jwt header b of
        (Fail st e, b1) \<Rightarrow> (Fail st e, b1)
      | (Done st c, b1) \<Rightarrow>
          if cl_role c \<in> {Some ''staff'', Some ''admin''} then (Done st c, b1) else (Fail 403 ''AUTH_FORBIDDEN'', b1))"

definition revoke_token :: "jwt_api \<Rightarrow> string \<Rightarrow> blacklist \<Rightarrow> bool \<times> blacklist" where
  "revoke_token jwt token b =
     (case jwt_peek jwt token of
        None \<Rightarrow> (False, b)
      | Some c \<Rightarrow>
          (case cl_exp c of
             None \<Rightarrow> (False, b)
           | Some e \<Rightarrow>
               if \<not> truthy (cl_jti c) \<or> e = 0 then (False, b)
               else blacklist_token (the (cl_jti c)) e (cl_jti c) b))"

subsection \<open>Revocation as a contract\<close>

text \<open>
  What a client of a revocation list relies on: with the store reachable, adding an id confirms it,
  and until the expiry given the id is a member of every later state that still has its entry.
\<close>

locale revocation_list =
  fixes add :: "string \<Rightarrow> int \<Rightarrow> 's \<Rightarrow> bool \<times> 's"
    and member :: "string \<Rightarrow> 's \<Rightarrow> bool \<times> 's"
    and reachable :: "'s \<Rightarrow> bool"
    and time :: "'s \<Rightarrow> int"
    and same_entry :: "string \<Rightarrow> 's \<Rightarrow> 's \<Rightarrow> bool"
  assumes add_works: "reachable s \<Longrightarrow> fst (add i e s)"
    and member_after_add: "fst (add i e s) \<Longrightarrow> same_entry i (snd (add i e s)) t \<Longrightarrow> reachable t \<Longrightarrow>
      time t < secs e \<Longrightarrow> fst (member i t)"
    and same_refl: "same_entry i s s"
begin

lemma add_then_member:
  assumes "reachable s" and "reachable (snd (add i e s))" and "time (snd (add i e s)) < secs e"
  shows "fst (member i (snd (add i e s)))"
  using assms add_works member_after_add same_refl by blast

end

definition blacklist_up :: "blacklist \<Rightarrow> bool" where
  "blacklist_up b \<longleftrightarrow> redis_io (snd b) = []"

definition same_blacklist_entry :: "string \<Rightarrow> blacklist \<Rightarrow> blacklist \<Rightarrow> bool" where
  "same_blacklist_entry i a b \<longleftrightarrow> redis (snd a) (BLACKLIST_PREFIX @ i) = redis (snd b) (BLACKLIST_PREFIX @ i)"

lemma get_client_up [simp]: "blacklist_up b \<Longrightarrow> get_client b = (True, (True, snd b))"
  by (cases b) (auto simp: blacklist_up_def get_client_def)

lemma get_client_frame:
  assumes "get_client b = (c, b')"
  shows "redis (snd b') = redis (snd b) \<and> clock (snd b') = clock (snd b)"
proof (cases "fst b")
  case False
  obtain ok w where st: "redis_step (snd b) = (ok, w)" by fastforce
  with assms False have "b' = (ok, w)" by (auto simp: get_client_def)
  with redis_step_frame [OF st] show ?thesis by simp
qed (use assms in \<open>simp add: get_client_def\<close>)

text \<open>The entry outlives the token: it is there at every instant before the expiry.\<close>

lemma blacklist_ttl_covers: "t < secs e \<Longrightarrow> t < clock w + secs (blacklist_ttl e w)"
proof -
  assume t: "t < secs e"
  have q: "1000000 * unix_time w \<le> clock w" "clock w < 1000000 * unix_time w + 1000000"
    unfolding unix_time_def by simp_all
  with t show ?thesis
    unfolding blacklist_ttl_def BLACKLIST_TTL_BUFFER_def secs_def Let_def by auto
qed

text \<open>An id given twice, as \<^verbatim>\<open>revoke_token\<close> does, is the id given once.\<close>

lemma blacklist_token_jti: "truthy (Some j) \<Longrightarrow> blacklist_token j e (Some j) b = blacklist_token j e None b"
  by (simp add: blacklist_token_def split: prod.splits bool.splits)

lemma blacklist_token_effect:
  assumes "blacklist_token j e None b = (True, b')"
  shows "redis (snd b') (BLACKLIST_PREFIX @ j)
    = Some (RText ''revoked'', clock (snd b) + secs (blacklist_ttl e (snd b)))"
proof -
  obtain b1 w where g: "get_client b = (True, b1)" and st: "redis_step (snd b1) = (True, w)"
    and b': "b' = (fst b1, redis_setex (BLACKLIST_PREFIX @ j) (blacklist_ttl e (snd b1)) (RText ''revoked'') w)"
    using assms by (auto simp: blacklist_token_def Let_def split: prod.splits bool.splits)
  have "clock w = clock (snd b)" "blacklist_ttl e (snd b1) = blacklist_ttl e (snd b)"
    using get_client_frame [OF g] redis_step_frame [OF st] by (simp_all add: blacklist_ttl_def unix_time_def)
  with b' show ?thesis by (simp add: redis_setex_def)
qed

lemma is_blacklisted_up:
  "blacklist_up b \<Longrightarrow> is_blacklisted i b = (redis_live (BLACKLIST_PREFIX @ i) (snd b) \<noteq> None, (True, snd b))"
  by (simp add: is_blacklisted_def) (simp add: blacklist_up_def)

interpretation token_revocation: revocation_list
  "\<lambda>i e. blacklist_token i e None" is_blacklisted blacklist_up "\<lambda>b. clock (snd b)" same_blacklist_entry
proof unfold_locales
  fix b i e
  assume "blacklist_up b"
  then show "fst (blacklist_token i e None b)"
    by (simp add: blacklist_token_def Let_def) (simp add: blacklist_up_def)
next
  fix i e and b t :: blacklist
  assume added: "fst (blacklist_token i e None b)"
    and same: "same_blacklist_entry i (snd (blacklist_token i e None b)) t"
    and up: "blacklist_up t" and now: "clock (snd t) < secs e"
  from added obtain b' where "blacklist_token i e None b = (True, b')" by (metis prod.collapse)
  with blacklist_token_effect [OF this] same
  have "redis (snd t) (BLACKLIST_PREFIX @ i) = Some (RText ''revoked'', clock (snd b) + secs (blacklist_ttl e (snd b)))"
    by (simp add: same_blacklist_entry_def)
  with blacklist_ttl_covers [OF now, of "snd b"] show "fst (is_blacklisted i t)"
    by (simp add: is_blacklisted_up [OF up] redis_live_def)
qed (simp add: same_blacklist_entry_def)

subsection \<open>Lemmas on the decorators\<close>

lemma jwt_decode_encode:
  "jwt_laws jwt \<Longrightarrow> cl_exp c = Some e \<Longrightarrow>
    jwt_decode jwt (jwt_encode jwt c) now = (if secs e \<le> now then ExpiredSignature else Decoded c)"
  by (simp add: jwt_laws_def)

lemma bearer_token [simp]: "bearer (Some (''Bearer '' @ tok)) = Some tok"
  by (simp add: bearer_def or_empty_def)

lemma require_auth_token:
  assumes "jwt_laws jwt" and "cl_exp c = Some e"
  shows "require_auth jwt (Some (''Bearer '' @ jwt_encode jwt c)) now
    = (if secs e \<le> now then Fail 401 ''AUTH_TOKEN_EXPIRED'' else Done 200 c)"
  using jwt_decode_encode [OF assms] by (simp add: require_auth_def del: append.simps)

text \<open>Who passes the guards of staff and administration has the role in the token.\<close>

lemma require_staff_role: "require_staff jwt h now = Done st c \<Longrightarrow> cl_role c \<in> {Some ''staff'', Some ''admin''}"
  by (auto simp: require_staff_def split: reply.splits if_splits)

lemma require_admin_role: "require_admin jwt h now = Done st c \<Longrightarrow> cl_role c = Some ''admin''"
  by (auto simp: require_admin_def split: reply.splits if_splits)

text \<open>Every token the guard of administration accepts passes the guard of staff.\<close>

lemma require_admin_staff: "require_admin jwt h now = Done st c \<Longrightarrow> require_staff jwt h now = Done st c"
  by (auto simp: require_admin_def require_staff_def split: reply.splits if_splits)

text \<open>Without an answer from Redis the blacklist lets every valid token pass.\<close>

lemma blacklist_fails_open:
  assumes "redis_io (snd b) = [False]"
  shows "fst (is_blacklisted i b) = False"
  using assms by (cases b) (simp add: is_blacklisted_def get_client_def redis_step_def)

text \<open>A revoked token, seen again.\<close>

lemma auth_require_auth_revoked:
  assumes "jwt_laws jwt" and "cl_exp c = Some e" and "truthy (cl_jti c)"
    and "clock (snd b) < secs e \<Longrightarrow> fst (is_blacklisted (the (cl_jti c)) b)"
  shows "fst (auth_require_auth jwt (Some (''Bearer '' @ jwt_encode jwt c)) b)
    = Fail 401 (if secs e \<le> clock (snd b) then ''AUTH_TOKEN_EXPIRED'' else ''AUTH_TOKEN_REVOKED'')"
proof -
  have "\<exists>b1. is_blacklisted (the (cl_jti c)) b = (True, b1)" if "\<not> secs e \<le> clock (snd b)"
    using assms(4) that by (metis not_le_imp_less prod.collapse)
  then show ?thesis
    using jwt_decode_encode [OF assms(1,2)] assms(3) by (auto simp: auth_require_auth_def simp del: append.simps)
qed

lemma revoke_token_encoded:
  assumes "jwt_laws jwt" and "cl_exp c = Some e" and "e \<noteq> 0" and "truthy (cl_jti c)"
  shows "revoke_token jwt (jwt_encode jwt c) b = blacklist_token (the (cl_jti c)) e None b"
  using assms by (auto simp: revoke_token_def jwt_laws_def truthy_iff blacklist_token_jti)

subsection \<open>An example JWT library\<close>

text \<open>It writes the claims one after the other.\<close>

fun put_text :: "string \<Rightarrow> string" where
  "put_text [] = ''.''"
| "put_text (c # s) = CHR ''+'' # c # put_text s"

fun get_text :: "string \<Rightarrow> string \<times> string" where
  "get_text (a # c # s) = (if a = CHR ''+'' then (case get_text s of (t, r) \<Rightarrow> (c # t, r)) else ([], c # s))"
| "get_text s = ([], [])"

lemma get_put_text [simp]: "get_text (put_text s @ r) = (s, r)"
proof (induction s)
  case Nil
  then show ?case by (cases r) simp_all
qed simp

definition put_field :: "string option \<Rightarrow> string" where
  "put_field x = put_text (case x of None \<Rightarrow> [] | Some t \<Rightarrow> CHR ''S'' # t)"

definition get_field :: "string \<Rightarrow> string option \<times> string" where
  "get_field s = (case get_text s of (t, r) \<Rightarrow> (if t = [] then None else Some (tl t), r))"

lemma get_put_field [simp]: "get_field (put_field x @ r) = (x, r)"
  by (simp add: get_field_def put_field_def split: option.splits)

definition int_text :: "int \<Rightarrow> string" where
  "int_text n = (if n < 0 then ''-'' else ''+'') @ replicate (nat \<bar>n\<bar>) CHR ''1''"

definition text_int :: "string \<Rightarrow> int" where
  "text_int t = (if hd t = CHR ''-'' then - 1 else 1) * int (length (tl t))"

lemma text_int_text: "text_int (int_text n) = n"
  by (simp add: text_int_def int_text_def)

definition ex_encode :: "claims \<Rightarrow> string" where
  "ex_encode c = put_field (cl_userId c) @ put_field (cl_email c) @ put_field (cl_role c) @ put_field (cl_jti c)
     @ put_field (map_option int_text (cl_exp c)) @ put_field (cl_venueId c)"

definition ex_peek :: "string \<Rightarrow> claims option" where
  "ex_peek t =
     (case get_field t of (u, t1) \<Rightarrow> case get_field t1 of (em, t2) \<Rightarrow> case get_field t2 of (ro, t3) \<Rightarrow>
      case get_field t3 of (j, t4) \<Rightarrow> case get_field t4 of (e, t5) \<Rightarrow> case get_field t5 of (v, t6) \<Rightarrow>
      Some \<lparr>cl_userId = u, cl_email = em, cl_role = ro, cl_jti = j, cl_exp = map_option text_int e, cl_venueId = v\<rparr>)"

definition ex_jwt :: jwt_api where
  "ex_jwt = \<lparr>jwt_encode = ex_encode,
     jwt_decode = (\<lambda>t now. case ex_peek t of None \<Rightarrow> InvalidToken
       | Some c \<Rightarrow> (case cl_exp c of None \<Rightarrow> Decoded c | Some e \<Rightarrow> if secs e \<le> now then ExpiredSignature else Decoded c)),
     jwt_peek = ex_peek\<rparr>"

lemma ex_peek_encode: "ex_peek (ex_encode c) = Some c"
proof -
  have "get_field (put_field x) = (x, [])" for x using get_put_field [of x "[]"] by simp
  moreover have "map_option text_int (map_option int_text x) = x" for x
    by (simp add: option.map_comp comp_def text_int_text option.map_ident)
  ultimately show ?thesis by (simp add: ex_peek_def ex_encode_def)
qed

lemma ex_jwt_laws: "jwt_laws ex_jwt"
  by (simp add: jwt_laws_def ex_jwt_def ex_peek_encode)

end
