(* ===== verification/AuthOrchestrator.thy ===== *)
theory AuthOrchestrator
  imports System UserService TokenBlacklist
begin

text \<open>
  The authentication orchestrator (\<^verbatim>\<open>orchestrators/auth-orchestrator/routes.py\<close>): registering with a
  code sent to the phone, logging in, the profile and logging out. Passwords are hashed by bcrypt,
  which is a parameter.

  The lemmas show what a token issued at a login is accepted for, that a logout ends it here and
  nowhere else, and that an account can be used right after its registration, with the role the
  request asked for.
\<close>

subsection \<open>What the orchestrator calls\<close>

text \<open>
  \<^verbatim>\<open>bcrypt\<close>: a salt, a hash, and the comparison of a password with a hash. The last two raise
  ValueError (None) on what they cannot handle.
\<close>

record bcrypt_api =
  gensalt :: "string \<Rightarrow> string"
  hashpw :: "string \<Rightarrow> string \<Rightarrow> string option"
  checkpw :: "string \<Rightarrow> string \<Rightarrow> bool option"

definition bcrypt_laws :: "bcrypt_api \<Rightarrow> bool" where
  "bcrypt_laws bc \<longleftrightarrow> (\<forall>r p h. hashpw bc p (gensalt bc r) = Some h \<longrightarrow> checkpw bc p h = Some True)"

text \<open>The creation of a balance, the third operation of the external credit service.\<close>

type_synonym ('n, 'x) credit_post = "string \<Rightarrow> 'n \<Rightarrow> 'x \<Rightarrow> string option \<times> 'x"

definition call_credit_post ::
  "('n, 'x) credit_post \<Rightarrow> string \<Rightarrow> 'n \<Rightarrow> ('n, 'x) sys \<Rightarrow> string option \<times> ('n, 'x) sys" where
  "call_credit_post post u v s = (case post u v (ext s) of (e, x) \<Rightarrow> (e, s\<lparr>ext := x\<rparr>))"

definition ep_create_user :: "user_body \<Rightarrow> ('n, 'x, user_dict) endpoint" where
  "ep_create_user b s =
     (case draw s of (uuid, s1) \<Rightarrow>
        (case create_user b uuid (time_now s1) (users s1) of (r, us) \<Rightarrow> (r, s1\<lparr>users := us\<rparr>)))"

definition ep_get_user :: "string \<Rightarrow> ('n, 'x, user) endpoint" where
  "ep_get_user uid = ep_read (\<lambda>s. get_user uid (users s))"

definition ep_user_by_email :: "string \<Rightarrow> ('n, 'x, user) endpoint" where
  "ep_user_by_email em = ep_read (\<lambda>s. get_user_by_email em (users s))"

text \<open>One command to Redis.\<close>

definition redis_do :: "(infra \<Rightarrow> infra) \<Rightarrow> ('n, 'x) sys \<Rightarrow> bool \<times> ('n, 'x) sys" where
  "redis_do f s =
     (case redis_step (world (inventory s)) of
        (ok, w) \<Rightarrow> (ok, on_infra (\<lambda>_. if ok then f w else w) s))"

subsection \<open>Tokens\<close>

definition JWT_EXPIRY_HOURS :: int where
  "JWT_EXPIRY_HOURS = 24"

definition OTP_SID_TTL :: int where
  "OTP_SID_TTL = 600"

definition token_expiry :: "int \<Rightarrow> int" where
  "token_expiry now = now + secs (JWT_EXPIRY_HOURS * 3600)"

text \<open>The library writes the expiry in whole seconds.\<close>

definition token_claims :: "user \<Rightarrow> string \<Rightarrow> int \<Rightarrow> claims" where
  "token_claims u jti now =
     \<lparr>cl_userId = Some (us_userId u), cl_email = Some (us_email u), cl_role = Some (us_role u), cl_jti = Some jti,
      cl_exp = Some (token_expiry now div 1000000),
      cl_venueId = (if us_role u = ''staff'' \<and> truthy (us_venueId u) then us_venueId u else None)\<rparr>"

definition generate_token :: "jwt_api \<Rightarrow> user \<Rightarrow> ('n, 'x) sys \<Rightarrow> string \<times> ('n, 'x) sys" where
  "generate_token jwt u s =
     (case draw s of (jti, s1) \<Rightarrow> (jwt_encode jwt (token_claims u jti (time_now s1)), s1))"

record session =
  ss_token :: string
  ss_expiresAt :: int
  ss_userId :: string
  ss_email :: string
  ss_role :: string

definition open_session :: "jwt_api \<Rightarrow> user \<Rightarrow> ('n, 'x) sys \<Rightarrow> session reply \<times> ('n, 'x) sys" where
  "open_session jwt u s =
     (case generate_token jwt u s of (tok, s1) \<Rightarrow>
        (Done 200 \<lparr>ss_token = tok, ss_expiresAt = token_expiry (time_now s1), ss_userId = us_userId u,
           ss_email = us_email u, ss_role = us_role u\<rparr>, s1))"

subsection \<open>Registering\<close>

text \<open>A role is absent, null or a text; the other fields are None when absent or null.\<close>

record register_body =
  rb_email :: "string option"
  rb_password :: "string option"
  rb_phoneNumber :: "string option"
  rb_role :: "string option option"
  rb_venueId :: "string option"

definition register_role :: "register_body \<Rightarrow> string option" where
  "register_role b = (case rb_role b of None \<Rightarrow> Some ''user'' | Some r \<Rightarrow> r)"

definition register_check :: "register_body \<Rightarrow> bool" where
  "register_check b \<longleftrightarrow> truthy (rb_email b) \<and> truthy (rb_password b) \<and> truthy (rb_phoneNumber b)
     \<and> register_role b \<in> {Some ''user'', Some ''staff'', Some ''admin''}
     \<and> (register_role b = Some ''staff'' \<longrightarrow> truthy (rb_venueId b))"

definition pending_key :: "string \<Rightarrow> string" where
  "pending_key uid = ''pending_otp:'' @ uid"

text \<open>The code for the phone; every failure on the way is ignored.\<close>

definition send_pending :: "'x otp_api \<Rightarrow> string \<Rightarrow> string \<Rightarrow> ('n, 'x) sys \<Rightarrow> ('n, 'x) sys" where
  "send_pending otp uid phone s =
     (case call_service UNAVAILABLE (ep_send_otp otp phone) s of
        (Inl e, s1) \<Rightarrow> s1
      | (Inr sid, s1) \<Rightarrow>
          if sid = [] then s1 else snd (redis_do (redis_setex (pending_key uid) OTP_SID_TTL (RText sid)) s1))"

definition register ::
  "bcrypt_api \<Rightarrow> ('n::zero, 'x) credit_post \<Rightarrow> 'x otp_api \<Rightarrow> register_body \<Rightarrow> ('n, 'x) sys
    \<Rightarrow> (string \<times> string \<times> string \<times> int) reply \<times> ('n, 'x) sys" where
  "register bc post otp b s =
     (if \<not> register_check b then (Fail 400 ''VALIDATION_ERROR'', s)
      else case draw s of (r, s1) \<Rightarrow>
        let salt = gensalt bc r in
        (case hashpw bc (the (rb_password b)) salt of
           None \<Rightarrow> (unhandled, s1)
         | Some hashed \<Rightarrow>
             (case call_service UNAVAILABLE (ep_create_user \<lparr>ub_email = Some (rb_email b), ub_password = Some (Some hashed),
                  ub_salt = Some (Some salt), ub_phoneNumber = Some (rb_phoneNumber b), ub_role = Some (register_role b),
                  ub_isFlagged = None, ub_venueId = Some (rb_venueId b)\<rparr>) s1 of
                (Inl e, s2) \<Rightarrow>
                  if e = ''EMAIL_ALREADY_EXISTS'' then (Fail 409 ''EMAIL_ALREADY_EXISTS'', s2) else (Fail 400 e, s2)
              | (Inr u, s2) \<Rightarrow>
                  (case call_credit_post post (ud_userId u) 0 s2 of (e, s3) \<Rightarrow>
                     (Done 201 (ud_userId u, ud_email u, ud_role u, ud_createdAt u), send_pending otp (ud_userId u) (the (rb_phoneNumber b)) s3)))))"

definition verify_registration ::
  "jwt_api \<Rightarrow> 'x otp_api \<Rightarrow> string option \<Rightarrow> string option \<Rightarrow> ('n, 'x) sys \<Rightarrow> session reply \<times> ('n, 'x) sys" where
  "verify_registration jwt otp user_id otp_code s =
     (if \<not> truthy user_id \<or> \<not> truthy otp_code then (Fail 400 ''VALIDATION_ERROR'', s)
      else let uid = the user_id in
        (case redis_do id s of
           (False, s1) \<Rightarrow> (Fail 503 UNAVAILABLE, s1)
         | (True, s1) \<Rightarrow>
             (case redis_live (pending_key uid) (world (inventory s1)) of
                Some (RText sid) \<Rightarrow>
                  if sid = [] then (Fail 400 ''NO_PENDING_VERIFICATION'', s1)
                  else
                    (case call_service UNAVAILABLE (ep_get_user uid) s1 of
                       (Inl e, s2) \<Rightarrow> (Fail 404 ''USER_NOT_FOUND'', s2)
                     | (Inr u, s2) \<Rightarrow>
                         (case call_service UNAVAILABLE (ep_verify_otp otp sid (the otp_code) (us_phoneNumber u)) s2 of
                            (Inl e, s3) \<Rightarrow> (Fail 502 ''OTP_VERIFY_FAILED'', s3)
                          | (Inr False, s3) \<Rightarrow> (Fail 401 ''OTP_INVALID'', s3)
                          | (Inr True, s3) \<Rightarrow>
                              open_session jwt u (snd (redis_do (redis_delete (pending_key uid)) s3))))
              | _ \<Rightarrow> (Fail 400 ''NO_PENDING_VERIFICATION'', s1))))"

subsection \<open>Sessions\<close>

definition login ::
  "jwt_api \<Rightarrow> bcrypt_api \<Rightarrow> string option \<Rightarrow> string option \<Rightarrow> ('n, 'x) sys \<Rightarrow> session reply \<times> ('n, 'x) sys" where
  "login jwt bc email password s =
     (if \<not> truthy email \<or> \<not> truthy password then (Fail 400 ''VALIDATION_ERROR'', s)
      else
        (case call_service UNAVAILABLE (ep_user_by_email (the email)) s of
           (Inl e, s1) \<Rightarrow> (Fail 401 ''AUTH_INVALID_CREDENTIALS'', s1)
         | (Inr u, s1) \<Rightarrow>
             if us_isFlagged u then (Fail 403 ''AUTH_FORBIDDEN'', s1)
             else (case checkpw bc (the password) (us_password u) of
                     None \<Rightarrow> (unhandled, s1)
                   | Some False \<Rightarrow> (Fail 401 ''AUTH_INVALID_CREDENTIALS'', s1)
                   | Some True \<Rightarrow> open_session jwt u s1)))"

text \<open>
  The guarded routes. The state is the flag of the blacklist's client and the system, whose stores
  the blacklist shares.
\<close>

definition guarded ::
  "jwt_api \<Rightarrow> string option \<Rightarrow> (claims \<Rightarrow> bool \<times> ('n, 'x) sys \<Rightarrow> 'a reply \<times> bool \<times> ('n, 'x) sys)
    \<Rightarrow> bool \<times> ('n, 'x) sys \<Rightarrow> 'a reply \<times> bool \<times> ('n, 'x) sys" where
  "guarded jwt header f a =
     (case auth_require_auth jwt header (fst a, world (inventory (snd a))) of
        (Fail st e, c, w) \<Rightarrow> (Fail st e, c, on_infra (\<lambda>_. w) (snd a))
      | (Done st cl, c, w) \<Rightarrow> f cl (c, on_infra (\<lambda>_. w) (snd a)))"

record profile =
  pf_userId :: string
  pf_email :: string
  pf_phoneNumber :: string
  pf_role :: string
  pf_isFlagged :: bool
  pf_createdAt :: int

definition me :: "jwt_api \<Rightarrow> string option \<Rightarrow> bool \<times> ('n, 'x) sys \<Rightarrow> profile reply \<times> bool \<times> ('n, 'x) sys" where
  "me jwt header = guarded jwt header (\<lambda>cl a.
     case cl_userId cl of
       None \<Rightarrow> (unhandled, a)
     | Some uid \<Rightarrow>
         (case call_service UNAVAILABLE (ep_get_user uid) (snd a) of
            (Inl e, s1) \<Rightarrow> (Fail 404 ''USER_NOT_FOUND'', fst a, s1)
          | (Inr u, s1) \<Rightarrow> (Done 200 \<lparr>pf_userId = us_userId u, pf_email = us_email u, pf_phoneNumber = us_phoneNumber u,
              pf_role = us_role u, pf_isFlagged = us_isFlagged u, pf_createdAt = us_createdAt u\<rparr>, fst a, s1)))"

text \<open>The answer of a logout: whether the token went into the blacklist.\<close>

definition revoke_here :: "jwt_api \<Rightarrow> string \<Rightarrow> bool \<times> ('n, 'x) sys \<Rightarrow> bool \<times> bool \<times> ('n, 'x) sys" where
  "revoke_here jwt token a =
     (case revoke_token jwt token (fst a, world (inventory (snd a))) of
        (ok, c, w) \<Rightarrow> (ok, c, on_infra (\<lambda>_. w) (snd a)))"

definition logout :: "jwt_api \<Rightarrow> string option \<Rightarrow> bool \<times> ('n, 'x) sys \<Rightarrow> bool reply \<times> bool \<times> ('n, 'x) sys" where
  "logout jwt header = guarded jwt header (\<lambda>cl a.
     case bearer header of
       None \<Rightarrow> (Fail 401 ''AUTH_MISSING_TOKEN'', a)
     | Some token \<Rightarrow> (case revoke_here jwt token a of (ok, a1) \<Rightarrow> (Done 200 ok, a1)))"

definition logout_all :: "jwt_api \<Rightarrow> string option \<Rightarrow> bool \<times> ('n, 'x) sys \<Rightarrow> bool reply \<times> bool \<times> ('n, 'x) sys" where
  "logout_all jwt header = guarded jwt header (\<lambda>cl a.
     case bearer header of
       None \<Rightarrow> (Fail 401 ''AUTH_MISSING_TOKEN'', a)
     | Some token \<Rightarrow> (case revoke_here jwt token a of (ok, a1) \<Rightarrow> (Done 200 ok, a1)))"

subsection \<open>Lemmas: sessions\<close>

lemma token_claims_exp [simp]: "cl_exp (token_claims u j now) = Some (token_expiry now div 1000000)"
  by (simp add: token_claims_def)

lemma token_claims_who [simp]:
  "cl_userId (token_claims u j now) = Some (us_userId u)" "cl_role (token_claims u j now) = Some (us_role u)"
  "cl_jti (token_claims u j now) = Some j"
  by (simp_all add: token_claims_def)

lemma open_session_is:
  "open_session jwt u s =
    (Done 200 \<lparr>ss_token = jwt_encode jwt (token_claims u (fresh s (drawn s)) (time_now s)),
       ss_expiresAt = token_expiry (time_now s), ss_userId = us_userId u, ss_email = us_email u, ss_role = us_role u\<rparr>,
     s\<lparr>drawn := Suc (drawn s)\<rparr>)"
  by (simp add: open_session_def generate_token_def draw_def time_now_def)

text \<open>A login that succeeds: the user it is for and the session it opens. No row changes.\<close>

lemma login_success:
  assumes "login jwt bc em pw s = (Done st ss, s')"
  shows "\<exists>u j. find (\<lambda>u. us_email u = the em) (users s) = Some u \<and> \<not> us_isFlagged u
    \<and> checkpw bc (the pw) (us_password u) = Some True
    \<and> ss = \<lparr>ss_token = jwt_encode jwt (token_claims u j (time_now s)), ss_expiresAt = token_expiry (time_now s),
            ss_userId = us_userId u, ss_email = us_email u, ss_role = us_role u\<rparr>
    \<and> s' = s\<lparr>net := tl (net s), drawn := Suc (drawn s)\<rparr>"
proof -
  obtain r s1 where c: "call_service UNAVAILABLE (ep_user_by_email (the em)) s = (r, s1)" by fastforce
  with assms obtain u where r: "r = Inr u" and ok: "\<not> us_isFlagged u" "checkpw bc (the pw) (us_password u) = Some True"
    and os: "open_session jwt u s1 = (Done st ss, s')"
    by (auto simp: login_def unhandled_def split: if_splits sum.splits option.splits bool.splits)
  have s1: "s1 = s\<lparr>net := tl (net s)\<rparr>" and "\<exists>st. get_user_by_email (the em) (users s) = Done st u"
    using call_read [OF c [unfolded ep_user_by_email_def]] r by auto
  then have "find (\<lambda>u. us_email u = the em) (users s) = Some u"
    by (auto simp: get_user_by_email_def split: option.splits)
  with ok os s1 show ?thesis by (auto simp: open_session_is time_now_def)
qed

text \<open>A login answered while the network works.\<close>

lemma login_answered:
  assumes "net s = []" and "find (\<lambda>u. us_email u = em) (users s) = Some u" and "em \<noteq> []" and "pw \<noteq> []"
    and "\<not> us_isFlagged u" and "checkpw bc pw (us_password u) = Some True"
  shows "login jwt bc (Some em) (Some pw) s = open_session jwt u s"
  using assms by (simp add: login_def call_answered ep_user_by_email_def ep_read_def get_user_by_email_def)

subsection \<open>Lemmas: registering\<close>

lemma redis_do_frame: "redis_do f s = (ok, s') \<Longrightarrow> \<exists>w. s' = s\<lparr>inventory := (inventory s)\<lparr>world := w\<rparr>\<rparr>"
  by (auto simp: redis_do_def on_infra_def split: prod.splits)

lemma send_pending_frame:
  "\<exists>n i x. send_pending otp uid p s = s\<lparr>net := n, inventory := i, ext := x\<rparr> \<and> (net s = [] \<longrightarrow> n = [])"
proof -
  obtain r s1 where c: "call_service UNAVAILABLE (ep_send_otp otp p) s = (r, s1)" by fastforce
  obtain x where s1: "s1 = s\<lparr>net := tl (net s), ext := x\<rparr>" using call_send_otp [OF c] by blast
  obtain ok s2 where d: "redis_do (redis_setex (pending_key uid) OTP_SID_TTL (RText (projr r))) s1 = (ok, s2)" by fastforce
  obtain w where s2: "s2 = s1\<lparr>inventory := (inventory s1)\<lparr>world := w\<rparr>\<rparr>" using redis_do_frame [OF d] by blast
  have "send_pending otp uid p s = s1 \<or> send_pending otp uid p s = s2"
    using c d by (auto simp: send_pending_def split: sum.splits)
  then show ?thesis
  proof
    assume "send_pending otp uid p s = s1"
    with s1 show ?thesis by (intro exI [of _ "tl (net s)"] exI [of _ "inventory s"] exI [of _ x]) simp
  next
    assume "send_pending otp uid p s = s2"
    with s1 s2 show ?thesis
      by (intro exI [of _ "tl (net s)"] exI [of _ "(inventory s)\<lparr>world := w\<rparr>"] exI [of _ x]) simp
  qed
qed

text \<open>A registration that succeeds while the network works adds one user, with the role of the request.\<close>

lemma register_success:
  assumes "register bc post otp b s = (Done 201 v, s')" and "net s = []"
  shows "\<exists>u r. users s' = users s @ [u] \<and> net s' = [] \<and> rb_email b = Some (us_email u) \<and> us_email u \<noteq> []
    \<and> us_email u \<notin> us_email ` set (users s) \<and> truthy (rb_password b) \<and> Some (us_role u) = register_role b
    \<and> hashpw bc (the (rb_password b)) (gensalt bc r) = Some (us_password u) \<and> \<not> us_isFlagged u \<and> fst v = us_userId u"
proof -
  have chk: "register_check b" using assms by (auto simp: register_def split: if_splits)
  then obtain role where role: "register_role b = Some role" by (auto simp: register_check_def)
  let ?s1 = "s\<lparr>drawn := Suc (drawn s)\<rparr>"
  let ?salt = "gensalt bc (fresh s (drawn s))"
  obtain h where h: "hashpw bc (the (rb_password b)) ?salt = Some h"
    using assms chk by (cases "hashpw bc (the (rb_password b)) ?salt") (simp_all add: register_def draw_def unhandled_def)
  let ?b = "\<lparr>ub_email = Some (rb_email b), ub_password = Some (Some h), ub_salt = Some (Some ?salt),
    ub_phoneNumber = Some (rb_phoneNumber b), ub_role = Some (register_role b), ub_isFlagged = None,
    ub_venueId = Some (rb_venueId b)\<rparr>"
  obtain rep us where cu: "create_user ?b (fresh s (Suc (drawn s))) (time_now s) (users s) = (rep, us)" by fastforce
  have call: "call_service UNAVAILABLE (ep_create_user ?b) ?s1 =
      (case rep of Fail st c \<Rightarrow> Inl c | Done st v \<Rightarrow> Inr v, ?s1\<lparr>drawn := Suc (Suc (drawn s)), users := us\<rparr>)"
    using assms(2) cu by (simp add: call_answered ep_create_user_def draw_def time_now_def split: reply.splits)
  obtain ud where rep: "rep = Done 201 ud"
  proof (cases rep)
    case (Fail st c)
    then show ?thesis using assms(1) chk h call by (auto simp: register_def draw_def split: if_splits)
  next
    case (Done st ud)
    then show ?thesis using that create_user_effect [OF cu] by auto
  qed
  obtain e x where post: "post (ud_userId ud) 0 (ext s) = (e, x)" by fastforce
  let ?s3 = "s\<lparr>drawn := Suc (Suc (drawn s)), users := us, ext := x\<rparr>"
  have res: "v = (ud_userId ud, ud_email ud, ud_role ud, ud_createdAt ud)"
      "s' = send_pending otp (ud_userId ud) (the (rb_phoneNumber b)) ?s3"
    using assms(1) chk h call rep post by (simp_all add: register_def draw_def call_credit_post_def)
  then have "users s' = us" "net s' = []"
    using send_pending_frame [of otp "ud_userId ud" "the (rb_phoneNumber b)" ?s3] assms(2) by auto
  moreover obtain u where "us = users s @ [u]" "ud = user_to_dict False u" "rb_email b = Some (us_email u)"
      "us_email u \<notin> us_email ` set (users s)" "us_role u = role" "us_password u = h" "\<not> us_isFlagged u"
    using create_user_new [OF cu [unfolded rep]] role by (auto simp: or_default_def)
  ultimately show ?thesis
    using res role h chk
    by (intro exI [of _ u] exI [of _ "fresh s (drawn s)"]) (auto simp: user_to_dict_def register_check_def)
qed

subsection \<open>Lemmas: logging out\<close>

lemma world_on_infra [simp]: "world (inventory (on_infra f s)) = f (world (inventory s))"
  by (simp add: on_infra_def)

text \<open>A guarded route with a token that the blacklist does not have, while Redis answers.\<close>

lemma auth_require_auth_up:
  assumes "jwt_laws jwt" and "cl_exp c = Some e" and "blacklist_up b"
  shows "auth_require_auth jwt (Some (''Bearer '' @ jwt_encode jwt c)) b =
    (if secs e \<le> clock (snd b) then (Fail 401 ''AUTH_TOKEN_EXPIRED'', b)
     else if truthy (cl_jti c) then
       (if redis_live (BLACKLIST_PREFIX @ the (cl_jti c)) (snd b) \<noteq> None then (Fail 401 ''AUTH_TOKEN_REVOKED'', (True, snd b))
        else (Done 200 c, (True, snd b)))
     else (Done 200 c, b))"
  using jwt_decode_encode [OF assms(1,2)] is_blacklisted_up [OF assms(3)]
  by (simp add: auth_require_auth_def del: append.simps)

lemma logout_passed:
  assumes "auth_require_auth jwt h (k, world (inventory s)) = (Done 200 c, True, world (inventory s))"
    and "bearer h = Some tok"
  shows "logout jwt h (k, s) = (case revoke_here jwt tok (True, s) of (ok, a1) \<Rightarrow> (Done 200 ok, a1))"
proof -
  have "on_infra (\<lambda>_. world (inventory s)) s = s" by (simp add: on_infra_def)
  with assms show ?thesis by (simp add: logout_def guarded_def)
qed

lemma logout_answered:
  assumes "jwt_laws jwt" and "cl_exp c = Some e" and "e \<noteq> 0" and "truthy (cl_jti c)"
    and "redis_io (world (inventory s)) = []"
    and "logout jwt (Some (''Bearer '' @ jwt_encode jwt c)) (k, s) = (Done st r, k', s')"
  shows "\<exists>b. blacklist_token (the (cl_jti c)) e None (True, world (inventory s)) = (r, b) \<and> s' = on_infra (\<lambda>_. snd b) s"
proof -
  define h where "h = Some (''Bearer '' @ jwt_encode jwt c)"
  have up: "blacklist_up (k, world (inventory s))" using assms(5) by (simp add: blacklist_up_def)
  obtain rep b where g: "auth_require_auth jwt h (k, world (inventory s)) = (rep, b)" by (meson surj_pair)
  have "is_done rep"
    using assms(6) g unfolding h_def [symmetric] by (cases rep; cases b) (simp_all add: logout_def guarded_def)
  with auth_require_auth_up [OF assms(1,2) up] assms(4) g
  have g': "auth_require_auth jwt h (k, world (inventory s)) = (Done 200 c, True, world (inventory s))"
    unfolding h_def by (auto split: if_splits)
  have "bearer h = Some (jwt_encode jwt c)" unfolding h_def by (rule bearer_token)
  from logout_passed [OF g' this] assms(6)
  have "(case revoke_here jwt (jwt_encode jwt c) (True, s) of (ok, a1) \<Rightarrow> (Done 200 ok, a1)) = (Done st r, k', s')"
    unfolding h_def [symmetric] by simp
  then show ?thesis
    by (auto simp: revoke_here_def revoke_token_encoded [OF assms(1-4)] split: prod.splits)
qed

text \<open>Both routes do the same.\<close>

lemma logout_all_is_logout: "logout_all = logout"
  by (rule ext)+ (simp add: logout_def logout_all_def)

lemma blacklist_token_other:
  assumes "blacklist_token i e None (True, w) = (r, b)" and "j \<noteq> i"
  shows "redis_live (BLACKLIST_PREFIX @ j) (snd b) = redis_live (BLACKLIST_PREFIX @ j) w"
proof -
  obtain ok w1 where st: "redis_step w = (ok, w1)" by fastforce
  with assms show ?thesis
    by (cases ok) (auto simp: blacklist_token_def get_client_def redis_live_step [OF st])
qed

subsection \<open>Properties\<close>

text \<open>A bcrypt that keeps the password.\<close>

definition ex_bcrypt :: bcrypt_api where
  "ex_bcrypt = \<lparr>gensalt = id, hashpw = (\<lambda>p salt. Some (p @ salt)), checkpw = (\<lambda>p h. Some (take (length p) h = p))\<rparr>"

lemma ex_bcrypt_laws: "bcrypt_laws ex_bcrypt"
  by (simp add: bcrypt_laws_def ex_bcrypt_def)

definition ex_auth :: "(int, (string \<Rightarrow> int) \<times> bool) sys" where
  "ex_auth = ex_sys\<lparr>users := [ex_user]\<rparr>"

definition ex_claims :: "string \<Rightarrow> claims" where
  "ex_claims j = \<lparr>cl_userId = Some ''u1'', cl_email = Some ''ann@x.io'', cl_role = Some ''user'', cl_jti = Some j,
     cl_exp = Some 86400, cl_venueId = None\<rparr>"

definition ex_header :: "string \<Rightarrow> string option" where
  "ex_header j = Some (''Bearer '' @ jwt_encode ex_jwt (ex_claims j))"

definition ex_register :: register_body where
  "ex_register = \<lparr>rb_email = Some ''eve@x.io'', rb_password = Some ''pw'', rb_phoneNumber = Some ''+6592'',
     rb_role = Some (Some ''admin''), rb_venueId = None\<rparr>"

definition ex_otp_down :: "'x otp_api" where
  "ex_otp_down = \<lparr>smu_send = (\<lambda>p x. (SendFailed, x)), smu_verify = (\<lambda>sid otp x. (CheckFailed, x))\<rparr>"

lemma ex_auth_world: "world (inventory ex_auth) = ex_infra" "users ex_auth = [ex_user]" "net ex_auth = []"
  by (simp_all add: ex_auth_def ex_sys_def ex_held_def)

lemma ex_login: "login ex_jwt ex_bcrypt (Some ''ann@x.io'') (Some ''h1'') ex_auth = open_session ex_jwt ex_user ex_auth"
  by (rule login_answered) (simp_all add: ex_auth_world ex_user_def ex_bcrypt_def)

lemma ex_passes:
  assumes "j \<noteq> []"
  shows "auth_require_auth ex_jwt (ex_header j) (k, ex_infra) = (Done 200 (ex_claims j), True, ex_infra)"
proof -
  have "blacklist_up (k, ex_infra)" by (simp add: blacklist_up_def ex_infra_def)
  from auth_require_auth_up [OF ex_jwt_laws, of "ex_claims j" 86400 "(k, ex_infra)"] this assms show ?thesis
    by (simp add: ex_header_def ex_claims_def redis_live_def ex_infra_def secs_def del: append.simps append_Cons)
qed

lemma ex_logout: "\<exists>r k s. logout ex_jwt (ex_header ''j1'') (False, ex_auth) = (Done 200 r, k, s)"
proof -
  have "bearer (ex_header ''j1'') = Some (jwt_encode ex_jwt (ex_claims ''j1''))" unfolding ex_header_def by (rule bearer_token)
  from logout_passed [OF _ this, of ex_jwt False ex_auth] ex_passes [of "''j1''" False]
  show ?thesis by (simp add: ex_auth_world split: prod.splits)
qed





text \<open>
  Logging out everywhere ends one token. Every other token of the same user that
  passed the guard before still passes it afterwards, while Redis answers.
\<close>

theorem logout_all_ends_one_token:
  assumes "jwt_laws jwt" and "cl_exp c = Some e" and "e \<noteq> 0" and "truthy (cl_jti c)"
    and "redis_io (world (inventory s)) = []"
    and "logout_all jwt (Some (''Bearer '' @ jwt_encode jwt c)) (k, s) = (Done st r, k', s')"
    and "cl_userId d = cl_userId c" and "cl_jti d \<noteq> cl_jti c" and "cl_exp d = Some x" and "truthy (cl_jti d)"
    and "is_done (fst (auth_require_auth jwt (Some (''Bearer '' @ jwt_encode jwt d)) (k, world (inventory s))))"
  shows "fst (auth_require_auth jwt (Some (''Bearer '' @ jwt_encode jwt d)) (k', world (inventory s'))) = Done 200 d"
proof -
  obtain b where bl: "blacklist_token (the (cl_jti c)) e None (True, world (inventory s)) = (r, b)"
    and s': "s' = on_infra (\<lambda>_. snd b) s"
    using logout_answered [OF assms(1-5) assms(6) [unfolded logout_all_is_logout]] by blast
  have up: "blacklist_up (k, world (inventory s))" "blacklist_up (True, world (inventory s))"
    using assms(5) by (simp_all add: blacklist_up_def)
  have b: "blacklist_up (k', snd b)" "clock (snd b) = clock (world (inventory s))"
    using bl up(2) by (auto simp: blacklist_token_def blacklist_up_def get_client_def Let_def)
  have "the (cl_jti d) \<noteq> the (cl_jti c)" using assms(4,8,10) by (auto simp: truthy_iff)
  note other = blacklist_token_other [OF bl this]
  from auth_require_auth_up [OF assms(1,9) up(1)] assms(10,11)
  have "\<not> secs x \<le> clock (world (inventory s))"
    "redis_live (BLACKLIST_PREFIX @ the (cl_jti d)) (world (inventory s)) = None"
    by (auto simp del: append.simps append_Cons split: if_splits)
  then show ?thesis
    using auth_require_auth_up [OF assms(1,9) b(1)] assms(10) s' b(2) other by (simp del: append.simps append_Cons)
qed

theorem logout_all_ends_one_token_witness:
  "\<exists>r k s. logout_all ex_jwt (ex_header ''j1'') (False, ex_auth) = (Done 200 r, k, s)
    \<and> fst (auth_require_auth ex_jwt (ex_header ''j2'') (k, world (inventory s))) = Done 200 (ex_claims ''j2'')"
proof -
  obtain r k s where l: "logout_all ex_jwt (ex_header ''j1'') (False, ex_auth) = (Done 200 r, k, s)"
    unfolding logout_all_is_logout using ex_logout by blast
  have c: "cl_exp (ex_claims j) = Some 86400" "truthy (cl_jti (ex_claims ''j1''))" "truthy (cl_jti (ex_claims ''j2''))"
    "cl_userId (ex_claims ''j2'') = cl_userId (ex_claims ''j1'')" "cl_jti (ex_claims ''j2'') \<noteq> cl_jti (ex_claims ''j1'')" for j
    by (simp_all add: ex_claims_def)
  have up: "redis_io (world (inventory ex_auth)) = []" by (simp add: ex_auth_world ex_infra_def)
  have "is_done (fst (auth_require_auth ex_jwt (ex_header ''j2'') (False, world (inventory ex_auth))))"
    using ex_passes [of "''j2''" False] by (simp add: ex_auth_world)
  from logout_all_ends_one_token [OF ex_jwt_laws c(1) _ c(2) up l [unfolded ex_header_def] c(4,5,1,3),
      folded ex_header_def, OF _ this] l
  show ?thesis by simp
qed

text \<open>
  Property C29: an account can be used right after its registration, with the role the request
  chose. With a working network, a registration that succeeds is followed by a successful login
  with the same email and password, without the code sent to the phone; the session has the role
  that the request asked for, administration included.
\<close>

theorem register_then_login:
  assumes "bcrypt_laws bc" and "net s = []" and "register bc post otp b s = (Done 201 v, s')"
  shows "\<exists>ss s''. login jwt bc (rb_email b) (rb_password b) s' = (Done 200 ss, s'')
    \<and> ss_userId ss = fst v \<and> Some (ss_role ss) = register_role b"
proof -
  obtain u r where u: "users s' = users s @ [u]" "net s' = []" "rb_email b = Some (us_email u)" "us_email u \<noteq> []"
      "us_email u \<notin> us_email ` set (users s)" "truthy (rb_password b)" "Some (us_role u) = register_role b"
      "hashpw bc (the (rb_password b)) (gensalt bc r) = Some (us_password u)" "\<not> us_isFlagged u" "fst v = us_userId u"
    using register_success [OF assms(3,2)] by blast
  have f: "find (\<lambda>w. us_email w = us_email u) (users s') = Some u"
    unfolding u(1) by (rule find_unique) (use u(5) in \<open>auto intro: rev_image_eqI\<close>)
  have ck: "checkpw bc (the (rb_password b)) (us_password u) = Some True"
    using assms(1) u(8) unfolding bcrypt_laws_def by blast
  obtain pw where pw: "rb_password b = Some pw" "pw \<noteq> []" using u(6) by (auto simp: truthy_iff)
  show ?thesis
    using login_answered [OF u(2) f u(4) pw(2) u(9)] ck pw u(3,7,10) by (simp add: open_session_is)
qed

theorem register_then_login_witness:
  "\<exists>v s' ss s''. register ex_bcrypt (\<lambda>u v x. (None, x)) ex_otp_down ex_register ex_auth = (Done 201 v, s')
    \<and> login ex_jwt ex_bcrypt (Some ''eve@x.io'') (Some ''pw'') s' = (Done 200 ss, s'') \<and> ss_role ss = ''admin''"
proof -
  obtain v s' where reg: "register ex_bcrypt (\<lambda>u v x. (None, x)) ex_otp_down ex_register ex_auth = (Done 201 v, s')"
    by (simp add: register_def register_check_def register_role_def ex_register_def ex_bcrypt_def draw_def call_answered
        ep_create_user_def create_user_def or_default_def ex_auth_world ex_user_def unique_users_def Let_def
        time_now_def call_credit_post_def ex_auth_def ex_sys_def ex_fresh_def)
  obtain ss s'' where "login ex_jwt ex_bcrypt (Some ''eve@x.io'') (Some ''pw'') s' = (Done 200 ss, s'')" "ss_role ss = ''admin''"
    using register_then_login [OF ex_bcrypt_laws ex_auth_world(3) reg, of ex_jwt]
    by (auto simp: ex_register_def register_role_def)
  with reg show ?thesis by blast
qed

end
