(* ===== verification/EventService.thy ===== *)
theory EventService
  imports Catalog Queries
begin

text \<open>
  The event service (\<^verbatim>\<open>services/event-service\<close>): the routes of \<^verbatim>\<open>routes.py\<close> on the table of
  \<^verbatim>\<open>models.py\<close>, which the theory of the catalogue has with the lookup by id.

  The routes that need the current time ask the class \<^verbatim>\<open>datetime\<close> for an attribute \<^verbatim>\<open>timezone\<close>, which
  it does not have. The lemmas show what the routes keep of the table and what follows from that:
  no event is ever cancelled.
\<close>

subsection \<open>What a route answers\<close>

definition DEFAULT_IMAGE :: string where
  "DEFAULT_IMAGE = ''https://picsum.photos/seed/default-event/800/450''"

text \<open>\<^verbatim>\<open>Event.to_dict\<close>: a summary has neither the description nor the image (None).\<close>

record 'n event_dict =
  ed_eventId :: string
  ed_venueId :: string
  ed_name :: string
  ed_date :: datetime
  ed_type :: string
  ed_price :: 'n
  ed_cancelledAt :: "datetime option"
  ed_description :: "string option option"
  ed_image :: "string option"
  ed_createdAt :: int

definition event_to_dict :: "bool \<Rightarrow> 'n event \<Rightarrow> 'n event_dict" where
  "event_to_dict summary e =
     \<lparr>ed_eventId = ev_eventId e, ed_venueId = ev_venueId e, ed_name = ev_name e, ed_date = ev_date e,
      ed_type = ev_type e, ed_price = ev_price e, ed_cancelledAt = ev_cancelledAt e,
      ed_description = (if summary then None else Some (ev_description e)),
      ed_image = (if summary then None else Some (event_image e)), ed_createdAt = ev_createdAt e\<rparr>"

type_synonym 'n event_page = "'n event_dict list \<times> nat \<times> nat \<times> nat"

definition event_page_of :: "nat \<times> nat \<Rightarrow> 'n event list \<Rightarrow> 'n event_page" where
  "event_page_of pl chosen =
     (case pl of (p, l) \<Rightarrow> (map (event_to_dict True) (paginate p l chosen), p, l, length chosen))"

subsection \<open>Listing events\<close>

definition by_date_created :: "'n event list \<Rightarrow> 'n event list" where
  "by_date_created = sort_key (\<lambda>e. (utc_instant (ev_date e), ev_createdAt e))"

definition by_date :: "'n event list \<Rightarrow> 'n event list" where
  "by_date = sort_key (\<lambda>e. utc_instant (ev_date e))"

definition of_type :: "string option \<Rightarrow> 'n event \<Rightarrow> bool" where
  "of_type event_type e = (if truthy event_type then ilike (py_strip (the event_type)) (ev_type e) else True)"

definition list_events ::
  "int option \<Rightarrow> int option \<Rightarrow> string option \<Rightarrow> 'n event list \<Rightarrow> 'n event_page reply" where
  "list_events page limit event_type rows =
     (case page_params page limit of
        None \<Rightarrow> Fail 400 ''VALIDATION_ERROR''
      | Some pl \<Rightarrow> Done 200 (event_page_of pl (by_date_created (filter (of_type event_type) rows))))"

definition admin_list_events ::
  "int option \<Rightarrow> int option \<Rightarrow> string option \<Rightarrow> 'n event list \<Rightarrow> 'n event_page reply" where
  "admin_list_events page limit include_cancelled rows =
     (case page_params page limit of
        None \<Rightarrow> Fail 400 ''VALIDATION_ERROR''
      | Some pl \<Rightarrow> Done 200 (event_page_of pl (by_date_created
          (if include_cancelled = Some ''true'' then rows else filter (\<lambda>e. ev_cancelledAt e = None) rows))))"

text \<open>A null description matches no pattern.\<close>

definition search_events :: "string option \<Rightarrow> int option \<Rightarrow> int option \<Rightarrow> 'n event list \<Rightarrow> 'n event_page reply" where
  "search_events q page limit rows =
     (if or_empty q = [] then Fail 400 ''VALIDATION_ERROR''
      else case strict_page page limit of
        None \<Rightarrow> Fail 400 ''VALIDATION_ERROR''
      | Some pl \<Rightarrow>
          let search_term = ''%'' @ py_strip (or_empty q) @ ''%''
          in Done 200 (event_page_of pl (by_date (filter (\<lambda>e. ev_cancelledAt e = None
               \<and> (ilike search_term (ev_name e)
                  \<or> (case ev_description e of None \<Rightarrow> False | Some d \<Rightarrow> ilike search_term d))) rows))))"

definition list_event_types :: "(string \<times> string) list" where
  "list_event_types = [(''concert'', ''Concert''), (''sports'', ''Sports''), (''theater'', ''Theater''),
     (''conference'', ''Conference''), (''festival'', ''Festival''), (''other'', ''Other'')]"

subsection \<open>The current time\<close>

text \<open>
  \<^verbatim>\<open>datetime.now(datetime.timezone.utc)\<close> where the module imports the class: the class has no
  attribute \<^verbatim>\<open>timezone\<close>, so the expression raises AttributeError (None).
\<close>

definition class_utc_now :: "int \<Rightarrow> datetime option" where
  "class_utc_now now = None"

definition list_upcoming_events ::
  "int option \<Rightarrow> int option \<Rightarrow> string option \<Rightarrow> int \<Rightarrow> 'n event list \<Rightarrow> 'n event_page reply" where
  "list_upcoming_events page limit event_type now rows =
     (case strict_page page limit of
        None \<Rightarrow> Fail 400 ''VALIDATION_ERROR''
      | Some pl \<Rightarrow>
          (case class_utc_now now of
             None \<Rightarrow> Fail 500 ''INTERNAL_ERROR''
           | Some t \<Rightarrow> Done 200 (event_page_of pl (by_date (filter (\<lambda>e. ev_cancelledAt e = None
               \<and> utc_instant t \<le> utc_instant (ev_date e) \<and> of_type event_type e) rows)))))"

text \<open>\<^verbatim>\<open>updatedAt\<close> is no column, so publishing changes no row.\<close>

definition publish_event :: "string \<Rightarrow> int \<Rightarrow> 'n event list \<Rightarrow> 'n event_dict reply \<times> 'n event list" where
  "publish_event eid now rows =
     (case row_get ev_eventId eid rows of
        None \<Rightarrow> (Fail 404 ''EVENT_NOT_FOUND'', rows)
      | Some e \<Rightarrow>
          if ev_cancelledAt e \<noteq> None then (Fail 400 ''EVENT_CANCELLED'', rows)
          else (case class_utc_now now of
             None \<Rightarrow> (Fail 500 ''INTERNAL_ERROR'', rows)
           | Some t \<Rightarrow>
               (case py_before (ev_date e) t of
                  None \<Rightarrow> (Fail 500 ''INTERNAL_ERROR'', rows)
                | Some True \<Rightarrow> (Fail 400 ''EVENT_IN_PAST'', rows)
                | Some False \<Rightarrow> (Done 200 (event_to_dict False e), rows))))"

definition cancel_row :: "datetime \<Rightarrow> 'n event \<Rightarrow> 'n event" where
  "cancel_row t e = e\<lparr>ev_cancelledAt := Some (stored t)\<rparr>"

definition delete_event :: "string \<Rightarrow> int \<Rightarrow> 'n event list \<Rightarrow> 'n event_dict reply \<times> 'n event list" where
  "delete_event eid now rows =
     (case row_get ev_eventId eid rows of
        None \<Rightarrow> (Fail 404 ''EVENT_NOT_FOUND'', rows)
      | Some e \<Rightarrow>
          if ev_cancelledAt e \<noteq> None then (Fail 400 ''EVENT_ALREADY_CANCELLED'', rows)
          else (case class_utc_now now of
             None \<Rightarrow> (Fail 500 ''INTERNAL_ERROR'', rows)
           | Some t \<Rightarrow> (Done 200 (event_to_dict False (cancel_row t e)), row_upd ev_eventId eid (cancel_row t) rows)))"

text \<open>The reason of the request is only repeated in the answer.\<close>

definition cancel_event ::
  "string \<Rightarrow> string option \<Rightarrow> int \<Rightarrow> 'n event list \<Rightarrow> ('n event_dict \<times> string option) reply \<times> 'n event list" where
  "cancel_event eid reason now rows =
     (case row_get ev_eventId eid rows of
        None \<Rightarrow> (Fail 404 ''EVENT_NOT_FOUND'', rows)
      | Some e \<Rightarrow>
          if ev_cancelledAt e \<noteq> None then (Fail 400 ''EVENT_ALREADY_CANCELLED'', rows)
          else (case class_utc_now now of
             None \<Rightarrow> (Fail 500 ''INTERNAL_ERROR'', rows)
           | Some t \<Rightarrow> (Done 200 (event_to_dict False (cancel_row t e), if truthy reason then reason else None),
                       row_upd ev_eventId eid (cancel_row t) rows)))"

subsection \<open>Creating and changing events\<close>

text \<open>
  \<^verbatim>\<open>parse_datetime\<close>: None or an empty text is None, another text is a datetime or ValueError.
\<close>

datatype parsed = NoDate | Date datetime | BadDate

fun parse_datetime :: "tstext option \<Rightarrow> parsed" where
  "parse_datetime None = NoDate"
| "parse_datetime (Some TEmpty) = NoDate"
| "parse_datetime (Some (TIso d)) = Date d"
| "parse_datetime (Some TBad) = BadDate"

record 'n event_body =
  eb_venueId :: "string option option"
  eb_name :: "string option option"
  eb_date :: "tstext option option"
  eb_type :: "string option option"
  eb_price :: "'n option option"
  eb_description :: "string option"
  eb_image :: "string option"

text \<open>A row without an image gets the default of its column; a null in a required column fails.\<close>

definition insert_event ::
  "string option \<times> string option \<times> datetime option \<times> string option \<times> 'n option \<Rightarrow> string option \<Rightarrow> string option
    \<Rightarrow> string \<Rightarrow> int \<Rightarrow> 'n event list \<Rightarrow> 'n event option \<times> 'n event list" where
  "insert_event cols descr img uuid now rows =
     (case cols of
        (Some v, Some n, Some d, Some ty, Some pr) \<Rightarrow>
          let e = \<lparr>ev_eventId = uuid, ev_venueId = v, ev_name = n, ev_date = stored d, ev_description = descr,
                   ev_type = ty, ev_image = (case img of None \<Rightarrow> Some DEFAULT_IMAGE | Some i \<Rightarrow> Some i), ev_price = pr,
                   ev_cancelledAt = None, ev_createdAt = now\<rparr>
          in if distinct (map ev_eventId (rows @ [e])) then (Some e, rows @ [e]) else (None, rows)
      | _ \<Rightarrow> (None, rows))"

record created_event =
  ce_eventId :: string
  ce_venueId :: string
  ce_name :: string
  ce_createdAt :: int

definition create_event ::
  "'n event_body \<Rightarrow> string \<Rightarrow> int \<Rightarrow> 'n event list \<Rightarrow> created_event reply \<times> 'n event list" where
  "create_event b uuid now rows =
     (case (eb_venueId b, eb_name b, eb_date b, eb_type b, eb_price b) of
        (Some v, Some n, Some d, Some ty, Some pr) \<Rightarrow>
          if parse_datetime d = BadDate then (Fail 400 ''INVALID_DATE'', rows)
          else let day = (case parse_datetime d of Date t \<Rightarrow> Some t | _ \<Rightarrow> None) in
            (case insert_event (v, n, day, ty, pr) (eb_description b) (eb_image b) uuid now rows of
               (None, rows') \<Rightarrow> (Fail 500 ''INTERNAL_ERROR'', rows')
             | (Some e, rows') \<Rightarrow>
                 (Done 201 \<lparr>ce_eventId = ev_eventId e, ce_venueId = ev_venueId e, ce_name = ev_name e,
                           ce_createdAt = ev_createdAt e\<rparr>, rows'))
      | _ \<Rightarrow> (Fail 400 ''VALIDATION_ERROR'', rows))"

text \<open>The name of a copy: absent, null or a text.\<close>

definition duplicate_event ::
  "string \<Rightarrow> string option option \<Rightarrow> string \<Rightarrow> int \<Rightarrow> 'n event list \<Rightarrow> 'n event_dict reply \<times> 'n event list" where
  "duplicate_event eid name uuid now rows =
     (case row_get ev_eventId eid rows of
        None \<Rightarrow> (Fail 404 ''EVENT_NOT_FOUND'', rows)
      | Some e \<Rightarrow>
          let new_name = (case name of None \<Rightarrow> Some (ev_name e @ '' (Copy)'') | Some n \<Rightarrow> n) in
          (case insert_event (Some (ev_venueId e), new_name, Some (ev_date e), Some (ev_type e), Some (ev_price e))
                  (ev_description e) (ev_image e) uuid now rows of
             (None, rows') \<Rightarrow> (Fail 500 ''INTERNAL_ERROR'', rows')
           | (Some c, rows') \<Rightarrow> (Done 201 (event_to_dict False c), rows')))"

datatype 'n event_field =
    EvVenueId "string option"
  | EvName "string option"
  | EvDate "tstext option"
  | EvDescription "string option"
  | EvType "string option"
  | EvImage "string option"
  | EvPrice "'n option"
  | EvOther string

primrec event_field_key :: "'n event_field \<Rightarrow> string" where
  "event_field_key (EvVenueId x) = ''venueId''"
| "event_field_key (EvName x) = ''name''"
| "event_field_key (EvDate x) = ''date''"
| "event_field_key (EvDescription x) = ''description''"
| "event_field_key (EvType x) = ''type''"
| "event_field_key (EvImage x) = ''image''"
| "event_field_key (EvPrice x) = ''price''"
| "event_field_key (EvOther k) = k"

definition event_UPDATABLE_FIELDS :: "string list" where
  "event_UPDATABLE_FIELDS = [''venueId'', ''name'', ''date'', ''description'', ''type'', ''image'', ''price'']"

fun bad_event_date :: "'n event_field \<Rightarrow> bool" where
  "bad_event_date (EvDate x) = (parse_datetime x = BadDate)"
| "bad_event_date f = False"

text \<open>A null in a NOT NULL column is not written: the commit fails.\<close>

fun set_event_field :: "'n event_field \<Rightarrow> 'n event \<Rightarrow> 'n event" where
  "set_event_field (EvVenueId (Some x)) e = e\<lparr>ev_venueId := x\<rparr>"
| "set_event_field (EvName (Some x)) e = e\<lparr>ev_name := x\<rparr>"
| "set_event_field (EvDate (Some (TIso d))) e = e\<lparr>ev_date := stored d\<rparr>"
| "set_event_field (EvDescription x) e = e\<lparr>ev_description := x\<rparr>"
| "set_event_field (EvType (Some x)) e = e\<lparr>ev_type := x\<rparr>"
| "set_event_field (EvImage x) e = e\<lparr>ev_image := x\<rparr>"
| "set_event_field (EvPrice (Some x)) e = e\<lparr>ev_price := x\<rparr>"
| "set_event_field f e = e"

fun null_event_column :: "'n event_field \<Rightarrow> bool" where
  "null_event_column (EvVenueId x) = (x = None)"
| "null_event_column (EvName x) = (x = None)"
| "null_event_column (EvDate x) = (parse_datetime x = NoDate)"
| "null_event_column (EvType x) = (x = None)"
| "null_event_column (EvPrice x) = (x = None)"
| "null_event_column f = False"

definition set_event_fields :: "'n event_field list \<Rightarrow> 'n event \<Rightarrow> 'n event" where
  "set_event_fields body e = fold set_event_field body e"

definition save_event :: "string \<Rightarrow> 'n event_field list \<Rightarrow> 'n event list \<Rightarrow> 'n event list" where
  "save_event eid body rows = row_upd ev_eventId eid (set_event_fields body) rows"

definition update_event ::
  "string \<Rightarrow> 'n event_field list \<Rightarrow> 'n event list \<Rightarrow> 'n event_dict reply \<times> 'n event list" where
  "update_event eid body rows =
     (if body = [] then (Fail 400 ''VALIDATION_ERROR'', rows)
      else if \<not> list_all (\<lambda>f. event_field_key f \<in> set event_UPDATABLE_FIELDS) body then
        (Fail 400 ''VALIDATION_ERROR'', rows)
      else case row_get ev_eventId eid rows of
        None \<Rightarrow> (Fail 404 ''EVENT_NOT_FOUND'', rows)
      | Some e \<Rightarrow>
          if ev_cancelledAt e \<noteq> None then (Fail 400 ''EVENT_CANCELLED'', rows)
          else if list_ex bad_event_date body then (Fail 400 ''INVALID_DATE'', rows)
          else if list_ex null_event_column body then (Fail 500 ''INTERNAL_ERROR'', rows)
          else (Done 200 (event_to_dict False (set_event_fields body e)), save_event eid body rows))"

subsection \<open>Lemmas\<close>

lemma set_event_field_keeps [simp]:
  "ev_eventId (set_event_field f e) = ev_eventId e"
  "ev_cancelledAt (set_event_field f e) = ev_cancelledAt e"
  "ev_createdAt (set_event_field f e) = ev_createdAt e"
  by (cases "(f, e)" rule: set_event_field.cases; simp)+

lemma set_event_fields_keeps [simp]:
  "ev_eventId (set_event_fields body e) = ev_eventId e"
  "ev_cancelledAt (set_event_fields body e) = ev_cancelledAt e"
  "ev_createdAt (set_event_fields body e) = ev_createdAt e"
  unfolding set_event_fields_def by (induction body arbitrary: e) simp_all

interpretation event_table: keyed_table ev_eventId save_event set_event_fields
  by unfold_locales (simp_all add: save_event_def)

text \<open>Ids are unique, dates are naive, and no event is cancelled.\<close>

definition event_ok :: "'n event \<Rightarrow> bool" where
  "event_ok e \<longleftrightarrow> is_naive (ev_date e) \<and> ev_cancelledAt e = None"

definition events_ok :: "'n event list \<Rightarrow> bool" where
  "events_ok rows \<longleftrightarrow> distinct (map ev_eventId rows) \<and> list_all event_ok rows"

lemma set_event_field_ok: "event_ok e \<Longrightarrow> event_ok (set_event_field f e)"
  by (cases "(f, e)" rule: set_event_field.cases) (simp_all add: event_ok_def)

lemma set_event_fields_ok: "event_ok e \<Longrightarrow> event_ok (set_event_fields body e)"
  unfolding set_event_fields_def by (induction body arbitrary: e) (simp_all add: set_event_field_ok)

lemma insert_event_effect:
  assumes "insert_event cols descr img uuid now rows = (r, rows')"
  shows "(r = None \<and> rows' = rows) \<or> (\<exists>e. r = Some e \<and> rows' = rows @ [e] \<and> distinct (map ev_eventId rows')
    \<and> event_ok e \<and> ev_eventId e = uuid)"
proof (cases cols)
  case (fields v n d ty pr)
  with assms show ?thesis
    by (simp add: insert_event_def Let_def split: option.splits if_splits) (auto simp: event_ok_def)
qed

lemma insert_event_ok: "events_ok rows \<Longrightarrow> events_ok (snd (insert_event cols descr img uuid now rows))"
  using insert_event_effect [OF surjective_pairing, of cols descr img uuid now rows] by (auto simp: events_ok_def)

text \<open>The routes that insert leave the table as the insertion does.\<close>

lemma snd_of_insert:
  "snd (case p of (None, rows) \<Rightarrow> (a, rows) | (Some e, rows) \<Rightarrow> (f e, rows)) = snd p"
  by (simp split: prod.splits option.splits)

lemma snd_create_event:
  "snd (create_event b uuid now rows) = rows \<or> (\<exists>e. snd (create_event b uuid now rows) = rows @ [e])"
proof -
  have "snd (insert_event cols descr img uuid now rows) = rows
      \<or> (\<exists>e. snd (insert_event cols descr img uuid now rows) = rows @ [e])" for cols descr img
    using insert_event_effect [OF surjective_pairing, of cols descr img uuid now rows] by auto
  then show ?thesis by (simp add: create_event_def Let_def snd_of_insert split: option.split)
qed

lemma create_event_ok: "events_ok rows \<Longrightarrow> events_ok (snd (create_event b uuid now rows))"
  by (simp add: create_event_def Let_def snd_of_insert insert_event_ok split: option.split)

lemma duplicate_event_ok: "events_ok rows \<Longrightarrow> events_ok (snd (duplicate_event eid name uuid now rows))"
  by (simp add: duplicate_event_def Let_def snd_of_insert insert_event_ok split: option.split)

lemma update_event_ok:
  assumes "events_ok rows"
  shows "events_ok (snd (update_event eid body rows))"
proof -
  have "events_ok (save_event eid body rows)"
    using assms row_upd_all [of event_ok rows ev_eventId eid "set_event_fields body"]
    by (simp add: events_ok_def event_table.keys_upd) (simp add: save_event_def set_event_fields_ok)
  with assms show ?thesis by (simp add: update_event_def split: option.splits)
qed

text \<open>The routes that ask for the current time fail or refuse.\<close>

lemma publish_event_fails: "\<not> is_done (fst (publish_event eid now rows)) \<and> snd (publish_event eid now rows) = rows"
  by (simp add: publish_event_def class_utc_now_def split: option.split)

lemma delete_event_fails: "\<not> is_done (fst (delete_event eid now rows)) \<and> snd (delete_event eid now rows) = rows"
  by (simp add: delete_event_def class_utc_now_def split: option.split)

lemma cancel_event_fails: "\<not> is_done (fst (cancel_event eid reason now rows)) \<and> snd (cancel_event eid reason now rows) = rows"
  by (simp add: cancel_event_def class_utc_now_def split: option.split)

lemma list_upcoming_events_fails: "\<not> is_done (list_upcoming_events page limit ty now rows)"
  by (simp add: list_upcoming_events_def class_utc_now_def split: option.split)

subsection \<open>Properties\<close>

definition ex_gala :: "int event" where
  "ex_gala = \<lparr>ev_eventId = ''e1'', ev_venueId = ''v1'', ev_name = ''Gala'', ev_date = Naive 90000, ev_description = None,
     ev_type = ''concert'', ev_image = None, ev_price = 40, ev_cancelledAt = None, ev_createdAt = 0\<rparr>"

lemma ex_gala_ok: "events_ok [ex_gala]"
  by (simp add: events_ok_def event_ok_def ex_gala_def)

text \<open>
  No event is ever cancelled or published. The routes that publish, delete, cancel or
  list coming events fail on an attribute that does not exist: they never succeed and change
  nothing. Every other route, with any request, keeps ids unique, dates naive and every event not
  cancelled.
\<close>

theorem events_never_cancelled:
  assumes "events_ok rows"
  shows "\<not> is_done (fst (publish_event eid now rows)) \<and> snd (publish_event eid now rows) = rows
    \<and> \<not> is_done (fst (delete_event eid now rows)) \<and> snd (delete_event eid now rows) = rows
    \<and> \<not> is_done (fst (cancel_event eid reason now rows)) \<and> snd (cancel_event eid reason now rows) = rows
    \<and> \<not> is_done (list_upcoming_events page limit ty now rows)
    \<and> events_ok (snd (create_event b uuid now rows)) \<and> events_ok (snd (duplicate_event eid name uuid now rows))
    \<and> events_ok (snd (update_event eid body rows))"
  by (simp add: publish_event_fails delete_event_fails cancel_event_fails list_upcoming_events_fails
      create_event_ok duplicate_event_ok update_event_ok assms)

theorem events_never_cancelled_witness:
  "\<not> is_done (fst (cancel_event ''e1'' None 5 [ex_gala]))
    \<and> events_ok (snd (update_event ''e1'' [EvDate (Some (TIso (Aware 7)))] [ex_gala]))"
  using events_never_cancelled [OF ex_gala_ok] by blast

end
