(* ===== verification/EventOrchestrator.thy ===== *)
theory EventOrchestrator
  imports System EventService TokenBlacklist
begin

text \<open>
  The event orchestrator (\<^verbatim>\<open>orchestrators/event-orchestrator/routes.py\<close>): the catalogue that buyers
  see, put together from the events, venues, seats and the inventory, and the administration's
  dashboard and creation of events, which fills the inventory with the seats of the venue.

  The lemmas give what a creation that succeeds leaves in the tables and what one that fails can
  leave behind.
\<close>

subsection \<open>Calls\<close>

text \<open>The error code of a timeout in this client.\<close>

definition CATALOG_TIMEOUT :: string where
  "CATALOG_TIMEOUT = ''SERVICE_TIMEOUT''"

definition fetch :: "(('n, 'x) sys \<Rightarrow> 'a reply) \<Rightarrow> ('n, 'x) sys \<Rightarrow> (string + 'a) \<times> ('n, 'x) sys" where
  "fetch f s = call_service CATALOG_TIMEOUT (ep_read f) s"

text \<open>A call whose error is dropped.\<close>

definition fetch_opt :: "(('n, 'x) sys \<Rightarrow> 'a reply) \<Rightarrow> ('n, 'x) sys \<Rightarrow> 'a option \<times> ('n, 'x) sys" where
  "fetch_opt f s = (case fetch f s of (Inl e, s1) \<Rightarrow> (None, s1) | (Inr v, s1) \<Rightarrow> (Some v, s1))"

definition inventory_of :: "string \<Rightarrow> ('n, 'x) sys \<Rightarrow> seat list reply" where
  "inventory_of eid s = Done 200 (list_inventory_by_event eid (seats (inventory s)))"

definition seats_of_venue :: "string \<Rightarrow> ('n, 'x) sys \<Rightarrow> place list reply" where
  "seats_of_venue vid s = Done 200 (list_seats_for_venue vid (places s))"

definition ep_create_event :: "'n event_body \<Rightarrow> ('n, 'x, created_event) endpoint" where
  "ep_create_event b s =
     (case draw s of (uuid, s1) \<Rightarrow>
        (case create_event b uuid (time_now s1) (events s1) of (r, es) \<Rightarrow> (r, s1\<lparr>events := es\<rparr>)))"

text \<open>The keys of the new rows are the next values drawn.\<close>

definition ep_inventory_batch :: "string \<Rightarrow> seat_entry list \<Rightarrow> ('n, 'x, nat) endpoint" where
  "ep_inventory_batch eid entries s =
     (case create_inventory_batch (Some eid) (SeatsList entries) (\<lambda>k. fresh s (drawn s + k)) True (time_now s)
             (seats (inventory s)) of
        (r, rows) \<Rightarrow> (r, s\<lparr>drawn := drawn s + length entries, inventory := (inventory s)\<lparr>seats := rows\<rparr>\<rparr>))"

subsection \<open>The catalogue\<close>

definition orch_list_venues :: "('n, 'x) sys \<Rightarrow> venue list reply \<times> ('n, 'x) sys" where
  "orch_list_venues s =
     (case fetch (\<lambda>s. Done 200 (list_venues (venues s))) s of
        (Inl e, s1) \<Rightarrow> (Fail 503 UNAVAILABLE, s1) | (Inr vs, s1) \<Rightarrow> (Done 200 vs, s1))"

text \<open>What an answer shows of a venue.\<close>

definition venue_card :: "venue \<Rightarrow> string \<times> string \<times> string" where
  "venue_card v = (ve_venueId v, ve_name v, ve_address v)"

record 'n event_view =
  vw_event :: "'n event_dict"
  vw_venue :: "(string \<times> string \<times> string) option"
  vw_seatsAvailable :: nat

definition enrich_event :: "'n event_dict \<Rightarrow> ('n, 'x) sys \<Rightarrow> 'n event_view \<times> ('n, 'x) sys" where
  "enrich_event e s =
     (case (if ed_venueId e \<noteq> [] then fetch_opt (\<lambda>s. get_venue (ed_venueId e) (venues s)) s else (None, s)) of
        (v, s1) \<Rightarrow>
      case fetch_opt (inventory_of (ed_eventId e)) s1 of
        (stock, s2) \<Rightarrow>
          (\<lparr>vw_event = e, vw_venue = map_option venue_card v,
            vw_seatsAvailable = (case stock of None \<Rightarrow> 0
              | Some rows \<Rightarrow> length (filter (\<lambda>r. seat_status r = ''available'') rows))\<rparr>, s2))"

fun enrich_events :: "'n event_dict list \<Rightarrow> ('n, 'x) sys \<Rightarrow> 'n event_view list \<times> ('n, 'x) sys" where
  "enrich_events [] s = ([], s)"
| "enrich_events (e # es) s =
     (case enrich_event e s of (v, s1) \<Rightarrow> (case enrich_events es s1 of (vs, s2) \<Rightarrow> (v # vs, s2)))"

text \<open>The limit is checked and cut here before it is checked again by the service.\<close>

definition orch_list_events ::
  "int option \<Rightarrow> int option \<Rightarrow> string option \<Rightarrow> ('n, 'x) sys
    \<Rightarrow> ('n event_view list \<times> nat \<times> nat \<times> nat) reply \<times> ('n, 'x) sys" where
  "orch_list_events page limit event_type s =
     (case page_params page limit of
        None \<Rightarrow> (Fail 400 ''VALIDATION_ERROR'', s)
      | Some (p, l) \<Rightarrow>
          (case fetch (\<lambda>s. list_events (Some (int p)) (Some (int l)) event_type (events s)) s of
             (Inl e, s1) \<Rightarrow> (Fail 503 UNAVAILABLE, s1)
           | (Inr (es, pagination), s1) \<Rightarrow>
               (case enrich_events es s1 of (vs, s2) \<Rightarrow> (Done 200 (vs, pagination), s2))))"

definition orch_get_event ::
  "string \<Rightarrow> ('n, 'x) sys \<Rightarrow> ('n event_dict \<times> venue option) reply \<times> ('n, 'x) sys" where
  "orch_get_event eid s =
     (case fetch (\<lambda>s. get_event eid (events s)) s of
        (Inl e, s1) \<Rightarrow>
          if e = ''EVENT_NOT_FOUND'' then (Fail 404 ''EVENT_NOT_FOUND'', s1) else (Fail 503 UNAVAILABLE, s1)
      | (Inr ev, s1) \<Rightarrow>
          (case fetch_opt (\<lambda>s. get_venue (ev_venueId ev) (venues s)) s1 of
             (v, s2) \<Rightarrow> (Done 200 (event_to_dict False ev, v), s2)))"

record 'n seat_info =
  si_inventoryId :: string
  si_seatId :: string
  si_status :: string
  si_heldUntil :: "datetime option"
  si_rowNumber :: "string option"
  si_seatNumber :: "string option"
  si_price :: 'n

text \<open>The lookup by seat id that the loop builds: a later seat replaces an earlier one of the same id.\<close>

definition seat_lookup :: "place list option \<Rightarrow> string \<Rightarrow> place option" where
  "seat_lookup ps sid = find (\<lambda>p. pl_seatId p = sid) (rev (case ps of None \<Rightarrow> [] | Some xs \<Rightarrow> xs))"

definition seat_info_of :: "'n \<Rightarrow> place list option \<Rightarrow> seat \<Rightarrow> 'n seat_info" where
  "seat_info_of price ps r =
     (let p = seat_lookup ps (seatId r) in
      \<lparr>si_inventoryId = inventoryId r, si_seatId = seatId r, si_status = seat_status r, si_heldUntil = heldUntil r,
       si_rowNumber = map_option pl_rowNumber p, si_seatNumber = map_option pl_seatNumber p, si_price = price\<rparr>)"

definition get_seat_map :: "string \<Rightarrow> ('n, 'x) sys \<Rightarrow> 'n seat_info list reply \<times> ('n, 'x) sys" where
  "get_seat_map eid s =
     (case fetch (\<lambda>s. get_event eid (events s)) s of
        (Inl e, s1) \<Rightarrow> (Fail 404 ''EVENT_NOT_FOUND'', s1)
      | (Inr ev, s1) \<Rightarrow>
          (case fetch (inventory_of eid) s1 of
             (Inl e, s2) \<Rightarrow> (Fail 503 UNAVAILABLE, s2)
           | (Inr rows, s2) \<Rightarrow>
               (case fetch_opt (seats_of_venue (ev_venueId ev)) s2 of
                  (ps, s3) \<Rightarrow> (Done 200 (map (seat_info_of (ev_price ev) ps) rows), s3))))"

text \<open>A seat as the inventory lists it: without the holder and the token.\<close>

record seat_dict =
  sd_inventoryId :: string
  sd_eventId :: string
  sd_seatId :: string
  sd_status :: string
  sd_heldUntil :: "datetime option"
  sd_createdAt :: int
  sd_updatedAt :: int

definition seat_to_dict :: "seat \<Rightarrow> seat_dict" where
  "seat_to_dict r =
     \<lparr>sd_inventoryId = inventoryId r, sd_eventId = seat_eventId r, sd_seatId = seatId r, sd_status = seat_status r,
      sd_heldUntil = heldUntil r, sd_createdAt = seat_createdAt r, sd_updatedAt = seat_updatedAt r\<rparr>"

definition get_seat_detail ::
  "string \<Rightarrow> string \<Rightarrow> ('n, 'x) sys
    \<Rightarrow> (seat_dict \<times> (string \<times> string \<times> datetime \<times> 'n) \<times> (string \<times> string \<times> string) option) reply \<times> ('n, 'x) sys" where
  "get_seat_detail eid iid s =
     (case fetch (\<lambda>s. get_event eid (events s)) s of
        (Inl e, s1) \<Rightarrow> (Fail 404 ''EVENT_NOT_FOUND'', s1)
      | (Inr ev, s1) \<Rightarrow>
          (case fetch (inventory_of eid) s1 of
             (Inl e, s2) \<Rightarrow> (Fail 503 UNAVAILABLE, s2)
           | (Inr rows, s2) \<Rightarrow>
               (case find (\<lambda>r. inventoryId r = iid) rows of
                  None \<Rightarrow> (Fail 404 ''SEAT_NOT_FOUND'', s2)
                | Some r \<Rightarrow>
                    (case fetch_opt (\<lambda>s. get_venue (ev_venueId ev) (venues s)) s2 of
                       (v, s3) \<Rightarrow> (Done 200 (seat_to_dict r, (ev_eventId ev, ev_name ev, ev_date ev, ev_price ev),
                                           map_option venue_card v), s3)))))"

subsection \<open>The dashboard\<close>

record attendee =
  at_seatId :: string
  at_rowNumber :: "string option"
  at_seatNumber :: "string option"
  at_email :: string

text \<open>The ticket of a seat: the last of the list that has its inventory id.\<close>

definition ticket_of :: "'n ticket list \<Rightarrow> string \<Rightarrow> 'n ticket option" where
  "ticket_of ks iid = find (\<lambda>k. tk_inventoryId k = iid \<and> iid \<noteq> []) (rev ks)"

definition attendee_of ::
  "'n ticket list \<Rightarrow> place list option \<Rightarrow> seat \<Rightarrow> ('n, 'x) sys \<Rightarrow> attendee \<times> ('n, 'x) sys" where
  "attendee_of ks ps r s =
     (let p = seat_lookup ps (seatId r) in
      case (case ticket_of ks (inventoryId r) of
              None \<Rightarrow> ([], s)
            | Some k \<Rightarrow>
                (case fetch_opt (\<lambda>s. get_user (tk_ownerId k) (users s)) s of
                   (u, s1) \<Rightarrow> (case u of None \<Rightarrow> [] | Some u' \<Rightarrow> us_email u', s1))) of
        (email, s1) \<Rightarrow>
          (\<lparr>at_seatId = seatId r, at_rowNumber = map_option pl_rowNumber p, at_seatNumber = map_option pl_seatNumber p,
            at_email = email\<rparr>, s1))"

fun attendees_of ::
  "'n ticket list \<Rightarrow> place list option \<Rightarrow> seat list \<Rightarrow> ('n, 'x) sys \<Rightarrow> attendee list \<times> ('n, 'x) sys" where
  "attendees_of ks ps [] s = ([], s)"
| "attendees_of ks ps (r # rs) s =
     (case attendee_of ks ps r s of (a, s1) \<Rightarrow> (case attendees_of ks ps rs s1 of (as, s2) \<Rightarrow> (a # as, s2)))"

record 'n dashboard =
  da_seatsSold :: nat
  da_totalSeats :: nat
  da_revenue :: 'n
  da_attendees :: "attendee list"

definition get_event_dashboard ::
  "jwt_api \<Rightarrow> string option \<Rightarrow> string \<Rightarrow> ('n::{zero,plus}, 'x) sys \<Rightarrow> 'n dashboard reply \<times> ('n, 'x) sys" where
  "get_event_dashboard jwt header eid s =
     (case require_admin jwt header (time_now s) of
        Fail st c \<Rightarrow> (Fail st c, s)
      | Done st c \<Rightarrow>
          (case fetch (\<lambda>s. get_event eid (events s)) s of
             (Inl e, s1) \<Rightarrow> (Fail 404 ''EVENT_NOT_FOUND'', s1)
           | (Inr ev, s1) \<Rightarrow>
               (case fetch (inventory_of eid) s1 of
                  (Inl e, s2) \<Rightarrow> (Fail 503 UNAVAILABLE, s2)
                | (Inr rows, s2) \<Rightarrow>
                    (case fetch_opt (\<lambda>s. Done 200 (get_tickets_by_event eid (tickets s))) s2 of
                       (kr, s3) \<Rightarrow>
                         let ks = (case kr of None \<Rightarrow> [] | Some xs \<Rightarrow> xs);
                             sold = filter (\<lambda>r. seat_status r = ''sold'') rows
                         in (case fetch_opt (seats_of_venue (ev_venueId ev)) s3 of
                               (ps, s4) \<Rightarrow>
                                 (case attendees_of ks ps sold s4 of
                                    (as, s5) \<Rightarrow>
                                      (Done 200 \<lparr>da_seatsSold = length sold, da_totalSeats = length rows,
                                         da_revenue = foldl (+) 0 (map tk_price ks), da_attendees = as\<rparr>, s5)))))))"

subsection \<open>Creating an event\<close>

text \<open>
  The body. The venue may be under two names; the price is the first value of the price tiers, which
  are empty when absent; the description is absent, null or a text.
\<close>

record 'n admin_event_body =
  ab_name :: "string option"
  ab_type :: "string option"
  ab_venueId :: "string option"
  ab_venue_id :: "string option"
  ab_event_date :: "tstext option"
  ab_pricing_tiers :: "'n option list"
  ab_description :: "string option option"
  ab_image :: "string option"

definition body_venue :: "'n admin_event_body \<Rightarrow> string option" where
  "body_venue b = (if truthy (ab_venueId b) then ab_venueId b else ab_venue_id b)"

definition admin_event_payload :: "'n::zero admin_event_body \<Rightarrow> 'n event_body" where
  "admin_event_payload b =
     \<lparr>eb_venueId = Some (body_venue b), eb_name = Some (ab_name b), eb_date = Some (ab_event_date b),
      eb_type = Some (ab_type b),
      eb_price = Some (case ab_pricing_tiers b of [] \<Rightarrow> Some 0 | p # ps \<Rightarrow> p),
      eb_description = (case ab_description b of None \<Rightarrow> Some [] | Some d \<Rightarrow> d), eb_image = ab_image b\<rparr>"

definition admin_event_check :: "'n admin_event_body \<Rightarrow> bool" where
  "admin_event_check b \<longleftrightarrow> truthy (ab_name b) \<and> truthy (ab_type b) \<and> truthy (body_venue b)
     \<and> ab_event_date b \<notin> {None, Some TEmpty}"

definition fill_inventory :: "string \<Rightarrow> string \<Rightarrow> ('n, 'x) sys \<Rightarrow> (string \<times> nat) reply \<times> ('n, 'x) sys" where
  "fill_inventory eid vid s =
     (case fetch (seats_of_venue vid) s of
        (Inl e, s1) \<Rightarrow> (Fail 503 ''SEAT_SERVICE_ERROR'', s1)
      | (Inr ps, s1) \<Rightarrow>
          (case call_service CATALOG_TIMEOUT (ep_inventory_batch eid
                  (map (\<lambda>p. SeatEntry (Some (pl_seatId p)) (StatusText ''available'')) ps)) s1 of
             (Inl e, s2) \<Rightarrow> (Fail 503 ''INVENTORY_ERROR'', s2)
           | (Inr n, s2) \<Rightarrow> (Done 201 (eid, length ps), s2)))"

definition create_event_admin ::
  "jwt_api \<Rightarrow> string option \<Rightarrow> 'n::zero admin_event_body \<Rightarrow> ('n, 'x) sys \<Rightarrow> (string \<times> nat) reply \<times> ('n, 'x) sys" where
  "create_event_admin jwt header b s =
     (case require_admin jwt header (time_now s) of
        Fail st c \<Rightarrow> (Fail st c, s)
      | Done st c \<Rightarrow>
          if \<not> admin_event_check b then (Fail 400 ''VALIDATION_ERROR'', s)
          else let vid = the (body_venue b) in
            (case fetch (\<lambda>s. get_venue vid (venues s)) s of
               (Inl e, s1) \<Rightarrow> (Fail 404 ''VENUE_NOT_FOUND'', s1)
             | (Inr v, s1) \<Rightarrow>
                 (case call_service CATALOG_TIMEOUT (ep_create_event (admin_event_payload b)) s1 of
                    (Inl e, s2) \<Rightarrow> (Fail 503 ''EVENT_SERVICE_ERROR'', s2)
                  | (Inr ce, s2) \<Rightarrow> fill_inventory (ce_eventId ce) vid s2)))"

subsection \<open>Lemmas\<close>

lemma fetch_shape:
  assumes "fetch f s = (r, s')"
  shows "s' = s\<lparr>net := tl (net s)\<rparr> \<and> (\<forall>v. r = Inr v \<longrightarrow> (\<exists>st. f (s\<lparr>net := tl (net s)\<rparr>) = Done st v))"
  using call_read [OF assms [unfolded fetch_def]] .

lemma fetch_opt_shape: "fetch_opt f s = (r, s') \<Longrightarrow> s' = s\<lparr>net := tl (net s)\<rparr>"
  by (auto simp: fetch_opt_def split: prod.splits sum.splits dest: fetch_shape)

lemma call_create_event:
  assumes "call_service tmo (ep_create_event b) s = (r, s')"
  shows "\<exists>t d. s' = s\<lparr>net := tl (net s), drawn := d, events := t\<rparr>
    \<and> ((\<exists>c. r = Inl c) \<and> t = events s
       \<or> (\<exists>rep. create_event b (fresh s (drawn s)) (time_now s) (events s) = (rep, t) \<and> outcome r rep))"
  using assms
proof (cases rule: call_service_cases)
  case (lost c)
  then show ?thesis by (intro exI [of _ "events s"] exI [of _ "drawn s"]) simp
qed (auto simp: ep_create_event_def draw_def time_now_def split: prod.splits)

lemma call_inventory_batch:
  assumes "call_service tmo (ep_inventory_batch eid xs) s = (r, s')"
  shows "\<exists>t d. s' = s\<lparr>net := tl (net s), drawn := d, inventory := (inventory s)\<lparr>seats := t\<rparr>\<rparr>
    \<and> ((\<exists>c. r = Inl c) \<and> t = seats (inventory s)
       \<or> (\<exists>rep. create_inventory_batch (Some eid) (SeatsList xs) (\<lambda>k. fresh s (drawn s + k)) True (time_now s) (seats (inventory s))
            = (rep, t) \<and> outcome r rep))"
  using assms
proof (cases rule: call_service_cases)
  case (lost c)
  then show ?thesis by (intro exI [of _ "seats (inventory s)"] exI [of _ "drawn s"]) simp
qed (auto simp: ep_inventory_batch_def time_now_def split: prod.splits)

text \<open>The entries that a creation sends, and the rows they become.\<close>

definition venue_entries :: "place list \<Rightarrow> seat_entry list" where
  "venue_entries ps = map (\<lambda>p. SeatEntry (Some (pl_seatId p)) (StatusText ''available'')) ps"

lemma normalize_venue_entries:
  "normalize_seats (venue_entries ps) =
    (if list_all (\<lambda>p. pl_seatId p \<noteq> []) ps then Some (map (\<lambda>p. (pl_seatId p, ''available'')) ps) else None)"
  by (induction ps) (auto simp: venue_entries_def)

lemma venue_entries_Nil [simp]: "venue_entries ps = [] \<longleftrightarrow> ps = []"
  by (simp add: venue_entries_def)

definition opened_for :: "string \<Rightarrow> place list \<Rightarrow> seat list \<Rightarrow> bool" where
  "opened_for eid ps created \<longleftrightarrow> map seatId created = map pl_seatId ps \<and> created \<noteq> []
     \<and> list_all (\<lambda>r. seat_eventId r = eid \<and> seat_status r = ''available'' \<and> heldByUserId r = None) created"

lemma batch_opens:
  assumes "create_inventory_batch (Some eid) (SeatsList (venue_entries ps)) uuids True now rows = (Done st n, rows')"
  shows "\<exists>created. rows' = rows @ created \<and> opened_for eid ps created \<and> (\<forall>r \<in> set rows. seat_eventId r \<noteq> eid)"
proof -
  let ?norm = "map (\<lambda>p. (pl_seatId p, ''available'')) ps"
  let ?new = "map (\<lambda>(k, d). new_seat now eid (uuids k) d) (enumerate 0 ?norm)"
  have eff: "rows' = rows @ ?new" "ps \<noteq> []" "\<forall>r \<in> set rows. seat_eventId r \<noteq> eid"
    using assms by (auto simp: create_inventory_batch_def Let_def normalize_venue_entries
        split: if_splits option.splits)
  have "map seatId ?new = map (fst \<circ> snd) (enumerate 0 ?norm)" by (simp add: new_seat_def case_prod_beta)
  also have "\<dots> = map fst (map snd (enumerate 0 ?norm))" by (simp only: map_map)
  also have "\<dots> = map fst ?norm" by (simp only: map_snd_enumerate)
  also have "\<dots> = map pl_seatId ps" by simp
  finally have ids: "map seatId ?new = map pl_seatId ps" .
  have "d = (fst d, ''available'')" if "(k, d) \<in> set (enumerate 0 ?norm)" for k d
  proof -
    from that have "d \<in> snd ` set (enumerate 0 ?norm)" by (rule rev_image_eqI) simp
    then have "d \<in> set ?norm" by (metis list.set_map map_snd_enumerate)
    then show ?thesis by auto
  qed
  then have "list_all (\<lambda>r. seat_eventId r = eid \<and> seat_status r = ''available'' \<and> heldByUserId r = None) ?new"
    by (fastforce simp: list_all_iff new_seat_def)
  with ids eff show ?thesis unfolding opened_for_def by (intro exI [of _ ?new]) auto
qed

lemma batch_without_seats:
  "create_inventory_batch e (SeatsList (venue_entries [])) uuids ok now rows = (Fail 400 ''VALIDATION_ERROR'', rows)"
  by (simp add: create_inventory_batch_def venue_entries_def)

lemma fill_inventory_effect:
  assumes "fill_inventory eid vid s = (rep, s')"
  shows "\<exists>n d t. s' = s\<lparr>net := n, drawn := d, inventory := (inventory s)\<lparr>seats := t\<rparr>\<rparr>
    \<and> (\<forall>st e k. rep = Done st (e, k) \<longrightarrow> e = eid \<and> k = length (list_seats_for_venue vid (places s))
        \<and> (\<exists>created. t = seats (inventory s) @ created \<and> opened_for eid (list_seats_for_venue vid (places s)) created
             \<and> (\<forall>r \<in> set (seats (inventory s)). seat_eventId r \<noteq> eid)))
    \<and> (list_seats_for_venue vid (places s) = [] \<longrightarrow> \<not> is_done rep \<and> t = seats (inventory s))"
proof -
  obtain r s1 where f: "fetch (seats_of_venue vid) s = (r, s1)" by fastforce
  have s1: "s1 = s\<lparr>net := tl (net s)\<rparr>" and ps: "\<And>v. r = Inr v \<Longrightarrow> v = list_seats_for_venue vid (places s)"
    using fetch_shape [OF f] by (auto simp: seats_of_venue_def)
  show ?thesis
  proof (cases r)
    case (Inl e)
    with assms f s1 show ?thesis
      by (intro exI [of _ "tl (net s)"] exI [of _ "drawn s"] exI [of _ "seats (inventory s)"]) (auto simp: fill_inventory_def)
  next
    case (Inr v)
    note v = ps [OF Inr]
    obtain q s2 where c: "call_service CATALOG_TIMEOUT (ep_inventory_batch eid (venue_entries v)) s1 = (q, s2)" by fastforce
    obtain t d where s2: "s2 = s1\<lparr>net := tl (net s1), drawn := d, inventory := (inventory s1)\<lparr>seats := t\<rparr>\<rparr>"
      and out: "(\<exists>c. q = Inl c) \<and> t = seats (inventory s1) \<or> (\<exists>rep. create_inventory_batch (Some eid) (SeatsList (venue_entries v))
          (\<lambda>k. fresh s1 (drawn s1 + k)) True (time_now s1) (seats (inventory s1)) = (rep, t) \<and> outcome q rep)"
      using call_inventory_batch [OF c] by blast
    have res: "s' = s2" "\<And>st e k. rep = Done st (e, k) \<Longrightarrow> e = eid \<and> k = length v \<and> (\<exists>n. q = Inr n)"
        "is_done rep \<Longrightarrow> \<exists>n. q = Inr n"
      using assms f Inr c by (auto simp: fill_inventory_def venue_entries_def split: sum.splits)
    have opens: "\<exists>created. t = seats (inventory s) @ created \<and> opened_for eid v created
        \<and> (\<forall>r \<in> set (seats (inventory s)). seat_eventId r \<noteq> eid)" if "q = Inr n" for n
      using out that s1 batch_opens [of eid v _ _ _ _ n t] by (auto simp: outcome_def split: reply.splits)
    have "v = [] \<Longrightarrow> (\<exists>c. q = Inl c) \<and> t = seats (inventory s)"
      using out s1 by (cases q) (auto simp: batch_without_seats)
    then show ?thesis
      using res opens s1 s2 v
      by (intro exI [of _ "tl (tl (net s))"] exI [of _ d] exI [of _ t]) (auto simp: sum.distinct)
  qed
qed

lemma fill_inventory_done:
  assumes "fill_inventory eid vid s = (Done st (e, k), s')"
  shows "\<exists>n d created. s' = s\<lparr>net := n, drawn := d, inventory := (inventory s)\<lparr>seats := seats (inventory s) @ created\<rparr>\<rparr>
    \<and> e = eid \<and> k = length created \<and> opened_for eid (list_seats_for_venue vid (places s)) created
    \<and> (\<forall>r \<in> set (seats (inventory s)). seat_eventId r \<noteq> eid)"
proof -
  obtain n d t where s': "s' = s\<lparr>net := n, drawn := d, inventory := (inventory s)\<lparr>seats := t\<rparr>\<rparr>"
    and e: "e = eid" "k = length (list_seats_for_venue vid (places s))"
    and "\<exists>created. t = seats (inventory s) @ created \<and> opened_for eid (list_seats_for_venue vid (places s)) created
             \<and> (\<forall>r \<in> set (seats (inventory s)). seat_eventId r \<noteq> eid)"
    using fill_inventory_effect [OF assms] by blast
  then obtain created where c: "t = seats (inventory s) @ created"
      "opened_for eid (list_seats_for_venue vid (places s)) created"
      "\<forall>r \<in> set (seats (inventory s)). seat_eventId r \<noteq> eid" by blast
  have "length created = k" using c(2) e(2) unfolding opened_for_def by (metis length_map)
  with s' e c show ?thesis by (intro exI [of _ n] exI [of _ d] exI [of _ created]) simp
qed

text \<open>The guard of administration answers 401 or 403, or the claims of an administrator.\<close>

lemma require_admin_cases:
  obtains (no) st c where "require_admin jwt h now = Fail st c" "st \<noteq> 503"
  | (yes) cl where "require_admin jwt h now = Done 200 cl" "cl_role cl = Some ''admin''"
proof (cases "require_admin jwt h now")
  case (Fail st c)
  then have "st \<noteq> 503"
    by (auto simp: require_admin_def require_auth_def split: reply.splits option.splits decoded.splits if_splits)
  with Fail no show thesis by blast
next
  case (Done st cl)
  then have "st = 200"
    by (auto simp: require_admin_def require_auth_def split: reply.splits option.splits decoded.splits if_splits)
  with Done yes require_admin_role [OF Done] show thesis by blast
qed

text \<open>The state before the inventory is filled.\<close>

lemma create_event_new:
  assumes "create_event (admin_event_payload b) uuid now rows = (Done st ce, rows')"
  shows "\<exists>e. rows' = rows @ [e] \<and> ce_eventId ce = ev_eventId e \<and> ev_eventId e = uuid \<and> event_ok e
    \<and> body_venue b = Some (ev_venueId e) \<and> ab_name b = Some (ev_name e) \<and> ab_type b = Some (ev_type e)"
  using assms
  by (auto simp: create_event_def admin_event_payload_def insert_event_def Let_def event_ok_def
      split: if_splits option.splits prod.splits list.splits)

lemma create_event_admin_steps:
  assumes "create_event_admin jwt header b s = (rep, s')"
  obtains (early) "\<not> is_done rep" "rep \<noteq> Fail 503 ''INVENTORY_ERROR''" "seats (inventory s') = seats (inventory s)"
      "events s' = events s \<or> (\<exists>e. events s' = events s @ [e])"
  | (filled) cl e n d where "require_admin jwt header (time_now s) = Done 200 cl" "cl_role cl = Some ''admin''"
      "body_venue b = Some (ev_venueId e)" "ab_name b = Some (ev_name e)" "ab_type b = Some (ev_type e)" "event_ok e"
      "fill_inventory (ev_eventId e) (ev_venueId e) (s\<lparr>net := n, drawn := d, events := events s @ [e]\<rparr>) = (rep, s')"
proof (cases jwt header "time_now s" rule: require_admin_cases)
  case (no st c)
  then show ?thesis using assms by (intro early) (auto simp: create_event_admin_def)
next
  case a: (yes cl)
  show ?thesis
  proof (cases "admin_event_check b")
    case False
    then show ?thesis using assms a by (intro early) (auto simp: create_event_admin_def)
  next
    case True
  obtain r s1 where f: "fetch (\<lambda>s. get_venue (the (body_venue b)) (venues s)) s = (r, s1)" by fastforce
  have s1: "s1 = s\<lparr>net := tl (net s)\<rparr>" using fetch_shape [OF f] by blast
  obtain q s2 where cc: "call_service CATALOG_TIMEOUT (ep_create_event (admin_event_payload b)) s1 = (q, s2)" by fastforce
  obtain t d where s2: "s2 = s1\<lparr>net := tl (net s1), drawn := d, events := t\<rparr>"
    and out: "(\<exists>c. q = Inl c) \<and> t = events s1 \<or> (\<exists>rep. create_event (admin_event_payload b) (fresh s1 (drawn s1)) (time_now s1)
        (events s1) = (rep, t) \<and> outcome q rep)"
    using call_create_event [OF cc] by blast
  show ?thesis
  proof (cases r)
    case (Inl e)
    then show ?thesis using assms True a f s1 by (intro early) (auto simp: create_event_admin_def)
  next
    case (Inr v)
    show ?thesis
    proof (cases q)
      case (Inl e)
      have "t = events s \<or> (\<exists>x. t = events s @ [x])"
        using out s1 snd_create_event [of "admin_event_payload b" "fresh s1 (drawn s1)" "time_now s1" "events s1"]
        by auto
      then show ?thesis using assms True a f Inr cc Inl s1 s2 by (intro early) (auto simp: create_event_admin_def)
    next
      case q: (Inr ce)
      obtain st' where "create_event (admin_event_payload b) (fresh s1 (drawn s1)) (time_now s1) (events s1) = (Done st' ce, t)"
        using out q by (auto simp: outcome_def split: reply.splits)
      from create_event_new [OF this] obtain e where e: "t = events s1 @ [e]" "ce_eventId ce = ev_eventId e" "event_ok e"
          "body_venue b = Some (ev_venueId e)" "ab_name b = Some (ev_name e)" "ab_type b = Some (ev_type e)" by blast
      have "fill_inventory (ev_eventId e) (ev_venueId e) s2 = (rep, s')"
        using assms True a f Inr cc q e by (simp add: create_event_admin_def)
      then show ?thesis using filled [OF a e(4,5,6,3), of d "tl (tl (net s))"] s1 s2 e(1) by simp
    qed
  qed
qed
qed

subsection \<open>Properties\<close>

text \<open>A venue with two seats, one without, and the token of an administrator.\<close>

definition ex_venue :: "string \<Rightarrow> venue" where
  "ex_venue i = \<lparr>ve_venueId = i, ve_name = ''Hall'', ve_capacity = 2, ve_address = ''1 Road'', ve_postalCode = None,
     ve_coordinates = None, ve_isActive = True, ve_createdAt = 0\<rparr>"

definition ex_place :: "string \<Rightarrow> place" where
  "ex_place i = \<lparr>pl_seatId = i, pl_venueId = ''v1'', pl_seatNumber = i, pl_rowNumber = ''A'', pl_createdAt = 0\<rparr>"

definition ex_catalog :: "(int, (string \<Rightarrow> int) \<times> bool) sys" where
  "ex_catalog = ex_sys\<lparr>venues := [ex_venue ''v1'', ex_venue ''v2''], places := [ex_place ''1'', ex_place ''2'']\<rparr>"

definition ex_admin :: claims where
  "ex_admin = \<lparr>cl_userId = Some ''u9'', cl_email = None, cl_role = Some ''admin'', cl_jti = None, cl_exp = None, cl_venueId = None\<rparr>"

definition ex_admin_header :: "string option" where
  "ex_admin_header = Some (''Bearer '' @ jwt_encode ex_jwt ex_admin)"

definition ex_new_event :: "string \<Rightarrow> int admin_event_body" where
  "ex_new_event v = \<lparr>ab_name = Some ''Opera'', ab_type = Some ''theater'', ab_venueId = Some v, ab_venue_id = None,
     ab_event_date = Some (TIso (Aware 70)), ab_pricing_tiers = [Some 30], ab_description = None, ab_image = None\<rparr>"

lemma ex_admin_passes: "require_admin ex_jwt ex_admin_header now = Done 200 ex_admin"
proof -
  have "bearer ex_admin_header = Some (jwt_encode ex_jwt ex_admin)" unfolding ex_admin_header_def by (rule bearer_token)
  moreover have "jwt_decode ex_jwt (jwt_encode ex_jwt ex_admin) now = Decoded ex_admin"
    using ex_jwt_laws by (simp add: jwt_laws_def ex_admin_def)
  ultimately show ?thesis by (simp add: require_admin_def require_auth_def) (simp add: ex_admin_def)
qed

lemmas ex_creation = create_event_admin_def ex_admin_passes admin_event_check_def body_venue_def ex_new_event_def fetch_def
  call_answered ep_read_def get_venue_def ex_venue_def ep_create_event_def admin_event_payload_def create_event_def
  insert_event_def draw_def fill_inventory_def seats_of_venue_def list_seats_for_venue_def ex_place_def ep_inventory_batch_def
  create_inventory_batch_def new_seat_def unique_seats_def ex_event_def ex_fresh_def ex_catalog_def ex_sys_def ex_seat_defs
  commit_seat_def claim_def



text \<open>
  An event at a venue without seats is left behind. For such a venue the creation
  never succeeds and never changes the inventory; when the answer is that the inventory could not be
  made, the event stays, without any seat.
\<close>

theorem venue_without_seats:
  assumes "list_seats_for_venue (the (body_venue b)) (places s) = []"
    and "create_event_admin jwt header b s = (rep, s')"
  shows "\<not> is_done rep \<and> seats (inventory s') = seats (inventory s)
    \<and> (events s' = events s \<or> (\<exists>e. events s' = events s @ [e]))
    \<and> (rep = Fail 503 ''INVENTORY_ERROR'' \<longrightarrow> (\<exists>e. events s' = events s @ [e]))"
  using assms(2)
proof (cases rule: create_event_admin_steps)
  case (filled cl e k d)
  have "events s' = events s @ [e]" "\<not> is_done rep" "seats (inventory s') = seats (inventory s)"
    using fill_inventory_effect [OF filled(7)] assms(1) filled(3) by auto
  then show ?thesis by simp
qed blast

theorem venue_without_seats_witness:
  "\<exists>s' e. create_event_admin ex_jwt ex_admin_header (ex_new_event ''v2'') ex_catalog = (Fail 503 ''INVENTORY_ERROR'', s')
    \<and> events s' = events ex_catalog @ [e] \<and> seats (inventory s') = seats (inventory ex_catalog)"
proof -
  obtain s' where c: "create_event_admin ex_jwt ex_admin_header (ex_new_event ''v2'') ex_catalog = (Fail 503 ''INVENTORY_ERROR'', s')"
    by (simp add: ex_creation)
  have "list_seats_for_venue (the (body_venue (ex_new_event ''v2''))) (places ex_catalog) = []"
    by (simp add: ex_catalog_def ex_place_def list_seats_for_venue_def body_venue_def ex_new_event_def)
  from venue_without_seats [OF this c] c show ?thesis by blast
qed

end
