(* ===== verification/ServiceClient.thy ===== *)
theory ServiceClient
  imports Prelude
begin

text \<open>
  The HTTP client of the purchase orchestrator
  (\<^verbatim>\<open>orchestrators/ticket-purchase-orchestrator/service_client.py\<close>): a circuit breaker per service,
  retries of reads within one time budget, the limit on the size of an answer, and the slots that
  bound the number of calls under way.

  The clock is \<^verbatim>\<open>time.monotonic()\<close> in microseconds. What the network does is an input: one entry per
  request that the client sends. The lemmas show when the breaker lets a request through, how many
  requests a call sends, that a call ends within its budget, and that the slots are never
  overdrawn.
\<close>

subsection \<open>The circuit breaker\<close>

datatype cb_state = CLOSED | OPEN | HALF_OPEN

record circuit =
  ci_state :: cb_state
  ci_failure_count :: nat
  ci_last_failure :: "int option"
  ci_half_open_successes :: nat

definition CIRCUIT_BREAKER_FAILURE_THRESHOLD :: nat where
  "CIRCUIT_BREAKER_FAILURE_THRESHOLD = 3"

definition CIRCUIT_BREAKER_RECOVERY_SECONDS :: int where
  "CIRCUIT_BREAKER_RECOVERY_SECONDS = 30"

definition CIRCUIT_BREAKER_HALF_OPEN_MAX_REQUESTS :: nat where
  "CIRCUIT_BREAKER_HALF_OPEN_MAX_REQUESTS = 1"

definition new_circuit :: circuit where
  "new_circuit = \<lparr>ci_state = CLOSED, ci_failure_count = 0, ci_last_failure = None, ci_half_open_successes = 0\<rparr>"

definition should_attempt_reset :: "int \<Rightarrow> circuit \<Rightarrow> bool" where
  "should_attempt_reset now c =
     (case ci_last_failure c of None \<Rightarrow> True | Some t \<Rightarrow> now - t \<ge> secs CIRCUIT_BREAKER_RECOVERY_SECONDS)"

text \<open>The guard at the start of \<^verbatim>\<open>call\<close>; None is CircuitBreakerOpenError.\<close>

definition cb_enter :: "int \<Rightarrow> circuit \<Rightarrow> circuit option" where
  "cb_enter now c =
     (if ci_state c = OPEN then
        (if should_attempt_reset now c then Some (c\<lparr>ci_state := HALF_OPEN, ci_half_open_successes := 0\<rparr>) else None)
      else Some c)"

definition on_success :: "circuit \<Rightarrow> circuit" where
  "on_success c =
     (if ci_state c = HALF_OPEN then
        (let c1 = c\<lparr>ci_half_open_successes := Suc (ci_half_open_successes c)\<rparr>
         in if CIRCUIT_BREAKER_HALF_OPEN_MAX_REQUESTS \<le> ci_half_open_successes c1
            then c1\<lparr>ci_state := CLOSED, ci_failure_count := 0\<rparr> else c1)
      else c\<lparr>ci_failure_count := 0\<rparr>)"

definition on_failure :: "int \<Rightarrow> circuit \<Rightarrow> circuit" where
  "on_failure now c =
     (let c1 = c\<lparr>ci_failure_count := Suc (ci_failure_count c), ci_last_failure := Some now\<rparr>
      in if CIRCUIT_BREAKER_FAILURE_THRESHOLD \<le> ci_failure_count c1 then c1\<lparr>ci_state := OPEN\<rparr> else c1)"

subsection \<open>Reading an answer\<close>

definition MAX_RESPONSE_BYTES :: nat where
  "MAX_RESPONSE_BYTES = 1024 * 1024"

text \<open>
  An answer of a service: its status, the sizes of the chunks of its body, what \<^verbatim>\<open>json.loads\<close> makes of
  the whole body (None for ValueError), and the error code inside that value when it has one. The
  exceptions of the transport are kept apart as the client does: those it retries and the others.
\<close>

record 'j answer =
  an_status :: nat
  an_chunks :: "nat list"
  an_json :: "'j option"
  an_code :: "string option"

datatype 'j fate = Transient | OtherHttpError | Answer "'j answer"

datatype 'j read = Payload 'j | EmptyPayload | HTTPError nat string | InvalidResponse

definition error_code :: "string option \<Rightarrow> string" where
  "error_code c =
     (case c of Some t \<Rightarrow> if 0 < length t \<and> length t \<le> 128 then t else ''SERVICE_UNAVAILABLE''
      | None \<Rightarrow> ''SERVICE_UNAVAILABLE'')"

fun within_limit :: "nat \<Rightarrow> nat list \<Rightarrow> bool" where
  "within_limit n [] = True"
| "within_limit n (c # cs) = (n + c \<le> MAX_RESPONSE_BYTES \<and> within_limit (n + c) cs)"

definition is_success :: "nat \<Rightarrow> bool" where
  "is_success st \<longleftrightarrow> 200 \<le> st \<and> st \<le> 299"

definition read_response :: "string \<Rightarrow> 'j answer \<Rightarrow> 'j read" where
  "read_response meth a =
     (if \<not> within_limit 0 (an_chunks a) then InvalidResponse
      else let body = sum_list (an_chunks a);
               decoded = (if body = 0 then None else an_json a)
        in if \<not> is_success (an_status a) then
             HTTPError (an_status a) (error_code (if decoded = None then None else an_code a))
           else if an_status a \<in> {204, 205} \<or> meth = ''HEAD'' then EmptyPayload
           else (case decoded of None \<Rightarrow> InvalidResponse | Some j \<Rightarrow> Payload j))"

subsection \<open>A call with its retries\<close>

definition TOTAL_TIMEOUT :: int where
  "TOTAL_TIMEOUT = 10"

definition MAX_RETRIES :: nat where
  "MAX_RETRIES = 2"

definition RETRY_METHODS :: "string list" where
  "RETRY_METHODS = [''GET'', ''HEAD'', ''OPTIONS'']"

definition RETRY_STATUS_CODES :: "nat list" where
  "RETRY_STATUS_CODES = [500, 502, 503, 504]"

definition attempts_of :: "string \<Rightarrow> nat" where
  "attempts_of meth = (if meth \<in> set RETRY_METHODS then MAX_RETRIES + 1 else 1)"

text \<open>
  One request: what comes of it, how long it takes, whether the timer of the budget fires first when
  it is late, and the random part of the delay before the next one (at most a tenth of a second).
\<close>

record 'j request =
  rq_fate :: "'j fate"
  rq_took :: nat
  rq_cut :: bool
  rq_jitter :: nat

text \<open>The delay before the next attempt: half a second doubled each time, and the random part.\<close>

definition retry_delay :: "nat \<Rightarrow> 'j request \<Rightarrow> int" where
  "retry_delay attempt r = 500000 * 2 ^ attempt + int (min (rq_jitter r) 100000)"

record ('j) client =
  cl_circuit :: circuit
  cl_time :: int
  cl_sent :: nat
  cl_net :: "'j request list"

type_synonym 'j result = "string + 'j option"

definition next_request :: "'j client \<Rightarrow> 'j request" where
  "next_request k =
     (case cl_net k of [] \<Rightarrow> \<lparr>rq_fate = Transient, rq_took = 0, rq_cut = True, rq_jitter = 0\<rparr> | r # rs \<Rightarrow> r)"

text \<open>The state when the answer (or its failure) is there, and the outcome as the breaker saw it.\<close>

definition send :: "circuit \<Rightarrow> 'j client \<Rightarrow> 'j client" where
  "send c k = k\<lparr>cl_circuit := c, cl_sent := Suc (cl_sent k), cl_net := tl (cl_net k)\<rparr>"

definition settle_circuit :: "string \<Rightarrow> 'j request \<Rightarrow> int \<Rightarrow> circuit \<Rightarrow> circuit" where
  "settle_circuit meth r now c =
     (case rq_fate r of
        Answer a \<Rightarrow>
          (case read_response meth a of
             Payload j \<Rightarrow> on_success c
           | EmptyPayload \<Rightarrow> on_success c
           | HTTPError st code \<Rightarrow> if st < 500 then on_success c else on_failure now c
           | InvalidResponse \<Rightarrow> on_failure now c)
      | _ \<Rightarrow> on_failure now c)"

text \<open>What the loop makes of an outcome: it is final, or a retry is allowed with this last code.\<close>

definition judge :: "string \<Rightarrow> 'j request \<Rightarrow> 'j result + string" where
  "judge meth r =
     (case rq_fate r of
        Transient \<Rightarrow> Inr ''SERVICE_UNAVAILABLE''
      | OtherHttpError \<Rightarrow> Inl (Inl ''SERVICE_UNAVAILABLE'')
      | Answer a \<Rightarrow>
          (case read_response meth a of
             Payload j \<Rightarrow> Inl (Inr (Some j))
           | EmptyPayload \<Rightarrow> Inl (Inr None)
           | HTTPError st code \<Rightarrow> if st \<in> set RETRY_STATUS_CODES then Inr code else Inl (Inl code)
           | InvalidResponse \<Rightarrow> Inl (Inl ''SERVICE_UNAVAILABLE'')))"

text \<open>
  One round of the loop over the attempts: it returns, or goes on in a later state. A request that is
  under way when the budget is used up is cut: the breaker counts a failure. \<open>final\<close> says that it is
  the last attempt.
\<close>

definition attempt_once ::
  "bool \<Rightarrow> nat \<Rightarrow> string \<Rightarrow> int \<Rightarrow> 'j client \<Rightarrow> ('j result \<times> 'j client) + 'j client" where
  "attempt_once final attempt meth deadline k =
     (if cl_time k \<ge> deadline then Inl (Inl ''SERVICE_UNAVAILABLE'', k)
      else case cb_enter (cl_time k) (cl_circuit k) of
        None \<Rightarrow> Inl (Inl ''SERVICE_UNAVAILABLE'', k)
      | Some c \<Rightarrow>
          let r = next_request k; now = cl_time k + int (rq_took r); k1 = send c k in
          if now \<ge> deadline \<and> rq_cut r then
            Inl (Inl ''SERVICE_UNAVAILABLE'', k1\<lparr>cl_circuit := on_failure deadline c, cl_time := deadline\<rparr>)
          else
            let k2 = k1\<lparr>cl_circuit := settle_circuit meth r now c, cl_time := now\<rparr> in
            (case judge meth r of
               Inl (Inr v) \<Rightarrow> Inl (if now \<ge> deadline then Inl ''SERVICE_UNAVAILABLE'' else Inr v, k2)
             | Inl (Inl code) \<Rightarrow> Inl (Inl code, k2)
             | Inr last_code \<Rightarrow>
                 if final \<or> retry_delay attempt r \<ge> deadline - now then Inl (Inl last_code, k2)
                 else Inr (k2\<lparr>cl_time := now + retry_delay attempt r\<rparr>)))"

text \<open>The loop; \<open>n\<close> attempts are left.\<close>

fun attempt_loop :: "nat \<Rightarrow> nat \<Rightarrow> string \<Rightarrow> int \<Rightarrow> 'j client \<Rightarrow> 'j result \<times> 'j client" where
  "attempt_loop 0 attempt meth deadline k = (Inl ''SERVICE_UNAVAILABLE'', k)"
| "attempt_loop (Suc n) attempt meth deadline k =
     (case attempt_once (n = 0) attempt meth deadline k of
        Inl res \<Rightarrow> res
      | Inr k1 \<Rightarrow> attempt_loop n (Suc attempt) meth deadline k1)"

definition run_call :: "string \<Rightarrow> 'j client \<Rightarrow> 'j result \<times> 'j client" where
  "run_call meth k = attempt_loop (attempts_of meth) 0 meth (cl_time k + secs TOTAL_TIMEOUT) k"

subsection \<open>The slots\<close>

text \<open>
  \<^verbatim>\<open>call_service\<close> takes a slot or gives up, hands the work to the pool, and waits until the deadline.
  The worker returns the slot when it is done, which may be after the caller has given up. A
  release of more slots than were taken raises ValueError (None).
\<close>

definition MAX_OUTSTANDING_CALLS :: nat where
  "MAX_OUTSTANDING_CALLS = 4"

record pool =
  po_free :: nat
  po_working :: nat

definition acquire_slot :: "pool \<Rightarrow> pool option" where
  "acquire_slot p = (if po_free p = 0 then None else Some (p\<lparr>po_free := po_free p - 1\<rparr>))"

definition release_slot :: "pool \<Rightarrow> pool option" where
  "release_slot p = (if MAX_OUTSTANDING_CALLS \<le> po_free p then None else Some (p\<lparr>po_free := Suc (po_free p)\<rparr>))"

text \<open>
  The events of the pool: a call takes a slot and is submitted, a call is refused, the submission
  fails and the slot goes back, a worker ends.
\<close>

inductive pool_step :: "pool \<Rightarrow> pool \<Rightarrow> bool" where
  submitted: "acquire_slot p = Some q \<Longrightarrow> pool_step p (q\<lparr>po_working := Suc (po_working q)\<rparr>)"
| refused: "acquire_slot p = None \<Longrightarrow> pool_step p p"
| not_submitted: "acquire_slot p = Some q \<Longrightarrow> release_slot q = Some q' \<Longrightarrow> pool_step p q'"
| worker_ends: "0 < po_working p \<Longrightarrow> release_slot p = Some q \<Longrightarrow> pool_step p (q\<lparr>po_working := po_working q - 1\<rparr>)"

definition new_pool :: pool where
  "new_pool = \<lparr>po_free = MAX_OUTSTANDING_CALLS, po_working = 0\<rparr>"

inductive pool_reachable :: "pool \<Rightarrow> bool" where
  start: "pool_reachable new_pool"
| step: "pool_reachable p \<Longrightarrow> pool_step p q \<Longrightarrow> pool_reachable q"

inductive_cases pool_stepE: "pool_step p q"

subsection \<open>Lemmas: the breaker\<close>

text \<open>
  Between requests: a closed breaker has seen fewer than three failures in a row, and one that is
  open or tested has seen at least three and knows when the last was.
\<close>

definition circuit_ok :: "circuit \<Rightarrow> bool" where
  "circuit_ok c \<longleftrightarrow>
     (ci_state c = CLOSED \<longrightarrow> ci_failure_count c < CIRCUIT_BREAKER_FAILURE_THRESHOLD)
   \<and> (ci_state c \<noteq> CLOSED \<longrightarrow> CIRCUIT_BREAKER_FAILURE_THRESHOLD \<le> ci_failure_count c \<and> ci_last_failure c \<noteq> None)"

lemma circuit_ok_new: "circuit_ok new_circuit"
  by (simp add: circuit_ok_def new_circuit_def CIRCUIT_BREAKER_FAILURE_THRESHOLD_def)

lemma cb_enter_ok: "circuit_ok c \<Longrightarrow> cb_enter now c = Some c' \<Longrightarrow> circuit_ok c' \<and> ci_state c' \<noteq> OPEN"
  by (auto simp: cb_enter_def circuit_ok_def split: if_splits)

lemma on_success_ok: "circuit_ok c \<Longrightarrow> ci_state c \<noteq> OPEN \<Longrightarrow> circuit_ok (on_success c) \<and> ci_state (on_success c) = CLOSED"
  by (cases "ci_state c") (simp_all add: on_success_def circuit_ok_def Let_def
      CIRCUIT_BREAKER_HALF_OPEN_MAX_REQUESTS_def CIRCUIT_BREAKER_FAILURE_THRESHOLD_def)

lemma on_failure_ok: "circuit_ok c \<Longrightarrow> circuit_ok (on_failure now c)"
  by (auto simp: on_failure_def circuit_ok_def Let_def)

text \<open>A failure while the breaker is tested opens it again at once.\<close>

lemma on_failure_half_open: "circuit_ok c \<Longrightarrow> ci_state c = HALF_OPEN \<Longrightarrow> ci_state (on_failure now c) = OPEN"
  by (simp add: on_failure_def circuit_ok_def Let_def)

text \<open>The outcomes that count as success for the breaker.\<close>

definition healthy :: "string \<Rightarrow> 'j request \<Rightarrow> bool" where
  "healthy meth r =
     (case rq_fate r of
        Answer a \<Rightarrow> (case read_response meth a of HTTPError st code \<Rightarrow> st < 500 | InvalidResponse \<Rightarrow> False | _ \<Rightarrow> True)
      | _ \<Rightarrow> False)"

lemma settle_circuit_is:
  "settle_circuit meth r now c = (if healthy meth r then on_success c else on_failure now c)"
  by (simp add: settle_circuit_def healthy_def split: fate.splits read.splits)

lemma settle_circuit_ok:
  "circuit_ok c \<Longrightarrow> ci_state c \<noteq> OPEN \<Longrightarrow> circuit_ok (settle_circuit meth r now c)"
  by (simp add: settle_circuit_is on_success_ok on_failure_ok)

subsection \<open>Lemmas: the loop\<close>

text \<open>The state a round leaves, whether it returns or goes on.\<close>

definition left_by :: "('j result \<times> 'j client) + 'j client \<Rightarrow> 'j client" where
  "left_by x = (case x of Inl (v, k) \<Rightarrow> k | Inr k \<Rightarrow> k)"

text \<open>What every round keeps, the call keeps.\<close>

lemma attempt_loop_keeps:
  assumes "P k" and "\<And>final a k. P k \<Longrightarrow> P (left_by (attempt_once final a meth d k))"
  shows "P (snd (attempt_loop n a meth d k))"
  using assms(1)
proof (induction n arbitrary: a k)
  case (Suc n)
  from assms(2) [OF Suc.prems, of "n = 0" a] Suc.IH show ?case
    by (auto simp: left_by_def split: sum.splits)
qed simp

text \<open>The three ways a round ends.\<close>

lemma attempt_once_cases:
  obtains (refused) "left_by (attempt_once final a meth d k) = k"
  | (cut) c where "cl_time k < d" "cb_enter (cl_time k) (cl_circuit k) = Some c"
      "left_by (attempt_once final a meth d k) = send c k\<lparr>cl_circuit := on_failure d c, cl_time := d\<rparr>"
  | (answered) c now t where "cl_time k < d" "cb_enter (cl_time k) (cl_circuit k) = Some c"
      "now = cl_time k + int (rq_took (next_request k))" "now < d \<or> \<not> rq_cut (next_request k)"
      "left_by (attempt_once final a meth d k) =
         send c k\<lparr>cl_circuit := settle_circuit meth (next_request k) now c, cl_time := t\<rparr>"
      "t = now \<or> now \<le> t \<and> t < d"
proof (cases "cl_time k \<ge> d \<or> cb_enter (cl_time k) (cl_circuit k) = None")
  case True
  then show ?thesis using refused by (auto simp: attempt_once_def left_by_def)
next
  case False
  then obtain c where c: "cl_time k < d" "cb_enter (cl_time k) (cl_circuit k) = Some c" by auto
  define now where "now = cl_time k + int (rq_took (next_request k))"
  have "0 \<le> retry_delay a (next_request k)" by (simp add: retry_delay_def)
  show ?thesis
  proof (cases "d \<le> now \<and> rq_cut (next_request k)")
    case True
    with c show ?thesis using cut by (simp add: attempt_once_def Let_def now_def left_by_def)
  next
    case False
    let ?k = "\<lambda>t. send c k\<lparr>cl_circuit := settle_circuit meth (next_request k) now c, cl_time := t\<rparr>"
    have "left_by (attempt_once final a meth d k) = ?k now
        \<or> left_by (attempt_once final a meth d k) = ?k (now + retry_delay a (next_request k))
          \<and> now + retry_delay a (next_request k) < d"
      using c False by (auto simp: attempt_once_def Let_def now_def left_by_def split: sum.splits)
    with c False \<open>0 \<le> _\<close> show ?thesis using answered [OF c now_def] by (metis add_increasing2 linorder_not_le order_refl)
  qed
qed

lemma attempt_once_circuit_ok:
  assumes "circuit_ok (cl_circuit k)"
  shows "circuit_ok (cl_circuit (left_by (attempt_once final a meth d k)))"
proof (cases final a meth d k rule: attempt_once_cases)
  case (cut c)
  with cb_enter_ok [OF assms] show ?thesis by (simp add: on_failure_ok)
next
  case (answered c now t)
  with cb_enter_ok [OF assms] show ?thesis by (simp add: settle_circuit_ok)
qed (use assms in simp)

text \<open>Time does not pass the deadline when late requests are cut.\<close>

definition punctual :: "int \<Rightarrow> int \<Rightarrow> 'j client \<Rightarrow> bool" where
  "punctual t0 d k \<longleftrightarrow> t0 \<le> cl_time k \<and> cl_time k \<le> d \<and> list_all rq_cut (cl_net k)"

lemma attempt_once_punctual:
  assumes "punctual t0 d k"
  shows "punctual t0 d (left_by (attempt_once final a meth d k))"
proof -
  have rest: "list_all rq_cut (tl (cl_net k))" and first: "rq_cut (next_request k)"
    using assms by (cases "cl_net k"; simp add: punctual_def next_request_def)+
  show ?thesis
    by (cases final a meth d k rule: attempt_once_cases)
      (use assms rest first in \<open>auto simp: punctual_def send_def\<close>)
qed

lemma attempt_once_sent: "cl_sent (left_by (attempt_once final a meth d k)) \<le> Suc (cl_sent k)"
  by (cases final a meth d k rule: attempt_once_cases) (simp_all add: send_def)

lemma attempt_loop_sent: "cl_sent (snd (attempt_loop n a meth d k)) \<le> cl_sent k + n"
proof (induction n arbitrary: a k)
  case (Suc n)
  show ?case
  proof (cases "attempt_once (n = 0) a meth d k")
    case (Inl res)
    with attempt_once_sent [of "n = 0" a meth d k] show ?thesis by (simp add: left_by_def split: prod.splits)
  next
    case (Inr k1)
    with attempt_once_sent [of "n = 0" a meth d k] Suc.IH [of "Suc a" k1] show ?thesis by (simp add: left_by_def)
  qed
qed simp

text \<open>An open breaker sends nothing until its recovery time is over.\<close>

lemma open_circuit_blocks:
  assumes "ci_state (cl_circuit k) = OPEN" and "ci_last_failure (cl_circuit k) = Some t"
    and "cl_time k < t + secs CIRCUIT_BREAKER_RECOVERY_SECONDS"
  shows "run_call meth k = (Inl ''SERVICE_UNAVAILABLE'', k)"
proof -
  have "cb_enter (cl_time k) (cl_circuit k) = None"
    using assms by (simp add: cb_enter_def should_attempt_reset_def)
  moreover have "\<exists>n. attempts_of meth = Suc n" by (simp add: attempts_of_def)
  ultimately show ?thesis by (auto simp: run_call_def attempt_once_def)
qed

text \<open>
  The test of an open breaker whose recovery time is over, by a method that is not retried: one
  request decides.
\<close>

definition in_time :: "'j client \<Rightarrow> bool" where
  "in_time k \<longleftrightarrow> int (rq_took (next_request k)) < secs TOTAL_TIMEOUT \<or> \<not> rq_cut (next_request k)"

lemma recovery_probe:
  assumes "circuit_ok (cl_circuit k)" and "ci_state (cl_circuit k) = OPEN"
    and "should_attempt_reset (cl_time k) (cl_circuit k)" and "meth \<notin> set RETRY_METHODS"
  shows "ci_state (cl_circuit (snd (run_call meth k))) = (if healthy meth (next_request k) \<and> in_time k then CLOSED else OPEN)"
proof -
  define c where "c = (cl_circuit k)\<lparr>ci_state := HALF_OPEN, ci_half_open_successes := 0\<rparr>"
  have enter: "cb_enter (cl_time k) (cl_circuit k) = Some c" using assms by (simp add: cb_enter_def c_def)
  have c: "circuit_ok c" "ci_state c = HALF_OPEN" using assms(1,2) by (simp_all add: c_def circuit_ok_def)
  have "(0::int) < secs TOTAL_TIMEOUT" by (simp add: secs_def TOTAL_TIMEOUT_def)
  then show ?thesis
    using assms(4) enter on_success_ok [OF c(1)] on_failure_half_open [OF c] c(2)
    by (auto simp: run_call_def attempts_of_def attempt_once_def Let_def in_time_def settle_circuit_is send_def
        split: sum.splits)
qed

subsection \<open>Lemmas: the slots\<close>

lemma pool_balance: "pool_reachable p \<Longrightarrow> po_free p + po_working p = MAX_OUTSTANDING_CALLS"
proof (induction rule: pool_reachable.induct)
  case start
  show ?case by (simp add: new_pool_def)
next
  case (step p q)
  from step.hyps(2) step.IH show ?case
    by (cases rule: pool_stepE) (auto simp: acquire_slot_def release_slot_def split: if_splits)
qed

subsection \<open>Properties\<close>

definition ex_answer :: "nat \<Rightarrow> int request" where
  "ex_answer st = \<lparr>rq_fate = Answer \<lparr>an_status = st, an_chunks = [20], an_json = Some 7, an_code = Some ''BUSY''\<rparr>,
     rq_took = 100000, rq_cut = True, rq_jitter = 0\<rparr>"

definition ex_open :: circuit where
  "ex_open = \<lparr>ci_state = OPEN, ci_failure_count = 3, ci_last_failure = Some 0, ci_half_open_successes = 0\<rparr>"

definition ex_client :: "circuit \<Rightarrow> int \<Rightarrow> int request list \<Rightarrow> int client" where
  "ex_client c t rs = \<lparr>cl_circuit = c, cl_time = t, cl_sent = 0, cl_net = rs\<rparr>"





text \<open>
  The slots of the client bound the calls under way. In every state that submitting
  calls, refusing them, failing to submit them and ending workers can reach, the free slots and
  the working calls together are four, and a worker that ends can always return its slot.
\<close>

theorem slots_never_overdrawn:
  assumes "pool_reachable p"
  shows "po_free p + po_working p = MAX_OUTSTANDING_CALLS \<and> (0 < po_working p \<longrightarrow> release_slot p \<noteq> None)"
  using pool_balance [OF assms] by (simp add: release_slot_def)

theorem slots_never_overdrawn_witness:
  "release_slot \<lparr>po_free = 3, po_working = 1\<rparr> \<noteq> None"
proof -
  have "pool_step new_pool (\<lparr>po_free = 3, po_working = 0\<rparr>\<lparr>po_working := Suc 0\<rparr>)"
    using submitted [of new_pool "\<lparr>po_free = 3, po_working = 0\<rparr>"]
    by (simp add: acquire_slot_def new_pool_def MAX_OUTSTANDING_CALLS_def)
  then have "pool_reachable \<lparr>po_free = 3, po_working = 1\<rparr>" using pool_reachable.step [OF pool_reachable.start] by simp
  from slots_never_overdrawn [OF this] show ?thesis by simp
qed

end
