(* ===== verification/Startup.thy ===== *)
theory Startup
  imports Queries
begin

text \<open>
  What a process does around its work: the check of its secrets at the start
  (\<^verbatim>\<open>shared/secrets.py\<close>), the queues it declares (\<^verbatim>\<open>shared/queue_setup.py\<close>), the pool of gRPC channels
  it keeps (\<^verbatim>\<open>ticket-purchase-orchestrator/routes.py\<close>) and the way it stops
  (\<^verbatim>\<open>shared/graceful_shutdown.py\<close>).

  The lemmas show that a strict start has every secret set to something long and not a known
  default, that declaring the queues twice is harmless, that an expired hold reaches the consumer,
  that the timeout queue of transfers cannot be used once the shared set-up has run, that the pool
  stays small and that stopping ends in bounded time.
\<close>

subsection \<open>Secrets\<close>

text \<open>\<^verbatim>\<open>os.environ\<close>; an unset variable is None.\<close>

type_synonym environ = "string \<Rightarrow> string option"

definition CRITICAL_SECRETS :: "string list" where
  "CRITICAL_SECRETS = [''JWT_SECRET'', ''QR_SECRET'', ''OUTSYSTEMS_API_KEY'', ''STRIPE_SECRET_KEY'', ''STRIPE_WEBHOOK_SECRET'']"

text \<open>The variables of the databases are \<^verbatim>\<open><prefix>_DB_PASSWORD\<close>; these are the prefixes.\<close>

definition DATABASE_SECRETS :: "string list" where
  "DATABASE_SECRETS = [''USER_SERVICE'', ''VENUE_SERVICE'', ''SEAT_SERVICE'', ''EVENT_SERVICE'',
     ''SEAT_INVENTORY_SERVICE'', ''TICKET_SERVICE'', ''TRANSFER_SERVICE'', ''MARKETPLACE_SERVICE'',
     ''CREDIT_TRANSACTION_SERVICE'', ''TICKET_LOG_SERVICE'', ''NOTIFICATION_SERVICE'', ''OTP_WRAPPER'', ''STRIPE_WRAPPER'']"

definition INSECURE_DEFAULTS :: "string \<Rightarrow> string list" where
  "INSECURE_DEFAULTS secret =
     (if secret = ''JWT_SECRET'' then [''change_me'', ''secret'', ''jwt_secret'', ''your-secret-key'']
      else if secret = ''QR_SECRET'' then [''change_me'', ''secret'', ''qr_secret'']
      else if secret = ''OUTSYSTEMS_API_KEY'' then [''change_me'', ''your-api-key'']
      else if secret = ''STRIPE_SECRET_KEY'' then [''sk_test_change_me'', ''sk_live_change_me'']
      else if secret = ''STRIPE_WEBHOOK_SECRET'' then [''whsec_change_me'']
      else [''change_me''])"

definition DB_INSECURE_DEFAULTS :: "string list" where
  "DB_INSECURE_DEFAULTS = [''change_me'', ''password'', ''postgres'', ''admin'', ''root'']"

datatype secret_issue =
    MissingSecret string
  | InsecureDefault string
  | TooShort string nat
  | MissingDbPassword string
  | InsecureDbPassword string
  | StripeIncomplete

definition is_default :: "string \<Rightarrow> string list \<Rightarrow> bool" where
  "is_default v ds \<longleftrightarrow> map lower_char v \<in> set (map (map lower_char) ds)"

definition secret_issues :: "environ \<Rightarrow> string \<Rightarrow> secret_issue list" where
  "secret_issues env secret =
     (case env secret of
        None \<Rightarrow> [MissingSecret secret]
      | Some v \<Rightarrow>
          if v = [] then [MissingSecret secret]
          else (if is_default v (INSECURE_DEFAULTS secret) then [InsecureDefault secret] else [])
             @ (if length v < 16 then [TooShort secret (length v)] else []))"

definition db_issues :: "environ \<Rightarrow> string \<Rightarrow> secret_issue list" where
  "db_issues env svc =
     (let v = env (svc @ ''_DB_PASSWORD'') in
      if \<not> truthy v then (if truthy (env (svc @ ''_DB_HOST'')) then [MissingDbPassword svc] else [])
      else if is_default (the v) DB_INSECURE_DEFAULTS then [InsecureDbPassword (svc @ ''_DB_PASSWORD'')] else [])"

text \<open>The answer, or RuntimeError with the issues when it is strict.\<close>

definition validate_secrets :: "bool \<Rightarrow> environ \<Rightarrow> secret_issue list + secret_issue list" where
  "validate_secrets strict env =
     (let issues = concat (map (secret_issues env) CRITICAL_SECRETS) @ concat (map (db_issues env) DATABASE_SECRETS)
        @ (if truthy (env ''STRIPE_SECRET_KEY'') \<and> \<not> truthy (env ''STRIPE_WEBHOOK_SECRET'') then [StripeIncomplete] else [])
      in if issues \<noteq> [] \<and> strict then Inl issues else Inr issues)"

text \<open>None is RuntimeError.\<close>

definition validate_database_url :: "string option \<Rightarrow> string option" where
  "validate_database_url url =
     (if \<not> truthy url then None
      else if sublist ''change_me'' (the url) then None else url)"

definition init_secrets :: "bool \<Rightarrow> environ \<Rightarrow> secret_issue list option" where
  "init_secrets strict env =
     (case validate_secrets False env of
        Inl issues \<Rightarrow> None
      | Inr issues \<Rightarrow> if issues \<noteq> [] \<and> strict then None else Some issues)"

subsection \<open>Queues\<close>

text \<open>
  What RabbitMQ has: the queues with their arguments, the fanout exchanges with the queues bound to
  them, and the messages with the instant they entered their queue.
\<close>

record queue_args =
  qa_ttl_ms :: "int option"
  qa_dead_letter :: "string option"

record 'm broker =
  br_queues :: "string \<rightharpoonup> queue_args"
  br_exchanges :: "string \<rightharpoonup> string list"
  br_messages :: "(string \<times> 'm \<times> int) list"

text \<open>Declaring a queue again with other arguments closes the channel (None).\<close>

definition queue_declare :: "string \<Rightarrow> queue_args \<Rightarrow> 'm broker \<Rightarrow> 'm broker option" where
  "queue_declare q a b =
     (case br_queues b q of
        None \<Rightarrow> Some (b\<lparr>br_queues := (br_queues b)(q \<mapsto> a)\<rparr>)
      | Some a' \<Rightarrow> if a' = a then Some b else None)"

definition exchange_declare :: "string \<Rightarrow> 'm broker \<Rightarrow> 'm broker" where
  "exchange_declare x b =
     (case br_exchanges b x of None \<Rightarrow> b\<lparr>br_exchanges := (br_exchanges b)(x \<mapsto> [])\<rparr> | Some qs \<Rightarrow> b)"

definition queue_bind :: "string \<Rightarrow> string \<Rightarrow> 'm broker \<Rightarrow> 'm broker option" where
  "queue_bind q x b =
     (case (br_queues b q, br_exchanges b x) of
        (Some a, Some qs) \<Rightarrow> Some (if q \<in> set qs then b else b\<lparr>br_exchanges := (br_exchanges b)(x \<mapsto> qs @ [q])\<rparr>)
      | _ \<Rightarrow> None)"

definition plain_queue :: queue_args where
  "plain_queue = \<lparr>qa_ttl_ms = None, qa_dead_letter = None\<rparr>"

definition hold_queue :: "int \<Rightarrow> queue_args" where
  "hold_queue hold_seconds = \<lparr>qa_ttl_ms = Some (hold_seconds * 1000), qa_dead_letter = Some ''seat_hold_dlx''\<rparr>"

definition declare_queues :: "int \<Rightarrow> 'm broker \<Rightarrow> 'm broker option" where
  "declare_queues hold_seconds b =
     Option.bind (queue_declare ''seat_hold_expired_queue'' plain_queue (exchange_declare ''seat_hold_dlx'' b)) (\<lambda>b1.
     Option.bind (queue_bind ''seat_hold_expired_queue'' ''seat_hold_dlx'' b1) (\<lambda>b2.
     Option.bind (queue_declare ''seat_hold_ttl_queue'' (hold_queue hold_seconds) b2) (\<lambda>b3.
     Option.bind (queue_declare ''seller_notification_queue'' plain_queue b3) (\<lambda>b4.
     queue_declare ''transfer_timeout_queue'' plain_queue b4))))"

text \<open>The queue that the transfer orchestrator declares before it publishes a timeout.\<close>

definition timeout_queue :: "int \<Rightarrow> queue_args" where
  "timeout_queue timeout_hours = \<lparr>qa_ttl_ms = Some (timeout_hours * 3600 * 1000), qa_dead_letter = None\<rparr>"

text \<open>A message to a queue that does not exist is dropped.\<close>

definition publish :: "string \<Rightarrow> 'm \<Rightarrow> int \<Rightarrow> 'm broker \<Rightarrow> 'm broker" where
  "publish q m now b = (if br_queues b q = None then b else b\<lparr>br_messages := br_messages b @ [(q, m, now)]\<rparr>)"

text \<open>Where a message is once the broker has looked at it at an instant.\<close>

definition moved :: "int \<Rightarrow> 'm broker \<Rightarrow> string \<times> 'm \<times> int \<Rightarrow> (string \<times> 'm \<times> int) list" where
  "moved now b e =
     (case e of (q, m, t) \<Rightarrow>
        (case Option.bind (br_queues b q) qa_ttl_ms of
           None \<Rightarrow> [e]
         | Some ttl \<Rightarrow>
             if now < t + ttl * 1000 then [e]
             else (case Option.bind (Option.bind (br_queues b q) qa_dead_letter) (br_exchanges b) of
                     None \<Rightarrow> [] | Some qs \<Rightarrow> map (\<lambda>q'. (q', m, now)) qs)))"

definition expire_messages :: "int \<Rightarrow> 'm broker \<Rightarrow> 'm broker" where
  "expire_messages now b = b\<lparr>br_messages := concat (map (moved now b) (br_messages b))\<rparr>"

subsection \<open>The pool of gRPC channels\<close>

text \<open>A channel is known by the address it was opened for and its number.\<close>

type_synonym channel = "string \<times> nat"

record channel_pool =
  cp_free :: "channel list"
  cp_host :: "string option"
  cp_opened :: nat
  cp_closed :: "channel list"

definition GRPC_CHANNEL_MAX_SIZE :: nat where
  "GRPC_CHANNEL_MAX_SIZE = 5"

text \<open>A change of the address closes the free channels; then the newest free channel or a new one.\<close>

definition get_grpc_channel :: "string \<Rightarrow> channel_pool \<Rightarrow> channel \<times> channel_pool" where
  "get_grpc_channel address p =
     (let p1 = (if cp_host p \<noteq> None \<and> cp_host p \<noteq> Some address
                then p\<lparr>cp_closed := cp_closed p @ cp_free p, cp_free := []\<rparr> else p);
          p2 = p1\<lparr>cp_host := Some address\<rparr>
      in if cp_free p2 \<noteq> [] then (last (cp_free p2), p2\<lparr>cp_free := butlast (cp_free p2)\<rparr>)
         else ((address, cp_opened p2), p2\<lparr>cp_opened := Suc (cp_opened p2)\<rparr>))"

definition return_grpc_channel :: "channel \<Rightarrow> channel_pool \<Rightarrow> channel_pool" where
  "return_grpc_channel c p =
     (if length (cp_free p) < GRPC_CHANNEL_MAX_SIZE then p\<lparr>cp_free := cp_free p @ [c]\<rparr>
      else p\<lparr>cp_closed := cp_closed p @ [c]\<rparr>)"

subsection \<open>Stopping\<close>

definition GRACEFUL_SHUTDOWN_TIMEOUT :: int where
  "GRACEFUL_SHUTDOWN_TIMEOUT = 30"

definition LB_DEREGISTRATION_DELAY :: int where
  "LB_DEREGISTRATION_DELAY = 5"

text \<open>Half a second, in microseconds.\<close>

definition REQUEST_DRAIN_INTERVAL :: int where
  "REQUEST_DRAIN_INTERVAL = 500000"

definition track_request_start :: "int \<Rightarrow> int" where
  "track_request_start n = n + 1"

definition track_request_end :: "int \<Rightarrow> int" where
  "track_request_end n = max 0 (n - 1)"

text \<open>
  The loop that waits for running requests: \<open>active\<close> is their number at each instant. The result is the
  instant the loop ends and whether it saw that no request was left.
\<close>

function wait_for_requests :: "(int \<Rightarrow> nat) \<Rightarrow> int \<Rightarrow> int \<Rightarrow> int \<Rightarrow> int \<times> bool" where
  "wait_for_requests active start timeout now =
     (if now - start < timeout then
        (if active now = 0 then (now, True)
         else wait_for_requests active start timeout (now + REQUEST_DRAIN_INTERVAL))
      else (now, active now = 0))"
  by pat_completeness auto

termination
  by (relation "measure (\<lambda>(active, start, timeout, now). nat (timeout - (now - start)))")
    (auto simp: REQUEST_DRAIN_INTERVAL_def)

text \<open>
  What is released at the end: the sessions and the pool of the database, the connections to Redis and
  RabbitMQ, and the hooks by their number. An exception is logged and skips only the rest of its own
  block. \<open>works\<close> says which of them are closed without an exception, \<open>rabbit\<close> whether a connection to
  RabbitMQ is given and already closed; the result is what was closed.
\<close>

datatype resource = DbSessions | DbEngine | RedisConn | RabbitConn | Hook nat

definition run_shutdown_hooks :: "(resource \<Rightarrow> bool) \<Rightarrow> nat \<Rightarrow> resource list" where
  "run_shutdown_hooks works hooks = filter works (map Hook [0..<hooks])"

definition cleanup :: "(resource \<Rightarrow> bool) \<Rightarrow> bool \<Rightarrow> bool \<Rightarrow> bool option \<Rightarrow> nat \<Rightarrow> resource list" where
  "cleanup works db redis rabbit hooks =
     (if db then takeWhile works [DbSessions, DbEngine] else [])
   @ (if redis \<and> works RedisConn then [RedisConn] else [])
   @ (if rabbit = Some False \<and> works RabbitConn then [RabbitConn] else [])
   @ run_shutdown_hooks works hooks"

text \<open>
  The handler of a signal: the load balancer gets time, running requests are awaited, the resources
  are released. The result is the instant of the exit, whether no request was left, and what was
  closed; \<open>released\<close> is what the given clean-up closes.
\<close>

definition graceful_shutdown :: "(int \<Rightarrow> nat) \<Rightarrow> resource list option \<Rightarrow> int \<Rightarrow> int \<times> bool \<times> resource list" where
  "graceful_shutdown active released now =
     (let t1 = now + secs (min LB_DEREGISTRATION_DELAY (GRACEFUL_SHUTDOWN_TIMEOUT div 4));
          (t2, drained) = wait_for_requests active t1 (secs (GRACEFUL_SHUTDOWN_TIMEOUT * 3 div 4)) t1
      in (t2, drained, case released of None \<Rightarrow> [] | Some rs \<Rightarrow> rs))"

declare wait_for_requests.simps [simp del]

subsection \<open>Lemmas: secrets\<close>

lemma no_secret_issues:
  assumes "secret_issues env s = []"
  shows "\<exists>v. env s = Some v \<and> 16 \<le> length v \<and> \<not> is_default v (INSECURE_DEFAULTS s)"
  using assms by (auto simp: secret_issues_def split: option.splits if_splits)

text \<open>A strict check that passes found every secret set, at least 16 characters long and no known default.\<close>

lemma strict_start_is_safe:
  assumes "validate_secrets True env = Inr issues" and "s \<in> set CRITICAL_SECRETS"
  shows "\<exists>v. env s = Some v \<and> 16 \<le> length v \<and> \<not> is_default v (INSECURE_DEFAULTS s)"
proof (rule no_secret_issues)
  from assms(1) have "concat (map (secret_issues env) CRITICAL_SECRETS) = []"
    by (simp add: validate_secrets_def Let_def split: if_splits)
  with assms(2) show "secret_issues env s = []" by simp
qed

text \<open>The last check adds nothing: a missing webhook secret is reported by the first.\<close>

lemma stripe_check_is_redundant:
  assumes "truthy (env ''STRIPE_SECRET_KEY'')" and "\<not> truthy (env ''STRIPE_WEBHOOK_SECRET'')"
  shows "MissingSecret ''STRIPE_WEBHOOK_SECRET'' \<in> set (concat (map (secret_issues env) CRITICAL_SECRETS))"
  using assms(2)
  by (cases "env ''STRIPE_WEBHOOK_SECRET''") (simp_all add: CRITICAL_SECRETS_def secret_issues_def [of env "''STRIPE_WEBHOOK_SECRET''"])

text \<open>Starting strictly is starting with a check that found nothing.\<close>

lemma init_secrets_strict: "init_secrets True env = Some issues \<longleftrightarrow> issues = [] \<and> validate_secrets True env = Inr []"
  by (auto simp: init_secrets_def validate_secrets_def Let_def)

subsection \<open>Lemmas: queues\<close>

definition no_queues :: "'m broker" where
  "no_queues = \<lparr>br_queues = Map.empty, br_exchanges = Map.empty, br_messages = []\<rparr>"

lemma queue_declare_has: "queue_declare q a b = Some b' \<Longrightarrow> br_queues b' q = Some a"
  by (auto simp: queue_declare_def split: option.splits if_splits)

lemma queue_declare_keeps:
  "queue_declare q a b = Some b' \<Longrightarrow> br_queues b j = Some c \<Longrightarrow> br_queues b' j = Some c"
  by (auto simp: queue_declare_def split: option.splits if_splits)

lemma queue_declare_frame:
  "queue_declare q a b = Some b' \<Longrightarrow> br_exchanges b' = br_exchanges b \<and> br_messages b' = br_messages b"
  by (auto simp: queue_declare_def split: option.splits if_splits)

lemma queue_declare_again: "br_queues b q = Some a \<Longrightarrow> queue_declare q a b = Some b"
  by (simp add: queue_declare_def)

text \<open>What the set-up leaves.\<close>

definition topology :: "int \<Rightarrow> 'm broker \<Rightarrow> bool" where
  "topology n b \<longleftrightarrow> br_queues b ''seat_hold_expired_queue'' = Some plain_queue
     \<and> br_queues b ''seat_hold_ttl_queue'' = Some (hold_queue n)
     \<and> br_queues b ''seller_notification_queue'' = Some plain_queue
     \<and> br_queues b ''transfer_timeout_queue'' = Some plain_queue
     \<and> (\<exists>qs. br_exchanges b ''seat_hold_dlx'' = Some qs \<and> ''seat_hold_expired_queue'' \<in> set qs)"

lemma declare_queues_topology:
  assumes "declare_queues n b = Some b'"
  shows "topology n b'"
proof -
  obtain b1 b2 b3 b4 where
    d: "queue_declare ''seat_hold_expired_queue'' plain_queue (exchange_declare ''seat_hold_dlx'' b) = Some b1"
      "queue_bind ''seat_hold_expired_queue'' ''seat_hold_dlx'' b1 = Some b2"
      "queue_declare ''seat_hold_ttl_queue'' (hold_queue n) b2 = Some b3"
      "queue_declare ''seller_notification_queue'' plain_queue b3 = Some b4"
      "queue_declare ''transfer_timeout_queue'' plain_queue b4 = Some b'"
    using assms by (auto simp: declare_queues_def bind_eq_Some_conv)
  have x: "\<exists>qs. br_exchanges b2 ''seat_hold_dlx'' = Some qs \<and> ''seat_hold_expired_queue'' \<in> set qs"
    and q: "br_queues b2 = br_queues b1"
    using d(2) by (auto simp: queue_bind_def split: option.splits if_splits)
  note keep = queue_declare_keeps [OF d(4), THEN queue_declare_keeps [OF d(5)]]
  have "br_queues b2 ''seat_hold_expired_queue'' = Some plain_queue" using queue_declare_has [OF d(1)] q by simp
  from keep [OF queue_declare_keeps [OF d(3) this]] keep [OF queue_declare_has [OF d(3)]]
    queue_declare_keeps [OF d(5) queue_declare_has [OF d(4)]] queue_declare_has [OF d(5)]
  show ?thesis
    using x queue_declare_frame [OF d(3)] queue_declare_frame [OF d(4)] queue_declare_frame [OF d(5)]
    by (simp add: topology_def)
qed

text \<open>Declaring the same queues again changes nothing; another duration of a hold closes the channel.\<close>

lemma declare_queues_again:
  assumes "topology n b"
  shows "declare_queues n b = Some b" and "m \<noteq> n \<Longrightarrow> declare_queues m b = None"
proof -
  obtain qs where qs: "br_exchanges b ''seat_hold_dlx'' = Some qs" "''seat_hold_expired_queue'' \<in> set qs"
    using assms by (auto simp: topology_def)
  note t = assms [unfolded topology_def]
  have "exchange_declare ''seat_hold_dlx'' b = b" "queue_bind ''seat_hold_expired_queue'' ''seat_hold_dlx'' b = Some b"
    using qs t by (simp_all add: exchange_declare_def queue_bind_def)
  with t show "declare_queues n b = Some b" by (simp add: declare_queues_def queue_declare_again)
  show "declare_queues m b = None" if "m \<noteq> n"
  proof -
    have "queue_declare ''seat_hold_ttl_queue'' (hold_queue m) b = None"
      using t that by (simp add: queue_declare_def hold_queue_def)
    with \<open>exchange_declare _ b = b\<close> \<open>queue_bind _ _ b = Some b\<close> t show ?thesis
      by (simp add: declare_queues_def queue_declare_again)
  qed
qed

text \<open>After the set-up the transfer orchestrator can never declare, and so never use, its timeout queue.\<close>

lemma timeout_queue_conflicts: "topology n b \<Longrightarrow> queue_declare ''transfer_timeout_queue'' (timeout_queue h) b = None"
  by (simp add: topology_def queue_declare_def timeout_queue_def plain_queue_def)

text \<open>A hold message waits its time and then is in the queue of the consumer.\<close>

lemma hold_message_expires:
  assumes "topology n b" and "br_messages b = []"
  shows "now < t + n * 1000000 \<Longrightarrow>
      br_messages (expire_messages now (publish ''seat_hold_ttl_queue'' m t b)) = [(''seat_hold_ttl_queue'', m, t)]"
    and "t + n * 1000000 \<le> now \<Longrightarrow>
      (''seat_hold_expired_queue'', m, now) \<in> set (br_messages (expire_messages now (publish ''seat_hold_ttl_queue'' m t b)))"
  using assms by (auto simp: topology_def expire_messages_def publish_def moved_def hold_queue_def)

subsection \<open>Lemmas: channels\<close>

lemma channel_pool_small:
  assumes "length (cp_free p) \<le> GRPC_CHANNEL_MAX_SIZE"
  shows "length (cp_free (snd (get_grpc_channel address p))) \<le> GRPC_CHANNEL_MAX_SIZE"
    and "length (cp_free (return_grpc_channel c p)) \<le> GRPC_CHANNEL_MAX_SIZE"
  using assms by (auto simp: get_grpc_channel_def return_grpc_channel_def Let_def)

text \<open>
  While the address stays and only its own channels come back, every channel handed out is for it; a
  channel of an earlier address that comes back late is handed out all the same.
\<close>

lemma channel_of_address:
  assumes "list_all (\<lambda>c. fst c = address) (cp_free p)"
  shows "fst (fst (get_grpc_channel address p)) = address"
    and "list_all (\<lambda>c. fst c = address) (cp_free (snd (get_grpc_channel address p)))"
  using assms by (auto simp: get_grpc_channel_def Let_def list_all_iff dest: in_set_butlastD)

lemma stale_channel:
  assumes "cp_host p = Some address" and "length (cp_free p) < GRPC_CHANNEL_MAX_SIZE"
  shows "fst (get_grpc_channel address (return_grpc_channel c p)) = c"
  using assms by (simp add: get_grpc_channel_def return_grpc_channel_def Let_def)

subsection \<open>Lemmas: stopping\<close>

text \<open>The wait ends at most half a second after its time, and sooner when no request is left.\<close>

lemma wait_for_requests_ends:
  assumes "start \<le> now" and "now < start + timeout + REQUEST_DRAIN_INTERVAL"
  shows "now \<le> fst (wait_for_requests active start timeout now)
    \<and> fst (wait_for_requests active start timeout now) < start + timeout + REQUEST_DRAIN_INTERVAL"
  using assms
proof (induction active start timeout now rule: wait_for_requests.induct)
  case (1 active start timeout now)
  show ?case
  proof (cases "now - start < timeout \<and> active now \<noteq> 0")
    case True
    with 1 show ?thesis by (subst (1 2) wait_for_requests.simps) (auto simp: REQUEST_DRAIN_INTERVAL_def)
  next
    case False
    with 1 show ?thesis by (subst (1 2) wait_for_requests.simps) auto
  qed
qed

lemma wait_for_requests_seen:
  "snd (wait_for_requests active start timeout now) = (active (fst (wait_for_requests active start timeout now)) = 0)"
proof (induction active start timeout now rule: wait_for_requests.induct)
  case (1 active start timeout now)
  then show ?case by (subst (1 2) wait_for_requests.simps) auto
qed

text \<open>Stopping takes at most 27.5 seconds and leaves no request behind unless one was still running then.\<close>

lemma graceful_shutdown_ends:
  assumes "graceful_shutdown active released now = (t, drained, rs)"
  shows "now + secs 5 \<le> t \<and> t < now + secs 27 + REQUEST_DRAIN_INTERVAL \<and> drained = (active t = 0)"
proof -
  let ?w = "wait_for_requests active (now + secs 5) (secs 22) (now + secs 5)"
  have "t = fst ?w" "drained = snd ?w"
    using assms
    by (auto simp: graceful_shutdown_def Let_def LB_DEREGISTRATION_DELAY_def GRACEFUL_SHUTDOWN_TIMEOUT_def split: prod.splits)
  then show ?thesis
    using wait_for_requests_ends [of "now + secs 5" "now + secs 5" "secs 22" active]
      wait_for_requests_seen [of active "now + secs 5" "secs 22" "now + secs 5"]
    by (simp add: REQUEST_DRAIN_INTERVAL_def secs_def)
qed

text \<open>
  No application registers the middleware that counts requests, so the count stays zero: the process
  exits after the delay for the load balancer, whatever runs.
\<close>

lemma uncounted_requests_not_awaited: "graceful_shutdown (\<lambda>_. 0) (Some rs) now = (now + secs 5, True, rs)"
  by (simp add: graceful_shutdown_def Let_def LB_DEREGISTRATION_DELAY_def GRACEFUL_SHUTDOWN_TIMEOUT_def
      wait_for_requests.simps secs_def)

text \<open>Each hook that works is run and each connection that can be closed is closed, whatever else fails.\<close>

lemma cleanup_isolates_failures:
  "Hook i \<in> set (cleanup works db redis rabbit hooks) \<longleftrightarrow> i < hooks \<and> works (Hook i)"
  "RedisConn \<in> set (cleanup works db redis rabbit hooks) \<longleftrightarrow> redis \<and> works RedisConn"
  "RabbitConn \<in> set (cleanup works db redis rabbit hooks) \<longleftrightarrow> rabbit = Some False \<and> works RabbitConn"
  by (auto simp: cleanup_def run_shutdown_hooks_def)

text \<open>The count of running requests never falls below zero, and each request leaves it as it was.\<close>

lemma request_tracked: "0 \<le> n \<Longrightarrow> track_request_end (track_request_start n) = n \<and> 0 \<le> track_request_end n"
  by (simp add: track_request_start_def track_request_end_def)

end
