(* ===== verification/NotificationService.thy ===== *)
theory NotificationService
  imports Infra
begin

text \<open>
  The notification service (\<^verbatim>\<open>services/notification-service/app.py\<close>): clients connect by WebSocket,
  subscribe to channels, and get the events that other processes post. The state is the set of
  connected clients, the members of each room, what was published to Redis and what each client was
  sent. The lemmas show that an event reaches exactly the clients that subscribed to its channel.
\<close>

subsection \<open>State\<close>

definition EVENT_CHANNELS :: "string \<rightharpoonup> string" where
  "EVENT_CHANNELS = map_of
     [(''seat_update'', ''notifications:seat_update''), (''ticket_update'', ''notifications:ticket_update''),
      (''transfer_update'', ''notifications:transfer_update''), (''purchase_update'', ''notifications:purchase_update''),
      (''user_update'', ''notifications:user_update''), (''event_update'', ''notifications:event_update'')]"

text \<open>A message: its type, payload, timestamp and trace id; the payload is of any type.\<close>

record 'p notice =
  nt_type :: string
  nt_payload :: 'p
  nt_timestamp :: int
  nt_traceId :: "string option"

text \<open>What a client is sent.\<close>

datatype 'p frame = Connected string | Subscribed string | Event string "'p notice"

record 'p hub =
  hub_clients :: "string list"
  hub_rooms :: "string \<Rightarrow> string list"
  hub_sent :: "(string \<times> 'p frame) list"
  hub_published :: "(string \<times> 'p notice) list"
  hub_infra :: infra

definition emit_to :: "string list \<Rightarrow> 'p frame \<Rightarrow> 'p hub \<Rightarrow> 'p hub" where
  "emit_to sids f h = h\<lparr>hub_sent := hub_sent h @ map (\<lambda>sid. (sid, f)) sids\<rparr>"

subsection \<open>Handlers of the sockets\<close>

definition handle_connect :: "string \<Rightarrow> 'p hub \<Rightarrow> 'p hub" where
  "handle_connect sid h = emit_to [sid] (Connected sid) (h\<lparr>hub_clients := hub_clients h @ [sid]\<rparr>)"

text \<open>The library takes a client that leaves out of all its rooms.\<close>

definition handle_disconnect :: "string \<Rightarrow> 'p hub \<Rightarrow> 'p hub" where
  "handle_disconnect sid h =
     h\<lparr>hub_clients := removeAll sid (hub_clients h), hub_rooms := (\<lambda>r. removeAll sid (hub_rooms h r))\<rparr>"

definition join_room :: "string \<Rightarrow> string \<Rightarrow> 'p hub \<Rightarrow> 'p hub" where
  "join_room sid room h =
     h\<lparr>hub_rooms := (hub_rooms h)(room := if sid \<in> set (hub_rooms h room) then hub_rooms h room else hub_rooms h room @ [sid])\<rparr>"

definition handle_subscribe :: "string \<Rightarrow> string option \<Rightarrow> 'p hub \<Rightarrow> 'p hub" where
  "handle_subscribe sid channel h =
     (case (if truthy channel then EVENT_CHANNELS (the channel) else None) of
        None \<Rightarrow> h
      | Some room \<Rightarrow> emit_to [sid] (Subscribed (the channel)) (join_room sid room h))"

definition handle_unsubscribe :: "string \<Rightarrow> string option \<Rightarrow> 'p hub \<Rightarrow> 'p hub" where
  "handle_unsubscribe sid channel h =
     (case (if truthy channel then EVENT_CHANNELS (the channel) else None) of
        None \<Rightarrow> h
      | Some room \<Rightarrow> h\<lparr>hub_rooms := (hub_rooms h)(room := removeAll sid (hub_rooms h room))\<rparr>)"

subsection \<open>Publishing\<close>

text \<open>An exception of Redis leaves before the event is emitted (False).\<close>

definition notify_publish_event :: "string \<Rightarrow> 'p \<Rightarrow> string option \<Rightarrow> 'p hub \<Rightarrow> bool \<times> 'p hub" where
  "notify_publish_event event_type payload trace_id h =
     (case EVENT_CHANNELS event_type of
        None \<Rightarrow> (True, h)
      | Some channel \<Rightarrow>
          let message = \<lparr>nt_type = event_type, nt_payload = payload, nt_timestamp = clock (hub_infra h), nt_traceId = trace_id\<rparr>
          in (case redis_step (hub_infra h) of
                (False, w) \<Rightarrow> (False, h\<lparr>hub_infra := w\<rparr>)
              | (True, w) \<Rightarrow>
                  (True, emit_to (hub_rooms h channel) (Event event_type message)
                     (h\<lparr>hub_infra := w, hub_published := hub_published h @ [(channel, message)]\<rparr>))))"

text \<open>
  One message in the loop that forwards from Redis: it goes to every client, subscribed or not. No
  thread of the program runs this loop.
\<close>

definition forward_from_redis :: "'p notice option \<Rightarrow> 'p hub \<Rightarrow> 'p hub" where
  "forward_from_redis data h =
     (case data of
        None \<Rightarrow> h
      | Some n \<Rightarrow> if nt_type n = [] then h else emit_to (hub_clients h) (Event (nt_type n) n) h)"

text \<open>The body of a broadcast is missing or has a type, a payload and a trace id.\<close>

definition broadcast ::
  "(string option \<times> 'p \<times> string option) option \<Rightarrow> 'p hub \<Rightarrow> unit reply \<times> 'p hub" where
  "broadcast data h =
     (case data of
        None \<Rightarrow> (Fail 400 ''VALIDATION_ERROR'', h)
      | Some (event_type, payload, trace_id) \<Rightarrow>
          (case event_type of
             None \<Rightarrow> (Fail 400 ''INVALID_EVENT_TYPE'', h)
           | Some ty \<Rightarrow>
               if EVENT_CHANNELS ty = None then (Fail 400 ''INVALID_EVENT_TYPE'', h)
               else (case notify_publish_event ty payload trace_id h of
                       (False, h1) \<Rightarrow> (Fail 500 [], h1)
                     | (True, h1) \<Rightarrow> (Done 200 (), h1))))"

definition stats :: "'p hub \<Rightarrow> (nat \<times> string list) reply \<times> 'p hub" where
  "stats h =
     (case redis_step (hub_infra h) of
        (False, w) \<Rightarrow> (Fail 500 [], h\<lparr>hub_infra := w\<rparr>)
      | (True, w) \<Rightarrow> (Done 200 (length (hub_clients h),
           [''seat_update'', ''ticket_update'', ''transfer_update'', ''purchase_update'', ''user_update'', ''event_update'']),
           h\<lparr>hub_infra := w\<rparr>))"

subsection \<open>Lemmas\<close>

text \<open>Members of rooms are connected and in a room once.\<close>

definition hub_ok :: "'p hub \<Rightarrow> bool" where
  "hub_ok h \<longleftrightarrow> (\<forall>r. distinct (hub_rooms h r) \<and> set (hub_rooms h r) \<subseteq> set (hub_clients h))"

lemma emit_to_frame [simp]:
  "hub_rooms (emit_to sids f h) = hub_rooms h" "hub_clients (emit_to sids f h) = hub_clients h"
  "hub_ok (emit_to sids f h) = hub_ok h"
  by (simp_all add: emit_to_def hub_ok_def)

lemma handle_connect_ok: "hub_ok h \<Longrightarrow> hub_ok (handle_connect sid h)"
  by (simp add: handle_connect_def) (auto simp: hub_ok_def)

lemma handle_disconnect_ok: "hub_ok h \<Longrightarrow> hub_ok (handle_disconnect sid h)"
  by (auto simp: handle_disconnect_def hub_ok_def distinct_removeAll)

lemma handle_subscribe_ok:
  assumes "hub_ok h" and "sid \<in> set (hub_clients h)"
  shows "hub_ok (handle_subscribe sid channel h)"
proof -
  have "hub_ok (join_room sid room h)" for room using assms by (auto simp: join_room_def hub_ok_def)
  then show ?thesis using assms(1) by (simp add: handle_subscribe_def split: option.split)
qed

lemma handle_unsubscribe_ok: "hub_ok h \<Longrightarrow> hub_ok (handle_unsubscribe sid channel h)"
  by (auto simp: handle_unsubscribe_def hub_ok_def distinct_removeAll split: option.splits)

text \<open>A subscription puts the client into the room of the channel, an unsubscription takes it out.\<close>

lemma subscribe_then_member:
  "EVENT_CHANNELS ch = Some room \<Longrightarrow> ch \<noteq> [] \<Longrightarrow> sid \<in> set (hub_rooms (handle_subscribe sid (Some ch) h) room)"
  by (simp add: handle_subscribe_def join_room_def)

lemma unsubscribe_then_gone:
  "EVENT_CHANNELS ch = Some room \<Longrightarrow> ch \<noteq> [] \<Longrightarrow> sid \<notin> set (hub_rooms (handle_unsubscribe sid (Some ch) h) room)"
  by (simp add: handle_unsubscribe_def)

text \<open>
  A broadcast that succeeds sends the event to each member of its room once and to nobody else; one
  that fails sends nothing.
\<close>

lemma broadcast_reaches_room:
  assumes "broadcast (Some (Some ty, p, tr)) h = (Done st u, h')"
  shows "\<exists>room n. EVENT_CHANNELS ty = Some room \<and> nt_payload n = p
    \<and> hub_sent h' = hub_sent h @ map (\<lambda>sid. (sid, Event ty n)) (hub_rooms h room)
    \<and> hub_published h' = hub_published h @ [(room, n)]"
  using assms
  by (auto simp: broadcast_def notify_publish_event_def emit_to_def Let_def split: option.splits if_splits prod.splits bool.splits)

lemma broadcast_failure_is_silent:
  "broadcast data h = (Fail st c, h') \<Longrightarrow> hub_sent h' = hub_sent h \<and> hub_published h' = hub_published h"
  by (auto simp: broadcast_def notify_publish_event_def Let_def split: option.splits if_splits prod.splits bool.splits)

end
