(* ===== verification/ErrorHandlers.thy ===== *)
theory ErrorHandlers
  imports Startup
begin

text \<open>
  The error handlers that every service registers (\<^verbatim>\<open>_register_error_handlers\<close> in \<^verbatim>\<open>app.py\<close>, the same
  code in each): an exception becomes an error body, and every error body gets a status, a trace id
  and details before it leaves. The lemmas show that this completes every error answer, changes no
  other answer, is done at most once in effect, keeps what a handler wrote, and shows no stack trace
  unless the service is told to.
\<close>

subsection \<open>JSON bodies\<close>

text \<open>An object is the list of its entries; other values are lists, booleans, null and fractions.\<close>

datatype jval = VText string | VInt int | VObj "(string \<times> jval) list" | VOther string

definition set_key :: "string \<Rightarrow> jval \<Rightarrow> (string \<times> jval) list \<Rightarrow> (string \<times> jval) list" where
  "set_key k v obj = (if map_of obj k = None then obj @ [(k, v)] else map (\<lambda>(k', w). (k', if k' = k then v else w)) obj)"

definition setdefault :: "string \<Rightarrow> jval \<Rightarrow> (string \<times> jval) list \<Rightarrow> (string \<times> jval) list" where
  "setdefault k v obj = (if map_of obj k = None then obj @ [(k, v)] else obj)"

text \<open>The request, and an answer: its body is None when it is not JSON.\<close>

record request_info =
  rq_meth :: string
  rq_path :: string

record answer_body =
  ab_status :: nat
  ab_json :: "jval option"

text \<open>An exception: its type, text and stack trace.\<close>

type_synonym exc = "string \<times> string \<times> string"

subsection \<open>The handlers\<close>

text \<open>The names of \<^verbatim>\<open>http.HTTPStatus\<close>.\<close>

definition HTTP_STATUS :: "(nat \<times> string) list" where
  "HTTP_STATUS =
     [(100, ''CONTINUE''), (101, ''SWITCHING_PROTOCOLS''), (102, ''PROCESSING''), (103, ''EARLY_HINTS''),
      (200, ''OK''), (201, ''CREATED''), (202, ''ACCEPTED''), (203, ''NON_AUTHORITATIVE_INFORMATION''),
      (204, ''NO_CONTENT''), (205, ''RESET_CONTENT''), (206, ''PARTIAL_CONTENT''), (207, ''MULTI_STATUS''),
      (208, ''ALREADY_REPORTED''), (226, ''IM_USED''), (300, ''MULTIPLE_CHOICES''),
      (301, ''MOVED_PERMANENTLY''), (302, ''FOUND''), (303, ''SEE_OTHER''), (304, ''NOT_MODIFIED''),
      (305, ''USE_PROXY''), (307, ''TEMPORARY_REDIRECT''), (308, ''PERMANENT_REDIRECT''),
      (400, ''BAD_REQUEST''), (401, ''UNAUTHORIZED''), (402, ''PAYMENT_REQUIRED''), (403, ''FORBIDDEN''),
      (404, ''NOT_FOUND''), (405, ''METHOD_NOT_ALLOWED''), (406, ''NOT_ACCEPTABLE''),
      (407, ''PROXY_AUTHENTICATION_REQUIRED''), (408, ''REQUEST_TIMEOUT''), (409, ''CONFLICT''),
      (410, ''GONE''), (411, ''LENGTH_REQUIRED''), (412, ''PRECONDITION_FAILED''),
      (413, ''REQUEST_ENTITY_TOO_LARGE''), (414, ''REQUEST_URI_TOO_LONG''),
      (415, ''UNSUPPORTED_MEDIA_TYPE''), (416, ''REQUESTED_RANGE_NOT_SATISFIABLE''),
      (417, ''EXPECTATION_FAILED''), (418, ''IM_A_TEAPOT''), (421, ''MISDIRECTED_REQUEST''),
      (422, ''UNPROCESSABLE_ENTITY''), (423, ''LOCKED''), (424, ''FAILED_DEPENDENCY''),
      (425, ''TOO_EARLY''), (426, ''UPGRADE_REQUIRED''), (428, ''PRECONDITION_REQUIRED''),
      (429, ''TOO_MANY_REQUESTS''), (431, ''REQUEST_HEADER_FIELDS_TOO_LARGE''),
      (451, ''UNAVAILABLE_FOR_LEGAL_REASONS''), (500, ''INTERNAL_SERVER_ERROR''),
      (501, ''NOT_IMPLEMENTED''), (502, ''BAD_GATEWAY''), (503, ''SERVICE_UNAVAILABLE''),
      (504, ''GATEWAY_TIMEOUT''), (505, ''HTTP_VERSION_NOT_SUPPORTED''),
      (506, ''VARIANT_ALSO_NEGOTIATES''), (507, ''INSUFFICIENT_STORAGE''), (508, ''LOOP_DETECTED''),
      (510, ''NOT_EXTENDED''), (511, ''NETWORK_AUTHENTICATION_REQUIRED'')]"

definition http_error_code :: "nat \<Rightarrow> string" where
  "http_error_code status = (case map_of HTTP_STATUS status of None \<Rightarrow> ''HTTP_ERROR'' | Some n \<Rightarrow> n)"

definition RESOLUTION :: string where
  "RESOLUTION = ''Check error.code, request payload, and service logs using traceId.''"

definition build_error_payload ::
  "request_info \<Rightarrow> string \<Rightarrow> string \<Rightarrow> nat \<Rightarrow> string \<Rightarrow> string \<Rightarrow> exc option \<Rightarrow> jval" where
  "build_error_payload req now uuid status code message exc =
     VObj [(''error'', VObj
       [(''code'', VText code), (''message'', VText message), (''status'', VInt (int status)), (''traceId'', VText uuid),
        (''details'', VObj ([(''method'', VText (rq_meth req)), (''path'', VText (rq_path req)), (''timestamp'', VText now),
           (''resolution'', VText RESOLUTION)]
         @ (case exc of None \<Rightarrow> []
            | Some (ty, msg, st) \<Rightarrow> [(''exceptionType'', VText ty), (''exceptionMessage'', VText msg), (''stackTrace'', VOther st)])))])]"

text \<open>An HTTP exception has a code or none, and a description or none.\<close>

definition handle_http_exception ::
  "bool \<Rightarrow> request_info \<Rightarrow> string \<Rightarrow> string \<Rightarrow> nat option \<Rightarrow> string option \<Rightarrow> exc \<Rightarrow> answer_body" where
  "handle_http_exception verbose req now uuid exc_code description exc =
     (let status = (case exc_code of None \<Rightarrow> 500 | Some c \<Rightarrow> if c = 0 then 500 else c);
          message = (if truthy description then the description else fst (snd exc))
      in \<lparr>ab_status = status,
          ab_json = Some (build_error_payload req now uuid status (http_error_code status) message (if verbose then Some exc else None))\<rparr>)"

definition handle_unhandled_exception :: "bool \<Rightarrow> request_info \<Rightarrow> string \<Rightarrow> string \<Rightarrow> exc \<Rightarrow> answer_body" where
  "handle_unhandled_exception verbose req now uuid exc =
     \<lparr>ab_status = 500, ab_json = Some (build_error_payload req now uuid 500 ''INTERNAL_ERROR''
        ''Unhandled internal server error.'' (if verbose then Some exc else None))\<rparr>"

definition detail_defaults :: "request_info \<Rightarrow> string \<Rightarrow> (string \<times> jval) list \<Rightarrow> (string \<times> jval) list" where
  "detail_defaults req now details =
     setdefault ''resolution'' (VText RESOLUTION) (setdefault ''timestamp'' (VText now)
       (setdefault ''path'' (VText (rq_path req)) (setdefault ''method'' (VText (rq_meth req)) details)))"

definition obj_of :: "jval option \<Rightarrow> (string \<times> jval) list option" where
  "obj_of v = (case v of Some (VObj xs) \<Rightarrow> Some xs | _ \<Rightarrow> None)"

definition enrich_error :: "request_info \<Rightarrow> string \<Rightarrow> string \<Rightarrow> nat \<Rightarrow> (string \<times> jval) list \<Rightarrow> (string \<times> jval) list" where
  "enrich_error req now uuid status error =
     (let e = setdefault ''traceId'' (VText uuid) (setdefault ''status'' (VInt (int status)) error);
          details = (case obj_of (map_of e ''details'') of None \<Rightarrow> [] | Some d \<Rightarrow> d)
      in set_key ''details'' (VObj (detail_defaults req now details)) e)"

definition enrich_error_payload :: "request_info \<Rightarrow> string \<Rightarrow> string \<Rightarrow> answer_body \<Rightarrow> answer_body" where
  "enrich_error_payload req now uuid response =
     (if ab_status response < 400 then response
      else case obj_of (ab_json response) of
             None \<Rightarrow> response
           | Some payload \<Rightarrow>
               (case obj_of (map_of payload ''error'') of
                  None \<Rightarrow> response
                | Some error \<Rightarrow> response\<lparr>ab_json := Some (VObj (set_key ''error'' (VObj (enrich_error req now uuid (ab_status response) error)) payload))\<rparr>))"

text \<open>
  The settings that \<^verbatim>\<open>create_app\<close> of the user service reads: whether errors are verbose and the address
  of the database; None is the RuntimeError of a missing or unset address.
\<close>

definition create_app :: "environ \<Rightarrow> (bool \<times> string) option" where
  "create_app env =
     map_option (Pair (map lower_char (case env ''VERBOSE_ERRORS'' of None \<Rightarrow> [] | Some v \<Rightarrow> v) = ''true''))
       (validate_database_url (if truthy (env ''USER_SERVICE_DATABASE_URL'') then env ''USER_SERVICE_DATABASE_URL'' else env ''DATABASE_URL''))"

subsection \<open>Lemmas\<close>

lemma map_of_setdefault:
  "map_of (setdefault k v obj) j = (case map_of obj j of Some w \<Rightarrow> Some w | None \<Rightarrow> if j = k then Some v else None)"
  by (auto simp: setdefault_def map_of_append map_add_def split: option.splits)

lemma setdefault_None: "map_of (setdefault k v obj) j = None \<longleftrightarrow> map_of obj j = None \<and> j \<noteq> k"
  by (simp add: map_of_setdefault split: option.split)

lemma setdefault_keeps: "map_of obj j = Some w \<Longrightarrow> map_of (setdefault k v obj) j = Some w"
  by (simp add: map_of_setdefault)

lemma setdefault_same: "map_of obj k = Some w \<Longrightarrow> setdefault k v obj = obj"
  by (simp add: setdefault_def)

lemma map_of_replace: "map_of (map (\<lambda>(k', w). (k', if k' = k then v else w)) obj) j
    = (if j = k then map_option (\<lambda>_. v) (map_of obj k) else map_of obj j)"
  by (induction obj) auto

lemma map_of_set_key [simp]: "map_of (set_key k v obj) = (map_of obj)(k \<mapsto> v)"
  by (auto simp: set_key_def fun_eq_iff map_of_replace map_add_def split: option.splits)

text \<open>Writing a key twice is writing it the second time.\<close>

lemma set_key_twice: "set_key k v (set_key k w obj) = set_key k v obj"
proof (cases "map_of obj k")
  case None
  then have "k \<notin> fst ` set obj" by (simp add: map_of_eq_None_iff)
  then have "map (\<lambda>(k', w). (k', if k' = k then v else w)) obj = obj" by (induction obj) auto
  with None show ?thesis by (simp add: set_key_def map_of_append)
next
  case (Some u)
  then show ?thesis by (auto simp: set_key_def map_of_replace)
qed

text \<open>The defaults complete the details, keep what is there, and have nothing to add a second time.\<close>

lemma detail_defaults_keeps: "map_of d k = Some v \<Longrightarrow> map_of (detail_defaults req now d) k = Some v"
  unfolding detail_defaults_def by (intro setdefault_keeps)

lemma detail_defaults_complete:
  "k \<in> {''method'', ''path'', ''timestamp'', ''resolution''} \<Longrightarrow> map_of (detail_defaults req now d) k \<noteq> None"
  unfolding detail_defaults_def setdefault_None by blast

lemma detail_defaults_again: "detail_defaults req2 now2 (detail_defaults req now d) = detail_defaults req now d"
proof -
  have "setdefault k v (detail_defaults req now d) = detail_defaults req now d"
    if "k \<in> {''method'', ''path'', ''timestamp'', ''resolution''}" for k v
    using detail_defaults_complete [OF that] setdefault_same by blast
  then show ?thesis unfolding detail_defaults_def [of req2] by simp
qed

lemma map_of_enrich_error:
  "map_of (enrich_error req now uuid status error) k =
     (if k = ''details'' then Some (VObj (detail_defaults req now
          (case obj_of (map_of error ''details'') of None \<Rightarrow> [] | Some d \<Rightarrow> d)))
      else case map_of error k of
             Some v \<Rightarrow> Some v
           | None \<Rightarrow> if k = ''status'' then Some (VInt (int status)) else if k = ''traceId'' then Some (VText uuid) else None)"
  by (simp add: enrich_error_def Let_def map_of_setdefault split: option.split)

text \<open>Enriching an error that is enriched already changes nothing, whatever the clock and the new id.\<close>

lemma enrich_error_again:
  "enrich_error req2 now2 uuid2 status (enrich_error req now uuid status error) = enrich_error req now uuid status error"
  (is "enrich_error _ _ _ _ ?e = ?e")
proof -
  have "map_of ?e ''status'' \<noteq> None" "map_of ?e ''traceId'' \<noteq> None"
    by (simp_all add: map_of_enrich_error split: option.split)
  then obtain s t where st: "map_of ?e ''status'' = Some s" "map_of ?e ''traceId'' = Some t" by blast
  obtain d x where d: "?e = set_key ''details'' (VObj (detail_defaults req now d)) x" by (auto simp: enrich_error_def Let_def)
  then have det: "map_of ?e ''details'' = Some (VObj (detail_defaults req now d))" by simp
  have "enrich_error req2 now2 uuid2 status ?e = set_key ''details'' (VObj (detail_defaults req now d)) ?e"
    using st det unfolding enrich_error_def [of req2] by (simp add: setdefault_same obj_of_def detail_defaults_again)
  then show ?thesis using d set_key_twice by metis
qed

text \<open>
  Every error answer with an error object leaves with a status, a trace id and complete details, and
  with the code and message its handler wrote; any other answer leaves as it is.
\<close>

lemma enrich_error_payload_complete:
  assumes "400 \<le> ab_status r" and "ab_json r = Some (VObj payload)" and "map_of payload ''error'' = Some (VObj error)"
  shows "\<exists>p e d. ab_json (enrich_error_payload req now uuid r) = Some (VObj p) \<and> map_of p ''error'' = Some (VObj e)
    \<and> map_of e ''status'' \<noteq> None \<and> map_of e ''traceId'' \<noteq> None \<and> map_of e ''details'' = Some (VObj d)
    \<and> (\<forall>k \<in> {''method'', ''path'', ''timestamp'', ''resolution''}. map_of d k \<noteq> None)
    \<and> (\<forall>k v. k \<noteq> ''details'' \<longrightarrow> map_of error k = Some v \<longrightarrow> map_of e k = Some v)"
proof -
  let ?e = "enrich_error req now uuid (ab_status r) error"
  have "ab_json (enrich_error_payload req now uuid r) = Some (VObj (set_key ''error'' (VObj ?e) payload))"
    using assms by (simp add: enrich_error_payload_def obj_of_def)
  moreover have "map_of ?e ''status'' \<noteq> None" "map_of ?e ''traceId'' \<noteq> None"
    by (simp_all add: map_of_enrich_error split: option.splits)
  moreover obtain d0 where "map_of ?e ''details'' = Some (VObj (detail_defaults req now d0))" by (simp add: map_of_enrich_error)
  moreover have "\<forall>k v. k \<noteq> ''details'' \<longrightarrow> map_of error k = Some v \<longrightarrow> map_of ?e k = Some v" by (simp add: map_of_enrich_error)
  ultimately show ?thesis using detail_defaults_complete by fastforce
qed

lemma success_not_enriched: "ab_status r < 400 \<Longrightarrow> enrich_error_payload req now uuid r = r"
  by (simp add: enrich_error_payload_def)

lemma enrich_error_payload_again:
  "enrich_error_payload req2 now2 uuid2 (enrich_error_payload req now uuid r) = enrich_error_payload req now uuid r"
  by (simp add: enrich_error_payload_def obj_of_def enrich_error_again set_key_twice split: option.split jval.split)

text \<open>The codes that the models of the services give to unhandled errors.\<close>

lemma http_error_codes:
  "http_error_code 404 = ''NOT_FOUND''" "http_error_code 405 = ''METHOD_NOT_ALLOWED''"
  "http_error_code 400 = ''BAD_REQUEST''" "http_error_code 415 = ''UNSUPPORTED_MEDIA_TYPE''" "http_error_code 599 = ''HTTP_ERROR''"
  by (simp_all add: http_error_code_def HTTP_STATUS_def)

text \<open>Without the setting no answer to an exception has a stack trace.\<close>

lemma quiet_errors:
  "ab_json (handle_unhandled_exception False req now uuid exc) = Some (VObj [(''error'', VObj error)]) \<Longrightarrow>
    map_of error ''details'' = Some (VObj d) \<Longrightarrow> map_of d ''stackTrace'' = None \<and> map_of d ''exceptionMessage'' = None"
  by (auto simp: handle_unhandled_exception_def build_error_payload_def)

end
