(* ===== verification/Seeding.thy ===== *)
theory Seeding
  imports AuthOrchestrator EventService
begin

text \<open>
  The scripts that fill the tables: \<^verbatim>\<open>seed_venues.py\<close>, \<^verbatim>\<open>seed_seats.py\<close>, \<^verbatim>\<open>seed_events.py\<close>,
  \<^verbatim>\<open>seed_seat_inventory.py\<close> and \<^verbatim>\<open>user_seed.py\<close>. Four of them have the same loop, which adds a row for
  each entry whose key no row has; the locale \<open>seeding\<close> has its lemmas and is interpreted on each of the
  four. The lemmas show that running a script again adds nothing, that no row is changed, that the seeded
  users can log in, and that the loop over the seats of a venue takes the first free numbers up to a
  count, which is the capacity in words but never more than 260.
\<close>

subsection \<open>The common loop\<close>

text \<open>
  \<open>dkey\<close> and \<open>rkey\<close> are the compared keys of an entry and of a row, \<open>mk k d\<close> the row made for the \<open>k\<close>th
  created entry. None is an exception: then nothing is committed. The result is the number of
  created rows and the table; a query in the loop sees the rows added before.
\<close>

fun seed_rows ::
  "('d \<Rightarrow> 'k) \<Rightarrow> ('r \<Rightarrow> 'k) \<Rightarrow> (nat \<Rightarrow> 'd \<Rightarrow> 'r option) \<Rightarrow> 'd list \<Rightarrow> nat \<Rightarrow> 'r list \<Rightarrow> (nat \<times> 'r list) option" where
  "seed_rows dkey rkey mk [] created rows = Some (created, rows)"
| "seed_rows dkey rkey mk (d # ds) created rows =
     (if list_ex (\<lambda>r. rkey r = dkey d) rows then seed_rows dkey rkey mk ds created rows
      else case mk created d of
             None \<Rightarrow> None
           | Some r \<Rightarrow> seed_rows dkey rkey mk ds (Suc created) (rows @ [r]))"

text \<open>The commit at the end, which checks the constraints of the table.\<close>

definition commit_seed :: "('r list \<Rightarrow> bool) \<Rightarrow> (nat \<times> 'r list) option \<Rightarrow> (nat \<times> 'r list) option" where
  "commit_seed unique res = (case res of None \<Rightarrow> None | Some (n, rows) \<Rightarrow> if unique rows then Some (n, rows) else None)"

subsection \<open>Venues and events\<close>

definition VENUES :: "int \<Rightarrow> venue list" where
  "VENUES now =
     [\<lparr>ve_venueId = ''ven_001'', ve_name = ''Esplanade Concert Hall'', ve_capacity = 1600,
       ve_address = ''1 Esplanade Drive, Singapore'', ve_postalCode = Some ''038981'',
       ve_coordinates = Some ''1.2897,103.8555'', ve_isActive = True, ve_createdAt = now\<rparr>,
      \<lparr>ve_venueId = ''ven_002'', ve_name = ''Singapore Indoor Stadium'', ve_capacity = 12000,
       ve_address = ''2 Stadium Walk, Singapore'', ve_postalCode = Some ''397691'',
       ve_coordinates = Some ''1.3006,103.8745'', ve_isActive = True, ve_createdAt = now\<rparr>,
      \<lparr>ve_venueId = ''ven_003'', ve_name = ''Capitol Theatre'', ve_capacity = 800,
       ve_address = ''17 Stamford Road, Singapore'', ve_postalCode = Some ''178907'',
       ve_coordinates = Some ''1.2935,103.8519'', ve_isActive = True, ve_createdAt = now\<rparr>,
      \<lparr>ve_venueId = ''ven_004'', ve_name = ''Sands Theatre'', ve_capacity = 1680,
       ve_address = ''10 Bayfront Avenue, B1-69/70 The Shoppes at Marina Bay Sands, Singapore'',
       ve_postalCode = Some ''018971'', ve_coordinates = Some ''1.2834,103.8607'', ve_isActive = True, ve_createdAt = now\<rparr>,
      \<lparr>ve_venueId = ''ven_005'', ve_name = ''National Stadium'', ve_capacity = 55000,
       ve_address = ''1 Stadium Drive, Singapore'', ve_postalCode = Some ''397629'',
       ve_coordinates = Some ''1.3044,103.8743'', ve_isActive = True, ve_createdAt = now\<rparr>,
      \<lparr>ve_venueId = ''ven_006'', ve_name = ''Gardens by the Bay'', ve_capacity = 10000,
       ve_address = ''18 Marina Gardens Drive, Singapore'', ve_postalCode = Some ''018953'',
       ve_coordinates = Some ''1.2816,103.8636'', ve_isActive = True, ve_createdAt = now\<rparr>]"

definition made_venue :: "nat \<Rightarrow> venue \<Rightarrow> venue option" where
  "made_venue k v = Some v"

definition seed_venues :: "int \<Rightarrow> venue list \<Rightarrow> (nat \<times> venue list) option" where
  "seed_venues now rows =
     commit_seed (\<lambda>rs. distinct (map ve_venueId rs)) (seed_rows ve_venueId ve_venueId made_venue (VENUES now) 0 rows)"

text \<open>The entries, those of \<^verbatim>\<open>SEED_EVENTS\<close>, are an argument; \<open>Populate\<close> has them.\<close>

definition made_event :: "int \<Rightarrow> nat \<Rightarrow> 'n event \<Rightarrow> 'n event option" where
  "made_event now k e = Some (e\<lparr>ev_cancelledAt := None, ev_createdAt := now\<rparr>)"

definition seed_events :: "'n event list \<Rightarrow> int \<Rightarrow> 'n event list \<Rightarrow> (nat \<times> 'n event list) option" where
  "seed_events data now rows =
     commit_seed (\<lambda>rs. distinct (map ev_eventId rs)) (seed_rows ev_eventId ev_eventId (made_event now) data 0 rows)"

subsection \<open>Users\<close>

text \<open>The email, password, phone number and role of each; none is flagged.\<close>

definition TEST_USERS :: "(string \<times> string \<times> string \<times> string) list" where
  "TEST_USERS =
     [(''admin@ticketremaster.local'', ''admin123'', ''+6500000001'', ''admin''),
      (''staff@ticketremaster.local'', ''staff123'', ''+6500000002'', ''staff''),
      (''user@ticketremaster.local'', ''user123'', ''+6500000003'', ''user'')]"

text \<open>The stored salt is drawn after the hash and is not the one inside it.\<close>

definition made_user ::
  "bcrypt_api \<Rightarrow> (nat \<Rightarrow> string) \<Rightarrow> (nat \<Rightarrow> string) \<Rightarrow> int \<Rightarrow> nat \<Rightarrow> string \<times> string \<times> string \<times> string \<Rightarrow> user option" where
  "made_user bc rand uuids now k d =
     (case d of (em, pw, ph, role) \<Rightarrow>
        (case hashpw bc pw (gensalt bc (rand (2 * k))) of
           None \<Rightarrow> None
         | Some h \<Rightarrow> Some \<lparr>us_userId = uuids k, us_email = em, us_password = h, us_salt = gensalt bc (rand (2 * k + 1)),
             us_phoneNumber = ph, us_role = role, us_isFlagged = False, us_venueId = None, us_favoriteEvents = [], us_createdAt = now\<rparr>))"

definition seed_users ::
  "bcrypt_api \<Rightarrow> (nat \<Rightarrow> string) \<Rightarrow> (nat \<Rightarrow> string) \<Rightarrow> int \<Rightarrow> user list \<Rightarrow> (nat \<times> user list) option" where
  "seed_users bc rand uuids now rows =
     commit_seed unique_users (seed_rows fst us_email (made_user bc rand uuids now) TEST_USERS 0 rows)"

subsection \<open>The inventory\<close>

text \<open>
  The script reads the first page of events and the seats of each event's venue. Its two nested loops
  are one loop over the pairs of event and seat; entries with an empty id are skipped.
\<close>

definition inventory_entries :: "'n event_dict list \<Rightarrow> place list \<Rightarrow> (string \<times> string) list" where
  "inventory_entries evs pls =
     concat (map (\<lambda>e. if ed_eventId e = [] \<or> ed_venueId e = [] then []
       else map (\<lambda>p. (ed_eventId e, pl_seatId p)) (filter (\<lambda>p. pl_seatId p \<noteq> []) (list_seats_for_venue (ed_venueId e) pls))) evs)"

definition made_inventory :: "(nat \<Rightarrow> string) \<Rightarrow> int \<Rightarrow> nat \<Rightarrow> string \<times> string \<Rightarrow> seat option" where
  "made_inventory uuids now k d = Some (new_seat now (fst d) (uuids k) (snd d, ''available''))"

definition seed_inventory ::
  "'n event list \<Rightarrow> place list \<Rightarrow> (nat \<Rightarrow> string) \<Rightarrow> int \<Rightarrow> seats \<Rightarrow> (nat \<times> seats) option" where
  "seed_inventory evs pls uuids now rows =
     (case list_events None None None evs of
        Fail st c \<Rightarrow> None
      | Done st page \<Rightarrow>
          commit_seed unique_seats
            (seed_rows id (\<lambda>r. (seat_eventId r, seatId r)) (made_inventory uuids now) (inventory_entries (fst page) pls) 0 rows))"

subsection \<open>The seats of a venue\<close>

definition VENUE_CAPACITIES :: "(string \<times> nat) list" where
  "VENUE_CAPACITIES = [(''ven_001'', 1600), (''ven_002'', 12000), (''ven_003'', 800), (''ven_004'', 1680),
     (''ven_005'', 55000), (''ven_006'', 10000)]"

definition rows_a_to_z :: "string list" where
  "rows_a_to_z = map (\<lambda>c. [c]) ''ABCDEFGHIJKLMNOPQRSTUVWXYZ''"

definition seat_indexes :: "string list" where
  "seat_indexes = [''1'', ''2'', ''3'', ''4'', ''5'', ''6'', ''7'', ''8'', ''9'', ''10'']"

text \<open>The inner and the outer loop; the list holds the number and the row of each seat to create.\<close>

fun seed_seat_row :: "nat \<Rightarrow> string list \<Rightarrow> string \<Rightarrow> string list \<Rightarrow> (string \<times> string) list \<Rightarrow> (string \<times> string) list" where
  "seed_seat_row capacity existing row [] to_create = to_create"
| "seed_seat_row capacity existing row (i # is) to_create =
     (if capacity \<le> length to_create then to_create
      else if row @ i \<in> set existing then seed_seat_row capacity existing row is to_create
      else seed_seat_row capacity existing row is (to_create @ [(row @ i, row)]))"

fun seed_seat_rows :: "nat \<Rightarrow> string list \<Rightarrow> string list \<Rightarrow> (string \<times> string) list \<Rightarrow> (string \<times> string) list" where
  "seed_seat_rows capacity existing [] to_create = to_create"
| "seed_seat_rows capacity existing (row # rest) to_create =
     (let made = seed_seat_row capacity existing row seat_indexes to_create
      in if capacity \<le> length made then made else seed_seat_rows capacity existing rest made)"

definition numbers_of :: "string \<Rightarrow> place list \<Rightarrow> string list" where
  "numbers_of vid rows = map pl_seatNumber (filter (\<lambda>p. pl_venueId p = vid) rows)"

text \<open>\<open>uuids\<close> are the ids drawn for this venue.\<close>

definition seed_venue :: "string \<Rightarrow> nat \<Rightarrow> (nat \<Rightarrow> string) \<Rightarrow> int \<Rightarrow> place list \<Rightarrow> nat \<times> place list" where
  "seed_venue vid capacity uuids now rows =
     (let to_create = seed_seat_rows capacity (numbers_of vid rows) rows_a_to_z []
      in (length to_create, rows @ map (\<lambda>(k, n, r). \<lparr>pl_seatId = uuids k, pl_venueId = vid, pl_seatNumber = n,
            pl_rowNumber = r, pl_createdAt = now\<rparr>) (enumerate 0 to_create)))"

definition unique_places :: "place list \<Rightarrow> bool" where
  "unique_places rows \<longleftrightarrow> distinct (map pl_seatId rows) \<and> distinct (map (\<lambda>p. (pl_venueId p, pl_seatNumber p)) rows)"

primrec seed_all_venues :: "(string \<times> nat) list \<Rightarrow> (nat \<Rightarrow> nat \<Rightarrow> string) \<Rightarrow> int \<Rightarrow> nat \<times> place list \<Rightarrow> nat \<times> place list" where
  "seed_all_venues [] uuids now st = st"
| "seed_all_venues (vc # vcs) uuids now st =
     (case seed_venue (fst vc) (snd vc) (uuids (length vcs)) now (snd st) of
        (n, rows) \<Rightarrow> seed_all_venues vcs uuids now (fst st + n, rows))"

definition seed_seats :: "(nat \<Rightarrow> nat \<Rightarrow> string) \<Rightarrow> int \<Rightarrow> place list \<Rightarrow> (nat \<times> place list) option" where
  "seed_seats uuids now rows = commit_seed unique_places (Some (seed_all_venues VENUE_CAPACITIES uuids now (0, rows)))"

subsection \<open>Lemmas: the common loop\<close>

lemma commit_seed_Some: "commit_seed u res = Some (n, rows) \<longleftrightarrow> res = Some (n, rows) \<and> u rows"
  by (auto simp: commit_seed_def split: option.splits)

text \<open>A table that has all entries is left as it is, whatever rows would be made.\<close>

lemma seed_rows_idle: "(\<forall>d \<in> set ds. \<exists>r \<in> set rows. rkey r = dkey d) \<Longrightarrow> seed_rows dkey rkey mk ds n rows = Some (n, rows)"
  by (induction ds) (auto simp: list_ex_iff)

locale seeding =
  fixes dkey :: "'d \<Rightarrow> 'k" and rkey :: "'r \<Rightarrow> 'k" and mk :: "nat \<Rightarrow> 'd \<Rightarrow> 'r option"
  assumes made_key: "mk k d = Some r \<Longrightarrow> rkey r = dkey d"
begin

text \<open>The rows stay and the new ones, one for each entry whose key was missing, come after them.\<close>

lemma rows_kept:
  "seed_rows dkey rkey mk ds n rows = Some (m, rows') \<Longrightarrow>
    \<exists>new. rows' = rows @ new \<and> m = n + length new \<and> (\<forall>r \<in> set new. \<exists>d \<in> set ds. \<exists>k. mk k d = Some r \<and> dkey d \<notin> rkey ` set rows)"
proof (induction ds arbitrary: n rows)
  case (Cons d ds)
  show ?case
  proof (cases "list_ex (\<lambda>r. rkey r = dkey d) rows")
    case True
    with Cons.prems have "seed_rows dkey rkey mk ds n rows = Some (m, rows')" by simp
    from Cons.IH [OF this] show ?thesis by (auto 4 4)
  next
    case False
    with Cons.prems obtain r where r: "mk n d = Some r" "seed_rows dkey rkey mk ds (Suc n) (rows @ [r]) = Some (m, rows')"
      by (auto split: option.splits)
    from Cons.IH [OF r(2)] obtain new where new: "rows' = rows @ [r] @ new" "m = Suc n + length new"
      "\<forall>x \<in> set new. \<exists>e \<in> set ds. \<exists>k. mk k e = Some x \<and> dkey e \<notin> rkey ` set (rows @ [r])" by auto
    have "dkey d \<notin> rkey ` set rows" using False by (auto simp: list_ex_iff)
    with new r(1) show ?thesis by (intro exI [of _ "r # new"]) (auto; blast)
  qed
qed simp

lemma all_present:
  "seed_rows dkey rkey mk ds n rows = Some (m, rows') \<Longrightarrow> d \<in> set ds \<Longrightarrow> \<exists>r \<in> set rows'. rkey r = dkey d"
proof (induction ds arbitrary: n rows)
  case (Cons e ds)
  have keep: "seed_rows dkey rkey mk ds k tbl = Some (m, rows') \<Longrightarrow> x \<in> set tbl \<Longrightarrow> x \<in> set rows'" for k tbl x
    using rows_kept by fastforce
  show ?case
  proof (cases "list_ex (\<lambda>r. rkey r = dkey e) rows")
    case True
    with Cons.prems(1) have "seed_rows dkey rkey mk ds n rows = Some (m, rows')" by simp
    with Cons.IH Cons.prems(2) keep True show ?thesis by (auto simp: list_ex_iff)
  next
    case False
    with Cons.prems(1) obtain r where r: "mk n e = Some r" "seed_rows dkey rkey mk ds (Suc n) (rows @ [r]) = Some (m, rows')"
      by (auto split: option.splits)
    with Cons.IH [OF r(2)] Cons.prems(2) keep [OF r(2), of r] made_key [OF r(1)] show ?thesis by auto
  qed
qed simp

text \<open>A second run, with other clocks and ids, creates nothing.\<close>

lemma second_run:
  "seed_rows dkey rkey mk ds n rows = Some (m, rows') \<Longrightarrow> seed_rows dkey rkey mk' ds 0 rows' = Some (0, rows')"
  using all_present by (intro seed_rows_idle) blast

lemma keys_unique:
  "seed_rows dkey rkey mk ds n rows = Some (m, rows') \<Longrightarrow> distinct (map rkey rows) \<Longrightarrow> distinct (map rkey rows')"
proof (induction ds arbitrary: n rows)
  case (Cons d ds)
  show ?case
  proof (cases "list_ex (\<lambda>r. rkey r = dkey d) rows")
    case False
    with Cons.prems(1) obtain r where r: "mk n d = Some r" "seed_rows dkey rkey mk ds (Suc n) (rows @ [r]) = Some (m, rows')"
      by (auto split: option.splits)
    have "distinct (map rkey (rows @ [r]))" using Cons.prems(2) False made_key [OF r(1)] by (auto simp: list_ex_iff)
    from Cons.IH [OF r(2) this] show ?thesis .
  qed (use Cons in simp)
qed simp

end

interpretation venue_seed: seeding ve_venueId ve_venueId made_venue
  by unfold_locales (simp add: made_venue_def)

interpretation event_seed: seeding ev_eventId ev_eventId "made_event now" for now
  by unfold_locales (auto simp: made_event_def)

interpretation user_seed: seeding fst us_email "made_user bc rand uuids now" for bc rand uuids now
  by unfold_locales (auto simp: made_user_def split: option.splits)

interpretation inventory_seed: seeding id "\<lambda>r. (seat_eventId r, seatId r)" "made_inventory uuids now" for uuids now
  by unfold_locales (auto simp: made_inventory_def new_seat_def)

subsection \<open>Lemmas: the scripts\<close>

text \<open>
  Running a script again creates nothing and leaves its table as it is, whatever ids, salts and clock
  the second run has.
\<close>

lemma seeding_again:
  "seed_venues now rows = Some (n, rows') \<Longrightarrow> seed_venues now2 rows' = Some (0, rows')"
  "seed_events data now evs = Some (n, evs') \<Longrightarrow> seed_events data now2 evs' = Some (0, evs')"
  "seed_users bc rand uuids now us = Some (n, us') \<Longrightarrow> seed_users bc rand2 uuids2 now2 us' = Some (0, us')"
proof -
  have idle: "seed_rows ve_venueId ve_venueId mk (VENUES now2) 0 tbl = Some (0, tbl)"
    if "\<forall>d \<in> set (VENUES now). \<exists>r \<in> set tbl. ve_venueId r = ve_venueId d" for mk tbl
    using that by (intro seed_rows_idle) (simp add: VENUES_def)
  show "seed_venues now rows = Some (n, rows') \<Longrightarrow> seed_venues now2 rows' = Some (0, rows')"
    unfolding seed_venues_def commit_seed_Some using venue_seed.all_present by (auto intro!: idle)
  show "seed_events data now evs = Some (n, evs') \<Longrightarrow> seed_events data now2 evs' = Some (0, evs')"
    unfolding seed_events_def commit_seed_Some by (auto dest: event_seed.second_run)
  show "seed_users bc rand uuids now us = Some (n, us') \<Longrightarrow> seed_users bc rand2 uuids2 now2 us' = Some (0, us')"
    unfolding seed_users_def commit_seed_Some by (auto dest: user_seed.second_run)
qed

text \<open>Unique venue and event ids never let a commit fail.\<close>

lemma seed_venues_succeeds: "distinct (map ve_venueId rows) \<Longrightarrow> \<exists>n rows'. seed_venues now rows = Some (n, rows')"
proof -
  have total: "\<exists>m tbl'. seed_rows ve_venueId ve_venueId made_venue ds k tbl = Some (m, tbl')" for ds k tbl
    by (induction ds arbitrary: k tbl) (auto simp: made_venue_def)
  assume "distinct (map ve_venueId rows)"
  with total [of "VENUES now" 0 rows] venue_seed.keys_unique show ?thesis
    unfolding seed_venues_def commit_seed_Some by blast
qed

text \<open>A user that the script created logs in with the password of the list.\<close>

lemma seeded_user_logs_in:
  assumes "bcrypt_laws bc" and "seed_users bc rand uuids now [] = Some (n, us)" and "u \<in> set us"
  shows "\<exists>em pw ph role. (em, pw, ph, role) \<in> set TEST_USERS \<and> us_email u = em \<and> us_role u = role
    \<and> \<not> us_isFlagged u \<and> checkpw bc pw (us_password u) = Some True"
proof -
  from assms(2) have "seed_rows fst us_email (made_user bc rand uuids now) TEST_USERS 0 [] = Some (n, us)"
    by (simp add: seed_users_def commit_seed_Some)
  from user_seed.rows_kept [OF this] assms(3) obtain d k where d: "d \<in> set TEST_USERS" "made_user bc rand uuids now k d = Some u"
    by auto
  obtain em pw ph role where e: "d = (em, pw, ph, role)" by (cases d)
  from d(2) assms(1) have "us_email u = em \<and> us_role u = role \<and> \<not> us_isFlagged u \<and> checkpw bc pw (us_password u) = Some True"
    by (auto simp: e made_user_def bcrypt_laws_def split: option.splits)
  with d(1) e show ?thesis by blast
qed

lemma made_inventory_available: "made_inventory uuids now k d = Some r \<Longrightarrow> seat_status r = ''available''"
  by (auto simp: made_inventory_def new_seat_def)

text \<open>
  After the inventory script every seat of the venue of every event of the first page is in the
  inventory; rows that were there, held and sold ones too, are as they were, new ones are available, the
  constraints hold, and a second run creates nothing.
\<close>

lemma seed_inventory_effect:
  assumes "seed_inventory evs pls uuids now rows = Some (n, rows')"
  shows "\<exists>new. rows' = rows @ new \<and> n = length new \<and> (\<forall>r \<in> set new. seat_status r = ''available'')"
    and "unique_seats rows'"
    and "list_events None None None evs = Done 200 page \<Longrightarrow> e \<in> set (fst page) \<Longrightarrow> ed_eventId e \<noteq> [] \<Longrightarrow> ed_venueId e \<noteq> [] \<Longrightarrow>
      p \<in> set pls \<Longrightarrow> pl_venueId p = ed_venueId e \<Longrightarrow> pl_seatId p \<noteq> [] \<Longrightarrow>
      \<exists>r \<in> set rows'. seat_eventId r = ed_eventId e \<and> seatId r = pl_seatId p"
    and "seed_inventory evs pls uuids2 now2 rows' = Some (0, rows')"
proof -
  obtain st pg where pg: "list_events None None None evs = Done st pg"
    and seed: "seed_rows id (\<lambda>r. (seat_eventId r, seatId r)) (made_inventory uuids now) (inventory_entries (fst pg) pls) 0 rows = Some (n, rows')"
    and uni: "unique_seats rows'"
    using assms by (auto simp: seed_inventory_def commit_seed_Some split: reply.splits)
  obtain new where new: "rows' = rows @ new" "n = 0 + length new"
    "\<forall>r \<in> set new. \<exists>d \<in> set (inventory_entries (fst pg) pls). \<exists>k. made_inventory uuids now k d = Some r
      \<and> id d \<notin> (\<lambda>r. (seat_eventId r, seatId r)) ` set rows"
    using inventory_seed.rows_kept [OF seed] by blast
  from new(3) have "\<forall>r \<in> set new. seat_status r = ''available''" using made_inventory_available by blast
  with new(1,2) show "\<exists>new. rows' = rows @ new \<and> n = length new \<and> (\<forall>r \<in> set new. seat_status r = ''available'')"
    by auto
  show "unique_seats rows'" by (fact uni)
  show "seed_inventory evs pls uuids2 now2 rows' = Some (0, rows')"
    using pg uni inventory_seed.second_run [OF seed] by (simp add: seed_inventory_def commit_seed_Some)
  assume a: "list_events None None None evs = Done 200 page" "e \<in> set (fst page)" "ed_eventId e \<noteq> []" "ed_venueId e \<noteq> []"
    "p \<in> set pls" "pl_venueId p = ed_venueId e" "pl_seatId p \<noteq> []"
  then have "(ed_eventId e, pl_seatId p) \<in> set (inventory_entries (fst pg) pls)"
    using pg by (force simp: inventory_entries_def list_seats_for_venue_def)
  from inventory_seed.all_present [OF seed this]
  show "\<exists>r \<in> set rows'. seat_eventId r = ed_eventId e \<and> seatId r = pl_seatId p" by auto
qed

subsection \<open>Lemmas: the seats of a venue\<close>

text \<open>All seat numbers in order, with their rows.\<close>

definition seat_grid :: "string list \<Rightarrow> (string \<times> string) list" where
  "seat_grid rows = concat (map (\<lambda>r. map (\<lambda>i. (r @ i, r)) seat_indexes) rows)"

definition missing_seats :: "string list \<Rightarrow> (string \<times> string) list \<Rightarrow> (string \<times> string) list" where
  "missing_seats existing xs = filter (\<lambda>(n, r). n \<notin> set existing) xs"

lemma seed_seat_row_take:
  "length acc \<le> cap \<Longrightarrow>
    seed_seat_row cap existing row is acc = take cap (acc @ missing_seats existing (map (\<lambda>i. (row @ i, row)) is))"
  by (induction "is" arbitrary: acc) (auto simp: missing_seats_def take_Cons')

text \<open>The two loops with their breaks take the first missing numbers, up to the capacity.\<close>

lemma seed_seat_rows_take:
  "length acc \<le> cap \<Longrightarrow> seed_seat_rows cap existing rows acc = take cap (acc @ missing_seats existing (seat_grid rows))"
proof (induction rows arbitrary: acc)
  case (Cons row rows)
  let ?m = "missing_seats existing (map (\<lambda>i. (row @ i, row)) seat_indexes)"
  have made: "seed_seat_row cap existing row seat_indexes acc = take cap (acc @ ?m)"
    by (rule seed_seat_row_take [OF Cons.prems])
  have split: "missing_seats existing (seat_grid (row # rows)) = ?m @ missing_seats existing (seat_grid rows)"
    by (simp add: missing_seats_def seat_grid_def)
  show ?case
  proof (cases "cap \<le> length (take cap (acc @ ?m))")
    case True
    then show ?thesis using made split by (auto simp: Let_def min_def split: if_splits)
  next
    case False
    then have "take cap (acc @ ?m) = acc @ ?m" by simp
    with False made split Cons.IH [of "acc @ ?m"] show ?thesis by (simp add: Let_def)
  qed
qed (simp add: missing_seats_def seat_grid_def)

lemma grid_length: "length (seat_grid rows_a_to_z) = 260"
  by (simp add: seat_grid_def rows_a_to_z_def seat_indexes_def)

text \<open>
  A venue gets at most 260 seats, whatever its capacity; with a capacity of at least 260, as all
  venues have, every number exists afterwards and a second run creates nothing. With a smaller
  capacity a second run goes on, since the seats that exist do not count.
\<close>

lemma seed_venue_count:
  "fst (seed_venue vid cap uuids now rows) = min cap (length (missing_seats (numbers_of vid rows) (seat_grid rows_a_to_z)))"
  by (simp add: seed_venue_def Let_def seed_seat_rows_take)

lemma seed_venue_small: "fst (seed_venue vid cap uuids now rows) \<le> 260"
proof -
  have "length (missing_seats (numbers_of vid rows) (seat_grid rows_a_to_z)) \<le> length (seat_grid rows_a_to_z)"
    unfolding missing_seats_def by (rule length_filter_le)
  then show ?thesis by (simp add: seed_venue_count grid_length)
qed

lemma seed_venue_numbers:
  "numbers_of vid (snd (seed_venue vid cap uuids now rows))
    = numbers_of vid rows @ map fst (seed_seat_rows cap (numbers_of vid rows) rows_a_to_z [])"
proof -
  have "map (\<lambda>x. fst (snd x)) (enumerate 0 xs) = map fst xs" for xs :: "(string \<times> string) list"
  proof -
    have "(\<lambda>x :: nat \<times> string \<times> string. fst (snd x)) = fst \<circ> snd" by auto
    then show ?thesis by (simp only: map_map [symmetric] map_snd_enumerate)
  qed
  then show ?thesis by (simp add: seed_venue_def Let_def numbers_of_def filter_map o_def case_prod_beta)
qed

lemma seed_venue_complete:
  assumes "260 \<le> cap" and "(num, row) \<in> set (seat_grid rows_a_to_z)"
  shows "num \<in> set (numbers_of vid (snd (seed_venue vid cap uuids now rows)))"
proof -
  let ?m = "missing_seats (numbers_of vid rows) (seat_grid rows_a_to_z)"
  have "length ?m \<le> length (seat_grid rows_a_to_z)" unfolding missing_seats_def by (rule length_filter_le)
  then have "seed_seat_rows cap (numbers_of vid rows) rows_a_to_z [] = ?m"
    using assms(1) by (simp add: seed_seat_rows_take grid_length)
  with assms(2) show ?thesis by (force simp: seed_venue_numbers missing_seats_def)
qed

lemma seed_venue_again:
  assumes "260 \<le> cap"
  shows "seed_venue vid cap uuids2 now2 (snd (seed_venue vid cap uuids now rows)) = (0, snd (seed_venue vid cap uuids now rows))"
proof -
  let ?rows = "snd (seed_venue vid cap uuids now rows)"
  have "missing_seats (numbers_of vid ?rows) (seat_grid rows_a_to_z) = []"
    using seed_venue_complete [OF assms] by (auto simp: missing_seats_def filter_empty_conv)
  then show ?thesis by (simp add: seed_venue_def [of _ _ _ _ ?rows] Let_def seed_seat_rows_take)
qed

end
