(* ===== verification/Frames.thy ===== *)
theory Frames
  imports SeatHistory PurchaseOrchestrator TransferSaga VerificationOrchestrator CreditOrchestrator
    AuthOrchestrator EventOrchestrator
begin

text \<open>
  What every workflow respects. The locale \<open>workflow_relation\<close> is a relation between the states
  before and after: reflexive, transitive, and kept by each single effect that a route of a service or
  a question to an external service has on the whole state, and by payments of the users in \<open>U\<close>. Its
  lemmas show once that then every handler of every orchestrator keeps it, whatever the network, the
  stores and the external services do. An invariant of the system is an interpretation of this locale,
  and its proof is about single routes only.
\<close>

text \<open>The external services that the orchestrators use.\<close>

record ('n, 'x) services =
  sv_credit :: "('n, 'x) credit_api"
  sv_post :: "('n, 'x) credit_post"
  sv_otp :: "'x otp_api"
  sv_stripe :: "'x stripe_api"

text \<open>What a call leaves of their state: of one that asks, and of one that writes the credits of a user.\<close>

definition asks :: "('n, 'x) services \<Rightarrow> 'x \<Rightarrow> 'x \<Rightarrow> bool" where
  "asks V x y \<longleftrightarrow> x = y \<or> (\<exists>u. y = snd (credit_get (sv_credit V) u x)) \<or> (\<exists>p. y = snd (smu_send (sv_otp V) p x))
     \<or> (\<exists>sid c. y = snd (smu_verify (sv_otp V) sid c x)) \<or> (\<exists>a u c. y = snd (pi_create (sv_stripe V) a u c x))
     \<or> (\<exists>pid. y = snd (pi_retrieve (sv_stripe V) pid x))"

definition pays :: "('n, 'x) services \<Rightarrow> string \<Rightarrow> 'x \<Rightarrow> 'x \<Rightarrow> bool" where
  "pays V u x y \<longleftrightarrow> (\<exists>v. y = snd (credit_patch (sv_credit V) u v x)) \<or> (\<exists>v. y = snd (sv_post V u v x))"

lemma wrapper_asks:
  "asks V x (snd (send_otp (sv_otp V) p x))" "asks V x (snd (snd (verify_otp (sv_otp V) sid otp p h (w, x))))"
  "asks V x (snd (create_payment_intent (sv_stripe V) u a x))" "asks V x (snd (retrieve_payment_intent (sv_stripe V) pid x))"
proof -
  show "asks V x (snd (send_otp (sv_otp V) p x))"
    using send_otp_ext [of "sv_otp V" p x] unfolding asks_def by (metis prod.collapse snd_conv)
  show "asks V x (snd (snd (verify_otp (sv_otp V) sid otp p h (w, x))))"
    using verify_otp_ext [of "sv_otp V" sid otp p h w x] unfolding asks_def by (metis prod.collapse snd_conv)
  show "asks V x (snd (create_payment_intent (sv_stripe V) u a x))"
    by (cases a) (auto simp: create_payment_intent_def asks_def split: prod.split option.split, (metis snd_conv)+)
  show "asks V x (snd (retrieve_payment_intent (sv_stripe V) pid x))"
    by (auto simp: retrieve_payment_intent_def asks_def split: prod.split option.split, (metis snd_conv)+)
qed

named_theorems kept \<open>how a relation passes through the code of a handler\<close>

text \<open>A PATCH of a ticket that does not name an owner.\<close>

fun no_owner :: "ticket_field \<Rightarrow> bool" where
  "no_owner (TkOwnerId v) = False"
| "no_owner _ = True"

lemma service_calls:
  "asks V x (snd (credit_get (sv_credit V) u x))" "pays V u x (snd (credit_patch (sv_credit V) u v x))" "pays V u x (snd (sv_post V u v x))"
  unfolding asks_def pays_def by blast+

lemma call_create_user_id:
  assumes "call_service tmo (ep_create_user b) s = (Inr u, s')"
  shows "ud_userId u \<notin> us_userId ` set (users s)"
  using assms
proof (cases rule: call_service_cases)
  case (answered st v)
  then show ?thesis
    by (auto simp: ep_create_user_def draw_def create_user_def unique_users_def user_to_dict_def Let_def
        split: prod.splits option.splits if_splits)
qed simp_all

locale workflow_relation =
  fixes R :: "('n::{ring_1,ord}, 'x) sys \<Rightarrow> ('n, 'x) sys \<Rightarrow> bool" and V :: "('n, 'x) services" and U :: "string \<Rightarrow> bool"
  assumes R_refl: "R s s"
    and R_trans: "R s t \<Longrightarrow> R t u \<Longrightarrow> R s u"
    and R_net: "R s (s\<lparr>net := n\<rparr>)"
    and R_drawn: "R s (s\<lparr>drawn := d\<rparr>)"
    and R_asks: "asks V (ext s) x \<Longrightarrow> R s (s\<lparr>ext := x\<rparr>)"
    and R_pays: "U a \<Longrightarrow> pays V a (ext s) x \<Longrightarrow> R s (s\<lparr>ext := x\<rparr>)"
    and R_breaker: "R s (s\<lparr>breaker_of := b\<rparr>)"
    and R_seats: "seat_step (inventory s) e i \<Longrightarrow> R s (s\<lparr>inventory := i\<rparr>)"
    and R_update_ticket: "list_all no_owner tb \<Longrightarrow> update_ticket tid tb (tickets s) = (kr, ks) \<Longrightarrow> R s (s\<lparr>tickets := ks\<rparr>)"
    and R_create_listing: "create_listing lb uuid now (listings s) = (lr, ls) \<Longrightarrow> R s (s\<lparr>listings := ls\<rparr>)"
    and R_update_listing: "update_listing lid lf (listings s) = (lr, ls) \<Longrightarrow> R s (s\<lparr>listings := ls\<rparr>)"
    and R_create_transfer: "create_transfer fb uuid now (transfers s) = (fr, fs) \<Longrightarrow> R s (s\<lparr>transfers := fs\<rparr>)"
    and R_get_transfer: "get_transfer fid now (transfers s) = (fr, fs) \<Longrightarrow> R s (s\<lparr>transfers := fs\<rparr>)"
    and R_patch_transfer: "patch_transfer fid ff now (transfers s) = (fr, fs) \<Longrightarrow> R s (s\<lparr>transfers := fs\<rparr>)"
    and R_create_txn: "create_credit_transaction xb uuid now (ledger s) = (xr, xs) \<Longrightarrow> R s (s\<lparr>ledger := xs\<rparr>)"
    and R_create_log: "create_ticket_log gb uuid now (logs s) = (gr, gs) \<Longrightarrow> R s (s\<lparr>logs := gs\<rparr>)"
    and R_create_user: "create_user ub uuid now (users s) = (ur, us) \<Longrightarrow> R s (s\<lparr>users := us\<rparr>)"
    and R_create_event: "create_event eb uuid now (events s) = (er, es) \<Longrightarrow> R s (s\<lparr>events := es\<rparr>)"
begin

subsection \<open>Passing through the constructs\<close>

lemma keep_data [kept]: "(\<And>a b. R s0 (snd (g a b))) \<Longrightarrow> R s0 (snd (case p of (a, b) \<Rightarrow> g a b))"
  by (cases p) simp

lemma keep_pair [kept]: "R s0 s \<Longrightarrow> R s0 (snd (a, s))"
  by simp

lemma keep_bind [kept]: "R s0 (snd c) \<Longrightarrow> (\<And>a s1. R s0 s1 \<Longrightarrow> R s0 (snd (g a s1))) \<Longrightarrow> R s0 (snd (case c of (a, s1) \<Rightarrow> g a s1))"
  by (cases c) simp

lemma keep_bind_state [kept]: "R s0 (snd c) \<Longrightarrow> (\<And>a s1. R s0 s1 \<Longrightarrow> R s0 (h a s1)) \<Longrightarrow> R s0 (case c of (a, s1) \<Rightarrow> h a s1)"
  by (cases c) simp

lemma keep_sum [kept]: "(\<And>e. R s0 (snd (f e))) \<Longrightarrow> (\<And>v. R s0 (snd (g v))) \<Longrightarrow> R s0 (snd (case x of Inl e \<Rightarrow> f e | Inr v \<Rightarrow> g v))"
  by (cases x) simp_all

lemma keep_sum_state [kept]: "(\<And>e. R s0 (f e)) \<Longrightarrow> (\<And>v. R s0 (g v)) \<Longrightarrow> R s0 (case x of Inl e \<Rightarrow> f e | Inr v \<Rightarrow> g v)"
  by (cases x) simp_all

lemma keep_option [kept]: "R s0 (snd a) \<Longrightarrow> (\<And>v. R s0 (snd (g v))) \<Longrightarrow> R s0 (snd (case x of None \<Rightarrow> a | Some v \<Rightarrow> g v))"
  by (cases x) simp_all

lemma keep_bool [kept]: "R s0 (snd a) \<Longrightarrow> R s0 (snd b) \<Longrightarrow> R s0 (snd (case x of True \<Rightarrow> a | False \<Rightarrow> b))"
  by (cases x) simp_all

lemma keep_if [kept]: "R s0 (snd a) \<Longrightarrow> R s0 (snd b) \<Longrightarrow> R s0 (snd (if x then a else b))"
  by simp

lemma keep_if_state [kept]: "R s0 a \<Longrightarrow> R s0 b \<Longrightarrow> R s0 (if x then a else b)"
  by simp

lemma keep_reply [kept]: "(\<And>st c. R s0 (snd (f st c))) \<Longrightarrow> (\<And>st v. R s0 (snd (g st v))) \<Longrightarrow>
    R s0 (snd (case x of Done st v \<Rightarrow> g st v | Fail st c \<Rightarrow> f st c))"
  by (cases x) simp_all

lemma keep_rval [kept]: "(\<And>p. R s0 (snd (f p))) \<Longrightarrow> (\<And>b. R s0 (snd (g b))) \<Longrightarrow> (\<And>t. R s0 (snd (h t))) \<Longrightarrow> (\<And>n. R s0 (snd (k n))) \<Longrightarrow>
    (\<And>a b. R s0 (snd (l a b))) \<Longrightarrow> R s0 (snd (case_rval f g h k l x))"
  by (cases x) simp_all

subsection \<open>Calls\<close>

lemma keep_net [kept]: "R s0 s \<Longrightarrow> R s0 (s\<lparr>net := n\<rparr>)"
  using R_trans R_net by blast

lemma keep_drawn [kept]: "R s0 s \<Longrightarrow> R s0 (s\<lparr>drawn := d\<rparr>)"
  using R_trans R_drawn by blast

lemma keep_asks: "R s0 s \<Longrightarrow> asks V (ext s) x \<Longrightarrow> R s0 (s\<lparr>ext := x\<rparr>)"
  using R_trans R_asks by blast

lemma keep_pays: "R s0 s \<Longrightarrow> U u \<Longrightarrow> pays V u (ext s) x \<Longrightarrow> R s0 (s\<lparr>ext := x\<rparr>)"
  using R_trans R_pays by blast

lemma keep_breaker [kept]: "R s0 s \<Longrightarrow> R s0 (s\<lparr>breaker_of := b\<rparr>)"
  using R_trans R_breaker by blast

lemma keep_seats: "seat_step (inventory s) e i \<Longrightarrow> R s0 s \<Longrightarrow> R s0 (s\<lparr>inventory := i\<rparr>)"
  using R_trans R_seats by blast

lemma keep_infra [kept]: "R s0 s \<Longrightarrow> R s0 (on_infra f s)"
  unfolding on_infra_def by (rule keep_seats [OF seat_step.environment])

lemma keep_endpoint:
  assumes "R s0 s" and "\<And>s1. R s0 s1 \<Longrightarrow> R s0 (snd (ep s1))"
  obtains r s2 where "R s0 (s\<lparr>net := tl (net s)\<rparr>)" "ep (s\<lparr>net := tl (net s)\<rparr>) = (r, s2)" "R s0 s2"
proof -
  have n: "R s0 (s\<lparr>net := tl (net s)\<rparr>)" by (rule keep_net [OF assms(1)])
  with assms(2) [OF n] that show ?thesis by (cases "ep (s\<lparr>net := tl (net s)\<rparr>)") simp
qed

lemma keep_call [kept]:
  assumes "R s0 s" and "\<And>s1. R s0 s1 \<Longrightarrow> R s0 (snd (ep s1))"
  shows "R s0 (snd (call_service tmo ep s))"
proof -
  obtain rep s2 where k: "R s0 (s\<lparr>net := tl (net s)\<rparr>)" "ep (s\<lparr>net := tl (net s)\<rparr>) = (rep, s2)" "R s0 s2"
    using keep_endpoint [of s0 s ep, OF assms] by metis
  then show ?thesis
    by (cases "fst (next_fault (net s))"; cases rep) (simp_all add: call_service_def take_net_is)
qed

lemma keep_grpc [kept]:
  assumes "R s0 s" and "\<And>s1. R s0 s1 \<Longrightarrow> R s0 (snd (ep s1))"
  shows "R s0 (snd (grpc_call ep s))"
proof -
  obtain r s2 where k: "R s0 (s\<lparr>net := tl (net s)\<rparr>)" "ep (s\<lparr>net := tl (net s)\<rparr>) = (r, s2)" "R s0 s2"
    using keep_endpoint [of s0 s ep, OF assms] by metis
  then show ?thesis by (cases "fst (next_fault (net s))") (simp_all add: grpc_call_def take_net_is)
qed

lemma keep_draw [kept]: "R s0 s \<Longrightarrow> R s0 (snd (draw s))"
  by (simp add: draw_def keep_drawn)

text \<open>The routes of the services on the whole state.\<close>

lemma keep_read [kept]: "R s0 s \<Longrightarrow> R s0 (snd (ep_read f s))"
  by (simp add: ep_read_def)

lemma keep_HoldSeat [kept]: "R s0 s \<Longrightarrow> R s0 (snd (ep_HoldSeat ctx req envs s))"
  by (auto simp: ep_HoldSeat_def split: prod.split intro: keep_seats seat_step.hold)

lemma keep_ReleaseSeat [kept]: "R s0 s \<Longrightarrow> R s0 (snd (ep_ReleaseSeat req s))"
  by (auto simp: ep_ReleaseSeat_def split: prod.split intro: keep_seats seat_step.release)

lemma keep_SellSeat [kept]: "R s0 s \<Longrightarrow> R s0 (snd (ep_SellSeat req s))"
  by (auto simp: ep_SellSeat_def split: prod.split intro: keep_seats seat_step.sell)

lemma keep_GetSeatStatus [kept]: "R s0 s \<Longrightarrow> R s0 (snd (ep_GetSeatStatus j s))"
  by (auto simp: ep_GetSeatStatus_def split: prod.split intro: keep_seats seat_step.seat_status)

lemma keep_get_ticket [kept]: "R s0 s \<Longrightarrow> R s0 (snd (ep_get_ticket tid s))"
  by (simp add: ep_get_ticket_def)

lemma keep_get_listing [kept]: "R s0 s \<Longrightarrow> R s0 (snd (ep_get_listing lid s))"
  by (simp add: ep_get_listing_def)

lemma no_owner_bodies [kept]: "list_all no_owner [TkStatus st]" "list_all no_owner [TkQrHash h, TkQrTimestamp t]"
  by simp_all

lemma keep_update_ticket [kept]: "list_all no_owner b \<Longrightarrow> R s0 s \<Longrightarrow> R s0 (snd (ep_update_ticket tid b s))"
  by (auto simp: ep_update_ticket_def split: prod.split intro: R_trans R_update_ticket)

lemma keep_update_listing [kept]: "R s0 s \<Longrightarrow> R s0 (snd (ep_update_listing lid b s))"
  by (auto simp: ep_update_listing_def split: prod.split intro: R_trans R_update_listing)

lemma keep_get_transfer [kept]: "R s0 s \<Longrightarrow> R s0 (snd (ep_get_transfer tid s))"
  by (auto simp: ep_get_transfer_def split: prod.split intro: R_trans R_get_transfer)

lemma keep_patch_transfer [kept]: "R s0 s \<Longrightarrow> R s0 (snd (ep_patch_transfer tid b s))"
  by (auto simp: ep_patch_transfer_def split: prod.split intro: R_trans R_patch_transfer)

lemma keep_patch_txn [kept]: "R s0 s \<Longrightarrow> R s0 (snd (ep_patch_txn ref s))"
  by (auto simp: ep_patch_txn_def patch_credit_transaction_by_reference_def split: prod.split)

lemma keep_create_listing [kept]: "R s0 s \<Longrightarrow> R s0 (snd (ep_create_listing b s))"
  unfolding ep_create_listing_def
  by (rule keep_bind, erule keep_draw) (auto split: prod.split intro: R_trans R_create_listing)

lemma keep_create_transfer [kept]: "R s0 s \<Longrightarrow> R s0 (snd (ep_create_transfer b s))"
  unfolding ep_create_transfer_def
  by (rule keep_bind, erule keep_draw) (auto split: prod.split intro: R_trans R_create_transfer)

lemma keep_create_txn [kept]: "R s0 s \<Longrightarrow> R s0 (snd (ep_create_txn b s))"
  unfolding ep_create_txn_def
  by (rule keep_bind, erule keep_draw) (auto split: prod.split intro: R_trans R_create_txn)

lemma keep_create_log [kept]: "R s0 s \<Longrightarrow> R s0 (snd (ep_create_log b s))"
  unfolding ep_create_log_def
  by (rule keep_bind, erule keep_draw) (auto split: prod.split intro: R_trans R_create_log)

lemma keep_create_user [kept]: "R s0 s \<Longrightarrow> R s0 (snd (ep_create_user b s))"
  unfolding ep_create_user_def
  by (rule keep_bind, erule keep_draw) (auto split: prod.split intro: R_trans R_create_user)

lemma keep_create_event [kept]: "R s0 s \<Longrightarrow> R s0 (snd (ep_create_event b s))"
  unfolding ep_create_event_def
  by (rule keep_bind, erule keep_draw) (auto split: prod.split intro: R_trans R_create_event)

lemma keep_inventory_batch [kept]:
  assumes "R s0 s"
  shows "R s0 (snd (ep_inventory_batch eid xs s))"
proof -
  obtain r rows where b: "create_inventory_batch (Some eid) (SeatsList xs) (\<lambda>k. fresh s (drawn s + k)) True (time_now s) (seats (inventory s)) = (r, rows)"
    by fastforce
  have "R s0 (s\<lparr>drawn := drawn s + length xs, inventory := (inventory s)\<lparr>seats := rows\<rparr>\<rparr>)"
    by (rule keep_seats [OF _ keep_drawn [OF assms]]) (use seat_step.batch [OF b] in simp)
  then show ?thesis by (simp add: ep_inventory_batch_def b)
qed

lemma keep_send_otp [kept]: "R s0 s \<Longrightarrow> R s0 (snd (ep_send_otp (sv_otp V) p s))"
  by (simp add: ep_send_otp_def case_prod_beta keep_asks wrapper_asks)

lemma keep_verify_otp [kept]: "R s0 s \<Longrightarrow> R s0 (snd (ep_verify_otp (sv_otp V) sid otp p s))"
  unfolding ep_verify_otp_def case_prod_beta snd_conv
  by (rule keep_asks, erule keep_infra) (simp add: on_infra_def wrapper_asks)

lemma keep_create_intent [kept]: "R s0 s \<Longrightarrow> R s0 (snd (ep_create_intent (sv_stripe V) u v s))"
  by (simp add: ep_create_intent_def case_prod_beta keep_asks wrapper_asks)

lemma keep_retrieve_intent [kept]: "R s0 s \<Longrightarrow> R s0 (snd (ep_retrieve_intent (sv_stripe V) pid s))"
  by (simp add: ep_retrieve_intent_def case_prod_beta keep_asks wrapper_asks)

lemma keep_credit_get [kept]: "R s0 s \<Longrightarrow> R s0 (snd (call_credit_get (sv_credit V) u s))"
  by (auto simp: call_credit_get_def case_prod_beta intro: keep_asks service_calls)

lemma keep_credit_patch [kept]: "R s0 s \<Longrightarrow> U u \<Longrightarrow> R s0 (snd (call_credit_patch (sv_credit V) u v s))"
  by (auto simp: call_credit_patch_def case_prod_beta intro: keep_pays service_calls)

lemma keep_credit_post [kept]: "R s0 s \<Longrightarrow> U u \<Longrightarrow> R s0 (snd (call_credit_post (sv_post V) u v s))"
  by (auto simp: call_credit_post_def case_prod_beta intro: keep_pays service_calls)

lemma keep_redis_do [kept]: "R s0 s \<Longrightarrow> R s0 (snd (redis_do f s))"
  by (auto simp: redis_do_def split: prod.split intro: keep_infra)

subsection \<open>The purchase\<close>

lemma keep_hold_seat [kept]: "R s0 s \<Longrightarrow> R s0 (snd (hold_seat ctx envs user j s))"
  unfolding hold_seat_def Let_def by (rule kept | assumption)+

lemma keep_release_hold [kept]: "R s0 s \<Longrightarrow> R s0 (snd (release_hold user tok j s))"
  unfolding release_hold_def by (rule kept | assumption)+

lemma keep_on_expired [kept]: "R s0 s \<Longrightarrow> R s0 (snd (on_expired j user tok s))"
  unfolding on_expired_def by (rule kept | assumption)+

lemma keep_purchase_get_redis_client [kept]: "R s0 s \<Longrightarrow> R s0 (snd (purchase_get_redis_client s))"
  unfolding purchase_get_redis_client_def Let_def by (rule kept | assumption)+

lemma keep_get_cached_hold [kept]: "R s0 s \<Longrightarrow> R s0 (snd (get_cached_hold j s))"
  unfolding get_cached_hold_def by (rule kept | assumption)+

lemma keep_confirm_check [kept]: "R s0 s \<Longrightarrow> R s0 (snd (confirm_check user tok j s))"
  unfolding confirm_check_def by (rule kept | assumption)+

lemma keep_confirm_funds [kept]: "R s0 s \<Longrightarrow> R s0 (snd (confirm_funds (sv_credit V) user eid s))"
  unfolding confirm_funds_def by (rule kept | assumption)+

lemma keep_deduction_failed [kept]: "R s0 s \<Longrightarrow> R s0 (deduction_failed user req tid s)"
  unfolding deduction_failed_def by (rule kept | assumption)+

lemma keep_confirm_payment [kept]: "R s0 s \<Longrightarrow> U user \<Longrightarrow> R s0 (snd (confirm_payment (sv_credit V) user req eid ev b k s))"
  unfolding confirm_payment_def by (rule kept | assumption)+

lemma keep_resume_hold [kept]: "R s0 s \<Longrightarrow> R s0 (snd (resume_hold user eid s))"
  unfolding resume_hold_def Let_def by (rule kept | assumption)+

subsection \<open>Transfers\<close>

lemma keep_safe_get [kept]: "R s0 s \<Longrightarrow> R s0 (snd (safe_get f s))"
  unfolding safe_get_def by (rule kept | assumption)+

lemma keep_safe_get_if [kept]: "R s0 s \<Longrightarrow> R s0 (snd (safe_get_if b f s))"
  unfolding safe_get_if_def by (rule kept | assumption)+

lemma keep_find_place [kept]: "R s0 s \<Longrightarrow> R s0 (snd (find_place e j v s))"
  unfolding find_place_def Let_def by (rule kept | assumption)+

lemma keep_build_transfer_context [kept]: "R s0 s \<Longrightarrow> R s0 (snd (build_transfer_context v s))"
  unfolding build_transfer_context_def Let_def by (rule kept | assumption)+

lemma keep_enrich_transfer [kept]: "R s0 s \<Longrightarrow> R s0 (snd (enrich_transfer v s))"
  unfolding enrich_transfer_def by (rule kept | assumption)+

lemma keep_broadcast_notification [kept]: "R s0 s \<Longrightarrow> R s0 (broadcast_notification s)"
  unfolding broadcast_notification_def by (rule kept | assumption)+

lemma keep_broadcast_transfer_notification [kept]: "R s0 s \<Longrightarrow> R s0 (broadcast_transfer_notification v s)"
  unfolding broadcast_transfer_notification_def by (rule kept | assumption)+

lemma keep_load_enriched_transfer [kept]: "R s0 s \<Longrightarrow> R s0 (snd (load_enriched_transfer tid v s))"
  unfolding load_enriched_transfer_def by (rule kept | assumption)+

lemma keep_patch_ignored [kept]: "R s0 s \<Longrightarrow> R s0 (patch_ignored tid b s)"
  unfolding patch_ignored_def by (rule kept | assumption)+

lemma keep_mark_failed [kept]: "R s0 s \<Longrightarrow> R s0 (mark_failed tid s)"
  unfolding mark_failed_def by (rule kept | assumption)+

lemma keep_otp_accepted [kept]: "R s0 s \<Longrightarrow> R s0 (snd (otp_accepted (sv_otp V) sid code ph s))"
  unfolding otp_accepted_def by (rule kept | assumption)+

lemma keep_succeeds [kept]: "R s0 (snd r) \<Longrightarrow> R s0 (snd (succeeds r))"
  unfolding succeeds_def by (rule keep_bind, assumption) (rule kept | assumption)+

lemma keep_set_balance [kept]: "R s0 s \<Longrightarrow> U u \<Longrightarrow> R s0 (snd (set_balance (sv_credit V) u v s))"
  unfolding set_balance_def by (rule kept | assumption)+

lemma keep_log_txn [kept]: "R s0 s \<Longrightarrow> R s0 (snd (log_txn u d why ref s))"
  unfolding log_txn_def by (rule kept | assumption)+

lemma keep_initiate_otp [kept]: "R s0 s \<Longrightarrow> R s0 (snd (initiate_otp (sv_otp V) b c l tid s))"
  unfolding initiate_otp_def Let_def by (rule kept | assumption)+

lemma keep_initiate [kept]: "R s0 s \<Longrightarrow> R s0 (snd (initiate (sv_credit V) (sv_otp V) b l s))"
  unfolding initiate_def Let_def by (rule kept | assumption)+

lemma keep_buyer_verified [kept]: "R s0 s \<Longrightarrow> R s0 (snd (buyer_verified (sv_otp V) tr tid s))"
  unfolding buyer_verified_def Let_def by (rule kept | assumption)+

lemma keep_buyer_verify [kept]: "R s0 s \<Longrightarrow> R s0 (snd (buyer_verify (sv_otp V) b code tid s))"
  unfolding buyer_verify_def by (rule kept | assumption)+

lemma keep_seller_accept [kept]: "R s0 s \<Longrightarrow> R s0 (snd (seller_accept (sv_otp V) u tid s))"
  unfolding seller_accept_def Let_def by (rule kept | assumption)+

lemma keep_call_off [kept]: "R s0 s \<Longrightarrow> R s0 (call_off tr tid s)"
  unfolding call_off_def Let_def by (rule kept | assumption)+

lemma keep_seller_reject [kept]: "R s0 s \<Longrightarrow> R s0 (snd (seller_reject u tid s))"
  unfolding seller_reject_def by (rule kept | assumption)+

lemma keep_orch_cancel_transfer [kept]: "R s0 s \<Longrightarrow> R s0 (snd (orch_cancel_transfer u tid s))"
  unfolding orch_cancel_transfer_def by (rule kept | assumption)+

lemma keep_resend_to [kept]: "R s0 s \<Longrightarrow> R s0 (snd (resend_to (sv_otp V) u fld tid s))"
  unfolding resend_to_def by (rule kept | assumption)+

lemma keep_resend_otp [kept]: "R s0 s \<Longrightarrow> R s0 (snd (resend_otp (sv_otp V) u tid s))"
  unfolding resend_otp_def by (rule kept | assumption)+

lemma keep_enrich_all [kept]: "R s0 s \<Longrightarrow> R s0 (snd (enrich_all trs s))"
proof (induction trs arbitrary: s)
  case (Cons tr trs)
  show ?case unfolding enrich_all.simps
    by (rule keep_bind, rule keep_enrich_transfer, fact Cons.prems, rule keep_bind, erule Cons.IH) (rule kept | assumption)+
qed simp

lemma keep_list_and_enrich [kept]: "R s0 s \<Longrightarrow> R s0 (snd (list_and_enrich sel buy st s))"
  unfolding list_and_enrich_def by (rule kept | assumption)+

lemma keep_get_my_pending_transfers [kept]: "R s0 s \<Longrightarrow> R s0 (snd (get_my_pending_transfers u s))"
  unfolding get_my_pending_transfers_def by (rule kept | assumption)+

lemma keep_get_transfer_history [kept]: "R s0 s \<Longrightarrow> R s0 (snd (get_transfer_history u s))"
  unfolding get_transfer_history_def by (rule kept | assumption)+

lemma keep_get_pending_transfers [kept]: "R s0 s \<Longrightarrow> R s0 (snd (get_pending_transfers u s))"
  unfolding get_pending_transfers_def by (rule kept | assumption)+

lemma keep_orch_get_transfer [kept]: "R s0 s \<Longrightarrow> R s0 (snd (orch_get_transfer u tid s))"
  unfolding orch_get_transfer_def by (rule kept | assumption)+

lemma keep_timeout_cancel_transfer [kept]: "R s0 s \<Longrightarrow> R s0 (timeout_cancel_transfer tid lid s)"
  unfolding timeout_cancel_transfer_def by (rule kept | assumption)+

lemma keep_on_timeout_message [kept]: "R s0 s \<Longrightarrow> R s0 (on_timeout_message tid lid s)"
  unfolding on_timeout_message_def by (rule kept | assumption)+

subsection \<open>The market, the code and the door\<close>

lemma keep_enrich_listing [kept]: "R s0 s \<Longrightarrow> R s0 (snd (enrich_listing l s))"
  unfolding enrich_listing_def by (rule kept | assumption)+

lemma keep_enrich_listings [kept]: "R s0 s \<Longrightarrow> R s0 (snd (enrich_listings ls s))"
proof (induction ls arbitrary: s)
  case (Cons l ls)
  show ?case unfolding enrich_listings.simps
    by (rule keep_bind, rule keep_enrich_listing, fact Cons.prems, rule keep_bind, erule Cons.IH) (rule kept | assumption)+
qed simp

lemma keep_browse [kept]: "R s0 s \<Longrightarrow> R s0 (snd (browse pg lm ev s))"
  unfolding browse_def Let_def by (rule kept | assumption)+

lemma keep_orch_get_listing [kept]: "R s0 s \<Longrightarrow> R s0 (snd (orch_get_listing lid s))"
  unfolding orch_get_listing_def by (rule kept | assumption)+

lemma keep_place_listing [kept]: "R s0 s \<Longrightarrow> R s0 (snd (place_listing u tid a s))"
  unfolding place_listing_def by (rule kept | assumption)+

lemma keep_list_ticket [kept]: "R s0 s \<Longrightarrow> R s0 (snd (list_ticket u tf pr s))"
  unfolding list_ticket_def Let_def by (rule kept | assumption)+

lemma keep_delist [kept]: "R s0 s \<Longrightarrow> R s0 (snd (delist u lid s))"
  unfolding delist_def by (rule kept | assumption)+

lemma keep_ticket_context [kept]: "R s0 s \<Longrightarrow> R s0 (snd (ticket_context k s))"
  unfolding ticket_context_def by (rule kept | assumption)+

lemma keep_contexts_of [kept]: "R s0 s \<Longrightarrow> R s0 (snd (contexts_of ks s))"
proof (induction ks arbitrary: s)
  case (Cons k ks)
  show ?case unfolding contexts_of.simps
    by (rule keep_bind, rule keep_ticket_context, fact Cons.prems, rule keep_bind, erule Cons.IH) (rule kept | assumption)+
qed simp

lemma keep_list_tickets [kept]: "R s0 s \<Longrightarrow> R s0 (snd (list_tickets u s))"
  unfolding list_tickets_def by (rule kept | assumption)+

lemma keep_get_qr [kept]: "R s0 s \<Longrightarrow> R s0 (snd (get_qr env u tid s))"
  unfolding get_qr_def Let_def by (rule kept | assumption)+

lemma keep_get_ticket_context_by_qr [kept]: "R s0 s \<Longrightarrow> R s0 (snd (get_ticket_context_by_qr u qr s))"
  unfolding get_ticket_context_by_qr_def by (rule kept | assumption)+

lemma keep_write_log [kept]: "R s0 s \<Longrightarrow> R s0 (write_log tid who st s)"
  unfolding write_log_def by (rule kept | assumption)+

lemma keep_admit_checked [kept]: "R s0 s \<Longrightarrow> R s0 (snd (admit_checked stf sel k ev seat s))"
  unfolding admit_checked_def Let_def by (rule kept | assumption)+

lemma keep_admit [kept]: "R s0 s \<Longrightarrow> R s0 (snd (admit stf sel k s))"
  unfolding admit_def by (rule kept | assumption)+

lemma keep_scan_locked [kept]: "R s0 s \<Longrightarrow> R s0 (snd (scan_locked stf sel k s))"
  unfolding scan_locked_def by (rule kept | assumption)+

lemma keep_scan [kept]:
  assumes "R s0 s"
  shows "R s0 (snd (scan stf qr sel s))"
proof -
  have lock: "R s0 (snd (case acquire_scan_lock (ticketId k) (world (inventory q)) of
      (None, w) \<Rightarrow> (Fail 409 ''CONCURRENT_SCAN'', on_infra (\<lambda>_. w) q)
    | (Some lock, w) \<Rightarrow> (case scan_locked stf sel k (on_infra (\<lambda>_. w) q) of
         (r, s2) \<Rightarrow> (r, on_infra (release_scan_lock (ticketId k) lock) s2))))" if "R s0 q" for k q
    using that by - (rule keep_data keep_bind | rule kept | assumption)+
  from assms show ?thesis unfolding scan_def by - (rule keep_bind | rule lock | rule kept | assumption)+
qed

lemma keep_manual_verify [kept]: "R s0 s \<Longrightarrow> R s0 (snd (manual_verify stf tid sel s))"
  unfolding manual_verify_def by (rule kept | assumption)+

subsection \<open>Credits\<close>

lemma keep_get_balance [kept]: "R s0 s \<Longrightarrow> R s0 (snd (get_balance (sv_credit V) u s))"
  unfolding get_balance_def by (rule kept | assumption)+

lemma keep_initiate_topup [kept]: "R s0 s \<Longrightarrow> R s0 (snd (initiate_topup (sv_stripe V) u a s))"
  unfolding initiate_topup_def by (rule kept | assumption)+

lemma keep_by_reference [kept]: "R s0 s \<Longrightarrow> R s0 (snd (ep_by_reference ref s))"
  by (simp add: ep_by_reference_def keep_read)

lemma keep_credit_user [kept]: "R s0 s \<Longrightarrow> U (py_str u) \<Longrightarrow> R s0 (snd (credit_user (sv_credit V) u n ref s))"
  unfolding credit_user_def Let_def by (rule kept | assumption)+

lemma keep_confirm_topup [kept]:
  assumes "R s0 s" and "U user"
  shows "R s0 (snd (confirm_topup (sv_credit V) (sv_stripe V) user pid s))"
proof -
  have mine: "R s0 (snd (if py_str v \<noteq> user then (Fail 403 ''FORBIDDEN'', q) else h))"
    if "R s0 q" and "U (py_str v) \<Longrightarrow> R s0 (snd h)" for v q and h :: "'n topup_answer reply \<times> ('n, 'x) sys"
    using that assms(2) by auto
  from assms show ?thesis unfolding confirm_topup_def Let_def by - (rule mine | rule kept | assumption)+
qed

lemma keep_stripe_webhook:
  assumes "R s0 s" and payee: "\<And>st q. wrapper_webhook (sv_stripe V) p sig = Done st (Some q) \<Longrightarrow> U (py_str (pay_userId q))"
  shows "R s0 (snd (stripe_webhook (sv_credit V) (sv_stripe V) p sig s))"
proof -
  obtain r s1 where c: "call_service UNAVAILABLE (ep_read (\<lambda>_. wrapper_webhook (sv_stripe V) p sig)) s = (r, s1)" by fastforce
  have "R s0 (snd (call_service UNAVAILABLE (ep_read (\<lambda>_. wrapper_webhook (sv_stripe V) p sig)) s))"
    using assms(1) by - (rule kept | assumption)+
  then have s1: "R s0 s1" by (simp add: c)
  show ?thesis
  proof (cases "\<exists>q. r = Inr (Some q)")
    case True
    then obtain q where q: "r = Inr (Some q)" by blast
    have "U (py_str (pay_userId q))" using call_read [OF c] q payee by blast
    with s1 have "R s0 (snd (case read_credits (pay_credits q) of None \<Rightarrow> (unhandled, s1)
       | Some credits \<Rightarrow>
           (case call_service UNAVAILABLE (ep_by_reference (py_str (pay_intentId q))) s1 of
              (Inr x, s2) \<Rightarrow> (Done 200 (), s2)
            | (Inl e, s2) \<Rightarrow>
                (case credit_user (sv_credit V) (pay_userId q) credits (pay_intentId q) s2 of
                   (None, s3) \<Rightarrow> (Fail 503 UNAVAILABLE, s3)
                 | (Some b, s3) \<Rightarrow> (Done 200 (), s3)))))"
      by - (rule kept | assumption)+
    with s1 show ?thesis by (simp add: stripe_webhook_def c q)
  qed (use c s1 in \<open>auto simp: stripe_webhook_def split: sum.split option.split\<close>)
qed

lemma keep_get_transactions [kept]: "R s0 s \<Longrightarrow> R s0 (snd (get_transactions u pg lm s))"
  unfolding get_transactions_def by (rule kept | assumption)+

subsection \<open>Users and events\<close>

lemma keep_get_user [kept]: "R s0 s \<Longrightarrow> R s0 (snd (ep_get_user u s))" and
  keep_user_by_email [kept]: "R s0 s \<Longrightarrow> R s0 (snd (ep_user_by_email m s))"
  by (simp_all add: ep_get_user_def ep_user_by_email_def keep_read)

lemma keep_generate_token [kept]: "R s0 s \<Longrightarrow> R s0 (snd (generate_token jwt u s))"
  unfolding generate_token_def by (rule kept | assumption)+

lemma keep_open_session [kept]: "R s0 s \<Longrightarrow> R s0 (snd (open_session jwt u s))"
  unfolding open_session_def by (rule kept | assumption)+

lemma keep_send_pending [kept]: "R s0 s \<Longrightarrow> R s0 (send_pending (sv_otp V) u ph s)"
  unfolding send_pending_def by (rule kept | assumption)+

lemma keep_register:
  assumes "R s0 s" and new: "\<And>w. w \<notin> us_userId ` set (users s) \<Longrightarrow> U w"
  shows "R s0 (snd (register bc (sv_post V) (sv_otp V) b s))"
proof -
  have paid: "R s0 (snd (case call_service UNAVAILABLE (ep_create_user ub) q of (Inl e, s2) \<Rightarrow> f e s2 | (Inr u, s2) \<Rightarrow> g u s2))"
    if "R s0 q" and "users q = users s" and "\<And>e s2. R s0 s2 \<Longrightarrow> R s0 (snd (f e s2))"
      and "\<And>u s2. R s0 s2 \<Longrightarrow> U (ud_userId u) \<Longrightarrow> R s0 (snd (g u s2))"
    for ub q f and g :: "user_dict \<Rightarrow> ('n, 'x) sys \<Rightarrow> (string \<times> string \<times> string \<times> int) reply \<times> ('n, 'x) sys"
  proof -
    obtain r s2 where c: "call_service UNAVAILABLE (ep_create_user ub) q = (r, s2)" by fastforce
    have "R s0 (snd (call_service UNAVAILABLE (ep_create_user ub) q))" using that(1) by - (rule kept | assumption)+
    then have "R s0 s2" by (simp add: c)
    with that(2-4) new call_create_user_id [of UNAVAILABLE ub q _ s2] c show ?thesis by (auto split: sum.split)
  qed
  obtain r where d: "draw s = (r, s\<lparr>drawn := Suc (drawn s)\<rparr>)" by (simp add: draw_def)
  have "R s0 (s\<lparr>drawn := Suc (drawn s)\<rparr>)" by (rule keep_drawn [OF assms(1)])
  then show ?thesis
    unfolding register_def Let_def d prod.case by - (rule paid | rule kept | assumption | simp add: assms(1))+
qed

lemma keep_verify_registration [kept]: "R s0 s \<Longrightarrow> R s0 (snd (verify_registration jwt (sv_otp V) u c s))"
  unfolding verify_registration_def Let_def by (rule kept | assumption)+

lemma keep_login [kept]: "R s0 s \<Longrightarrow> R s0 (snd (login jwt bc m pw s))"
  unfolding login_def by (rule kept | assumption)+

lemma keep_fetch [kept]: "R s0 s \<Longrightarrow> R s0 (snd (fetch f s))"
  unfolding fetch_def by (rule kept | assumption)+

lemma keep_fetch_opt [kept]: "R s0 s \<Longrightarrow> R s0 (snd (fetch_opt f s))"
  unfolding fetch_opt_def by (rule kept | assumption)+

lemma keep_fill_inventory [kept]: "R s0 s \<Longrightarrow> R s0 (snd (fill_inventory eid vid s))"
  unfolding fill_inventory_def by (rule kept | assumption)+

lemma keep_create_event_admin [kept]: "R s0 s \<Longrightarrow> R s0 (snd (create_event_admin jwt hdr b s))"
  unfolding create_event_admin_def Let_def by (rule kept | assumption)+

lemma keep_orch_list_venues [kept]: "R s0 s \<Longrightarrow> R s0 (snd (orch_list_venues s))"
  unfolding orch_list_venues_def by (rule kept | assumption)+

lemma keep_enrich_event [kept]: "R s0 s \<Longrightarrow> R s0 (snd (enrich_event d s))"
  unfolding enrich_event_def by (rule kept | assumption)+

lemma keep_enrich_events [kept]: "R s0 s \<Longrightarrow> R s0 (snd (enrich_events ds s))"
proof (induction ds arbitrary: s)
  case (Cons d ds)
  show ?case unfolding enrich_events.simps
    by (rule keep_bind, rule keep_enrich_event, fact Cons.prems, rule keep_bind, erule Cons.IH) (rule kept | assumption)+
qed simp

lemma keep_orch_list_events [kept]: "R s0 s \<Longrightarrow> R s0 (snd (orch_list_events pg lm ty s))"
  unfolding orch_list_events_def by (rule kept | assumption)+

lemma keep_orch_get_event [kept]: "R s0 s \<Longrightarrow> R s0 (snd (orch_get_event eid s))"
  unfolding orch_get_event_def by (rule kept | assumption)+

lemma keep_get_seat_map [kept]: "R s0 s \<Longrightarrow> R s0 (snd (get_seat_map eid s))"
  unfolding get_seat_map_def by (rule kept | assumption)+

lemma keep_get_seat_detail [kept]: "R s0 s \<Longrightarrow> R s0 (snd (get_seat_detail eid j s))"
  unfolding get_seat_detail_def by (rule kept | assumption)+

lemma keep_attendee_of [kept]: "R s0 s \<Longrightarrow> R s0 (snd (attendee_of ks ps r s))"
  unfolding attendee_of_def Let_def by (rule kept | assumption)+

lemma keep_attendees_of [kept]: "R s0 s \<Longrightarrow> R s0 (snd (attendees_of ks ps rs s))"
proof (induction rs arbitrary: s)
  case (Cons r rs)
  show ?case unfolding attendees_of.simps
    by (rule keep_bind, rule keep_attendee_of, fact Cons.prems, rule keep_bind, erule Cons.IH) (rule kept | assumption)+
qed simp

lemma keep_get_event_dashboard [kept]: "R s0 s \<Longrightarrow> R s0 (snd (get_event_dashboard jwt hdr eid s))"
  unfolding get_event_dashboard_def Let_def by (rule kept | assumption)+

text \<open>The guarded routes also keep the flag of the client of the blacklist, so the system is the last component.\<close>

lemma keep_guarded:
  assumes "R s0 s" and "\<And>cl c s1. R s0 s1 \<Longrightarrow> R s0 (snd (snd (f cl (c, s1))))"
  shows "R s0 (snd (snd (guarded jwt hdr f (c, s))))"
  using assms by (auto simp: guarded_def split: prod.split reply.split intro: keep_infra)

lemma keep_me [kept]: "R s0 s \<Longrightarrow> R s0 (snd (snd (me jwt hdr (c, s))))"
  unfolding me_def
proof (erule keep_guarded)
  fix cl c s1
  assume "R s0 s1"
  then have "R s0 (snd (call_service UNAVAILABLE (ep_get_user u) s1))" for u by - (rule kept | assumption)+
  then show "R s0 (snd (snd (case cl_userId cl of None \<Rightarrow> (unhandled, c, s1)
      | Some uid \<Rightarrow> (case call_service UNAVAILABLE (ep_get_user uid) (snd (c, s1)) of
          (Inl e, s2) \<Rightarrow> (Fail 404 ''USER_NOT_FOUND'', fst (c, s1), s2)
        | (Inr u, s2) \<Rightarrow> (Done 200 \<lparr>pf_userId = us_userId u, pf_email = us_email u, pf_phoneNumber = us_phoneNumber u,
            pf_role = us_role u, pf_isFlagged = us_isFlagged u, pf_createdAt = us_createdAt u\<rparr>, fst (c, s1), s2)))))"
    using \<open>R s0 s1\<close> by (auto split: option.split prod.split sum.split) (metis snd_conv)+
qed

lemma keep_logout [kept]: "R s0 s \<Longrightarrow> R s0 (snd (snd (logout jwt hdr (c, s))))"
  unfolding logout_def
  by (erule keep_guarded) (auto simp: revoke_here_def split: option.split prod.split intro: keep_infra)

lemma keep_logout_all [kept]: "R s0 s \<Longrightarrow> R s0 (snd (snd (logout_all jwt hdr (c, s))))"
  unfolding logout_all_is_logout by (rule keep_logout)

end

text \<open>
  Two routes are left out so far. With the change of an owner the seller's confirmation keeps the
  relation too, with the creation of a ticket the purchase does.
\<close>

locale owner_relation = workflow_relation +
  assumes R_set_owner: "update_ticket tid tb (tickets s) = (kr, ks) \<Longrightarrow> R s (s\<lparr>tickets := ks\<rparr>)"
begin

lemma keep_set_owner [kept]: "R s0 s \<Longrightarrow> R s0 (snd (ep_update_ticket tid b s))"
  by (auto simp: ep_update_ticket_def split: prod.split intro: R_trans R_set_owner)

lemma saga_calls_keep:
  assumes "(n, f) \<in> set (saga_steps (sv_credit V) g) \<union> set (saga_undo (sv_credit V) g)"
    and "U (sg_buyer_id g)" and "U (sg_seller_id g)"
  shows "R s (snd (f s))"
  using assms by (auto simp: saga_steps_def saga_undo_def intro!: kept intro: R_refl)

lemma keep_execute_saga [kept]:
  assumes "R s0 s" and u: "U (sg_buyer_id g)" "U (sg_seller_id g)"
  shows "R s0 (snd (execute_saga (sv_credit V) g s))"
proof -
  obtain c ok s1 where run: "run_steps (saga_steps (sv_credit V) g) s = (c, ok, s1)" by (metis prod_cases3)
  obtain clean s2 where undo: "run_undo (saga_undo (sv_credit V) g) c s1 = (clean, s2)" by fastforce
  have "R s s1" by (rule run_steps_rel [OF run R_refl R_trans]) (auto intro: saga_calls_keep u)
  moreover have "R s1 s2" by (rule run_undo_rel [OF undo R_refl R_trans]) (auto intro: saga_calls_keep u)
  ultimately have "R s0 s1" "R s0 s2" using assms(1) R_trans by blast+
  then show ?thesis
    by (cases ok; cases clean) (simp_all add: execute_saga_def run undo keep_mark_failed keep_infra)
qed

lemma keep_settle_saga [kept]: "R s0 s \<Longrightarrow> U (tr_buyerId tr) \<Longrightarrow> U (tr_sellerId tr) \<Longrightarrow> R s0 (snd (settle_saga (sv_credit V) tr tid kid x y s))"
  unfolding settle_saga_def Let_def by (rule kept | assumption | simp)+

lemma keep_settle_balances [kept]: "R s0 s \<Longrightarrow> U (tr_buyerId tr) \<Longrightarrow> U (tr_sellerId tr) \<Longrightarrow> R s0 (snd (settle_balances (sv_credit V) tr tid kid s))"
  unfolding settle_balances_def by (rule kept | assumption)+

lemma keep_settle [kept]: "R s0 s \<Longrightarrow> U (tr_buyerId tr) \<Longrightarrow> U (tr_sellerId tr) \<Longrightarrow> R s0 (snd (settle (sv_credit V) tr tid s))"
  unfolding settle_def by (rule kept | assumption)+

lemma keep_seller_verify:
  assumes "R s0 s" and parties: "\<And>tr. row_get transferId tid (transfers s) = Some tr \<Longrightarrow> tr_sellerId tr = user \<Longrightarrow>
    tr_status tr = ''pending_seller_otp'' \<Longrightarrow> buyerOtpVerified tr \<Longrightarrow> U (tr_buyerId tr) \<and> U (tr_sellerId tr)"
  shows "R s0 (snd (seller_verify (sv_credit V) (sv_otp V) user code tid s))"
proof -
  obtain r s1 where c: "call_service UNAVAILABLE (ep_get_transfer tid) s = (r, s1)" by fastforce
  have "R s0 (snd (call_service UNAVAILABLE (ep_get_transfer tid) s))" using assms(1) by - (rule kept | assumption)+
  then have s1: "R s0 s1" by (simp add: c)
  show ?thesis
  proof (cases "\<exists>tr. r = Inr tr \<and> tr_sellerId tr = user \<and> tr_status tr = ''pending_seller_otp'' \<and> buyerOtpVerified tr")
    case True
    then obtain tr where tr: "r = Inr tr" "tr_sellerId tr = user" "tr_status tr = ''pending_seller_otp''" "buyerOtpVerified tr" by blast
    then have "U (tr_buyerId tr)" "U (tr_sellerId tr)"
      using call_get_transfer_pending [OF c [unfolded tr(1)]] parties by auto
    with s1 have "R s0 (snd (case call_service UNAVAILABLE (ep_read (\<lambda>s. get_user (tr_sellerId tr) (users s))) s1 of
        (Inl e, s2) \<Rightarrow> (Fail 503 UNAVAILABLE, s2)
      | (Inr u, s2) \<Rightarrow>
          (case otp_accepted (sv_otp V) (the (sellerVerificationSid tr)) (the code) (us_phoneNumber u) s2 of
             (False, s3) \<Rightarrow> (Fail 400 ''VALIDATION_ERROR'', s3)
           | (True, s3) \<Rightarrow> settle (sv_credit V) tr tid s3)))"
      by - (rule kept | assumption)+
    with s1 assms(1) tr(2) show ?thesis by (simp add: seller_verify_def c tr(1))
  qed (use assms(1) s1 in \<open>auto simp: seller_verify_def c split: sum.split\<close>)
qed

end

locale sale_relation = workflow_relation +
  assumes R_create_ticket: "create_ticket b uuid qr now (tickets s) = (kr, ks) \<Longrightarrow> R s (s\<lparr>tickets := ks\<rparr>)"
begin

lemma keep_create_ticket [kept]: "R s0 s \<Longrightarrow> R s0 (snd (ep_create_ticket b s))"
  unfolding ep_create_ticket_def
  by (rule keep_bind, erule keep_draw, rule keep_bind, erule keep_draw) (auto split: prod.split intro: R_trans R_create_ticket)

lemma keep_confirm_sale [kept]: "R s0 s \<Longrightarrow> U user \<Longrightarrow> R s0 (snd (confirm_sale (sv_credit V) user req eid ev b s))"
  unfolding confirm_sale_def by (rule kept | assumption)+

lemma keep_confirm_purchase [kept]: "R s0 s \<Longrightarrow> U user \<Longrightarrow> R s0 (snd (confirm_purchase (sv_credit V) user body j s))"
  unfolding confirm_purchase_def Let_def by (rule kept | assumption)+

end

text \<open>Most relations do not look at the external services at all, and let every user pay.\<close>

locale inner_relation = workflow_relation +
  assumes R_ext: "R s (s\<lparr>ext := x\<rparr>)" and U_all: "U a"

locale ticketing_relation = owner_relation + sale_relation + inner_relation

end
