(* ===== verification/Workflows.thy ===== *)
theory Workflows
  imports Frames TransferProperties
begin

text \<open>
  The system as a whole: the step relation \<open>sys_step\<close> has one rule for every handler of every
  orchestrator, for the consumers of the queues, and for the environment, which may change the stores,
  the clock, the network and the external services between two steps. The external services are a
  parameter of the relation; only the theorem about credits asks them to be lawful. The lemmas are the invariants of every run: the inventory is driven by its
  own operations only, there is at most one ticket for a seat and never one for a seat that is not
  sold, the books only grow, and all tables keep their constraints.
\<close>

subsection \<open>Steps\<close>

inductive sys_step :: "('n::{ring_1,ord}, 'x) services \<Rightarrow> ('n, 'x) sys \<Rightarrow> ('n, 'x) sys \<Rightarrow> bool" for V where
  environment: "sys_step V s (on_infra (\<lambda>_. w) (s\<lparr>net := n\<rparr>))"
| outside: "sys_step V s (s\<lparr>ext := x\<rparr>)"
| hold: "sys_step V s (snd (hold_seat ctx envs user j s))"
| release: "sys_step V s (snd (release_hold user tok j s))"
| expired: "sys_step V s (snd (on_expired jf uf tf s))"
| purchase: "sys_step V s (snd (confirm_purchase (sv_credit V) user body j s))"
| resume: "sys_step V s (snd (resume_hold user eid s))"
| initiate: "sys_step V s (snd (initiate (sv_credit V) (sv_otp V) user lf s))"
| buyer_verify: "sys_step V s (snd (buyer_verify (sv_otp V) user code tid s))"
| seller_verify: "sys_step V s (snd (seller_verify (sv_credit V) (sv_otp V) user code tid s))"
| seller_accept: "sys_step V s (snd (seller_accept (sv_otp V) user tid s))"
| seller_reject: "sys_step V s (snd (seller_reject user tid s))"
| cancel: "sys_step V s (snd (orch_cancel_transfer user tid s))"
| resend: "sys_step V s (snd (resend_otp (sv_otp V) user tid s))"
| pending: "sys_step V s (snd (get_pending_transfers user s))"
| my_pending: "sys_step V s (snd (get_my_pending_transfers user s))"
| history: "sys_step V s (snd (get_transfer_history user s))"
| one_transfer: "sys_step V s (snd (orch_get_transfer user tid s))"
| timeout: "sys_step V s (on_timeout_message tf lf s)"
| browse: "sys_step V s (snd (browse page limit eventf s))"
| one_listing: "sys_step V s (snd (orch_get_listing lid s))"
| list_ticket: "sys_step V s (snd (list_ticket user tf price s))"
| delist: "sys_step V s (snd (delist user lid s))"
| my_tickets: "sys_step V s (snd (list_tickets user s))"
| qr: "sys_step V s (snd (get_qr env user tid s))"
| qr_context: "sys_step V s (snd (get_ticket_context_by_qr user code s))"
| scan: "sys_step V s (snd (scan stf cf sel s))"
| manual: "sys_step V s (snd (manual_verify stf tf sel s))"
| balance: "sys_step V s (snd (get_balance (sv_credit V) user s))"
| topup: "sys_step V s (snd (initiate_topup (sv_stripe V) user amount s))"
| topup_confirm: "sys_step V s (snd (confirm_topup (sv_credit V) (sv_stripe V) user pf s))"
| webhook: "sys_step V s (snd (stripe_webhook (sv_credit V) (sv_stripe V) payload sig s))"
| transactions: "sys_step V s (snd (get_transactions user page limit s))"
| register: "sys_step V s (snd (register bc (sv_post V) (sv_otp V) rb s))"
| verify_registration: "sys_step V s (snd (verify_registration jwt (sv_otp V) uf cf s))"
| login: "sys_step V s (snd (login jwt bc mf pf s))"
| me: "sys_step V s (snd (snd (me jwt header (flag, s))))"
| logout: "sys_step V s (snd (snd (logout jwt header (flag, s))))"
| logout_all: "sys_step V s (snd (snd (logout_all jwt header (flag, s))))"
| venues: "sys_step V s (snd (orch_list_venues s))"
| events: "sys_step V s (snd (orch_list_events page limit ty s))"
| one_event: "sys_step V s (snd (orch_get_event eid s))"
| seat_map: "sys_step V s (snd (get_seat_map eid s))"
| seat_detail: "sys_step V s (snd (get_seat_detail eid j s))"
| dashboard: "sys_step V s (snd (get_event_dashboard jwt header eid s))"
| create_event: "sys_step V s (snd (create_event_admin jwt header eb s))"

text \<open>The steps that write credits or change what tickets there are and whose.\<close>

definition purchase_step :: "('n::{ring_1,ord}, 'x) services \<Rightarrow> string \<Rightarrow> ('n, 'x) sys \<Rightarrow> ('n, 'x) sys \<Rightarrow> bool" where
  "purchase_step V user s s' \<longleftrightarrow> (\<exists>body j. s' = snd (confirm_purchase (sv_credit V) user body j s))"

definition settle_step :: "('n::{ring_1,ord}, 'x) services \<Rightarrow> string \<Rightarrow> string \<Rightarrow> ('n, 'x) sys \<Rightarrow> ('n, 'x) sys \<Rightarrow> bool" where
  "settle_step V seller tid s s' \<longleftrightarrow> (\<exists>code. s' = snd (seller_verify (sv_credit V) (sv_otp V) seller code tid s))"

definition topup_step :: "('n::{ring_1,ord}, 'x) services \<Rightarrow> string \<Rightarrow> ('n, 'x) sys \<Rightarrow> ('n, 'x) sys \<Rightarrow> bool" where
  "topup_step V user s s' \<longleftrightarrow> (\<exists>pid. s' = snd (confirm_topup (sv_credit V) (sv_stripe V) user pid s))
     \<or> (\<exists>payload sig st p. s' = snd (stripe_webhook (sv_credit V) (sv_stripe V) payload sig s)
          \<and> wrapper_webhook (sv_stripe V) payload sig = Done st (Some p) \<and> py_str (pay_userId p) = user)"

definition register_step :: "('n::{ring_1,ord}, 'x) services \<Rightarrow> string \<Rightarrow> ('n, 'x) sys \<Rightarrow> ('n, 'x) sys \<Rightarrow> bool" where
  "register_step V user s s' \<longleftrightarrow> (\<exists>bc b. s' = snd (register bc (sv_post V) (sv_otp V) b s)) \<and> user \<notin> us_userId ` set (users s)"

definition outside_step :: "('n::{ring_1,ord}, 'x) sys \<Rightarrow> ('n, 'x) sys \<Rightarrow> bool" where
  "outside_step s s' \<longleftrightarrow> (\<exists>x. s' = s\<lparr>ext := x\<rparr>)"

text \<open>A relation kept by the routes is kept by the steps whose routes it covers.\<close>

context workflow_relation
begin

lemma step_keeps:
  "sys_step V s s' \<Longrightarrow> R s s' \<or> (\<exists>u. purchase_step V u s s') \<or> (\<exists>u tid. settle_step V u tid s s')
    \<or> (\<exists>u. \<not> U u \<and> (topup_step V u s s' \<or> register_step V u s s')) \<or> outside_step s s'"
proof (induction rule: sys_step.induct)
  case (topup_confirm s user pf)
  show ?case
  proof (cases "U user")
    case True
    show ?thesis by (rule disjI1, rule keep_confirm_topup [OF R_refl True])
  qed (auto simp: topup_step_def)
next
  case (webhook s payload sig)
  show ?case
  proof (cases "\<forall>st p. wrapper_webhook (sv_stripe V) payload sig = Done st (Some p) \<longrightarrow> U (py_str (pay_userId p))")
    case True
    then show ?thesis by (intro disjI1 keep_stripe_webhook [OF R_refl]) blast
  qed (unfold topup_step_def, blast)
next
  case purchase
  show ?case unfolding purchase_step_def by blast
next
  case seller_verify
  show ?case unfolding settle_step_def by blast
next
  case (register s bc b)
  show ?case
  proof (cases "\<forall>w. w \<notin> us_userId ` set (users s) \<longrightarrow> U w")
    case True
    then show ?thesis by (intro disjI1 keep_register [OF R_refl]) blast
  qed (unfold register_step_def, blast)
next
  case outside
  show ?case unfolding outside_step_def by blast
qed (rule disjI1, (rule kept R_refl)+)+

end

context inner_relation
begin

lemma inner_step: "sys_step V s s' \<Longrightarrow> R s s' \<or> (\<exists>u. purchase_step V u s s') \<or> (\<exists>u tid. settle_step V u tid s s')"
  using step_keeps [of s s'] R_ext U_all unfolding outside_step_def by blast

end

context owner_relation
begin

lemma settle_keeps:
  assumes "settle_step V seller tid s s'" and "\<And>tr. row_get transferId tid (transfers s) = Some tr \<Longrightarrow> tr_sellerId tr = seller \<Longrightarrow>
    tr_status tr = ''pending_seller_otp'' \<Longrightarrow> buyerOtpVerified tr \<Longrightarrow> U (tr_buyerId tr) \<and> U (tr_sellerId tr)"
  shows "R s s'"
  using assms keep_seller_verify [OF R_refl assms(2)] unfolding settle_step_def by blast

end

context sale_relation
begin

lemma purchase_keeps: "purchase_step V u s s' \<Longrightarrow> U u \<Longrightarrow> R s s'"
  unfolding purchase_step_def using keep_confirm_purchase [OF R_refl] by blast

end

context ticketing_relation
begin

lemma run_keeps: "(sys_step V)\<^sup>*\<^sup>* s s' \<Longrightarrow> R s s'"
  by (induction rule: rtranclp_induct) (blast intro: R_refl R_trans U_all dest: inner_step settle_keeps purchase_keeps)+

end

subsection \<open>The inventory is driven by its operations\<close>

text \<open>Every run is, on the inventory, a history of the seat service.\<close>

definition seats_driven :: "('n, 'x) sys \<Rightarrow> ('n, 'x) sys \<Rightarrow> bool" where
  "seats_driven s s' \<longleftrightarrow> (\<exists>es. seat_trace (inventory s) es (inventory s'))"

lemma seat_trace_append: "seat_trace s es t \<Longrightarrow> seat_trace t fs u \<Longrightarrow> seat_trace s (es @ fs) u"
  by (induction rule: seat_trace.induct) (auto intro: seat_trace.intros)

lemma seats_driven_same: "inventory s' = inventory s \<Longrightarrow> seats_driven s s'"
  unfolding seats_driven_def by (auto intro: seat_trace_nil)

lemma seats_driven_trans: "seats_driven s t \<Longrightarrow> seats_driven t u \<Longrightarrow> seats_driven s u"
  unfolding seats_driven_def by (blast intro: seat_trace_append)

lemma seats_driven_step: "seat_step (inventory s) e i \<Longrightarrow> seats_driven s (s\<lparr>inventory := i\<rparr>)"
  unfolding seats_driven_def by (auto intro: seat_trace.intros)

interpretation seat_use: ticketing_relation seats_driven V "\<lambda>_. True" for V
  by unfold_locales (blast intro: seats_driven_trans | simp add: seats_driven_same seats_driven_step)+

text \<open>A sold seat stays sold, whatever runs.\<close>

lemma seat_view_at: "seat_view i w = map_option view_of (seat_at i w)"
  by (simp add: seat_view_def seat_at_def)

lemma sold_view_kept:
  assumes "seats_driven s s'" and "sview i s = Some VSold"
  shows "sview i s' = Some VSold"
proof -
  obtain es r where t: "seat_trace (inventory s) es (inventory s')" and r: "seat_at i (inventory s) = Some r" "view_of r = VSold"
    using assms by (auto simp: seats_driven_def sview_def seat_view_at)
  from r(2) have "seat_status r = ''sold''" by (auto simp: view_of_def split: if_splits option.splits)
  with seat_trace_settled [OF t r(1)] r show ?thesis by (simp add: sview_def seat_view_at)
qed

subsection \<open>One ticket for a seat\<close>

definition ticket_seats :: "('n, 'x) sys \<Rightarrow> string list" where
  "ticket_seats s = map tk_inventoryId (tickets s)"

definition seats_ticketed :: "('n, 'x) sys \<Rightarrow> bool" where
  "seats_ticketed s \<longleftrightarrow> distinct (ticket_seats s) \<and> (\<forall>i \<in> set (ticket_seats s). sview i s = Some VSold)"

text \<open>What every route but the creation of a ticket keeps.\<close>

definition seat_frame :: "('n, 'x) sys \<Rightarrow> ('n, 'x) sys \<Rightarrow> bool" where
  "seat_frame s s' \<longleftrightarrow> ticket_seats s' = ticket_seats s \<and> seats_driven s s'"

lemma update_ticket_seats:
  assumes "update_ticket tid body rows = (r, rows')"
  shows "map tk_inventoryId rows' = map tk_inventoryId rows"
  using update_ticket_effect [OF assms] by (auto simp: save_ticket_def row_upd_def)

interpretation seat_frame: owner_relation seat_frame V "\<lambda>_. True" for V
proof unfold_locales
  fix s t u :: "('n::{ring_1,ord}, 'x) sys"
  show "seat_frame s t \<Longrightarrow> seat_frame t u \<Longrightarrow> seat_frame s u"
    unfolding seat_frame_def by (auto intro: seats_driven_trans)
qed (auto simp: seat_frame_def ticket_seats_def seats_driven_same seats_driven_step update_ticket_seats)

interpretation seat_frame_inner: inner_relation seat_frame V "\<lambda>_. True" for V
  by unfold_locales (auto simp: seat_frame_def ticket_seats_def seats_driven_same)

lemma seats_ticketed_frame: "seat_frame s s' \<Longrightarrow> seats_ticketed s \<Longrightarrow> seats_ticketed s'"
  unfolding seat_frame_def seats_ticketed_def by (auto intro: sold_view_kept)

text \<open>After the sale there is no ticket for the seat yet, and the ticket made for it is the only one.\<close>

lemma sale_then_ticket:
  assumes ok: "seats_ticketed s" and sell: "grpc_call (ep_SellSeat req) s = (Some True, s1)"
    and make: "call_service UNAVAILABLE (ep_create_ticket \<lparr>tb_inventoryId = Some (Some (sr_inventory_id req)),
      tb_ownerId = Some (Some user), tb_venueId = Some (Some v), tb_eventId = Some (Some eid), tb_price = Some (Some p),
      tb_status = Some (Some ''active'')\<rparr>) s1 = (r, s2)"
  shows "seats_ticketed s2"
proof -
  let ?i = "sr_inventory_id req"
  note sold = grpc_sell_view [OF sell]
  then have k: "ticket_seats s1 = ticket_seats s" "sview ?i s1 = Some VSold" "sview ?i s \<noteq> Some VSold"
    by (auto simp: ticket_seats_def same_books_def)
  with ok have new: "?i \<notin> set (ticket_seats s1)" by (auto simp: seats_ticketed_def)
  have old: "sview j s1 = Some VSold" if "j \<in> set (ticket_seats s)" for j
    using sold ok that unfolding seats_ticketed_def by metis
  from call_create_ticket [OF make] obtain t d where s2: "s2 = s1\<lparr>net := tl (net s1), drawn := d, tickets := t\<rparr>"
    and t: "t = tickets s1 \<or> (\<exists>x. t = tickets s1 @ [x] \<and> tk_inventoryId x = ?i)"
    by (auto dest!: create_ticket_full)
  have "sview j s2 = sview j s1" for j using s2 by (simp add: sview_def)
  moreover have "ticket_seats s2 = ticket_seats s \<or> ticket_seats s2 = ticket_seats s @ [?i]"
    using t s2 k(1) by (auto simp: ticket_seats_def)
  ultimately show ?thesis using k new old ok unfolding seats_ticketed_def by auto
qed

lemma confirm_sale_ticketed:
  fixes s :: "('n::{ring_1,ord}, 'x) sys" and V :: "('n, 'x) services"
  assumes "seats_ticketed s"
  shows "seats_ticketed (snd (confirm_sale (sv_credit V) user req eid ev b s))"
proof -
  note frame = seats_ticketed_frame and refl = seat_frame.R_refl
  obtain r s1 where sell: "grpc_call (ep_SellSeat req) s = (r, s1)" by fastforce
  have "seat_frame s (snd (grpc_call (ep_SellSeat req) s))" by (rule kept refl TrueI)+
  then have ok1: "seats_ticketed s1" using sell frame assms by simp
  show ?thesis
  proof (cases "r = Some True")
    case True
    obtain kr s2 where make: "call_service UNAVAILABLE (ep_create_ticket \<lparr>tb_inventoryId = Some (Some (sr_inventory_id req)),
        tb_ownerId = Some (Some user), tb_venueId = Some (Some (ev_venueId ev)), tb_eventId = Some (Some eid),
        tb_price = Some (Some (ev_price ev)), tb_status = Some (Some ''active'')\<rparr>) s1 = (kr, s2)" by fastforce
    have ok2: "seats_ticketed s2" by (rule sale_then_ticket [OF assms _ make]) (use sell True in simp)
    have "seat_frame s2 (snd (grpc_call (ep_ReleaseSeat req) s2))" by (rule kept refl TrueI)+
    moreover have "seat_frame s2 (snd (confirm_payment (sv_credit V) user req eid ev b k s2))" for k by (rule kept refl TrueI)+
    ultimately have "seats_ticketed (snd (grpc_call (ep_ReleaseSeat req) s2))"
      "seats_ticketed (snd (confirm_payment (sv_credit V) user req eid ev b k s2))" for k using frame ok2 by blast+
    then show ?thesis by (cases kr) (simp_all add: confirm_sale_def sell True make)
  qed (use ok1 in \<open>auto simp: confirm_sale_def sell split: option.split\<close>)
qed

lemma confirm_purchase_ticketed:
  fixes s :: "('n::{ring_1,ord}, 'x) sys" and V :: "('n, 'x) services"
  assumes "seats_ticketed s"
  shows "seats_ticketed (snd (confirm_purchase (sv_credit V) user body j s))"
proof -
  note frame = seats_ticketed_frame and refl = seat_frame.R_refl
  have check: "seat_frame q (snd (confirm_check user tok j q))" for tok :: string and q :: "('n, 'x) sys" by (rule kept refl TrueI)+
  have funds: "seat_frame q (snd (confirm_funds (sv_credit V) user eid q))" for eid :: string and q :: "('n, 'x) sys" by (rule kept refl TrueI)+
  have ok1: "confirm_check user tok j s = (r, s1) \<Longrightarrow> seats_ticketed s1" for tok r s1
    using check [of s tok] frame assms by simp
  have ok2: "seats_ticketed q \<Longrightarrow> confirm_funds (sv_credit V) user eid q = (r, q1) \<Longrightarrow> seats_ticketed q1" for eid q r q1
    using funds [of q eid] frame by simp
  show ?thesis
    using assms by (auto simp: confirm_purchase_def Let_def split: prod.split option.split sum.split
        intro: ok1 ok2 confirm_sale_ticketed)
qed

lemma seats_ticketed_step: "sys_step V s s' \<Longrightarrow> seats_ticketed s \<Longrightarrow> seats_ticketed s'"
  using seat_frame_inner.inner_step seat_frame.settle_keeps confirm_purchase_ticketed seats_ticketed_frame
  unfolding purchase_step_def by blast

lemma seats_ticketed_run: "(sys_step V)\<^sup>*\<^sup>* s s' \<Longrightarrow> seats_ticketed s \<Longrightarrow> seats_ticketed s'"
  by (induction rule: rtranclp_induct) (auto intro: seats_ticketed_step)

text \<open>So there are never more tickets than sold seats.\<close>

definition sold_seats :: "('n, 'x) sys \<Rightarrow> seat list" where
  "sold_seats s = filter (\<lambda>r. seat_status r = ''sold'') (seats (inventory s))"

lemma tickets_within_sold:
  assumes "seats_ticketed s"
  shows "length (tickets s) \<le> length (sold_seats s)"
proof -
  have "i \<in> set (map inventoryId (sold_seats s))" if "i \<in> set (ticket_seats s)" for i
  proof -
    from assms that obtain r where r: "row_get inventoryId i (seats (inventory s)) = Some r" "view_of r = VSold"
      by (auto simp: seats_ticketed_def sview_def seat_view_def)
    from r(2) have "seat_status r = ''sold''" by (auto simp: view_of_def split: if_splits option.splits)
    with row_get_Some [OF r(1)] show ?thesis by (auto simp: sold_seats_def)
  qed
  then have "card (set (ticket_seats s)) \<le> card (set (map inventoryId (sold_seats s)))" by (intro card_mono) auto
  moreover have "card (set (ticket_seats s)) = length (tickets s)"
    using assms by (simp add: seats_ticketed_def distinct_card) (simp add: ticket_seats_def)
  ultimately show ?thesis using card_length [of "map inventoryId (sold_seats s)"] by simp
qed

subsection \<open>The books only grow\<close>

text \<open>What of a ticket and of a listing never changes.\<close>

definition ticket_identity :: "'n ticket \<Rightarrow> string \<times> string \<times> string \<times> string \<times> 'n \<times> int" where
  "ticket_identity k = (ticketId k, tk_inventoryId k, tk_eventId k, tk_venueId k, tk_price k, tk_createdAt k)"

definition listing_identity :: "'n listing \<Rightarrow> string \<times> string \<times> string \<times> 'n" where
  "listing_identity l = (listingId l, li_ticketId l, li_sellerId l, li_price l)"

definition books_grow :: "('n, 'x) sys \<Rightarrow> ('n, 'x) sys \<Rightarrow> bool" where
  "books_grow s s' \<longleftrightarrow> prefix (ledger s) (ledger s') \<and> prefix (logs s) (logs s') \<and> prefix (users s) (users s')
     \<and> prefix (events s) (events s') \<and> venues s' = venues s \<and> places s' = places s
     \<and> prefix (map ticket_identity (tickets s)) (map ticket_identity (tickets s'))
     \<and> prefix (map listing_identity (listings s)) (map listing_identity (listings s'))
     \<and> prefix (map deal_of (transfers s)) (map deal_of (transfers s'))"

lemma update_ticket_identity:
  assumes "update_ticket tid body rows = (r, rows')"
  shows "map ticket_identity rows' = map ticket_identity rows"
  using update_ticket_effect [OF assms] by (auto simp: save_ticket_def row_upd_def ticket_identity_def)

lemma create_ticket_grows: "create_ticket b uuid qr now rows = (r, rows') \<Longrightarrow> prefix rows rows'"
  by (drule create_ticket_effect) auto

lemma update_listing_identity:
  assumes "update_listing lid body rows = (r, rows')"
  shows "map listing_identity rows' = map listing_identity rows"
  using update_listing_effect [OF assms]
  by (auto simp: save_listing_def row_upd_def listing_identity_def set_listing_status_def)

lemma create_listing_grows: "create_listing b uuid now rows = (r, rows') \<Longrightarrow> prefix rows rows'"
  by (drule create_listing_effect) auto

lemma create_transfer_grows: "create_transfer b uuid now rows = (r, rows') \<Longrightarrow> prefix rows rows'"
  by (drule create_transfer_effect) auto

lemma transfer_deals:
  "get_transfer tid now rows = (r, rows') \<Longrightarrow> map deal_of rows' = map deal_of rows"
  "patch_transfer tid body now rows = (r, rows') \<Longrightarrow> map deal_of rows' = map deal_of rows"
  by (auto simp: get_transfer_def expire_def row_upd_def deal_of_def save_transfer_deal
      dest!: patch_transfer_effect split: option.splits if_splits)

lemma create_txn_grows: "create_credit_transaction b uuid now rows = (r, rows') \<Longrightarrow> prefix rows rows'"
  by (drule create_credit_transaction_effect) auto

lemma create_log_grows: "create_ticket_log b uuid now rows = (r, rows') \<Longrightarrow> prefix rows rows'"
  by (drule create_ticket_log_effect) auto

lemma create_user_grows: "create_user b uuid now rows = (r, rows') \<Longrightarrow> prefix rows rows'"
  by (drule create_user_effect) auto

lemma create_event_grows: "create_event b uuid now rows = (r, rows') \<Longrightarrow> prefix rows rows'"
  using snd_create_event [of b uuid now rows] by auto

lemmas rows_grow = create_ticket_grows create_listing_grows create_transfer_grows create_txn_grows create_log_grows
  create_user_grows create_event_grows

interpretation books: ticketing_relation books_grow V "\<lambda>_. True" for V
proof unfold_locales
  fix s t u :: "('n::{ring_1,ord}, 'x) sys"
  show "books_grow s t \<Longrightarrow> books_grow t u \<Longrightarrow> books_grow s u"
    unfolding books_grow_def by (auto intro: prefix_order.trans)
qed (auto simp: books_grow_def update_ticket_identity update_listing_identity transfer_deals
    intro: rows_grow map_mono_prefix)

subsection \<open>All tables keep their constraints\<close>

definition tables_ok :: "('n, 'x) sys \<Rightarrow> bool" where
  "tables_ok s \<longleftrightarrow> tickets_ok (tickets s) \<and> table_ok (seats (inventory s)) \<and> listings_ok (listings s)
     \<and> distinct (map transferId (transfers s)) \<and> unique_users (users s) \<and> events_ok (events s)"

definition keeps_tables :: "('n, 'x) sys \<Rightarrow> ('n, 'x) sys \<Rightarrow> bool" where
  "keeps_tables s s' \<longleftrightarrow> (tables_ok s \<longrightarrow> tables_ok s')"

lemma transfer_ids:
  "get_transfer tid now rows = (r, rows') \<Longrightarrow> map transferId rows' = map transferId rows"
  "patch_transfer tid body now rows = (r, rows') \<Longrightarrow> map transferId rows' = map transferId rows"
  by (auto simp: get_transfer_def expire_def save_transfer_def row_upd_def
      dest!: patch_transfer_effect split: option.splits if_splits)

lemma create_transfer_ids:
  "create_transfer b uuid now rows = (r, rows') \<Longrightarrow> distinct (map transferId rows) \<Longrightarrow> distinct (map transferId rows')"
  by (drule create_transfer_effect) auto

lemma create_user_unique: "create_user b uuid now rows = (r, rows') \<Longrightarrow> unique_users rows \<Longrightarrow> unique_users rows'"
  by (drule create_user_effect) auto

lemma create_event_rows: "create_event b uuid now rows = (r, rows') \<Longrightarrow> events_ok rows \<Longrightarrow> events_ok rows'"
  using create_event_ok [of rows b uuid now] by simp

lemmas rows_ok = update_ticket_ok create_ticket_ok update_listing_ok create_listing_ok create_transfer_ids
  create_user_unique create_event_rows seat_step_table_ok

interpretation tables: ticketing_relation keeps_tables V "\<lambda>_. True" for V
  by unfold_locales (auto simp: keeps_tables_def tables_ok_def transfer_ids intro: rows_ok)

subsection \<open>Tickets change hands only by a confirmed transfer\<close>

definition owners :: "('n, 'x) sys \<Rightarrow> (string \<times> string) list" where
  "owners s = map (\<lambda>k. (ticketId k, tk_ownerId k)) (tickets s)"

definition owners_kept :: "('n, 'x) sys \<Rightarrow> ('n, 'x) sys \<Rightarrow> bool" where
  "owners_kept s s' \<longleftrightarrow> prefix (owners s) (owners s')"

lemma no_owner_keeps: "list_all no_owner body \<Longrightarrow> tk_ownerId (set_ticket_fields body k) = tk_ownerId k"
  unfolding set_ticket_fields_def
proof (induction body arbitrary: k)
  case (Cons f body)
  then show ?case by (cases "(f, k)" rule: set_ticket_field.cases) simp_all
qed simp

lemma update_ticket_owners:
  assumes "update_ticket tid body rows = (r, rows')" and "list_all no_owner body"
  shows "map (\<lambda>k. (ticketId k, tk_ownerId k)) rows' = map (\<lambda>k. (ticketId k, tk_ownerId k)) rows"
  using update_ticket_effect [OF assms(1)] assms(2) by (auto simp: save_ticket_def row_upd_def no_owner_keeps)

interpretation ownership: sale_relation owners_kept V "\<lambda>_. True" for V
proof unfold_locales
  fix s t u :: "('n::{ring_1,ord}, 'x) sys"
  show "owners_kept s t \<Longrightarrow> owners_kept t u \<Longrightarrow> owners_kept s u"
    unfolding owners_kept_def by (rule prefix_order.trans)
qed (auto simp: owners_kept_def owners_def update_ticket_owners intro: map_mono_prefix create_ticket_grows)

interpretation ownership_inner: inner_relation owners_kept V "\<lambda>_. True" for V
  by unfold_locales (auto simp: owners_kept_def owners_def)

text \<open>What a confirmation does to the tickets: nothing, or the ticket goes to the buyer.\<close>

definition given_to :: "string \<Rightarrow> string \<Rightarrow> ('n, 'x) sys \<Rightarrow> ('n, 'x) sys \<Rightarrow> bool" where
  "given_to k buyer s s' \<longleftrightarrow> tickets s' = save_ticket k [TkOwnerId (Some buyer), TkStatus (Some ''active'')] (tickets s)"

lemma execute_saga_tickets:
  assumes "execute_saga api g s = (ok, s')"
  shows "tickets s' = tickets s \<or> given_to (sg_ticket_id g) (sg_buyer_id g) s s'"
proof (cases ok)
  case True
  with assms have "execute_saga api g s = (True, s')" by simp
  with execute_saga_True obtain c where "run_steps (saga_steps api g) s = (c, True, s')" by blast
  then have "moved g s s'"
    by (rule run_steps_rel) (use moved_refl moved_trans saga_step_moves in blast)+
  then show ?thesis by (auto simp: moved_def given_to_def)
next
  case False
  with assms have "execute_saga api g s = (False, s')" by simp
  from failed_saga_tickets [OF this] show ?thesis by (auto simp: moved_def given_to_def)
qed

lemma settle_saga_tickets:
  assumes "settle_saga api tr tid k x y s = (rep, s')"
  shows "tickets s' = tickets s \<or> given_to k (tr_buyerId tr) s s'"
proof -
  let ?g = "\<lparr>sg_transfer_id = tid, sg_buyer_id = tr_buyerId tr, sg_seller_id = tr_sellerId tr,
    sg_credit_amount = tr_creditAmount tr, sg_ticket_id = k, sg_listing_id = tr_listingId tr,
    sg_buyer_balance = x, sg_seller_balance = y\<rparr>"
  obtain ok s1 where c: "execute_saga api ?g s = (ok, s1)" by fastforce
  have "tickets s' = tickets s1"
  proof (cases ok)
    case True
    define s3 where "s3 = broadcast_notification (broadcast_notification (snd (enrich_transfer
      \<lparr>tv_listingId = Some (tr_listingId tr), tv_buyerId = Some (tr_buyerId tr), tv_sellerId = Some (tr_sellerId tr),
       tv_ticketId = Some k\<rparr> s1)))"
    obtain info s4 where l: "load_enriched_transfer tid ((tview_of tr)\<lparr>tv_ticketId := Some k\<rparr>) s3 = (info, s4)" by fastforce
    have "net_only s1 s3"
      unfolding s3_def by (blast intro: net_only_trans enrich_transfer_net' broadcast_notification_net)
    moreover have "s' = s4" using assms c True l by (simp add: settle_saga_def s3_def Let_def)
    ultimately show ?thesis using net_only_keeps load_enriched_transfer_shape [OF l] by auto
  qed (use assms c in \<open>simp add: settle_saga_def\<close>)
  with execute_saga_tickets [OF c] show ?thesis by (auto simp: given_to_def)
qed

lemma settle_balances_tickets:
  assumes "settle_balances api tr tid k s = (rep, s')"
  shows "tickets s' = tickets s \<or> given_to k (tr_buyerId tr) s s'"
proof -
  have get: "call_credit_get api u q = (r, q') \<Longrightarrow> tickets q' = tickets q" for u and q q' :: "('a, 'b) sys" and r
    using call_credit_get_is by fastforce
  from assms show ?thesis
    by (auto simp: settle_balances_def mark_failed_keeps given_to_def split: prod.splits sum.splits if_splits
        dest!: get settle_saga_tickets)
qed

text \<open>
  A confirmed deal of a ticket: the transfer is for that seller, waits for the seller, and its buyer
  has confirmed; the ticket is that of its listing. When the listing cannot be read the code uses the
  text None for the ticket.
\<close>

definition confirmed_deal :: "string \<Rightarrow> string \<Rightarrow> string \<Rightarrow> string \<Rightarrow> ('n, 'x) sys \<Rightarrow> bool" where
  "confirmed_deal seller tid k buyer s \<longleftrightarrow>
     (\<exists>tr. row_get transferId tid (transfers s) = Some tr \<and> tr_sellerId tr = seller \<and> tr_buyerId tr = buyer
        \<and> tr_status tr = ''pending_seller_otp'' \<and> buyerOtpVerified tr
        \<and> (k = ''None'' \<or> (\<exists>l. row_get listingId (tr_listingId tr) (listings s) = Some l \<and> li_ticketId l = k)))"

lemma settle_tickets:
  assumes "settle api tr tid s = (rep, s')"
  shows "tickets s' = tickets s \<or> (\<exists>k. given_to k (tr_buyerId tr) s s'
    \<and> (k = ''None'' \<or> (\<exists>l. row_get listingId (tr_listingId tr) (listings s) = Some l \<and> li_ticketId l = k)))"
proof -
  obtain t1 where p: "patch_ignored tid [TrSellerOtpVerified (Some True)] s = s\<lparr>net := tl (net s), transfers := t1\<rparr>"
    using patch_ignored_shape by blast
  obtain lr s1 where c: "call_service UNAVAILABLE (ep_get_listing (tr_listingId tr))
      (s\<lparr>net := tl (net s), transfers := t1\<rparr>) = (lr, s1)" by fastforce
  from call_get_listing [OF c] have s1: "tickets s1 = tickets s"
    and l: "\<And>l. lr = Inr l \<Longrightarrow> row_get listingId (tr_listingId tr) (listings s) = Some l" by auto
  define k where "k = (case lr of Inl e \<Rightarrow> ''None'' | Inr l \<Rightarrow> li_ticketId l)"
  have "settle_balances api tr tid k s1 = (rep, s')"
    using assms p c by (simp add: settle_def k_def split: sum.splits)
  from settle_balances_tickets [OF this] s1 have "tickets s' = tickets s \<or> given_to k (tr_buyerId tr) s s'"
    by (simp add: given_to_def)
  moreover have "k = ''None'' \<or> (\<exists>l. row_get listingId (tr_listingId tr) (listings s) = Some l \<and> li_ticketId l = k)"
    using l by (auto simp: k_def split: sum.splits)
  ultimately show ?thesis by blast
qed

lemma seller_verify_tickets:
  assumes "seller_verify api otp seller code tid s = (rep, s')"
  shows "tickets s' = tickets s \<or> (\<exists>k buyer. given_to k buyer s s' \<and> confirmed_deal seller tid k buyer s)"
proof -
  obtain gr s1 where g: "call_service UNAVAILABLE (ep_get_transfer tid) s = (gr, s1)" by fastforce
  have s1: "tickets s1 = tickets s" using call_get_transfer [OF g] by auto
  show ?thesis
  proof (cases "\<exists>tr. gr = Inr tr \<and> truthy code \<and> tr_sellerId tr = seller \<and> tr_status tr = ''pending_seller_otp''
      \<and> \<not> sellerOtpVerified tr \<and> buyerOtpVerified tr \<and> truthy (sellerVerificationSid tr)")
    case False
    with assms g s1 show ?thesis by (auto simp: seller_verify_def split: if_splits sum.splits)
  next
    case True
    then obtain tr where tr: "gr = Inr tr" "truthy code" "tr_sellerId tr = seller" "tr_status tr = ''pending_seller_otp''"
      "\<not> sellerOtpVerified tr" "buyerOtpVerified tr" "truthy (sellerVerificationSid tr)" by blast
    have st: "s1 = s\<lparr>net := tl (net s)\<rparr>" and row: "row_get transferId tid (transfers s) = Some tr"
      using call_get_transfer_pending [OF g [unfolded tr(1)]] tr(4) by simp_all
    obtain ur s2 where u: "call_service UNAVAILABLE (ep_read (\<lambda>s. get_user (tr_sellerId tr) (users s))) s1 = (ur, s2)" by fastforce
    have s2: "s2 = s1\<lparr>net := tl (net s1)\<rparr>" using call_read [OF u] by simp
    show ?thesis
    proof (cases ur)
      case (Inl e)
      then show ?thesis using assms g tr u s2 st by (auto simp: seller_verify_def)
    next
      case (Inr usr)
      obtain b s3 where o: "otp_accepted otp (the (sellerVerificationSid tr)) (the code) (us_phoneNumber usr) s2 = (b, s3)" by fastforce
      from otp_accepted_shape [OF o] s2 st have s3: "tickets s3 = tickets s" "listings s3 = listings s" by auto
      have "settle api tr tid s3 = (rep, s') \<or> s' = s3"
        using assms g tr u Inr o by (auto simp: seller_verify_def split: bool.splits)
      then show ?thesis
      proof
        assume "settle api tr tid s3 = (rep, s')"
        from settle_tickets [OF this] consider "tickets s' = tickets s"
          | k where "given_to k (tr_buyerId tr) s s'"
              "k = ''None'' \<or> (\<exists>l. row_get listingId (tr_listingId tr) (listings s) = Some l \<and> li_ticketId l = k)"
          unfolding given_to_def s3 by blast
        then show ?thesis
          by cases (use row tr in \<open>auto simp: confirmed_deal_def\<close>)
      qed (simp add: s3)
    qed
  qed
qed

lemma owner_lookup: "map_of (owners s) tid = map_option tk_ownerId (row_get ticketId tid (tickets s))"
proof -
  have "map_of (map (\<lambda>k. (ticketId k, tk_ownerId k)) ks) tid = map_option tk_ownerId (row_get ticketId tid ks)"
    for ks :: "'a ticket list" by (induction ks) simp_all
  then show ?thesis by (simp add: owners_def)
qed

lemma owners_kept_lookup:
  assumes "owners_kept s s'" and "row_get ticketId tid (tickets s) = Some k" and "row_get ticketId tid (tickets s') = Some k'"
  shows "tk_ownerId k' = tk_ownerId k"
proof -
  have "map_of (owners s) tid = Some (tk_ownerId k)" using assms(2) by (simp add: owner_lookup)
  moreover from assms(1) obtain more where "owners s' = owners s @ more" by (auto simp: owners_kept_def prefix_def)
  ultimately have "map_of (owners s') tid = Some (tk_ownerId k)" by (simp add: map_of_append)
  with assms(3) show ?thesis by (simp add: owner_lookup)
qed

lemma given_to_lookup:
  assumes "given_to j buyer s s'" and "row_get ticketId tid (tickets s) = Some k" and "row_get ticketId tid (tickets s') = Some k'"
  shows "k' = k \<or> tid = j \<and> tk_ownerId k' = buyer"
  using assms by (auto simp: given_to_def ticket_table.get_upd set_ticket_fields_def split: if_splits)

subsection \<open>Credits\<close>

text \<open>
  What the code relies on of the external services: the laws of the credit service, that opening an
  account touches no other account, and that the other services leave the credits alone.
\<close>

definition services_laws :: "('x \<Rightarrow> string \<Rightarrow> 'n::zero) \<Rightarrow> ('n, 'x) services \<Rightarrow> bool" where
  "services_laws bal V \<longleftrightarrow> credit_laws bal (sv_credit V) \<and> otp_laws bal (sv_otp V) \<and> stripe_laws bal (sv_stripe V)
     \<and> (\<forall>u v x w. w \<noteq> u \<longrightarrow> bal (snd (sv_post V u v x)) w = bal x w)"

definition credit_kept :: "('x \<Rightarrow> string \<Rightarrow> 'n) \<Rightarrow> string \<Rightarrow> ('n, 'x) sys \<Rightarrow> ('n, 'x) sys \<Rightarrow> bool" where
  "credit_kept bal w s s' \<longleftrightarrow> bal (ext s') w = bal (ext s) w"

lemma asks_credit: "services_laws bal V \<Longrightarrow> asks V x y \<Longrightarrow> bal y = bal x"
  unfolding services_laws_def asks_def credit_laws_def otp_laws_def stripe_laws_def by (metis prod.collapse)

lemma pays_credit:
  assumes "services_laws bal V" and "pays V u x y" and "w \<noteq> u"
  shows "bal y w = bal x w"
proof -
  have "bal (snd (credit_patch (sv_credit V) u v x)) w = bal x w" for v
    using credit_patch_law [of bal "sv_credit V" u v x] assms(1,3) unfolding services_laws_def by (metis fun_upd_other prod.collapse)
  with assms show ?thesis unfolding services_laws_def pays_def by auto
qed

text \<open>With lawful services the credits of a user are kept by all that does not write them.\<close>

lemma credit_relation:
  fixes bal :: "'x \<Rightarrow> string \<Rightarrow> 'n::{ring_1,ord}"
  assumes "services_laws bal V"
  shows "owner_relation (credit_kept bal w) V (\<lambda>u. u \<noteq> w)" and "sale_relation (credit_kept bal w) V (\<lambda>u. u \<noteq> w)"
proof -
  have "workflow_relation (credit_kept bal w) V (\<lambda>u. u \<noteq> w)"
    by unfold_locales (auto simp: credit_kept_def asks_credit [OF assms] intro: pays_credit [OF assms])
  then show "owner_relation (credit_kept bal w) V (\<lambda>u. u \<noteq> w)" "sale_relation (credit_kept bal w) V (\<lambda>u. u \<noteq> w)"
    by (simp_all add: owner_relation_def owner_relation_axioms_def sale_relation_def sale_relation_axioms_def credit_kept_def)
qed

subsection \<open>Properties\<close>


text \<open>The example: two attempts to buy the one held seat.\<close>

definition ex_services :: "(int, (string \<Rightarrow> int) \<times> bool) services" where
  "ex_services = \<lparr>sv_credit = ex_credit, sv_post = (\<lambda>u v x. (None, ((fst x)(u := v), snd x))), sv_otp = ex_otp, sv_stripe = ex_stripe\<rparr>"

definition ex_open :: "(int, (string \<Rightarrow> int) \<times> bool) sys" where
  "ex_open = ex_sys\<lparr>tickets := []\<rparr>"

definition ex_first_buy :: "(int, (string \<Rightarrow> int) \<times> bool) sys" where
  "ex_first_buy = snd (confirm_purchase (sv_credit ex_services) ''u1'' ex_purchase ''i1'' ex_open)"

definition ex_second_buy :: "(int, (string \<Rightarrow> int) \<times> bool) sys" where
  "ex_second_buy = snd (confirm_purchase (sv_credit ex_services) ''u1'' ex_purchase ''i1'' ex_first_buy)"

lemma ex_buys: "(sys_step ex_services)\<^sup>*\<^sup>* ex_open ex_second_buy"
  unfolding ex_second_buy_def ex_first_buy_def
  by (rule rtranclp.rtrancl_into_rtrancl [OF r_into_rtranclp]) (rule sys_step.purchase)+


text \<open>
  Property C6: a ticket changes hands only by a confirmed deal. If a step of the system changes the
  owner of a ticket, that step is the confirmation of a transfer by its seller; the transfer was
  waiting for the seller, its buyer had confirmed, the ticket is that of its listing (or has the id
  None, which the code uses when the listing cannot be read), and the new owner is its buyer.
\<close>

theorem tickets_change_hands_by_deal:
  assumes "sys_step V s s'" and "row_get ticketId tid (tickets s) = Some k" and "row_get ticketId tid (tickets s') = Some k'"
    and "tk_ownerId k' \<noteq> tk_ownerId k"
  shows "\<exists>seller code trid. s' = snd (seller_verify (sv_credit V) (sv_otp V) seller code trid s)
    \<and> confirmed_deal seller trid tid (tk_ownerId k') s"
proof -
  have "\<not> owners_kept s s'" using owners_kept_lookup assms(2-4) by blast
  with ownership_inner.inner_step [OF assms(1)] ownership.purchase_keeps
  obtain seller code trid where v: "s' = snd (seller_verify (sv_credit V) (sv_otp V) seller code trid s)"
    unfolding settle_step_def by blast
  then obtain rep where "seller_verify (sv_credit V) (sv_otp V) seller code trid s = (rep, s')" by (metis prod.collapse)
  from seller_verify_tickets [OF this] assms(2-4) obtain j buyer where "given_to j buyer s s'" "confirmed_deal seller trid j buyer s"
    by auto
  with given_to_lookup assms(2-4) v show ?thesis by blast
qed

definition ex_dealt :: "(int, (string \<Rightarrow> int) \<times> bool) sys" where
  "ex_dealt = snd (seller_verify (sv_credit ex_services) (sv_otp ex_services) ''u1'' (Some ''1234'') ''x1'' ex_deal)"

theorem tickets_change_hands_by_deal_witness:
  "\<exists>seller trid. confirmed_deal seller trid ''k1'' ''u2'' ex_deal"
proof -
  have step: "sys_step ex_services ex_deal ex_dealt" unfolding ex_dealt_def by (rule sys_step.seller_verify)
  have "map_option tk_ownerId (row_get ticketId ''k1'' (tickets ex_deal)) = Some ''u1''"
    "map_option tk_ownerId (row_get ticketId ''k1'' (tickets ex_dealt)) = Some ''u2''" by code_simp+
  then obtain k k' where "row_get ticketId ''k1'' (tickets ex_deal) = Some k" "tk_ownerId k = ''u1''"
    "row_get ticketId ''k1'' (tickets ex_dealt) = Some k'" "tk_ownerId k' = ''u2''" by auto
  with tickets_change_hands_by_deal [OF step, of "''k1''" k k'] show ?thesis by auto
qed

text \<open>
  Property C7: credits move only by a purchase, a settlement, a top-up or a registration. If a step of
  the system changes the credits of a user, then the external services changed on their own, or the
  step is a purchase by that user, or a top-up whose payment is that user's, or a registration and the
  user was not registered, or the seller's confirmation of a transfer whose buyer had confirmed, and
  the user is its buyer or its seller.
\<close>

theorem credits_move_only_by:
  assumes laws: "services_laws bal V" and step: "sys_step V s s'" and change: "bal (ext s') w \<noteq> bal (ext s) w"
  shows "outside_step s s' \<or> purchase_step V w s s' \<or> topup_step V w s s' \<or> register_step V w s s'
    \<or> (\<exists>tr. row_get transferId (transferId tr) (transfers s) = Some tr \<and> settle_step V (tr_sellerId tr) (transferId tr) s s'
         \<and> tr_status tr = ''pending_seller_otp'' \<and> buyerOtpVerified tr \<and> w \<in> {tr_buyerId tr, tr_sellerId tr})"
proof -
  note credit = credit_relation [OF laws, of w]
  have no: "\<not> credit_kept bal w s s'" using change by (simp add: credit_kept_def)
  have buyer: "u = w" if "purchase_step V u s s'" for u
    using sale_relation.purchase_keeps [OF credit(2) that] no by blast
  have deal: "\<exists>tr. row_get transferId (transferId tr) (transfers s) = Some tr \<and> settle_step V (tr_sellerId tr) (transferId tr) s s'
      \<and> tr_status tr = ''pending_seller_otp'' \<and> buyerOtpVerified tr \<and> w \<in> {tr_buyerId tr, tr_sellerId tr}"
    if "settle_step V u tid s s'" for u tid
  proof -
    from owner_relation.settle_keeps [OF credit(1) that] no obtain tr where tr: "row_get transferId tid (transfers s) = Some tr"
      "tr_sellerId tr = u" "tr_status tr = ''pending_seller_otp''" "buyerOtpVerified tr" "w \<in> {tr_buyerId tr, tr_sellerId tr}"
      by auto
    moreover have "transferId tr = tid" using row_get_key [OF tr(1)] .
    ultimately show ?thesis using that by blast
  qed
  from workflow_relation.step_keeps [OF owner_relation.axioms(1) [OF credit(1)] step] no buyer deal show ?thesis by blast
qed

lemma ex_services_laws: "services_laws fst ex_services"
  unfolding services_laws_def ex_services_def by (simp add: ex_credit_laws ex_otp_laws ex_stripe_laws)

theorem credits_move_only_by_witness:
  "fst (ext ex_deal) ''u2'' = 100 \<and> fst (ext ex_dealt) ''u2'' = 40
    \<and> (outside_step ex_deal ex_dealt \<or> purchase_step ex_services ''u2'' ex_deal ex_dealt
      \<or> topup_step ex_services ''u2'' ex_deal ex_dealt \<or> register_step ex_services ''u2'' ex_deal ex_dealt
      \<or> (\<exists>tr. row_get transferId (transferId tr) (transfers ex_deal) = Some tr \<and> ''u2'' \<in> {tr_buyerId tr, tr_sellerId tr}))"
proof -
  have step: "sys_step ex_services ex_deal ex_dealt" unfolding ex_dealt_def by (rule sys_step.seller_verify)
  have b: "fst (ext ex_deal) ''u2'' = 100" "fst (ext ex_dealt) ''u2'' = 40" by code_simp+
  then have "fst (ext ex_dealt) ''u2'' \<noteq> fst (ext ex_deal) ''u2''" by simp
  from credits_move_only_by [OF ex_services_laws step this] b show ?thesis by blast
qed

text \<open>
  Property C9: a ticket enters once, whatever happens after. Once a scan has admitted a ticket while no
  call was lost, then after any run of the system from there, resales and fresh QR codes included, a
  check at the door that can read the log does not answer 200 for that ticket again.
\<close>

theorem admitted_never_again:
  assumes s: "net s = []" "tables_ok s" "fresh s (drawn s) \<notin> logId ` set (logs s)" "distinct (map logId (logs s))"
    and entry: "scan stf qr sel s = (Done st a, s')" and run: "(sys_step V)\<^sup>*\<^sup>* s' q" and q: "net q = []"
  shows "manual_verify stf2 (Some (sa_ticketId a)) sel2 q \<noteq> (Done st2 b, q')
    \<and> (scan stf2 qr2 sel2 q = (Done st2 b, q') \<longrightarrow> sa_ticketId b \<noteq> sa_ticketId a)"
proof -
  have all: "(sys_step V)\<^sup>*\<^sup>* s q" using sys_step.scan [of V s stf qr sel] entry run by (simp add: converse_rtranclp_into_rtranclp)
  have u: "unique_tickets (tickets s)" using s(2) by (simp add: tables_ok_def tickets_ok_def)
  have "tables_ok q" using tables.run_keeps [OF all] s(2) by (simp add: keeps_tables_def)
  then have uq: "unique_tickets (tickets q)" by (simp add: tables_ok_def tickets_ok_def)
  have "checked_in (sa_ticketId a) s'" using scan_effect_ok [OF s(1) u s(3,4) entry] by blast
  moreover have "prefix (logs s') (logs q)" using books.run_keeps [OF run] by (simp add: books_grow_def)
  ultimately have "checked_in (sa_ticketId a) q" unfolding checked_in_def by (auto simp: prefix_def)
  with no_entry [OF uq] q show ?thesis by blast
qed

text \<open>The ticket is admitted, its QR code is fetched anew, and the new code is scanned.\<close>

definition ex_entered :: "(int, (string \<Rightarrow> int) \<times> bool) sys" where
  "ex_entered = snd (scan ex_staff (Some ''q1'') None ex_door)"

definition ex_renewed :: "(int, (string \<Rightarrow> int) \<times> bool) sys" where
  "ex_renewed = snd (get_qr ex_qr_env ''u1'' ''k1'' ex_entered)"

theorem admitted_never_again_witness:
  "\<not> is_done (fst (manual_verify ex_staff (Some ''k1'') None ex_renewed))"
proof
  assume "is_done (fst (manual_verify ex_staff (Some ''k1'') None ex_renewed))"
  then obtain st2 b q' where again: "manual_verify ex_staff (Some ''k1'') None ex_renewed = (Done st2 b, q')"
    by (metis is_done_iff prod.collapse)
  obtain st a where run: "scan ex_staff (Some ''q1'') None ex_door = (Done st a, ex_entered)"
    using ex_scan unfolding ex_entered_def by (metis is_done_iff prod.collapse)
  have "(case fst (scan ex_staff (Some ''q1'') None ex_door) of Done st a \<Rightarrow> sa_ticketId a = ''k1'' | Fail st c \<Rightarrow> False)"
    by code_simp
  then have id: "sa_ticketId a = ''k1''" using run by simp
  have "tickets_ok (tickets ex_door)" "listings_ok (listings ex_door)" "distinct (map transferId (transfers ex_door))"
    "unique_users (users ex_door)" "events_ok (events ex_door)" "table_ok (seats (inventory ex_door))" by code_simp+
  then have ok: "tables_ok ex_door" unfolding tables_ok_def by blast
  have door: "net ex_door = []" "fresh ex_door (drawn ex_door) \<notin> logId ` set (logs ex_door)" "distinct (map logId (logs ex_door))"
    "net ex_renewed = []" by code_simp+
  have "(sys_step ex_services)\<^sup>*\<^sup>* ex_entered ex_renewed" unfolding ex_renewed_def by (intro r_into_rtranclp sys_step.qr)
  from admitted_never_again [OF door(1) ok door(2,3) run this door(4), of ex_staff None st2 b q'] id again show False by simp
qed


lemma ex_deal_run: "(sys_step ex_services)\<^sup>*\<^sup>* ex_deal ex_dealt"
  unfolding ex_dealt_def by (intro r_into_rtranclp sys_step.seller_verify)



lemma ex_deal_tables: "tables_ok ex_deal"
proof -
  have "tickets_ok (tickets ex_deal)" "listings_ok (listings ex_deal)" "distinct (map transferId (transfers ex_deal))"
    "unique_users (users ex_deal)" "events_ok (events ex_deal)" "table_ok (seats (inventory ex_deal))" by code_simp+
  then show ?thesis unfolding tables_ok_def by blast
qed




end
