(* ===== verification/Boot.thy ===== *)
theory Boot
  imports ErrorHandlers
begin

text \<open>
  How the services start: the check of the secrets and Sentry, which the module of a service runs when
  it is imported, then \<^verbatim>\<open>create_app\<close> with the address of the database (\<^verbatim>\<open>app.py\<close> of each service,
  \<^verbatim>\<open>shared/sentry.py\<close>, \<^verbatim>\<open>shared/posthog.py\<close>). The lemmas show what a service that serves in production
  has set, and that the services that skip the checks serve with none of it.
\<close>

subsection \<open>Sentry\<close>

text \<open>
  The settings passed to the SDK that vary; the others are constants. Reading a number from a text is a parameter; None is its ValueError.
\<close>

record 'r sentry_settings =
  se_dsn :: string
  se_environment :: string
  se_release :: "string option"
  se_traces_sample_rate :: 'r
  se_debug :: bool

datatype 'a started = Refused | Skipped | Started 'a

definition getenv_or :: "environ \<Rightarrow> string \<Rightarrow> string \<Rightarrow> string" where
  "getenv_or env name dflt = (case env name of None \<Rightarrow> dflt | Some v \<Rightarrow> v)"

definition init_sentry ::
  "(string \<Rightarrow> 'r option) \<Rightarrow> environ \<Rightarrow> string option \<Rightarrow> 'r option \<Rightarrow> 'r sentry_settings started" where
  "init_sentry read_float env service_name traces_sample_rate =
     (let dsn = env ''SENTRY_DSN''; app_env = getenv_or env ''APP_ENV'' ''development'' in
      if app_env = ''production'' \<and> \<not> truthy dsn then Refused
      else if \<not> truthy dsn then Skipped
      else
        (case (case traces_sample_rate of Some r \<Rightarrow> Some r | None \<Rightarrow> read_float (getenv_or env ''SENTRY_TRACES_SAMPLE_RATE'' ''0.1'')) of
           None \<Rightarrow> Refused
         | Some rate \<Rightarrow>
             Started \<lparr>se_dsn = the dsn, se_environment = getenv_or env ''SENTRY_ENVIRONMENT'' ''development'',
               se_release = (if truthy service_name then Some (the service_name @ ''@'' @ getenv_or env ''APP_VERSION'' ''dev'') else None),
               se_traces_sample_rate = rate, se_debug = (app_env = ''development'')\<rparr>))"

text \<open>The sampler of transactions; None is the ValueError of the configured rate.\<close>

definition traces_sampler :: "(string \<Rightarrow> 'r::zero option) \<Rightarrow> environ \<Rightarrow> string option \<Rightarrow> 'r option" where
  "traces_sampler read_float env name =
     (if name = Some ''health_check'' then Some 0
      else if name = Some ''static'' then Some 0
      else read_float (getenv_or env ''SENTRY_TRACES_SAMPLE_RATE'' ''0.1''))"

text \<open>The user that \<^verbatim>\<open>set_user\<close> passes on; later keys replace earlier ones of the same name.\<close>

definition set_user :: "string option \<Rightarrow> string option \<Rightarrow> (string \<times> string) list \<Rightarrow> string \<rightharpoonup> string" where
  "set_user user_id email kwargs =
     ((if truthy user_id then Map.empty(''id'' := user_id) else Map.empty)
        ++ (if truthy email then Map.empty(''email'' := email) else Map.empty)) ++ map_of kwargs"

subsection \<open>PostHog\<close>

text \<open>
  The client that the process has, if any, and the events that reached it; an event that raises is
  dropped. \<open>ok\<close> tells whether the call succeeds.
\<close>

record posthog =
  ph_client :: "(string \<times> string) option"
  ph_events :: "(string \<times> string) list"

definition init_posthog :: "environ \<Rightarrow> posthog \<Rightarrow> posthog" where
  "init_posthog env p =
     (if \<not> truthy (env ''POSTHOG_API_KEY'') then p
      else p\<lparr>ph_client := Some (the (env ''POSTHOG_API_KEY''), getenv_or env ''POSTHOG_HOST'' ''https://us.i.posthog.com'')\<rparr>)"

definition capture_event :: "bool \<Rightarrow> string \<Rightarrow> string \<Rightarrow> posthog \<Rightarrow> posthog" where
  "capture_event ok distinct_id event p =
     (if ph_client p = None then p else if ok then p\<lparr>ph_events := ph_events p @ [(distinct_id, event)]\<rparr> else p)"

subsection \<open>The applications\<close>

text \<open>The settings of an application: verbose errors, and the address it works with. None is RuntimeError.\<close>

definition verbose_errors :: "environ \<Rightarrow> bool" where
  "verbose_errors env \<longleftrightarrow> map lower_char (getenv_or env ''VERBOSE_ERRORS'' []) = ''true''"

definition database_address :: "environ \<Rightarrow> string \<Rightarrow> string option" where
  "database_address env var = (if truthy (env var) then env var else env ''DATABASE_URL'')"

definition checked_app :: "string \<Rightarrow> environ \<Rightarrow> (bool \<times> string) option" where
  "checked_app var env = map_option (Pair (verbose_errors env)) (validate_database_url (database_address env var))"

definition plain_app :: "string \<Rightarrow> environ \<Rightarrow> (bool \<times> string) option" where
  "plain_app var env =
     (if truthy (database_address env var) then Some (verbose_errors env, the (database_address env var)) else None)"

definition ticket_app :: "environ \<Rightarrow> (bool \<times> string) option" where
  "ticket_app = checked_app ''TICKET_SERVICE_DATABASE_URL''"

definition seat_inventory_app :: "environ \<Rightarrow> (bool \<times> string) option" where
  "seat_inventory_app = checked_app ''SEAT_INVENTORY_SERVICE_DATABASE_URL''"

definition event_app :: "environ \<Rightarrow> (bool \<times> string) option" where
  "event_app = plain_app ''EVENT_SERVICE_DATABASE_URL''"

definition venue_app :: "environ \<Rightarrow> (bool \<times> string) option" where
  "venue_app = plain_app ''VENUE_SERVICE_DATABASE_URL''"

definition seat_app :: "environ \<Rightarrow> (bool \<times> string) option" where
  "seat_app = plain_app ''SEAT_SERVICE_DATABASE_URL''"

definition ticket_log_app :: "environ \<Rightarrow> (bool \<times> string) option" where
  "ticket_log_app = plain_app ''TICKET_LOG_SERVICE_DATABASE_URL''"

definition marketplace_app :: "environ \<Rightarrow> (bool \<times> string) option" where
  "marketplace_app = plain_app ''MARKETPLACE_SERVICE_DATABASE_URL''"

definition transfer_app :: "environ \<Rightarrow> (bool \<times> string) option" where
  "transfer_app = plain_app ''TRANSFER_SERVICE_DATABASE_URL''"

definition credit_transaction_app :: "environ \<Rightarrow> (bool \<times> string) option" where
  "credit_transaction_app = plain_app ''CREDIT_TRANSACTION_SERVICE_DATABASE_URL''"

text \<open>The wrappers need two settings each.\<close>

definition two_settings :: "string \<Rightarrow> string \<Rightarrow> environ \<Rightarrow> (bool \<times> string \<times> string) option" where
  "two_settings a b env =
     (if \<not> truthy (env a) then None else if \<not> truthy (env b) then None else Some (verbose_errors env, the (env a), the (env b)))"

definition otp_wrapper_app :: "environ \<Rightarrow> (bool \<times> string \<times> string) option" where
  "otp_wrapper_app = two_settings ''SMU_API_URL'' ''SMU_API_KEY''"

definition stripe_wrapper_app :: "environ \<Rightarrow> (bool \<times> string \<times> string) option" where
  "stripe_wrapper_app = two_settings ''STRIPE_SECRET_KEY'' ''STRIPE_WEBHOOK_SECRET''"

subsection \<open>Importing a service\<close>

text \<open>
  The secrets, strictly in production, then Sentry, then the application when an address is set; a
  service has the first two steps or not. An exception of a step ends the process.
\<close>

definition import_service ::
  "(string \<Rightarrow> 'r option) \<Rightarrow> bool \<Rightarrow> string option \<Rightarrow> string \<Rightarrow> (environ \<Rightarrow> 'a option) \<Rightarrow> environ \<Rightarrow> 'a started" where
  "import_service read_float checks_secrets sentry_name var app env =
     (if checks_secrets \<and> init_secrets (env ''APP_ENV'' = Some ''production'') env = None then Refused
      else if sentry_name \<noteq> None \<and> init_sentry read_float env sentry_name None = Refused then Refused
      else if \<not> truthy (database_address env var) then Skipped
      else (case app env of None \<Rightarrow> Refused | Some a \<Rightarrow> Started a))"

definition import_ticket_service :: "(string \<Rightarrow> 'r option) \<Rightarrow> environ \<Rightarrow> (bool \<times> string) started" where
  "import_ticket_service rf = import_service rf True (Some ''ticket-service'') ''TICKET_SERVICE_DATABASE_URL'' ticket_app"

definition import_event_service :: "(string \<Rightarrow> 'r option) \<Rightarrow> environ \<Rightarrow> (bool \<times> string) started" where
  "import_event_service rf = import_service rf False (Some ''event-service'') ''EVENT_SERVICE_DATABASE_URL'' event_app"

definition import_venue_service :: "(string \<Rightarrow> 'r option) \<Rightarrow> environ \<Rightarrow> (bool \<times> string) started" where
  "import_venue_service rf = import_service rf False None ''VENUE_SERVICE_DATABASE_URL'' venue_app"

subsection \<open>Lemmas\<close>

lemma checked_app_Some:
  "checked_app var env = Some (v, url) \<longleftrightarrow> v = verbose_errors env \<and> database_address env var = Some url \<and> url \<noteq> [] \<and> \<not> sublist ''change_me'' url"
  by (auto simp: checked_app_def validate_database_url_def truthy_iff)

lemma init_sentry_production:
  "env ''APP_ENV'' = Some ''production'' \<Longrightarrow> init_sentry rf env name rate \<noteq> Refused \<Longrightarrow> truthy (env ''SENTRY_DSN'')"
  by (rule ccontr) (simp add: init_sentry_def Let_def getenv_or_def)

text \<open>What a service with all checks has set when it serves in production.\<close>

lemma serving_in_production:
  assumes "import_ticket_service rf env = Started (v, url)" and "env ''APP_ENV'' = Some ''production''"
  shows "init_secrets True env = Some [] \<and> truthy (env ''SENTRY_DSN'')
    \<and> database_address env ''TICKET_SERVICE_DATABASE_URL'' = Some url \<and> url \<noteq> [] \<and> \<not> sublist ''change_me'' url"
proof -
  from assms have s: "init_secrets True env \<noteq> None" "init_sentry rf env (Some ''ticket-service'') None \<noteq> Refused" "ticket_app env = Some (v, url)"
    by (auto simp: import_ticket_service_def import_service_def split: if_splits option.splits)
  from s(1) have "init_secrets True env = Some []" by (auto simp: init_secrets_def split: sum.splits if_splits)
  with s init_sentry_production [where env = env, OF assms(2)] show ?thesis by (auto simp: ticket_app_def checked_app_Some)
qed

text \<open>The venue service serves in production with no secret set, without Sentry, and with a placeholder in its address.\<close>

lemma unchecked_in_production:
  "\<exists>env. env ''APP_ENV'' = Some ''production'' \<and> init_secrets True env = None \<and> \<not> truthy (env ''SENTRY_DSN'')
    \<and> import_venue_service rf env = Started (False, ''change_me'')"
proof -
  let ?env = "[''APP_ENV'' \<mapsto> ''production'', ''DATABASE_URL'' \<mapsto> ''change_me'']"
  have "init_secrets True ?env = None"
    by (simp add: init_secrets_def validate_secrets_def secret_issues_def CRITICAL_SECRETS_def Let_def)
  moreover have "import_venue_service rf ?env = Started (False, ''change_me'')"
    by (simp add: import_venue_service_def import_service_def venue_app_def plain_app_def database_address_def verbose_errors_def getenv_or_def)
  ultimately show ?thesis by (intro exI [of _ ?env]) simp
qed

text \<open>Health checks are never sampled; without a client no event is kept, and an event never raises.\<close>

lemma health_not_sampled: "traces_sampler rf env (Some ''health_check'') = Some 0"
  by (simp add: traces_sampler_def)

lemma capture_without_client: "ph_client p = None \<Longrightarrow> capture_event ok d e p = p"
  by (simp add: capture_event_def)

lemma user_service_app: "create_app = checked_app ''USER_SERVICE_DATABASE_URL''"
  by (rule ext) (simp add: create_app_def checked_app_def verbose_errors_def getenv_or_def database_address_def)

end
