(* ===== verification/Populate.thy ===== *)
theory Populate
  imports Seeding Startup
begin

text \<open>
  The events of \<^verbatim>\<open>seed_events.py\<close>, and the script \<^verbatim>\<open>populate_all_events.py\<close>, which fills the tables of
  three services at once: its own ten events, a hundred seats for each of their venues that has none, and
  an inventory row for each event and seat. The lemmas show that it adds rows and changes none, that after
  a run every event has an inventory row for every seat of its venue, that a second run changes nothing,
  that the seeded events take place at seeded venues, and that four of the ten venues of the script are
  not among the seeded ones.
\<close>

subsection \<open>Dates\<close>

text \<open>The days since 1970 of a date, and a naive datetime.\<close>

definition days_from_civil :: "int \<Rightarrow> int \<Rightarrow> int \<Rightarrow> int" where
  "days_from_civil y m d =
     (let y' = (if m \<le> 2 then y - 1 else y); yoe = y' mod 400; doy = (153 * ((m + 9) mod 12) + 2) div 5 + d - 1
      in (y' div 400) * 146097 + yoe * 365 + yoe div 4 - yoe div 100 + doy - 719468)"

definition datetime_at :: "int \<Rightarrow> int \<Rightarrow> int \<Rightarrow> int \<Rightarrow> int \<Rightarrow> datetime" where
  "datetime_at y m d hour minute = Naive (secs (((days_from_civil y m d * 24 + hour) * 60 + minute) * 60))"

subsection \<open>The events of the event service\<close>

text \<open>A dash in two of the names is its three bytes in UTF-8.\<close>

definition SEED_EVENTS :: "int \<Rightarrow> 'n::ring_1 event list" where
  "SEED_EVENTS now =
     [\<lparr>ev_eventId = ''evt_001'', ev_venueId = ''ven_001'', ev_name = ''Taylor Swift | The Eras Tour'',
       ev_date = datetime_at 2026 6 15 19 30,
       ev_description = Some ''Experience the magic of Taylor Swift live in Singapore.'',
       ev_type = ''concert'', ev_image = Some ''https://picsum.photos/seed/eras-tour/800/450'',
       ev_price = 248, ev_cancelledAt = None, ev_createdAt = now\<rparr>,
      \<lparr>ev_eventId = ''evt_002'', ev_venueId = ''ven_001'', ev_name = ''SSO Gala: Beethoven's 9th'',
       ev_date = datetime_at 2026 7 20 20 0,
       ev_description = Some ''The Singapore Symphony Orchestra performs Beethoven's masterpiece.'',
       ev_type = ''classical'', ev_image = Some ''https://picsum.photos/seed/sso-beethoven/800/450'',
       ev_price = 85, ev_cancelledAt = None, ev_createdAt = now\<rparr>,
      \<lparr>ev_eventId = ''evt_003'', ev_venueId = ''ven_001'', ev_name = ''DAY6 10th Anniversary Tour <The DECADE>'',
       ev_date = datetime_at 2026 8 18 18 0,
       ev_description = Some ''K-pop rock band DAY6 celebrates their 10th anniversary with an electrifying performance.'',
       ev_type = ''concert'', ev_image = Some ''https://picsum.photos/seed/day6-decade/800/450'',
       ev_price = 158, ev_cancelledAt = None, ev_createdAt = now\<rparr>,
      \<lparr>ev_eventId = ''evt_004'', ev_venueId = ''ven_002'', ev_name = ''Harry Styles: Together, Together'',
       ev_date = datetime_at 2026 8 26 20 0,
       ev_description = Some ''International superstar Harry Styles returns as part of his Together, Together world tour.'',
       ev_type = ''concert'', ev_image = Some ''https://picsum.photos/seed/harry-styles/800/450'',
       ev_price = 150, ev_cancelledAt = None, ev_createdAt = now\<rparr>,
      \<lparr>ev_eventId = ''evt_005'', ev_venueId = ''ven_002'', ev_name = ''Coldplay: Music of the Spheres'',
       ev_date = datetime_at 2026 9 5 20 0,
       ev_description = Some ''Coldplay brings their spectacular Music of the Spheres World Tour to Singapore.'',
       ev_type = ''concert'', ev_image = Some ''https://picsum.photos/seed/coldplay-spheres/800/450'',
       ev_price = 188, ev_cancelledAt = None, ev_createdAt = now\<rparr>,
      \<lparr>ev_eventId = ''evt_006'', ev_venueId = ''ven_002'', ev_name = ''Singapore Jazz Festival 2026'',
       ev_date = datetime_at 2026 5 10 18 0,
       ev_description = Some ''Three nights of world-class jazz featuring international and local artists.'',
       ev_type = ''festival'', ev_image = Some ''https://picsum.photos/seed/sg-jazz-2026/800/450'',
       ev_price = 75, ev_cancelledAt = None, ev_createdAt = now\<rparr>,
      \<lparr>ev_eventId = ''evt_007'', ev_venueId = ''ven_003'', ev_name = ''A.R. Rahman Live in Concert'',
       ev_date = datetime_at 2026 10 25 19 0,
       ev_description = Some ''Legendary composer A.R. Rahman performs his greatest hits live.'',
       ev_type = ''concert'', ev_image = Some ''https://picsum.photos/seed/ar-rahman/800/450'',
       ev_price = 95, ev_cancelledAt = None, ev_createdAt = now\<rparr>,
      \<lparr>ev_eventId = ''evt_008'', ev_venueId = ''ven_003'', ev_name = ''Hans Zimmer Live'',
       ev_date = datetime_at 2026 11 21 20 0,
       ev_description = Some ''Experience the epic film scores of Hans Zimmer performed live by a full orchestra.'',
       ev_type = ''classical'', ev_image = Some ''https://picsum.photos/seed/hans-zimmer/800/450'',
       ev_price = 88, ev_cancelledAt = None, ev_createdAt = now\<rparr>,
      \<lparr>ev_eventId = ''evt_009'', ev_venueId = ''ven_004'', ev_name = ''Guns N' Roses - World Tour 2026'',
       ev_date = datetime_at 2026 7 1 20 0,
       ev_description = Some ''The legendary rock band Guns N' Roses brings their explosive World Tour to Singapore.'',
       ev_type = ''concert'', ev_image = Some ''https://picsum.photos/seed/gnr-2026/800/450'',
       ev_price = 125, ev_cancelledAt = None, ev_createdAt = now\<rparr>,
      \<lparr>ev_eventId = ''evt_010'', ev_venueId = ''ven_004'', ev_name = ''Mountbatten Festival of Music 2026'',
       ev_date = datetime_at 2026 9 30 19 30,
       ev_description = Some ''The Massed Bands showcase their incredible musicianship and military pageantry.'',
       ev_type = ''classical'', ev_image = Some ''https://picsum.photos/seed/mountbatten-2026/800/450'',
       ev_price = 65, ev_cancelledAt = None, ev_createdAt = now\<rparr>,
      \<lparr>ev_eventId = ''evt_011'', ev_venueId = ''ven_005'', ev_name = ''HSBC SVNS Singapore 2026'',
       ev_date = datetime_at 2026 10 31 10 0,
       ev_description = Some ''World-class rugby sevens action returns to the National Stadium with teams from across the globe competing in the HSBC SVNS series.'',
       ev_type = ''sports'', ev_image = Some ''https://picsum.photos/seed/hsbc-svns-2026/800/450'',
       ev_price = 59, ev_cancelledAt = None, ev_createdAt = now\<rparr>,
      \<lparr>ev_eventId = ''evt_012'', ev_venueId = ''ven_005'', ev_name = ''Singapore Grand Prix 2026'',
       ev_date = datetime_at 2026 9 20 20 0,
       ev_description = Some ''The Formula 1 Singapore Airlines Singapore Grand Prix returns for another thrilling night race on the Marina Bay Street Circuit.'',
       ev_type = ''sports'', ev_image = Some ''https://picsum.photos/seed/f1-sg-2026/800/450'',
       ev_price = 198, ev_cancelledAt = None, ev_createdAt = now\<rparr>,
      \<lparr>ev_eventId = ''evt_013'', ev_venueId = ''ven_001'', ev_name = (''Legally Blonde '' @ [CHR 0xE2, CHR 0x80, CHR 0x93] @ '' The Musical''),
       ev_date = datetime_at 2026 7 29 19 30,
       ev_description = Some ''Singapore Repertory Theatre presents the West End and Broadway smash hit, led by Singaporean star Nathania Ong as Elle Woods.'',
       ev_type = ''theatre'', ev_image = Some ''https://picsum.photos/seed/legally-blonde-sg/800/450'',
       ev_price = 98, ev_cancelledAt = None, ev_createdAt = now\<rparr>,
      \<lparr>ev_eventId = ''evt_014'', ev_venueId = ''ven_003'', ev_name = (''CATS '' @ [CHR 0xE2, CHR 0x80, CHR 0x93] @ '' The Musical''),
       ev_date = datetime_at 2026 11 6 19 30,
       ev_description = Some ''Andrew Lloyd Webber's iconic musical phenomenon comes to Singapore, featuring beloved songs and mesmerising choreography.'',
       ev_type = ''theatre'', ev_image = Some ''https://picsum.photos/seed/cats-musical-sg/800/450'',
       ev_price = 115, ev_cancelledAt = None, ev_createdAt = now\<rparr>,
      \<lparr>ev_eventId = ''evt_015'', ev_venueId = ''ven_006'', ev_name = ''Singapore Garden Festival 2026'',
       ev_date = datetime_at 2026 7 4 9 0,
       ev_description = Some ''The 10th edition of Singapore's premier international garden and flower show returns to Gardens by the Bay, featuring world-class floral displays and landscape installations.'',
       ev_type = ''festival'', ev_image = Some ''https://picsum.photos/seed/sg-garden-fest-2026/800/450'',
       ev_price = 35, ev_cancelledAt = None, ev_createdAt = now\<rparr>,
      \<lparr>ev_eventId = ''evt_016'', ev_venueId = ''ven_006'', ev_name = ''i Light Singapore 2026'',
       ev_date = datetime_at 2026 6 6 19 0,
       ev_description = Some ''Asia's leading sustainable light art festival illuminates the Marina Bay waterfront with stunning large-scale light art installations from local and international artists.'',
       ev_type = ''festival'', ev_image = Some ''https://picsum.photos/seed/ilight-sg-2026/800/450'',
       ev_price = 25, ev_cancelledAt = None, ev_createdAt = now\<rparr>]"

subsection \<open>The events of the script\<close>

definition EVENTS :: "int \<Rightarrow> 'n::ring_1 event list" where
  "EVENTS now =
     [\<lparr>ev_eventId = ''evt-001'', ev_venueId = ''ven_002'', ev_name = ''Neon Skyline Festival'',
       ev_date = datetime_at 2026 4 13 20 0,
       ev_description = Some ''An electrifying night of EDM and light shows.'',
       ev_type = ''festival'', ev_image = Some ''https://images.unsplash.com/photo-1501281668745-f7f57925c3b4?q=80&w=1400'',
       ev_price = 120, ev_cancelledAt = None, ev_createdAt = now\<rparr>,
      \<lparr>ev_eventId = ''evt-002'', ev_venueId = ''ven_001'', ev_name = ''Global Bass Arena'',
       ev_date = datetime_at 2026 6 1 19 0,
       ev_description = Some ''World-class DJs bring the bass to Singapore Indoor Stadium.'',
       ev_type = ''concert'', ev_image = Some ''https://images.unsplash.com/photo-1470225620780-dba8ba36b745?q=80&w=1400'',
       ev_price = 180, ev_cancelledAt = None, ev_createdAt = now\<rparr>,
      \<lparr>ev_eventId = ''evt-003'', ev_venueId = ''ven_004'', ev_name = ''Symphony Under the Stars'',
       ev_date = datetime_at 2026 5 10 19 30,
       ev_description = Some ''A classical evening with the Singapore Symphony Orchestra.'',
       ev_type = ''classical'', ev_image = Some ''https://images.unsplash.com/photo-1507676184212-d03ab07a01bf?q=80&w=1400'',
       ev_price = 95, ev_cancelledAt = None, ev_createdAt = now\<rparr>,
      \<lparr>ev_eventId = ''evt-004'', ev_venueId = ''ven_007'', ev_name = ''Fort Canning Indie Fest'',
       ev_date = datetime_at 2026 4 30 18 0,
       ev_description = Some ''Indie rock and folk acts across three stages.'',
       ev_type = ''festival'', ev_image = Some ''https://images.unsplash.com/photo-1459749411175-04bf5292ceea?q=80&w=1400'',
       ev_price = 85, ev_cancelledAt = None, ev_createdAt = now\<rparr>,
      \<lparr>ev_eventId = ''evt-005'', ev_venueId = ''ven_003'', ev_name = ''Phantom of the Opera'',
       ev_date = datetime_at 2026 5 22 19 0,
       ev_description = Some ''The legendary musical returns to Singapore.'',
       ev_type = ''theatre'', ev_image = Some ''https://images.unsplash.com/photo-1520527057852-44c0e5c43dc4?q=80&w=1400'',
       ev_price = 220, ev_cancelledAt = None, ev_createdAt = now\<rparr>,
      \<lparr>ev_eventId = ''evt-006'', ev_venueId = ''ven_009'', ev_name = ''Sentosa Sunset Rave'',
       ev_date = datetime_at 2026 7 4 16 0,
       ev_description = Some ''Beach party rave at Palawan with international DJs.'',
       ev_type = ''concert'', ev_image = Some ''https://images.unsplash.com/photo-1493225255756-d9584f8606e9?q=80&w=1400'',
       ev_price = 150, ev_cancelledAt = None, ev_createdAt = now\<rparr>,
      \<lparr>ev_eventId = ''evt-007'', ev_venueId = ''ven_005'', ev_name = ''Jazz at Capitol'',
       ev_date = datetime_at 2026 5 15 19 30,
       ev_description = Some ''Intimate jazz sessions in the restored Capitol Theatre.'',
       ev_type = ''concert'', ev_image = Some ''https://images.unsplash.com/photo-1511192336575-5a79af67a629?q=80&w=1400'',
       ev_price = 110, ev_cancelledAt = None, ev_createdAt = now\<rparr>,
      \<lparr>ev_eventId = ''evt-008'', ev_venueId = ''ven_008'', ev_name = ''Red Bull Music Weekend'',
       ev_date = datetime_at 2026 6 20 14 0,
       ev_description = Some ''Hip-hop and urban music festival at Kallang.'',
       ev_type = ''festival'', ev_image = Some ''https://images.unsplash.com/photo-1464375117522-1311d6a5b81f?q=80&w=1400'',
       ev_price = 135, ev_cancelledAt = None, ev_createdAt = now\<rparr>,
      \<lparr>ev_eventId = ''evt-009'', ev_venueId = ''ven_010'', ev_name = ''K-Wave Star Concert'',
       ev_date = datetime_at 2026 7 12 18 0,
       ev_description = Some ''Top K-pop acts perform live at Star Theatre.'',
       ev_type = ''concert'', ev_image = Some ''https://images.unsplash.com/photo-1492684223066-81342ee5ff30?q=80&w=1400'',
       ev_price = 300, ev_cancelledAt = None, ev_createdAt = now\<rparr>,
      \<lparr>ev_eventId = ''evt-010'', ev_venueId = ''ven_006'', ev_name = ''Shakespeare in Victoria'',
       ev_date = datetime_at 2026 4 25 19 0,
       ev_description = Some ''A Midsummer Night Dream at the historic Victoria Theatre.'',
       ev_type = ''theatre'', ev_image = Some ''https://images.unsplash.com/photo-1514525253361-bee8d48800d5?q=80&w=1400'',
       ev_price = 90, ev_cancelledAt = None, ev_createdAt = now\<rparr>]"

definition ROWS :: "string list" where
  "ROWS = [''A'', ''B'', ''C'', ''D'', ''E'', ''F'', ''G'', ''H'', ''I'', ''J'']"

subsection \<open>The script\<close>

text \<open>The tables it writes, each in the database of its service.\<close>

record 'n stores =
  st_events :: "'n event list"
  st_places :: "place list"
  st_inventory :: seats

text \<open>A required variable; None is the RuntimeError.\<close>

definition get_required_env :: "environ \<Rightarrow> string \<Rightarrow> string option" where
  "get_required_env env name = (if truthy (env name) then env name else None)"

text \<open>\<^verbatim>\<open>INSERT ... ON CONFLICT DO NOTHING\<close> on the events and on the seats.\<close>

definition add_event :: "'n event \<Rightarrow> 'n event list \<Rightarrow> 'n event list" where
  "add_event e rows = (if list_ex (\<lambda>r. ev_eventId r = ev_eventId e) rows then rows else rows @ [e])"

definition insert_place :: "place \<Rightarrow> place list \<Rightarrow> place list" where
  "insert_place p rows =
     (if list_ex (\<lambda>r. pl_seatId r = pl_seatId p \<or> pl_venueId r = pl_venueId p \<and> pl_seatNumber r = pl_seatNumber p) rows
      then rows else rows @ [p])"

definition venue_ids :: "string \<Rightarrow> place list \<Rightarrow> string list" where
  "venue_ids vid rows = map pl_seatId (filter (\<lambda>p. pl_venueId p = vid) rows)"

text \<open>The seats of one venue; \<open>uuids\<close> are the ids drawn for it.\<close>

definition new_places :: "int \<Rightarrow> string \<Rightarrow> (nat \<Rightarrow> string) \<Rightarrow> place list" where
  "new_places now vid uuids =
     map (\<lambda>(k, num, row). \<lparr>pl_seatId = uuids k, pl_venueId = vid, pl_seatNumber = num, pl_rowNumber = row, pl_createdAt = now\<rparr>)
       (enumerate 0 (seat_grid ROWS))"

definition populate_venue :: "int \<Rightarrow> (string \<Rightarrow> nat \<Rightarrow> string) \<Rightarrow> string \<Rightarrow> place list \<Rightarrow> place list" where
  "populate_venue now uuids vid rows =
     (if venue_ids vid rows \<noteq> [] then rows else fold insert_place (new_places now vid (uuids vid)) rows)"

text \<open>All venues, in the order that the set of them has in the run, with the dictionary \<^verbatim>\<open>venue_seats\<close>.\<close>

fun populate_venues ::
  "int \<Rightarrow> (string \<Rightarrow> nat \<Rightarrow> string) \<Rightarrow> string list \<Rightarrow> place list \<Rightarrow> (string \<times> string list) list \<times> place list" where
  "populate_venues now uuids [] rows = ([], rows)"
| "populate_venues now uuids (vid # vids) rows =
     (let rows1 = populate_venue now uuids vid rows; (venue_seats, rows2) = populate_venues now uuids vids rows1
      in ((vid, venue_ids vid rows1) # venue_seats, rows2))"

text \<open>
  The inventory of the events, one commit for each; a key that is there already ends the script. A
  venue without seats is skipped.
\<close>

definition populate_event ::
  "int \<Rightarrow> (string \<Rightarrow> nat \<Rightarrow> string) \<Rightarrow> (string \<times> string list) list \<Rightarrow> 'n event \<Rightarrow> seats \<Rightarrow> seats option" where
  "populate_event now uuids venue_seats e rows =
     (let seat_ids = (case map_of venue_seats (ev_venueId e) of None \<Rightarrow> [] | Some ids \<Rightarrow> ids)
      in if seat_ids = [] then Some rows
         else map_option snd (commit_seed unique_seats
            (seed_rows id (\<lambda>r. (seat_eventId r, seatId r)) (made_inventory (uuids (ev_eventId e)) now)
               (map (Pair (ev_eventId e)) seat_ids) 0 rows)))"

fun populate_inventory ::
  "int \<Rightarrow> (string \<Rightarrow> nat \<Rightarrow> string) \<Rightarrow> (string \<times> string list) list \<Rightarrow> 'n event list \<Rightarrow> seats \<Rightarrow> bool \<times> seats" where
  "populate_inventory now uuids venue_seats [] rows = (True, rows)"
| "populate_inventory now uuids venue_seats (e # es) rows =
     (case populate_event now uuids venue_seats e rows of
        None \<Rightarrow> (False, rows)
      | Some rows' \<Rightarrow> populate_inventory now uuids venue_seats es rows')"

definition populate_all_events ::
  "environ \<Rightarrow> string list \<Rightarrow> int \<Rightarrow> (string \<Rightarrow> nat \<Rightarrow> string) \<Rightarrow> (string \<Rightarrow> nat \<Rightarrow> string) \<Rightarrow> 'n::ring_1 stores \<Rightarrow> bool \<times> 'n stores" where
  "populate_all_events env all_venues now seat_uuids inv_uuids s =
     (if get_required_env env ''EVENT_SERVICE_DB_PASSWORD'' = None \<or> get_required_env env ''SEAT_SERVICE_DB_PASSWORD'' = None
         \<or> get_required_env env ''SEAT_INVENTORY_SERVICE_DB_PASSWORD'' = None then (False, s)
      else let evs = fold add_event (EVENTS now) (st_events s);
               (venue_seats, pls) = populate_venues now seat_uuids all_venues (st_places s);
               (ok, inv) = populate_inventory now inv_uuids venue_seats (EVENTS now :: 'n event list) (st_inventory s)
           in (ok, \<lparr>st_events = evs, st_places = pls, st_inventory = inv\<rparr>))"

subsection \<open>Lemmas: events and seats\<close>

lemma insert_events_keep: "\<exists>new. fold add_event es rows = rows @ new"
proof (induction es arbitrary: rows)
  case (Cons e es)
  have "\<exists>more. add_event e rows = rows @ more" by (simp add: add_event_def)
  with Cons.IH [of "add_event e rows"] show ?case by (auto simp: add_event_def split: if_splits)
qed simp

lemma insert_events_present: "e \<in> set es \<Longrightarrow> \<exists>r \<in> set (fold add_event es rows). ev_eventId r = ev_eventId e"
proof (induction es arbitrary: rows)
  case (Cons d es)
  show ?case
  proof (cases "e = d")
    case True
    have "\<exists>r \<in> set (add_event d rows). ev_eventId r = ev_eventId d" by (auto simp: add_event_def list_ex_iff)
    with True insert_events_keep [of es "add_event d rows"] show ?thesis by auto
  qed (use Cons in auto)
qed simp

lemma insert_events_idle: "(\<forall>e \<in> set es. \<exists>r \<in> set rows. ev_eventId r = ev_eventId e) \<Longrightarrow> fold add_event es rows = rows"
proof (induction es)
  case (Cons e es)
  then have "add_event e rows = rows" by (auto simp: add_event_def list_ex_iff)
  with Cons show ?case by simp
qed simp

text \<open>The seats of a venue are only added when it has none, and the other venues keep theirs.\<close>

lemma insert_place_keeps: "\<exists>new. insert_place p rows = rows @ new \<and> set new \<subseteq> {p}"
  by (auto simp: insert_place_def)

lemma insert_places_keep: "\<exists>new. fold insert_place ps rows = rows @ new \<and> set new \<subseteq> set ps"
proof (induction ps arbitrary: rows)
  case (Cons p ps)
  obtain one where one: "insert_place p rows = rows @ one" "set one \<subseteq> {p}" using insert_place_keeps by blast
  from Cons.IH [of "rows @ one"] obtain new where "fold insert_place ps (rows @ one) = (rows @ one) @ new" "set new \<subseteq> set ps"
    by blast
  with one show ?case by (intro exI [of _ "one @ new"]) auto
qed simp

lemma new_places_venue: "p \<in> set (new_places now vid uuids) \<Longrightarrow> pl_venueId p = vid"
  by (auto simp: new_places_def)

lemma populate_venue_keeps:
  "\<exists>new. populate_venue now uuids vid rows = rows @ new \<and> (\<forall>p \<in> set new. pl_venueId p = vid)"
proof -
  obtain new where "fold insert_place (new_places now vid (uuids vid)) rows = rows @ new"
    "set new \<subseteq> set (new_places now vid (uuids vid))" using insert_places_keep by blast
  then have "\<exists>new. fold insert_place (new_places now vid (uuids vid)) rows = rows @ new \<and> (\<forall>p \<in> set new. pl_venueId p = vid)"
    using new_places_venue by blast
  then show ?thesis by (simp add: populate_venue_def)
qed

lemma populate_venue_other: "v \<noteq> vid \<Longrightarrow> venue_ids v (populate_venue now uuids vid rows) = venue_ids v rows"
  using populate_venue_keeps [of now uuids vid rows] by (auto simp: venue_ids_def filter_empty_conv)

lemma populate_venue_again: "venue_ids vid rows \<noteq> [] \<Longrightarrow> populate_venue now uuids vid rows = rows"
  by (simp add: populate_venue_def)

lemma populate_venue_stays: "venue_ids v rows \<noteq> [] \<Longrightarrow> venue_ids v (populate_venue now uuids vid rows) \<noteq> []"
  using populate_venue_keeps [of now uuids vid rows] by (auto simp: venue_ids_def filter_empty_conv)

text \<open>With ids that are new, a venue without seats gets a hundred.\<close>

lemma fresh_places_inserted:
  "distinct (map pl_seatId ps) \<Longrightarrow> distinct (map (\<lambda>p. (pl_venueId p, pl_seatNumber p)) ps) \<Longrightarrow>
    \<forall>p \<in> set ps. \<forall>r \<in> set rows. pl_seatId r \<noteq> pl_seatId p \<and> (pl_venueId r, pl_seatNumber r) \<noteq> (pl_venueId p, pl_seatNumber p) \<Longrightarrow>
    fold insert_place ps rows = rows @ ps"
proof (induction ps arbitrary: rows)
  case (Cons p ps)
  have "insert_place p rows = rows @ [p]" using Cons.prems(3) by (auto simp: insert_place_def list_ex_iff)
  moreover have "fold insert_place ps (rows @ [p]) = (rows @ [p]) @ ps"
    using Cons.prems by (intro Cons.IH) force+
  ultimately show ?case by simp
qed simp

lemma grid_numbers: "length (seat_grid ROWS) = 100" "distinct (map fst (seat_grid ROWS))"
  by (simp_all add: seat_grid_def ROWS_def seat_indexes_def)

lemma new_places_columns:
  "map pl_seatId (new_places now vid uuids) = map uuids [0..<100]"
  "map (\<lambda>p. (pl_venueId p, pl_seatNumber p)) (new_places now vid uuids) = map (Pair vid) (map fst (seat_grid ROWS))"
proof -
  have "map pl_seatId (new_places now vid uuids) = map uuids (map fst (enumerate 0 (seat_grid ROWS)))"
    unfolding new_places_def map_map by (rule map_cong) auto
  then show "map pl_seatId (new_places now vid uuids) = map uuids [0..<100]"
    by (simp only: map_fst_enumerate grid_numbers add_0)
  have "map (\<lambda>p. (pl_venueId p, pl_seatNumber p)) (new_places now vid uuids)
      = map (Pair vid) (map fst (map snd (enumerate 0 (seat_grid ROWS))))"
    unfolding new_places_def map_map by (rule map_cong) auto
  then show "map (\<lambda>p. (pl_venueId p, pl_seatNumber p)) (new_places now vid uuids) = map (Pair vid) (map fst (seat_grid ROWS))"
    by (simp only: map_snd_enumerate)
qed

lemma populate_venue_hundred:
  assumes "venue_ids vid rows = []" and "inj_on (uuids vid) {..<100}" and "uuids vid ` {..<100} \<inter> pl_seatId ` set rows = {}"
  shows "venue_ids vid (populate_venue now uuids vid rows) = map (uuids vid) [0..<100]"
proof -
  let ?ps = "new_places now vid (uuids vid)"
  have ids: "set (map pl_seatId ?ps) = uuids vid ` {..<100}" by (simp add: new_places_columns atLeast_upt)
  have "fold insert_place ?ps rows = rows @ ?ps"
  proof (rule fresh_places_inserted)
    show "distinct (map pl_seatId ?ps)" using assms(2) by (simp add: new_places_columns distinct_map atLeast_upt lessThan_atLeast0)
    show "distinct (map (\<lambda>p. (pl_venueId p, pl_seatNumber p)) ?ps)"
      unfolding new_places_columns distinct_map [of "Pair vid"] using grid_numbers(2) by (simp only: inj_on_def) simp
    have "pl_seatId p \<in> uuids vid ` {..<100}" if "p \<in> set ?ps" for p using ids that by force
    moreover have "pl_venueId r \<noteq> vid" if "r \<in> set rows" for r
      using assms(1) that by (auto simp: venue_ids_def filter_empty_conv)
    ultimately show "\<forall>p \<in> set ?ps. \<forall>r \<in> set rows. pl_seatId r \<noteq> pl_seatId p
        \<and> (pl_venueId r, pl_seatNumber r) \<noteq> (pl_venueId p, pl_seatNumber p)"
      using assms(3) new_places_venue by fastforce
  qed
  moreover have "filter (\<lambda>p. pl_venueId p = vid) ?ps = ?ps" using new_places_venue by (simp add: filter_id_conv)
  ultimately show ?thesis
    using assms(1) by (simp add: populate_venue_def venue_ids_def new_places_columns)
qed

lemma populate_venues_result:
  assumes "populate_venues now uuids vids rows = (vs, rows')" and "distinct vids"
  shows "(\<exists>new. rows' = rows @ new) \<and> (\<forall>v \<in> set vids. map_of vs v = Some (venue_ids v rows'))
    \<and> (\<forall>v. v \<notin> set vids \<longrightarrow> map_of vs v = None \<and> venue_ids v rows' = venue_ids v rows)"
  using assms
proof (induction vids arbitrary: rows vs)
  case (Cons vid vids)
  let ?rows1 = "populate_venue now uuids vid rows"
  obtain vs1 where r: "populate_venues now uuids vids ?rows1 = (vs1, rows')" and vs: "vs = (vid, venue_ids vid ?rows1) # vs1"
    using Cons.prems(1) by (auto simp: Let_def split: prod.splits)
  from Cons.IH [OF r] Cons.prems(2) have ih: "\<exists>new. rows' = ?rows1 @ new" "\<forall>v \<in> set vids. map_of vs1 v = Some (venue_ids v rows')"
    "\<forall>v. v \<notin> set vids \<longrightarrow> map_of vs1 v = None \<and> venue_ids v rows' = venue_ids v ?rows1" by auto
  obtain one where "?rows1 = rows @ one" using populate_venue_keeps by blast
  with ih(1) have "\<exists>new. rows' = rows @ new" by auto
  with ih(2,3) vs Cons.prems(2) show ?case by (auto simp: populate_venue_other)
qed simp

lemma populate_venues_again:
  "\<forall>v \<in> set vids. venue_ids v rows \<noteq> [] \<Longrightarrow>
    populate_venues now uuids vids rows = (map (\<lambda>v. (v, venue_ids v rows)) vids, rows)"
  by (induction vids) (simp_all add: populate_venue_again)

subsection \<open>Lemmas: the inventory\<close>

definition seats_of_event :: "(string \<times> string list) list \<Rightarrow> 'n event \<Rightarrow> string list" where
  "seats_of_event vs e = (case map_of vs (ev_venueId e) of None \<Rightarrow> [] | Some ids \<Rightarrow> ids)"

definition stocked :: "(string \<times> string list) list \<Rightarrow> 'n event \<Rightarrow> seats \<Rightarrow> bool" where
  "stocked vs e rows \<longleftrightarrow> (\<forall>sid \<in> set (seats_of_event vs e). \<exists>r \<in> set rows. seat_eventId r = ev_eventId e \<and> seatId r = sid)"

lemma populate_event_is:
  "populate_event now uuids vs e rows = (if seats_of_event vs e = [] then Some rows
    else map_option snd (commit_seed unique_seats
      (seed_rows id (\<lambda>r. (seat_eventId r, seatId r)) (made_inventory (uuids (ev_eventId e)) now)
        (map (Pair (ev_eventId e)) (seats_of_event vs e)) 0 rows)))"
  unfolding populate_event_def seats_of_event_def Let_def by (rule refl)

lemma populate_event_result:
  assumes "populate_event now uuids vs e rows = Some rows'"
  shows "(\<exists>new. rows' = rows @ new \<and> (\<forall>r \<in> set new. seat_status r = ''available'')) \<and> stocked vs e rows'
    \<and> (unique_seats rows \<longrightarrow> unique_seats rows')"
proof (cases "seats_of_event vs e = []")
  case True
  with assms show ?thesis by (simp add: populate_event_is stocked_def)
next
  case False
  let ?mk = "made_inventory (uuids (ev_eventId e)) now"
  let ?run = "seed_rows id (\<lambda>r. (seat_eventId r, seatId r)) ?mk (map (Pair (ev_eventId e)) (seats_of_event vs e)) 0 rows"
  have "map_option snd (commit_seed unique_seats ?run) = Some rows'" using assms False by (simp add: populate_event_is)
  then obtain n where "commit_seed unique_seats ?run = Some (n, rows')" by (cases "commit_seed unique_seats ?run") auto
  then have seed: "?run = Some (n, rows')" and u: "unique_seats rows'" by (simp_all add: commit_seed_Some)
  from inventory_seed.rows_kept [OF seed] obtain new where new: "rows' = rows @ new" "\<forall>r \<in> set new. \<exists>d k. ?mk k d = Some r"
    by metis
  have "\<exists>r \<in> set rows'. seat_eventId r = ev_eventId e \<and> seatId r = sid" if "sid \<in> set (seats_of_event vs e)" for sid
    using inventory_seed.all_present [OF seed, of "(ev_eventId e, sid)"] that by auto
  then have "stocked vs e rows'" unfolding stocked_def by blast
  moreover have "\<forall>r \<in> set new. seat_status r = ''available''" using new(2) made_inventory_available by blast
  ultimately show ?thesis using new(1) u by blast
qed

lemma stocked_mono: "stocked vs e rows \<Longrightarrow> stocked vs e (rows @ new)"
  by (auto simp: stocked_def)

lemma populate_inventory_result:
  assumes "populate_inventory now uuids vs es rows = (ok, rows')"
  shows "(\<exists>new. rows' = rows @ new \<and> (\<forall>r \<in> set new. seat_status r = ''available''))
    \<and> (unique_seats rows \<longrightarrow> unique_seats rows') \<and> (ok \<longrightarrow> (\<forall>e \<in> set es. stocked vs e rows'))"
  using assms
proof (induction es arbitrary: rows)
  case (Cons e es)
  show ?case
  proof (cases "populate_event now uuids vs e rows")
    case (Some rows1)
    note one = populate_event_result [OF Some]
    have "populate_inventory now uuids vs es rows1 = (ok, rows')" using Cons.prems Some by simp
    note rest = Cons.IH [OF this]
    from one obtain new1 where new1: "rows1 = rows @ new1" "\<forall>r \<in> set new1. seat_status r = ''available''" by blast
    from rest obtain new where new: "rows' = rows1 @ new" "\<forall>r \<in> set new. seat_status r = ''available''" by blast
    have "stocked vs e rows'" using one new(1) stocked_mono by blast
    moreover have "\<exists>new. rows' = rows @ new \<and> (\<forall>r \<in> set new. seat_status r = ''available'')"
      using new1 new by (intro exI [of _ "new1 @ new"]) auto
    ultimately show ?thesis using one rest by simp
  qed (use Cons.prems in simp)
qed simp

lemma populate_inventory_again:
  assumes "\<forall>e \<in> set es. stocked vs e rows" and "unique_seats rows"
  shows "populate_inventory now uuids vs es rows = (True, rows)"
  using assms(1)
proof (induction es)
  case (Cons e es)
  have idle: "seed_rows id (\<lambda>r. (seat_eventId r, seatId r)) mk (map (Pair (ev_eventId e)) (seats_of_event vs e)) 0 rows = Some (0, rows)" for mk
    using Cons.prems by (intro seed_rows_idle) (force simp: stocked_def)
  then have "populate_event now uuids vs e rows = Some rows"
    using assms(2) by (simp add: populate_event_is commit_seed_def)
  with Cons show ?case by simp
qed simp

subsection \<open>Lemmas: the whole script\<close>

text \<open>The ids and venues of the entries do not depend on the time of the run.\<close>

lemma event_columns:
  "map ev_venueId (EVENTS now) = map ev_venueId (EVENTS 0 :: int event list)"
  "map (\<lambda>e. (ev_eventId e, ev_venueId e)) (EVENTS now :: 'n::ring_1 event list) = map (\<lambda>e. (ev_eventId e, ev_venueId e)) (EVENTS now2 :: 'n event list)"
  by (simp_all add: EVENTS_def)

lemma same_entries:
  fixes e :: "'n::ring_1 event"
  assumes "e \<in> set (EVENTS now2)"
  obtains e' :: "'n event" where "e' \<in> set (EVENTS now)" "ev_eventId e' = ev_eventId e" "ev_venueId e' = ev_venueId e"
proof -
  from assms have "(ev_eventId e, ev_venueId e) \<in> set (map (\<lambda>e. (ev_eventId e, ev_venueId e)) (EVENTS now2 :: 'n event list))"
    unfolding set_map by (rule imageI)
  then have "(ev_eventId e, ev_venueId e) \<in> set (map (\<lambda>e. (ev_eventId e, ev_venueId e)) (EVENTS now :: 'n event list))"
    by (simp only: event_columns(2) [of now2 now])
  then show ?thesis using that unfolding set_map by (elim imageE) auto
qed

text \<open>The order of the set of venues: any list of them without repetitions.\<close>

definition venue_order :: "string list \<Rightarrow> bool" where
  "venue_order vids \<longleftrightarrow> distinct vids \<and> set vids = ev_venueId ` set (EVENTS 0 :: int event list)"

lemma venue_order_set: "venue_order vids \<Longrightarrow> set vids = ev_venueId ` set (EVENTS now)"
  unfolding venue_order_def by (metis event_columns(1) set_map)

definition has_passwords :: "environ \<Rightarrow> bool" where
  "has_passwords env \<longleftrightarrow> get_required_env env ''EVENT_SERVICE_DB_PASSWORD'' \<noteq> None \<and> get_required_env env ''SEAT_SERVICE_DB_PASSWORD'' \<noteq> None
     \<and> get_required_env env ''SEAT_INVENTORY_SERVICE_DB_PASSWORD'' \<noteq> None"

lemma populate_env: "populate_all_events env vids now u w s = (True, s') \<Longrightarrow> has_passwords env"
  unfolding populate_all_events_def has_passwords_def by (auto split: if_splits)

lemma populate_idle:
  fixes s :: "'n::ring_1 stores"
  assumes "populate_venues now u vids (st_places s) = (vs, st_places s)" and "has_passwords env"
    and "fold add_event (EVENTS now) (st_events s) = st_events s"
    and "populate_inventory now w vs (EVENTS now :: 'n event list) (st_inventory s) = (True, st_inventory s)"
  shows "populate_all_events env vids now u w s = (True, s)"
  using assms by (auto simp: populate_all_events_def has_passwords_def)

lemma populate_cases:
  fixes s :: "'n::ring_1 stores"
  assumes "populate_all_events env vids now u w s = (True, s')" and "venue_order vids"
  obtains vs where "st_events s' = fold add_event (EVENTS now) (st_events s)"
    "populate_venues now u vids (st_places s) = (vs, st_places s')"
    "populate_inventory now w vs (EVENTS now :: 'n event list) (st_inventory s) = (True, st_inventory s')"
    "\<forall>v \<in> set vids. map_of vs v = Some (venue_ids v (st_places s'))"
proof -
  obtain vs pls where v: "populate_venues now u vids (st_places s) = (vs, pls)" by fastforce
  obtain ok inv where i: "populate_inventory now w vs (EVENTS now :: 'n event list) (st_inventory s) = (ok, inv)" by fastforce
  have s': "ok" "s' = \<lparr>st_events = fold add_event (EVENTS now) (st_events s), st_places = pls, st_inventory = inv\<rparr>"
    using assms(1) v i by (auto simp: populate_all_events_def Let_def split: if_splits)
  have "\<forall>x \<in> set vids. map_of vs x = Some (venue_ids x pls)"
    using populate_venues_result [OF v] assms(2) by (simp add: venue_order_def)
  with that [of vs] s' v i show ?thesis by simp
qed

text \<open>
  A run that ends well leaves every row as it was and adds rows; then all events of the script are there,
  and each has an inventory row for every seat of its venue.
\<close>

lemma populate_fills:
  fixes s :: "'n::ring_1 stores" and e :: "'n event"
  assumes "populate_all_events env vids now u w s = (True, s')" and "venue_order vids"
  shows "(\<exists>new. st_events s' = st_events s @ new) \<and> (\<exists>new. st_places s' = st_places s @ new)
    \<and> (\<exists>new. st_inventory s' = st_inventory s @ new \<and> (\<forall>r \<in> set new. seat_status r = ''available''))"
    and "e \<in> set (EVENTS now) \<Longrightarrow> \<exists>r \<in> set (st_events s'). ev_eventId r = ev_eventId e"
    and "e \<in> set (EVENTS now) \<Longrightarrow> p \<in> set (st_places s') \<Longrightarrow> pl_venueId p = ev_venueId e \<Longrightarrow>
      \<exists>r \<in> set (st_inventory s'). seat_eventId r = ev_eventId e \<and> seatId r = pl_seatId p"
proof -
  obtain vs where run: "st_events s' = fold add_event (EVENTS now) (st_events s)"
    "populate_venues now u vids (st_places s) = (vs, st_places s')"
    "populate_inventory now w vs (EVENTS now :: 'n event list) (st_inventory s) = (True, st_inventory s')"
    "\<forall>v \<in> set vids. map_of vs v = Some (venue_ids v (st_places s'))"
    using populate_cases [OF assms] by blast
  have d: "distinct vids" using assms(2) by (simp add: venue_order_def)
  show "(\<exists>new. st_events s' = st_events s @ new) \<and> (\<exists>new. st_places s' = st_places s @ new)
    \<and> (\<exists>new. st_inventory s' = st_inventory s @ new \<and> (\<forall>r \<in> set new. seat_status r = ''available''))"
    using run(1) insert_events_keep populate_venues_result [OF run(2) d] populate_inventory_result [OF run(3)] by metis
  show "\<exists>r \<in> set (st_events s'). ev_eventId r = ev_eventId e" if "e \<in> set (EVENTS now)"
    using insert_events_present [OF that] run(1) by auto
  show "\<exists>r \<in> set (st_inventory s'). seat_eventId r = ev_eventId e \<and> seatId r = pl_seatId p"
    if e: "e \<in> set (EVENTS now)" and p: "p \<in> set (st_places s')" "pl_venueId p = ev_venueId e"
  proof -
    have "map_of vs (ev_venueId e) = Some (venue_ids (ev_venueId e) (st_places s'))"
      using run(4) venue_order_set [OF assms(2), of now] e by blast
    then have "pl_seatId p \<in> set (seats_of_event vs e)" using p by (auto simp: seats_of_event_def venue_ids_def)
    then show ?thesis using populate_inventory_result [OF run(3)] e by (auto simp: stocked_def)
  qed
qed

text \<open>A second run, at another time, in another order and with other ids, changes nothing.\<close>

lemma map_of_graph: "map_of (map (\<lambda>v. (v, f v)) xs) v = (if v \<in> set xs then Some (f v) else None)"
  by (induction xs) auto

lemma populate_again:
  fixes s :: "'n::ring_1 stores"
  assumes run: "populate_all_events env vids now u w s = (True, s')" and order: "venue_order vids" "venue_order vids2"
    and "unique_seats (st_inventory s)" and seats: "\<forall>v \<in> set vids. venue_ids v (st_places s') \<noteq> []"
  shows "populate_all_events env vids2 now2 u2 w2 s' = (True, s')"
proof -
  obtain vs where vs: "populate_inventory now w vs (EVENTS now :: 'n event list) (st_inventory s) = (True, st_inventory s')"
    "\<forall>v \<in> set vids. map_of vs v = Some (venue_ids v (st_places s'))"
    using populate_cases [OF run order(1)] by blast
  note inv = populate_inventory_result [OF vs(1)]
  define vs2 where "vs2 = map (\<lambda>v. (v, venue_ids v (st_places s'))) vids2"
  have same: "set vids2 = set vids" using order by (simp add: venue_order_def)
  have "populate_venues now2 u2 vids2 (st_places s') = (vs2, st_places s')"
    unfolding vs2_def using seats same by (intro populate_venues_again) simp
  moreover have "fold add_event (EVENTS now2) (st_events s') = st_events s'"
  proof (rule insert_events_idle, rule ballI)
    fix e :: "'n event"
    assume "e \<in> set (EVENTS now2)"
    then obtain e' :: "'n event" where "e' \<in> set (EVENTS now)" "ev_eventId e' = ev_eventId e" by (rule same_entries)
    with populate_fills(2) [OF run order(1), of e'] show "\<exists>r \<in> set (st_events s'). ev_eventId r = ev_eventId e" by simp
  qed
  moreover have "populate_inventory now2 w2 vs2 (EVENTS now2 :: 'n event list) (st_inventory s') = (True, st_inventory s')"
  proof (rule populate_inventory_again, rule ballI)
    fix e :: "'n event"
    assume e: "e \<in> set (EVENTS now2)"
    then obtain e' :: "'n event" where e': "e' \<in> set (EVENTS now)" "ev_eventId e' = ev_eventId e" "ev_venueId e' = ev_venueId e"
      by (rule same_entries)
    have "set vids = ev_venueId ` set (EVENTS now :: 'n event list)" by (rule venue_order_set [OF order(1)])
    then have v: "ev_venueId e \<in> set vids" unfolding e'(3) [symmetric] using e'(1) by simp
    have "map_of vs2 (ev_venueId e) = Some (venue_ids (ev_venueId e) (st_places s'))"
      unfolding vs2_def using v same by (simp only: map_of_graph if_True)
    then have "seats_of_event vs2 e = seats_of_event vs e'" using vs(2) v e'(3) by (simp add: seats_of_event_def)
    moreover have "stocked vs e' (st_inventory s')" using inv e'(1) by blast
    ultimately show "stocked vs2 e (st_inventory s')" using e'(2) by (simp add: stocked_def)
  qed (use inv assms(4) in simp)
  ultimately show ?thesis by (intro populate_idle [OF _ populate_env [OF run]])
qed

text \<open>
  The events of the event service take place at venues that the venue service is seeded with; of the ten
  venues of the script four are not.
\<close>

lemma seeded_events_have_venues: "ev_venueId ` set (SEED_EVENTS now) \<subseteq> ve_venueId ` set (VENUES now2)"
  by (simp add: SEED_EVENTS_def VENUES_def)

lemma populated_venues_missing:
  "ev_venueId ` set (EVENTS now) - ve_venueId ` set (VENUES now2) = {''ven_007'', ''ven_008'', ''ven_009'', ''ven_010''}"
  by (auto simp: EVENTS_def VENUES_def)

lemma seed_event_ids: "distinct (map ev_eventId (SEED_EVENTS now))" "distinct (map ev_eventId (EVENTS now))"
  by (simp_all add: SEED_EVENTS_def EVENTS_def)

end
