(* ===== verification/BotMerge.thy ===== *)
theory BotMerge
  imports Prelude
begin

text \<open>
  The script that merges pull requests of bots (\<^verbatim>\<open>.github/scripts/checked-bot-merge.py\<close>). GitHub is a
  parameter: its answers come from a state that each request may change. The lemmas characterise the
  decision, and show that a merge is only requested for a head for which all required checks had
  passed at two readings of the pull request, that a dry run requests none, that with the head of an
  event nothing else is merged, and that one pull request cannot stop the others, unless its fork is
  gone: then the script ends with an AttributeError.
\<close>

subsection \<open>Pull requests and checks\<close>

text \<open>A key of a JSON object that is absent, null, or an object; the exceptions of the script.\<close>

datatype 'a field = Absent | Null | Obj 'a

datatype exc = RuntimeError | ValueError | KeyError | TypeError | TimeoutExpired | AttributeError

text \<open>\<^verbatim>\<open>d.get(k, {}).get(j)\<close>: null has no \<^verbatim>\<open>get\<close>.\<close>

fun get_in :: "'a field \<Rightarrow> ('a \<Rightarrow> exc + 'b option) \<Rightarrow> exc + 'b option" where
  "get_in Absent f = Inr None"
| "get_in Null f = Inl AttributeError"
| "get_in (Obj a) f = f a"

text \<open>\<^verbatim>\<open>d[k][j]\<close>.\<close>

fun index_in :: "'a field \<Rightarrow> ('a \<Rightarrow> 'b option) \<Rightarrow> exc + 'b" where
  "index_in Absent f = Inl KeyError"
| "index_in Null f = Inl TypeError"
| "index_in (Obj a) f = (case f a of None \<Rightarrow> Inl KeyError | Some b \<Rightarrow> Inr b)"

record repo_info =
  ri_full_name :: "string option"
  ri_default_branch :: "string option"

record head_info =
  hi_repo :: "repo_info field"
  hi_sha :: "string option"

record base_info =
  bi_repo :: "repo_info field"
  bi_ref :: "string option"

record pull =
  pr_number :: nat
  pr_state :: "string option"
  pr_draft :: bool
  pr_user :: "string option field"
  pr_head :: "head_info field"
  pr_base :: "base_info field"
  pr_mergeable :: "bool option"
  pr_mergeable_state :: "string option"

record check =
  ck_name :: "string option"
  ck_workflow :: "string option"
  ck_bucket :: "string option"
  ck_state :: "string option"

definition BOTS :: "string \<Rightarrow> string list" where
  "BOTS grp =
     (if grp = ''dependabot'' then [''dependabot[bot]'']
      else [''snyk-bot'', ''sourcery-ai[bot]'', ''deepsource-autofix[bot]'', ''copilot-swe-agent[bot]''])"

subsection \<open>The decision\<close>

definition build_check :: "check \<Rightarrow> bool" where
  "build_check c \<longleftrightarrow> ck_name c = Some ''Build'' \<and> ck_workflow c = Some ''Build Check''"

definition NO_BUILD :: string where
  "NO_BUILD = ''a required Build Check / Build result is missing''"

definition author :: "pull \<Rightarrow> exc + string option" where
  "author pr = get_in (pr_user pr) Inr"

definition head_repo :: "pull \<Rightarrow> exc + string option" where
  "head_repo pr = get_in (pr_head pr) (\<lambda>h. get_in (hi_repo h) (\<lambda>r. Inr (ri_full_name r)))"

definition base_repo :: "pull \<Rightarrow> (repo_info \<Rightarrow> string option) \<Rightarrow> exc + string option" where
  "base_repo pr f = get_in (pr_base pr) (\<lambda>b. get_in (bi_repo b) (\<lambda>r. Inr (f r)))"

definition base_ref :: "pull \<Rightarrow> exc + string option" where
  "base_ref pr = get_in (pr_base pr) (\<lambda>b. Inr (bi_ref b))"

definition head_sha :: "pull \<Rightarrow> exc + string option" where
  "head_sha pr = get_in (pr_head pr) (\<lambda>h. Inr (hi_sha h))"

text \<open>The comparison of two values that are computed from left to right.\<close>

definition equal_values :: "exc + 'a \<Rightarrow> exc + 'a \<Rightarrow> exc + bool" where
  "equal_values a b = (case a of Inl e \<Rightarrow> Inl e | Inr x \<Rightarrow> (case b of Inl e \<Rightarrow> Inl e | Inr y \<Rightarrow> Inr (x = y)))"

definition guard_else :: "exc + bool \<Rightarrow> string \<Rightarrow> exc + string option \<Rightarrow> exc + string option" where
  "guard_else c reason rest = (case c of Inl e \<Rightarrow> Inl e | Inr True \<Rightarrow> rest | Inr False \<Rightarrow> Inr (Some reason))"

definition check_results :: "check list \<Rightarrow> check list \<Rightarrow> string option" where
  "check_results required checks =
     (if \<not> list_ex build_check required then Some NO_BUILD
      else if list_ex (\<lambda>c. ck_bucket c \<noteq> Some ''pass'') required then Some ''required checks have not all passed''
      else if checks = [] \<or> list_ex (\<lambda>c. ck_bucket c \<noteq> Some ''pass'' \<and> ck_bucket c \<noteq> Some ''skipping'') checks
        then Some ''other checks are unfinished or unsuccessful''
      else if \<not> list_ex (\<lambda>c. build_check c \<and> ck_state c = Some ''SUCCESS'') checks
        then Some ''the current head has no successful Build Check / Build''
      else None)"

text \<open>None is that nothing speaks against the merge.\<close>

definition decision :: "pull \<Rightarrow> check list \<Rightarrow> check list \<Rightarrow> string \<Rightarrow> string list \<Rightarrow> exc + string option" where
  "decision pr required checks expected_head allowed =
     guard_else
       (if pr_state pr \<noteq> Some ''open'' \<or> pr_draft pr then Inr False
        else case author pr of Inl e \<Rightarrow> Inl e | Inr a \<Rightarrow> Inr (a \<in> Some ` set allowed))
       ''not an eligible open bot PR''
     (guard_else (equal_values (head_repo pr) (base_repo pr ri_full_name)) ''fork PR requires manual review''
     (guard_else (equal_values (base_ref pr) (base_repo pr ri_default_branch)) ''not targeting the default branch''
     (guard_else (equal_values (head_sha pr) (Inr (Some expected_head))) ''PR head changed''
     (if pr_mergeable pr \<noteq> Some True \<or> pr_mergeable_state pr \<noteq> Some ''clean''
      then Inr (Some ''mergeability or repository rules are not satisfied'')
      else Inr (check_results required checks)))))"

subsection \<open>Requests\<close>

text \<open>A run of the command-line client: it times out, or ends with a code and perhaps JSON.\<close>

datatype 'v ran = TimedOut | Ran int "'v option"

definition gh :: "bool \<Rightarrow> 'v ran \<Rightarrow> exc + 'v" where
  "gh checks r =
     (case r of
        TimedOut \<Rightarrow> Inl TimeoutExpired
      | Ran code v \<Rightarrow>
          if code \<notin> (if checks then {0, 1, 8} else {0}) then Inl RuntimeError
          else (case v of None \<Rightarrow> Inl ValueError | Some x \<Rightarrow> Inr x))"

text \<open>GitHub: reading a pull request, its checks (the required ones or all), and asking for a merge.\<close>

record 'w github =
  run_pull :: "nat \<Rightarrow> 'w \<Rightarrow> pull ran \<times> 'w"
  run_checks :: "nat \<Rightarrow> bool \<Rightarrow> 'w \<Rightarrow> check list ran \<times> 'w"
  run_merge :: "nat \<Rightarrow> string \<Rightarrow> 'w \<Rightarrow> bool option ran \<times> 'w"

text \<open>The state of GitHub and the merges requested so far.\<close>

type_synonym 'w merging = "'w \<times> (nat \<times> string) list"

definition read_pull :: "'w github \<Rightarrow> nat \<Rightarrow> 'w merging \<Rightarrow> (exc + pull) \<times> 'w merging" where
  "read_pull g n s = (case run_pull g n (fst s) of (r, w) \<Rightarrow> (gh False r, (w, snd s)))"

definition read_checks :: "'w github \<Rightarrow> nat \<Rightarrow> bool \<Rightarrow> 'w merging \<Rightarrow> (exc + check list) \<times> 'w merging" where
  "read_checks g n req s = (case run_checks g n req (fst s) of (r, w) \<Rightarrow> (gh True r, (w, snd s)))"

definition request_merge :: "'w github \<Rightarrow> nat \<Rightarrow> string \<Rightarrow> 'w merging \<Rightarrow> (exc + bool option) \<times> 'w merging" where
  "request_merge g n sha s = (case run_merge g n sha (fst s) of (r, w) \<Rightarrow> (gh False r, (w, snd s @ [(n, sha)])))"

text \<open>Raising, and going on with a value.\<close>

definition try_next :: "(exc + 'a) \<times> 's \<Rightarrow> ('a \<Rightarrow> 's \<Rightarrow> (exc + 'b) \<times> 's) \<Rightarrow> (exc + 'b) \<times> 's" where
  "try_next r f = (case r of (Inl e, s) \<Rightarrow> (Inl e, s) | (Inr a, s) \<Rightarrow> f a s)"

definition inspect_and_merge ::
  "'w github \<Rightarrow> nat \<Rightarrow> string list \<Rightarrow> string option \<Rightarrow> bool \<Rightarrow> 'w merging \<Rightarrow> (exc + string) \<times> 'w merging" where
  "inspect_and_merge g n allowed event_head dry_run s =
     try_next (read_pull g n s) (\<lambda>pr s.
     try_next (index_in (pr_head pr) hi_sha, s) (\<lambda>head s.
     try_next (decision pr [] [] (if truthy event_head then the event_head else head) allowed, s) (\<lambda>preliminary s.
       if preliminary \<noteq> Some NO_BUILD then (case preliminary of None \<Rightarrow> (Inr ''None'', s) | Some why \<Rightarrow> (Inr why, s))
       else
     try_next (read_checks g n True s) (\<lambda>required s.
     try_next (read_checks g n False s) (\<lambda>checks s.
     try_next (decision pr required checks head allowed, s) (\<lambda>reason s.
       if reason \<noteq> None then (Inr (the reason), s)
       else
     try_next (read_pull g n s) (\<lambda>latest s.
     try_next (decision latest required checks head allowed, s) (\<lambda>reason s.
       if reason \<noteq> None then (Inr (the reason), s)
       else if dry_run then (Inr ''eligible (dry run; no merge requested)'', s)
       else try_next (request_merge g n head s) (\<lambda>merged s.
         (Inr (if merged = Some True then ''merged checked head'' else ''merge refused; PR left open''), s))))))))))"

text \<open>
  The loop over the listed pull requests: the outcomes that are printed, and the exception that ends
  the script, if one does. An AttributeError is not among the caught ones.
\<close>

definition caught :: "exc \<Rightarrow> bool" where
  "caught e \<longleftrightarrow> e \<in> {RuntimeError, ValueError, KeyError, TypeError, TimeoutExpired}"

definition LOOKUP_FAILED :: string where
  "LOOKUP_FAILED = ''check lookup failed or returned incomplete data; PR left open''"

definition skipped :: "pull \<Rightarrow> string list \<Rightarrow> string option \<Rightarrow> exc + bool" where
  "skipped pr allowed event_head =
     (case index_in (pr_user pr) id of
        Inl e \<Rightarrow> Inl e
      | Inr login \<Rightarrow>
          if login \<notin> set allowed then Inr True
          else if \<not> truthy event_head then Inr False
          else (case index_in (pr_head pr) hi_sha of Inl e \<Rightarrow> Inl e | Inr sha \<Rightarrow> Inr (Some sha \<noteq> event_head)))"

fun sweep ::
  "'w github \<Rightarrow> string list \<Rightarrow> string option \<Rightarrow> bool \<Rightarrow> pull list \<Rightarrow> 'w merging
    \<Rightarrow> (nat \<times> string) list \<times> exc option \<times> 'w merging" where
  "sweep g allowed event_head dry_run [] s = ([], None, s)"
| "sweep g allowed event_head dry_run (pr # prs) s =
     (case skipped pr allowed event_head of
        Inl e \<Rightarrow> ([], Some e, s)
      | Inr True \<Rightarrow> sweep g allowed event_head dry_run prs s
      | Inr False \<Rightarrow>
          (case inspect_and_merge g (pr_number pr) allowed event_head dry_run s of
             (Inl e, s1) \<Rightarrow>
               if \<not> caught e then ([], Some e, s1)
               else (case sweep g allowed event_head dry_run prs s1 of
                       (out, x, s2) \<Rightarrow> ((pr_number pr, LOOKUP_FAILED) # out, x, s2))
           | (Inr outcome, s1) \<Rightarrow>
               (case sweep g allowed event_head dry_run prs s1 of
                  (out, x, s2) \<Rightarrow> ((pr_number pr, outcome) # out, x, s2))))"

definition name_char :: "char \<Rightarrow> bool" where
  "name_char c \<longleftrightarrow> c \<in> set ''ABCDEFGHIJKLMNOPQRSTUVWXYZabcdefghijklmnopqrstuvwxyz0123456789_.-''"

text \<open>The pattern of a repository's name: two nonempty parts with a slash between.\<close>

definition valid_repository :: "string \<Rightarrow> bool" where
  "valid_repository s =
     (let a = takeWhile name_char s; rest = dropWhile name_char s
      in a \<noteq> [] \<and> rest \<noteq> [] \<and> hd rest = CHR ''/'' \<and> tl rest \<noteq> [] \<and> list_all name_char (tl rest))"

text \<open>
  The script: the name of the repository, the head of the event, which the file of the event has for a
  finished workflow run or a status, and the listed pages.
\<close>

definition run_script ::
  "'w github \<Rightarrow> string \<Rightarrow> string \<Rightarrow> bool \<Rightarrow> string option \<Rightarrow> string option \<Rightarrow> pull list list ran \<Rightarrow> 'w merging
    \<Rightarrow> (nat \<times> string) list \<times> exc option \<times> 'w merging" where
  "run_script g grp repo dry_run run_sha status_sha listed s =
     (if \<not> valid_repository repo then ([], Some ValueError, s)
      else let event_head = (if truthy run_sha then run_sha else status_sha)
      in (case gh False listed of
            Inl e \<Rightarrow> ([], Some e, s)
          | Inr pages \<Rightarrow> sweep g (BOTS grp) event_head dry_run (concat pages) s))"

subsection \<open>Lemmas: the decision\<close>

lemma get_in_Inr: "get_in x f = Inr v \<longleftrightarrow> (x = Absent \<and> v = None) \<or> (\<exists>a. x = Obj a \<and> f a = Inr v)"
  by (cases x) auto

lemma index_in_Inr: "index_in x f = Inr v \<longleftrightarrow> (\<exists>a. x = Obj a \<and> f a = Some v)"
  by (cases x) (auto split: option.split)

lemma guard_else_None: "guard_else c reason rest = Inr None \<longleftrightarrow> c = Inr True \<and> rest = Inr None"
  by (auto simp: guard_else_def split: sum.splits bool.splits)

lemma equal_values_True: "equal_values a b = Inr True \<longleftrightarrow> (\<exists>x. a = Inr x \<and> b = Inr x)"
  by (auto simp: equal_values_def split: sum.splits)

text \<open>All that speaks for a merge, at one reading of the pull request.\<close>

definition mergeable :: "pull \<Rightarrow> string \<Rightarrow> string list \<Rightarrow> bool" where
  "mergeable pr sha allowed \<longleftrightarrow>
     pr_state pr = Some ''open'' \<and> \<not> pr_draft pr \<and> (\<exists>a \<in> set allowed. author pr = Inr (Some a))
     \<and> (\<exists>r. head_repo pr = Inr r \<and> base_repo pr ri_full_name = Inr r)
     \<and> (\<exists>b. base_ref pr = Inr b \<and> base_repo pr ri_default_branch = Inr b)
     \<and> head_sha pr = Inr (Some sha) \<and> pr_mergeable pr = Some True \<and> pr_mergeable_state pr = Some ''clean''"

definition checks_passed :: "check list \<Rightarrow> check list \<Rightarrow> bool" where
  "checks_passed required checks \<longleftrightarrow>
     (\<exists>c \<in> set required. build_check c) \<and> (\<forall>c \<in> set required. ck_bucket c = Some ''pass'')
     \<and> (\<forall>c \<in> set checks. ck_bucket c = Some ''pass'' \<or> ck_bucket c = Some ''skipping'')
     \<and> (\<exists>c \<in> set checks. build_check c \<and> ck_state c = Some ''SUCCESS'')"

lemma check_results_None: "check_results required checks = None \<longleftrightarrow> checks_passed required checks"
  by (auto simp: check_results_def checks_passed_def list_ex_iff)

text \<open>Nothing speaks against the merge exactly when all of it speaks for it.\<close>

lemma decision_None:
  "decision pr required checks sha allowed = Inr None \<longleftrightarrow> mergeable pr sha allowed \<and> checks_passed required checks"
proof -
  have eligible: "(if pr_state pr \<noteq> Some ''open'' \<or> pr_draft pr then Inr False
        else case author pr of Inl e \<Rightarrow> Inl e | Inr a \<Rightarrow> Inr (a \<in> Some ` set allowed)) = (Inr True :: exc + bool)
      \<longleftrightarrow> pr_state pr = Some ''open'' \<and> \<not> pr_draft pr \<and> (\<exists>a \<in> set allowed. author pr = Inr (Some a))"
    by (auto split: sum.splits)
  have ready: "(if pr_mergeable pr \<noteq> Some True \<or> pr_mergeable_state pr \<noteq> Some ''clean''
        then Inr (Some why) else Inr (check_results required checks)) = (Inr None :: exc + string option)
      \<longleftrightarrow> pr_mergeable pr = Some True \<and> pr_mergeable_state pr = Some ''clean'' \<and> checks_passed required checks" for why
    by (auto simp: check_results_None)
  show ?thesis
    unfolding decision_def guard_else_None eligible ready equal_values_True mergeable_def by auto
qed

text \<open>Without checks the decision never favours a merge; the other conditions hold when it asks for the build.\<close>

lemma decision_preliminary:
  assumes "decision pr [] [] sha allowed = Inr (Some NO_BUILD)"
  shows "mergeable pr sha allowed"
proof -
  have no: "NO_BUILD \<noteq> ''not an eligible open bot PR''" "NO_BUILD \<noteq> ''fork PR requires manual review''"
    "NO_BUILD \<noteq> ''not targeting the default branch''" "NO_BUILD \<noteq> ''PR head changed''"
    "NO_BUILD \<noteq> ''mergeability or repository rules are not satisfied''" by (simp_all add: NO_BUILD_def)
  have step: "guard_else c reason rest = Inr (Some NO_BUILD) \<longleftrightarrow> c = Inr True \<and> rest = Inr (Some NO_BUILD)"
    if "NO_BUILD \<noteq> reason" for c reason rest
    using that by (auto simp: guard_else_def split: sum.splits bool.splits)
  from assms have "decision pr [\<lparr>ck_name = Some ''Build'', ck_workflow = Some ''Build Check'', ck_bucket = Some ''pass'', ck_state = None\<rparr>]
      [\<lparr>ck_name = Some ''Build'', ck_workflow = Some ''Build Check'', ck_bucket = Some ''pass'', ck_state = Some ''SUCCESS''\<rparr>] sha allowed = Inr None"
    unfolding decision_def by (simp add: step [OF no(1)] step [OF no(2)] step [OF no(3)] step [OF no(4)] guard_else_None no(5) [symmetric]
        check_results_def build_check_def split: if_splits)
  then show ?thesis by (simp add: decision_None)
qed

subsection \<open>Lemmas: the merge\<close>

lemma try_next_cases:
  assumes "try_next r f = q"
  obtains (raised) e where "fst r = Inl e" "q = (Inl e, snd r)" | (got) a where "fst r = Inr a" "f a (snd r) = q"
  using assms by (cases r; cases "fst r") (auto simp: try_next_def)

lemma requests_made [simp]:
  "snd (snd (read_pull g n s)) = snd s" "snd (snd (read_checks g n req s)) = snd s"
  "snd (snd (request_merge g n sha s)) = snd s @ [(n, sha)]"
  by (simp_all add: read_pull_def read_checks_def request_merge_def split: prod.split)

text \<open>The four answers that an inspection has read, one after the other.\<close>

definition answered :: "'w github \<Rightarrow> nat \<Rightarrow> 'w merging \<Rightarrow> pull \<Rightarrow> check list \<Rightarrow> check list \<Rightarrow> pull \<Rightarrow> bool" where
  "answered g n s pr required checks latest \<longleftrightarrow>
     (let s1 = snd (read_pull g n s); s2 = snd (read_checks g n True s1); s3 = snd (read_checks g n False s2)
      in fst (read_pull g n s) = Inr pr \<and> fst (read_checks g n True s1) = Inr required
       \<and> fst (read_checks g n False s2) = Inr checks \<and> fst (read_pull g n s3) = Inr latest)"

definition approved :: "'w github \<Rightarrow> nat \<Rightarrow> string list \<Rightarrow> string option \<Rightarrow> 'w merging \<Rightarrow> string \<Rightarrow> bool" where
  "approved g n allowed event_head s head \<longleftrightarrow>
     (\<exists>pr required checks latest. answered g n s pr required checks latest \<and> checks_passed required checks
        \<and> mergeable pr head allowed \<and> mergeable latest head allowed) \<and> (truthy event_head \<longrightarrow> event_head = Some head)"

text \<open>
  What an inspection requests: nothing, or, unless it is a dry run, one merge of the head of the first
  reading, which is the event's head where there is one. Then the pull request was mergeable with that
  head at the first and at the last reading, and the checks read in between had passed.
\<close>

lemma inspect_requests:
  assumes "inspect_and_merge g n allowed event_head dry_run s = (r, s')"
  shows "snd s' = snd s \<or> (\<exists>head. snd s' = snd s @ [(n, head)] \<and> \<not> dry_run \<and> approved g n allowed event_head s head)"
  using assms unfolding inspect_and_merge_def
proof (cases rule: try_next_cases)
  case (got pr)
  note pull = got(1)
  from got(2) show ?thesis
  proof (cases rule: try_next_cases)
    case (got head)
    have head: "head_sha pr = Inr (Some head)"
      using got(1) by (auto simp: index_in_Inr head_sha_def)
    from got(2) show ?thesis
    proof (cases rule: try_next_cases)
      case (got preliminary)
      show ?thesis
      proof (cases "preliminary = Some NO_BUILD")
        case False
        with got(2) show ?thesis by (auto split: option.splits)
      next
        case True
        with got(1) have first: "mergeable pr (if truthy event_head then the event_head else head) allowed"
          using decision_preliminary by simp
        then have same: "truthy event_head \<longrightarrow> event_head = Some head" "mergeable pr head allowed"
          using head by (auto simp: mergeable_def truthy_iff split: if_splits)
        from got(2) True show ?thesis
          by (auto elim!: try_next_cases simp: decision_None approved_def answered_def Let_def pull same split: if_splits)
      qed
    qed auto
  qed auto
qed auto

text \<open>
  The whole loop: each merge that it requests is of a listed pull request, not in a dry run, and was
  approved when its inspection began; earlier requests stay.
\<close>

definition sound_request :: "'w github \<Rightarrow> string list \<Rightarrow> string option \<Rightarrow> pull list \<Rightarrow> nat \<times> string \<Rightarrow> bool" where
  "sound_request g allowed event_head prs m \<longleftrightarrow>
     (\<exists>pr \<in> set prs. pr_number pr = fst m \<and> (\<exists>s. approved g (fst m) allowed event_head s (snd m)))"

lemma sweep_requests:
  "sweep g allowed event_head dry_run prs s = (out, x, s') \<Longrightarrow>
    \<exists>new. snd s' = snd s @ new \<and> length new \<le> length prs \<and> (\<forall>m \<in> set new. \<not> dry_run \<and> sound_request g allowed event_head prs m)"
proof (induction prs arbitrary: s out)
  case (Cons pr prs)
  have more: "sound_request g allowed event_head prs m \<Longrightarrow> sound_request g allowed event_head (pr # prs) m" for m
    by (auto simp: sound_request_def)
  have later: ?case if tail: "sweep g allowed event_head dry_run prs s1 = (out1, x, s')"
    and one: "snd s1 = snd s \<or> (\<exists>head. snd s1 = snd s @ [(pr_number pr, head)] \<and> \<not> dry_run
      \<and> approved g (pr_number pr) allowed event_head s head)" for s1 out1
  proof -
    from Cons.IH [OF tail] obtain new where new: "snd s' = snd s1 @ new" "length new \<le> length prs"
      "\<forall>m \<in> set new. \<not> dry_run \<and> sound_request g allowed event_head prs m" by blast
    from one show ?thesis
    proof
      assume "snd s1 = snd s"
      with new more show ?thesis by (intro exI [of _ new]) auto
    next
      assume "\<exists>head. snd s1 = snd s @ [(pr_number pr, head)] \<and> \<not> dry_run \<and> approved g (pr_number pr) allowed event_head s head"
      then obtain head where h: "snd s1 = snd s @ [(pr_number pr, head)]" "\<not> dry_run"
        "approved g (pr_number pr) allowed event_head s head" by blast
      then have "sound_request g allowed event_head (pr # prs) (pr_number pr, head)"
        unfolding sound_request_def by (metis fst_conv list.set_intros(1) snd_conv)
      with h new more show ?thesis by (intro exI [of _ "(pr_number pr, head) # new"]) auto
    qed
  qed
  have stop: ?case if "s' = s1" and one: "snd s1 = snd s \<or> (\<exists>head. snd s1 = snd s @ [(pr_number pr, head)] \<and> \<not> dry_run
      \<and> approved g (pr_number pr) allowed event_head s head)" for s1
    using one
  proof
    assume "\<exists>head. snd s1 = snd s @ [(pr_number pr, head)] \<and> \<not> dry_run \<and> approved g (pr_number pr) allowed event_head s head"
    then obtain head where h: "snd s1 = snd s @ [(pr_number pr, head)]" "\<not> dry_run"
      "approved g (pr_number pr) allowed event_head s head" by blast
    then have "sound_request g allowed event_head (pr # prs) (pr_number pr, head)"
      unfolding sound_request_def by (metis fst_conv list.set_intros(1) snd_conv)
    with h that(1) show ?thesis by (intro exI [of _ "[(pr_number pr, head)]"]) simp
  qed (simp add: that(1))
  obtain r s1 where ins: "inspect_and_merge g (pr_number pr) allowed event_head dry_run s = (r, s1)" by (metis prod.collapse)
  from inspect_requests [OF ins] Cons.prems ins later stop show ?case
    by (auto split: sum.splits bool.splits if_splits prod.splits)
qed simp

text \<open>A dry run requests nothing.\<close>

lemma dry_run_requests_nothing: "snd (snd (snd (sweep g allowed event_head True prs s))) = snd s"
proof -
  obtain out x s' where "sweep g allowed event_head True prs s = (out, x, s')" by (metis prod_cases3)
  with sweep_requests [OF this] show ?thesis by (metis all_not_in_conv append.right_neutral set_empty snd_conv)
qed

text \<open>
  An exception that is caught leaves the other pull requests to be looked at. A pull request of an
  allowed bot whose fork is gone (its repository is null) ends the script with an exception that is not.
\<close>

lemma deleted_fork_ends_sweep:
  assumes "run_pull g (pr_number pr) (fst s) = (Ran 0 (Some pr), w)" and "skipped pr allowed event_head = Inr False"
    and "pr_state pr = Some ''open''" and "\<not> pr_draft pr" and "pr_head pr = Obj \<lparr>hi_repo = Null, hi_sha = Some sha\<rparr>"
    and "pr_user pr = Obj (Some a)" and "a \<in> set allowed"
  shows "sweep g allowed event_head dry_run (pr # prs) s = ([], Some AttributeError, (w, snd s))"
proof -
  have "decision pr required checks h allowed = Inl AttributeError" for required checks h
    using assms by (auto simp: decision_def guard_else_def author_def head_repo_def equal_values_def)
  then show ?thesis
    using assms by (simp add: inspect_and_merge_def try_next_def read_pull_def gh_def caught_def)
qed

end
