(* ===== verification/Consumers.thy ===== *)
theory Consumers
  imports TransferOrder PurchaseOrchestrator Startup
begin

text \<open>
  The loops that consume a queue of RabbitMQ: of expired holds
  (\<^verbatim>\<open>ticket-purchase-orchestrator/dlx_consumer.py\<close>), of timeouts and of notices to sellers
  (\<^verbatim>\<open>transfer-orchestrator/timeout_consumer.py\<close>, \<^verbatim>\<open>seller_consumer.py\<close>). The three have one shape: connect,
  take one message at a time, run the handler, acknowledge it or drop it, and after a lost connection
  connect again, when the broker delivers the unsettled message once more.

  The lemmas show that no message is lost, settled twice or overtaken, that whatever a handler keeps a
  whole run keeps, however often messages come again, that a loop that stays connected settles all that
  waits, and that an expired hold is then free.
\<close>

subsection \<open>The loop\<close>

text \<open>
  The queue and its consumer: the messages that wait, the one that is delivered and not yet settled
  (\<^verbatim>\<open>prefetch_count=1\<close>), the settled ones with the verdict (True: acknowledged, False: dropped by a
  negative acknowledgement without requeueing), and the state that the handler works on.
\<close>

record ('m, 's) consumer =
  cq_ready :: "'m list"
  cq_unacked :: "'m option"
  cq_connected :: bool
  cq_settled :: "('m \<times> bool) list"
  cq_state :: 's

text \<open>
  What happens next: the loop connects; the broker delivers; the handler runs to its acknowledgement;
  the connection breaks before the handler changed anything, or after it did and before the broker has
  the acknowledgement; another process publishes.
\<close>

datatype 'm consumer_event = Connect | Deliver | Handle | LoseBefore | LoseAfter | Publish 'm

definition in_flight :: "('m, 's) consumer \<Rightarrow> 'm list" where
  "in_flight c = (case cq_unacked c of None \<Rightarrow> [] | Some m \<Rightarrow> [m])"

text \<open>The broker puts an unsettled message of a broken connection back in its place.\<close>

definition disconnect :: "('m, 's) consumer \<Rightarrow> ('m, 's) consumer" where
  "disconnect c = c\<lparr>cq_connected := False, cq_unacked := None, cq_ready := in_flight c @ cq_ready c\<rparr>"

fun consumer_step ::
  "('m \<Rightarrow> 's \<Rightarrow> bool \<times> 's) \<Rightarrow> 'm consumer_event \<Rightarrow> ('m, 's) consumer \<Rightarrow> ('m, 's) consumer" where
  "consumer_step handle Connect c = c\<lparr>cq_connected := True\<rparr>"
| "consumer_step handle Deliver c =
     (if cq_connected c \<and> cq_unacked c = None
      then (case cq_ready c of [] \<Rightarrow> c | m # ms \<Rightarrow> c\<lparr>cq_unacked := Some m, cq_ready := ms\<rparr>) else c)"
| "consumer_step handle Handle c =
     (if cq_connected c
      then (case cq_unacked c of
              None \<Rightarrow> c
            | Some m \<Rightarrow>
                (case handle m (cq_state c) of (ok, s') \<Rightarrow>
                   c\<lparr>cq_unacked := None, cq_settled := cq_settled c @ [(m, ok)], cq_state := s'\<rparr>))
      else c)"
| "consumer_step handle LoseBefore c = disconnect c"
| "consumer_step handle LoseAfter c =
     (if cq_connected c
      then (case cq_unacked c of
              None \<Rightarrow> disconnect c
            | Some m \<Rightarrow> disconnect (c\<lparr>cq_state := snd (handle m (cq_state c))\<rparr>))
      else c)"
| "consumer_step handle (Publish m) c = c\<lparr>cq_ready := cq_ready c @ [m]\<rparr>"

definition consumer_run ::
  "('m \<Rightarrow> 's \<Rightarrow> bool \<times> 's) \<Rightarrow> 'm consumer_event list \<Rightarrow> ('m, 's) consumer \<Rightarrow> ('m, 's) consumer" where
  "consumer_run handle es c = fold (consumer_step handle) es c"

subsection \<open>The three consumers\<close>

text \<open>A body that is no JSON object, or the texts of its fields.\<close>

datatype body = Garbled | Fields "string \<rightharpoonup> string"

definition dlx_callback :: "body \<Rightarrow> ('n, 'x) sys \<Rightarrow> bool \<times> ('n, 'x) sys" where
  "dlx_callback b s =
     (case b of
        Garbled \<Rightarrow> (False, s)
      | Fields d \<Rightarrow> on_expired (d ''inventoryId'') (d ''userId'') (d ''holdToken'') s)"

definition timeout_callback :: "body \<Rightarrow> ('n, 'x) sys \<Rightarrow> bool \<times> ('n, 'x) sys" where
  "timeout_callback b s =
     (case b of
        Garbled \<Rightarrow> (False, s)
      | Fields d \<Rightarrow> (True, on_timeout_message (d ''transferId'') (d ''listingId'') s))"

text \<open>The consumer of notices to sellers only logs them.\<close>

definition on_notification :: "body \<Rightarrow> (string \<times> string) list \<Rightarrow> bool \<times> (string \<times> string) list" where
  "on_notification b logged =
     (case b of
        Garbled \<Rightarrow> (False, logged)
      | Fields d \<Rightarrow> (True, logged @ [(or_empty (d ''transferId''), or_empty (d ''sellerId''))]))"

definition start_dlx_consumer ::
  "body consumer_event list \<Rightarrow> (body, ('n, 'x) sys) consumer \<Rightarrow> (body, ('n, 'x) sys) consumer" where
  "start_dlx_consumer = consumer_run dlx_callback"

definition start_transfer_timeout_consumer ::
  "body consumer_event list \<Rightarrow> (body, ('n, 'x) sys) consumer \<Rightarrow> (body, ('n, 'x) sys) consumer" where
  "start_transfer_timeout_consumer = consumer_run timeout_callback"

definition start_seller_consumer ::
  "body consumer_event list \<Rightarrow> (body, (string \<times> string) list) consumer \<Rightarrow> (body, (string \<times> string) list) consumer" where
  "start_seller_consumer = consumer_run on_notification"

text \<open>The body that a hold publishes (\<^verbatim>\<open>_publish_hold_ttl\<close>).\<close>

definition hold_ttl_body :: "string \<Rightarrow> string \<Rightarrow> string \<Rightarrow> body" where
  "hold_ttl_body inv_id user tok =
     Fields [''inventoryId'' \<mapsto> inv_id, ''userId'' \<mapsto> user, ''holdToken'' \<mapsto> tok]"

subsection \<open>No message is lost, settled twice or overtaken\<close>

definition all_messages :: "('m, 's) consumer \<Rightarrow> 'm list" where
  "all_messages c = map fst (cq_settled c) @ in_flight c @ cq_ready c"

definition published :: "'m consumer_event list \<Rightarrow> 'm list" where
  "published es = concat (map (\<lambda>e. case e of Publish m \<Rightarrow> [m] | _ \<Rightarrow> []) es)"

lemma all_messages_disconnect [simp]: "all_messages (disconnect c) = all_messages c"
  by (simp add: all_messages_def disconnect_def in_flight_def)

lemma all_messages_step: "all_messages (consumer_step h e c) = all_messages c @ published [e]"
  by (cases e) (auto simp: all_messages_def in_flight_def disconnect_def published_def split: list.split option.split prod.split)

lemma all_messages_run: "all_messages (consumer_run h es c) = all_messages c @ published es"
proof (induction es arbitrary: c)
  case (Cons e es)
  have "published (e # es) = published [e] @ published es" by (simp add: published_def)
  with Cons [of "consumer_step h e c"] show ?case by (simp add: consumer_run_def all_messages_step)
qed (simp add: consumer_run_def published_def)

text \<open>What is settled stays settled.\<close>

lemma settled_step: "prefix (cq_settled c) (cq_settled (consumer_step h e c))"
  by (cases e) (auto simp: disconnect_def split: list.split option.split prod.split)

lemma settled_run: "prefix (cq_settled c) (cq_settled (consumer_run h es c))"
proof (induction es arbitrary: c)
  case (Cons e es)
  from prefix_order.trans [OF settled_step Cons.IH] show ?case by (simp add: consumer_run_def)
qed (simp add: consumer_run_def)

subsection \<open>What a handler keeps\<close>

text \<open>
  A handler whose every call relates the state before to the state after keeps this relation over a
  whole run, with messages that come again, get lost or are dropped. \<open>ok\<close> is what is known of the messages.
\<close>

locale steady_consumer =
  fixes handle :: "'m \<Rightarrow> 's \<Rightarrow> bool \<times> 's"
    and ok :: "'m \<Rightarrow> bool"
    and R :: "'s \<Rightarrow> 's \<Rightarrow> bool"
  assumes R_refl: "R s s"
    and R_trans: "R s t \<Longrightarrow> R t u \<Longrightarrow> R s u"
    and R_handle: "ok m \<Longrightarrow> R s (snd (handle m s))"
begin

lemma R_step:
  assumes "list_all ok (in_flight c)"
  shows "R (cq_state c) (cq_state (consumer_step handle e c))"
  using assms R_handle R_refl
  by (cases e) (auto simp: disconnect_def in_flight_def split: list.split option.splits prod.split; metis snd_conv)+

lemma R_run:
  assumes "list_all ok (all_messages c)" and "list_all ok (published es)"
  shows "R (cq_state c) (cq_state (consumer_run handle es c))"
  using assms
proof (induction es arbitrary: c)
  case Nil
  show ?case by (simp add: consumer_run_def R_refl)
next
  case (Cons e es)
  have pub: "published (e # es) = published [e] @ published es" by (simp add: published_def)
  have "R (cq_state c) (cq_state (consumer_step handle e c))"
    using Cons.prems(1) by (intro R_step) (simp add: all_messages_def)
  moreover have "R (cq_state (consumer_step handle e c)) (cq_state (consumer_run handle es (consumer_step handle e c)))"
    using Cons.prems by (intro Cons.IH) (simp_all add: all_messages_step pub)
  ultimately show ?case by (simp add: consumer_run_def R_trans)
qed

end

subsection \<open>A loop that stays connected\<close>

definition drain :: "('m, 's) consumer \<Rightarrow> 'm consumer_event list" where
  "drain c = Connect # concat (replicate (length (in_flight c @ cq_ready c)) [Deliver, Handle])"

definition handle_all :: "('m \<Rightarrow> 's \<Rightarrow> bool \<times> 's) \<Rightarrow> 'm list \<Rightarrow> 's \<Rightarrow> 's" where
  "handle_all handle ms s = fold (\<lambda>m s. snd (handle m s)) ms s"

lemma turn:
  assumes "cq_connected c" and "in_flight c @ cq_ready c = m # ms"
  shows "\<exists>c'. consumer_run h [Deliver, Handle] c = c' \<and> cq_connected c' \<and> in_flight c' @ cq_ready c' = ms
    \<and> cq_state c' = snd (h m (cq_state c))"
  using assms by (auto simp: consumer_run_def in_flight_def split: option.splits prod.split)

lemma turns:
  assumes "cq_connected c" and "in_flight c @ cq_ready c = ms"
  shows "in_flight (consumer_run h (concat (replicate (length ms) [Deliver, Handle])) c) = []
    \<and> cq_ready (consumer_run h (concat (replicate (length ms) [Deliver, Handle])) c) = []
    \<and> cq_state (consumer_run h (concat (replicate (length ms) [Deliver, Handle])) c) = handle_all h ms (cq_state c)"
  using assms
proof (induction ms arbitrary: c)
  case Nil
  then show ?case by (simp add: consumer_run_def handle_all_def)
next
  case (Cons m ms)
  obtain c' where c': "consumer_run h [Deliver, Handle] c = c'" "cq_connected c'" "in_flight c' @ cq_ready c' = ms"
      "cq_state c' = snd (h m (cq_state c))"
    using turn [OF Cons.prems] by blast
  have "consumer_run h (concat (replicate (length (m # ms)) [Deliver, Handle])) c
      = consumer_run h (concat (replicate (length ms) [Deliver, Handle])) c'"
    using c'(1) by (simp add: consumer_run_def)
  with Cons.IH [OF c'(2,3)] c'(4) show ?case by (simp add: handle_all_def)
qed

lemma drained:
  shows "in_flight (consumer_run h (drain c) c) = []" and "cq_ready (consumer_run h (drain c) c) = []"
    and "cq_state (consumer_run h (drain c) c) = handle_all h (in_flight c @ cq_ready c) (cq_state c)"
proof -
  have "consumer_run h (drain c) c = consumer_run h (concat (replicate (length (in_flight c @ cq_ready c)) [Deliver, Handle])) (c\<lparr>cq_connected := True\<rparr>)"
    by (simp add: consumer_run_def drain_def)
  moreover have "in_flight (c\<lparr>cq_connected := True\<rparr>) = in_flight c" by (simp add: in_flight_def)
  ultimately show "in_flight (consumer_run h (drain c) c) = []" "cq_ready (consumer_run h (drain c) c) = []"
    "cq_state (consumer_run h (drain c) c) = handle_all h (in_flight c @ cq_ready c) (cq_state c)"
    using turns [of "c\<lparr>cq_connected := True\<rparr>" "in_flight c @ cq_ready c" h] by simp_all
qed

subsection \<open>The consumer of expired holds only frees expired holds\<close>

text \<open>The request that a message makes.\<close>

definition request_of :: "body \<Rightarrow> seat_request option" where
  "request_of b =
     (case b of
        Garbled \<Rightarrow> None
      | Fields d \<Rightarrow> Some \<lparr>sr_inventory_id = or_empty (d ''inventoryId''), sr_user_id = or_empty (d ''userId''),
            sr_hold_token = or_empty (d ''holdToken'')\<rparr>)"

lemma dlx_callback_state:
  "snd (dlx_callback b s) = (case request_of b of None \<Rightarrow> s | Some req \<Rightarrow> snd (grpc_call (ep_ReleaseSeat req) s))"
  by (cases b) (simp_all add: dlx_callback_def request_of_def on_expired_state)

text \<open>
  Nothing changes but seats, and a seat changes only from a hold that one of the requests names to free.
\<close>

definition frees_only :: "seat_request set \<Rightarrow> ('n, 'x) sys \<Rightarrow> ('n, 'x) sys \<Rightarrow> bool" where
  "frees_only reqs s s' \<longleftrightarrow> same_books s s'
     \<and> (\<forall>j. sview j s' = sview j s
         \<or> (sview j s' = Some VFree \<and> (\<exists>req\<in>reqs. j = sr_inventory_id req
               \<and> (\<exists>d. sview j s = Some (VHeld (sr_user_id req) (sr_hold_token req) d)))))"

lemma frees_only_trans:
  assumes "frees_only reqs s t" "frees_only reqs t u"
  shows "frees_only reqs s u"
proof -
  have step: "sview j u = sview j t \<or> (sview j u = Some VFree \<and> (\<exists>req\<in>reqs. j = sr_inventory_id req
        \<and> (\<exists>d. sview j t = Some (VHeld (sr_user_id req) (sr_hold_token req) d))))"
    "sview j t = sview j s \<or> (sview j t = Some VFree \<and> (\<exists>req\<in>reqs. j = sr_inventory_id req
        \<and> (\<exists>d. sview j s = Some (VHeld (sr_user_id req) (sr_hold_token req) d))))" for j
    using assms by (simp_all add: frees_only_def)
  have "sview j u = sview j s \<or> (sview j u = Some VFree \<and> (\<exists>req\<in>reqs. j = sr_inventory_id req
        \<and> (\<exists>d. sview j s = Some (VHeld (sr_user_id req) (sr_hold_token req) d))))" for j
    using step [of j] by (elim disjE) auto
  then show ?thesis using assms same_books_trans unfolding frees_only_def by blast
qed

lemma frees_only_refl: "frees_only reqs s s"
  by (simp add: frees_only_def same_books_def)

lemma frees_only_dlx:
  assumes "set_option (request_of b) \<subseteq> reqs"
  shows "frees_only reqs s (snd (dlx_callback b s))"
proof (cases "request_of b")
  case None
  then show ?thesis by (simp add: dlx_callback_state frees_only_refl)
next
  case (Some req)
  with assms release_only_frees [of s req] show ?thesis
    by (auto simp: dlx_callback_state frees_only_def)
qed

interpretation dlx: steady_consumer dlx_callback "\<lambda>b. set_option (request_of b) \<subseteq> reqs" "frees_only reqs" for reqs
  by unfold_locales (rule frees_only_refl, erule (1) frees_only_trans, erule frees_only_dlx)

text \<open>The other two: transfers keep their order, and the log of notices only grows.\<close>

interpretation timeouts: steady_consumer timeout_callback "\<lambda>b. True" in_order
proof unfold_locales
  fix b :: body and s :: "('n, 'x) sys"
  show "in_order s (snd (timeout_callback b s))"
    by (cases b) (simp_all add: timeout_callback_def on_timeout_message_order in_order_same)
qed (auto intro: in_order_trans simp: in_order_same)

interpretation notices: steady_consumer on_notification "\<lambda>b. True" prefix
  by unfold_locales (auto simp: on_notification_def split: body.split)

subsection \<open>An expired hold is freed\<close>

text \<open>
  No answer to a release is cached for the key; then a release by the holder works, and a release with
  another key leaves it so.
\<close>

definition no_answer :: "string \<Rightarrow> ('n, 'x) sys \<Rightarrow> bool" where
  "no_answer k s \<longleftrightarrow> redis_live (idempotent_key k) (world (inventory s)) = None"

definition key_of :: "seat_request \<Rightarrow> string" where
  "key_of req = release_key (sr_inventory_id req) (sr_hold_token req)"

lemma redis_live_idempotent_delete: "redis_live (idempotent_key k) (delete_attempts n i w) = redis_live (idempotent_key k) w"
proof (induction n i w rule: delete_attempts.induct)
  case (2 n i w)
  have "idempotent_key k \<noteq> hold_key i" by (simp add: idempotent_key_def hold_key_def)
  moreover have "redis_live j (log_cache_invalidation_failure i v) = redis_live j v" for j v
    by (simp add: redis_live_def log_cache_invalidation_failure_def mq_publish_def Let_def split: prod.split option.split)
  ultimately show ?case using 2 by (auto simp: redis_live_step split: prod.split bool.split)
qed simp

lemma redis_live_idempotent_hold_cache: "redis_live (idempotent_key k) (delete_hold_cache i w) = redis_live (idempotent_key k) w"
  by (auto simp: delete_hold_cache_def get_redis_client_def redis_live_idempotent_delete redis_live_step split: prod.split bool.split)

lemma redis_live_check: "check_idempotency k w = (r, w1) \<Longrightarrow> redis_live j w1 = redis_live j w"
  by (auto simp: check_idempotency_def get_redis_client_def redis_live_step
      split: prod.splits bool.splits option.splits rval.splits)

lemma redis_live_cache_result:
  "k \<noteq> j \<Longrightarrow> redis_live (idempotent_key k) (cache_idempotency_result j b w) = redis_live (idempotent_key k) w"
proof -
  assume "k \<noteq> j"
  then have "idempotent_key k \<noteq> idempotent_key j" by (simp add: idempotent_key_def)
  then show ?thesis
    by (auto simp: cache_idempotency_result_def get_redis_client_def redis_live_step split: prod.split bool.split)
qed

lemma release_keeps_other_answers:
  assumes "key_of req \<noteq> k"
  shows "redis_live (idempotent_key k) (world (snd (ReleaseSeat req s))) = redis_live (idempotent_key k) (world s)"
  using assms
  by (auto simp: ReleaseSeat_def Let_def key_of_def redis_live_cache_result redis_live_idempotent_hold_cache
      redis_live_check split: prod.split option.split)

lemma check_no_answer: "redis_live (idempotent_key k) w = None \<Longrightarrow> fst (check_idempotency k w) = None"
  by (auto simp: check_idempotency_def get_redis_client_def redis_live_step split: prod.split bool.split)

lemma release_works:
  assumes "seat_view (sr_inventory_id req) s = Some (VHeld (sr_user_id req) (sr_hold_token req) d)"
    and "redis_live (idempotent_key (key_of req)) (world s) = None"
  shows "seat_view (sr_inventory_id req) (snd (ReleaseSeat req s)) = Some VFree"
proof -
  obtain r where r: "row_get inventoryId (sr_inventory_id req) (seats s) = Some r" "holds req r"
    using assms(1) by (auto simp: seat_view_def holds_view)
  obtain w1 where "check_idempotency (key_of req) (world s) = (None, w1)"
    using check_no_answer [OF assms(2)] by (cases "check_idempotency (key_of req) (world s)") simp
  with r show ?thesis by (simp add: ReleaseSeat_def Let_def key_of_def seat_view_def seat_table.get_upd)
qed

lemma grpc_release_heard:
  "net s = [] \<Longrightarrow> snd (grpc_call (ep_ReleaseSeat req) s) = s\<lparr>inventory := snd (ReleaseSeat req (inventory s))\<rparr>"
  by (cases "ReleaseSeat req (inventory s)") (simp add: grpc_call_def take_net_def ep_ReleaseSeat_def)

text \<open>Once free, a seat stays free.\<close>

lemma freed_stays: "frees_only reqs s s' \<Longrightarrow> sview i s = Some VFree \<Longrightarrow> sview i s' = Some VFree"
  unfolding frees_only_def by force

lemma handle_all_frees:
  "frees_only (\<Union>b\<in>set bs. set_option (request_of b)) s (handle_all dlx_callback bs s)"
proof (induction bs arbitrary: s)
  case Nil
  show ?case by (simp add: handle_all_def frees_only_refl)
next
  case (Cons b bs)
  let ?R = "\<Union>b\<in>set (b # bs). set_option (request_of b)"
  have "frees_only ?R s (snd (dlx_callback b s))" by (rule frees_only_dlx) auto
  moreover have "frees_only ?R (snd (dlx_callback b s)) (handle_all dlx_callback bs (snd (dlx_callback b s)))"
    using Cons.IH [of "snd (dlx_callback b s)"] by (force simp: frees_only_def)
  ultimately show ?case using frees_only_trans by (fastforce simp: handle_all_def)
qed

text \<open>
  The messages of a queue are handled until the first with the key of the hold, which frees the seat;
  the ones before it leave the seat and the cached answers alone, the ones after it leave it free.
\<close>

lemma handle_all_releases:
  assumes "net s = []" and "sview (sr_inventory_id req) s = Some (VHeld (sr_user_id req) (sr_hold_token req) d)"
    and "no_answer (key_of req) s" and "Some req \<in> request_of ` set bs"
    and only: "\<forall>b\<in>set bs. \<forall>q. request_of b = Some q \<longrightarrow>
      key_of q = key_of req \<longrightarrow> q = req"
  shows "sview (sr_inventory_id req) (handle_all dlx_callback bs s) = Some VFree"
  using assms
proof (induction bs arbitrary: s)
  case (Cons b bs)
  let ?i = "sr_inventory_id req"
  let ?s = "snd (dlx_callback b s)"
  have all: "handle_all dlx_callback (b # bs) s = handle_all dlx_callback bs ?s" by (simp add: handle_all_def)
  show ?case
  proof (cases "request_of b = Some req")
    case True
    then have "sview ?i ?s = Some VFree"
      using Cons.prems(1-3) release_works [of req "inventory s"]
      by (simp add: dlx_callback_state grpc_release_heard sview_def no_answer_def)
    then show ?thesis unfolding all by (rule freed_stays [OF handle_all_frees])
  next
    case False
    have n: "net ?s = []" and k: "no_answer (key_of req) ?s"
      using False Cons.prems(1,3,5) release_keeps_other_answers [of _ "key_of req" "inventory s"]
      by (auto simp: dlx_callback_state grpc_release_heard no_answer_def split: option.split)
    have "frees_only (set_option (request_of b)) s ?s" by (rule frees_only_dlx) simp
    then have "sview ?i ?s = sview ?i s"
      using False Cons.prems(2,5) unfolding frees_only_def by (cases "request_of b") fastforce+
    then show ?thesis
      unfolding all using False Cons.prems n k by (intro Cons.IH) auto
  qed
qed simp

text \<open>The bodies that wait in a queue of the broker.\<close>

definition queue_of :: "string \<Rightarrow> 'm broker \<Rightarrow> 'm list" where
  "queue_of q b = map (\<lambda>e. fst (snd e)) (filter (\<lambda>e. fst e = q) (br_messages b))"

lemma hold_message_delivered:
  assumes "topology n b" and "t0 + n * 1000000 \<le> now"
  shows "m \<in> set (queue_of ''seat_hold_expired_queue'' (expire_messages now (publish ''seat_hold_ttl_queue'' m t0 b)))"
proof -
  obtain qs where "br_exchanges b ''seat_hold_dlx'' = Some qs" "''seat_hold_expired_queue'' \<in> set qs"
    "br_queues b ''seat_hold_ttl_queue'' = Some (hold_queue n)"
    using assms(1) by (auto simp: topology_def)
  then have "(''seat_hold_expired_queue'', m, now) \<in> set (br_messages (expire_messages now (publish ''seat_hold_ttl_queue'' m t0 b)))"
    using assms(2) by (auto simp: expire_messages_def publish_def moved_def hold_queue_def)
  then show ?thesis by (force simp: queue_of_def)
qed

lemma request_of_hold: "request_of (hold_ttl_body i u tok) = Some \<lparr>sr_inventory_id = i, sr_user_id = u, sr_hold_token = tok\<rparr>"
  by (simp add: request_of_def hold_ttl_body_def or_empty_def)

text \<open>
  Property C33: an expired hold is freed. After the queues are set up, a hold message published at some
  instant is delivered once the time of a hold has passed. A consumer that has what is then in its queue,
  and stays connected until nothing waits, has freed the seat if it is still held under that token: provided
  that its calls are not lost, that no earlier answer to the same release is cached, and that no other
  message claims the same seat and token for somebody else.
\<close>

theorem expired_hold_freed:
  assumes "topology n b" and "t0 + n * 1000000 \<le> now"
    and "set (queue_of ''seat_hold_expired_queue'' (expire_messages now
          (publish ''seat_hold_ttl_queue'' (hold_ttl_body i u tok) t0 b))) \<subseteq> set (in_flight c @ cq_ready c)"
    and "net (cq_state c) = []" and "sview i (cq_state c) = Some (VHeld u tok d)"
    and "no_answer (release_key i tok) (cq_state c)"
    and "\<forall>m\<in>set (in_flight c @ cq_ready c). \<forall>q. request_of m = Some q \<longrightarrow> key_of q = release_key i tok \<longrightarrow>
      q = \<lparr>sr_inventory_id = i, sr_user_id = u, sr_hold_token = tok\<rparr>"
  shows "sview i (cq_state (start_dlx_consumer (drain c) c)) = Some VFree
    \<and> in_flight (start_dlx_consumer (drain c) c) @ cq_ready (start_dlx_consumer (drain c) c) = []"
proof -
  let ?req = "\<lparr>sr_inventory_id = i, sr_user_id = u, sr_hold_token = tok\<rparr>"
  have "hold_ttl_body i u tok \<in> set (in_flight c @ cq_ready c)"
    using hold_message_delivered [OF assms(1,2)] assms(3) by blast
  then have "Some ?req \<in> request_of ` set (in_flight c @ cq_ready c)"
    using request_of_hold [of i u tok] by (metis image_eqI)
  then have "sview i (handle_all dlx_callback (in_flight c @ cq_ready c) (cq_state c)) = Some VFree"
    using handle_all_releases [of "cq_state c" ?req d] assms(4-7) by (simp add: key_of_def)
  then show ?thesis by (simp add: start_dlx_consumer_def drained)
qed

definition ex_broker :: "body broker" where
  "ex_broker = the (declare_queues 600 \<lparr>br_queues = Map.empty, br_exchanges = Map.empty, br_messages = []\<rparr>)"

definition ex_dlx :: "(body, (int, (string \<Rightarrow> int) \<times> bool) sys) consumer" where
  "ex_dlx = \<lparr>cq_ready = [Garbled, hold_ttl_body ''i1'' ''u1'' ''t1''], cq_unacked = None, cq_connected = False, cq_settled = [],
     cq_state = ex_sys\<rparr>"

theorem expired_hold_freed_witness:
  "sview ''i1'' (cq_state (start_dlx_consumer (drain ex_dlx) ex_dlx)) = Some VFree"
proof -
  have "topology 600 ex_broker"
    by (rule declare_queues_topology [of _ "\<lparr>br_queues = Map.empty, br_exchanges = Map.empty, br_messages = []\<rparr>"])
       (simp add: ex_broker_def declare_queues_def queue_declare_def exchange_declare_def queue_bind_def)
  moreover have "br_messages ex_broker = []"
    by (simp add: ex_broker_def declare_queues_def queue_declare_def exchange_declare_def queue_bind_def)
  then have "set (queue_of ''seat_hold_expired_queue'' (expire_messages 600000007
      (publish ''seat_hold_ttl_queue'' (hold_ttl_body ''i1'' ''u1'' ''t1'') 7 ex_broker))) \<subseteq> set (in_flight ex_dlx @ cq_ready ex_dlx)"
    by (auto simp: queue_of_def expire_messages_def publish_def moved_def ex_dlx_def split: option.splits if_splits)
  moreover have "net ex_sys = []" "sview ''i1'' ex_sys = Some (VHeld ''u1'' ''t1'' (Some 5000))"
    "no_answer (release_key ''i1'' ''t1'') ex_sys"
    by (simp_all add: ex_sys_def sview_def seat_view_def no_answer_def redis_live_def ex_seat_defs view_of_def stored_def)
  ultimately show ?thesis
    using expired_hold_freed [of 600 ex_broker 7 600000007 "''i1''" "''u1''" "''t1''" ex_dlx "Some 5000"]
    by (simp add: ex_dlx_def in_flight_def request_of_hold) (simp add: request_of_def)
qed


text \<open>
  A message whose call fails is dropped for good: it is settled, the seat stays held, and no later run
  without a new message changes that.
\<close>

lemma failed_release_dropped:
  assumes "fst (dlx_callback m (cq_state c)) = False" and "cq_connected c" and "cq_unacked c = Some m" and "cq_ready c = []"
    and "published es = []"
  shows "cq_settled (start_dlx_consumer (Handle # es) c) = cq_settled c @ [(m, False)]
    \<and> cq_state (start_dlx_consumer (Handle # es) c) = snd (dlx_callback m (cq_state c))"
proof -
  define c1 where "c1 = consumer_step dlx_callback Handle c"
  have c1: "in_flight c1 = []" "cq_ready c1 = []" "cq_settled c1 = cq_settled c @ [(m, False)]"
      "cq_state c1 = snd (dlx_callback m (cq_state c))"
    using assms(1-4) by (auto simp: c1_def in_flight_def split: prod.split)
  have idle: "cq_state (consumer_run h es x) = cq_state x \<and> cq_settled (consumer_run h es x) = cq_settled x"
    if "published es = []" "in_flight x = []" "cq_ready x = []" for es x and h :: "body \<Rightarrow> ('a, 'b) sys \<Rightarrow> bool \<times> ('a, 'b) sys"
    using that
  proof (induction es arbitrary: x)
    case (Cons e es)
    have e: "published [e] = []" "published es = []" using Cons.prems(1) by (auto simp: published_def)
    have "in_flight (consumer_step h e x) = [] \<and> cq_ready (consumer_step h e x) = []
        \<and> cq_state (consumer_step h e x) = cq_state x \<and> cq_settled (consumer_step h e x) = cq_settled x"
      using e(1) Cons.prems(2,3) by (cases e) (auto simp: in_flight_def disconnect_def published_def split: option.splits)
    with Cons.IH [OF e(2), of "consumer_step h e x"] show ?case by (simp add: consumer_run_def)
  qed (simp add: consumer_run_def)
  have "start_dlx_consumer (Handle # es) c = consumer_run dlx_callback es c1"
    by (simp add: start_dlx_consumer_def consumer_run_def c1_def)
  with idle [OF assms(5) c1(1,2), of dlx_callback] c1(3,4) show ?thesis by simp
qed

end
