(* ===== verification/CheckScripts.thy ===== *)
theory CheckScripts
  imports Startup "HOL-Library.AList" "HOL-Library.Sublist"
begin

text \<open>
  The scripts that check an installation: \<^verbatim>\<open>scripts/verify_all.py\<close> (files, their content and settings),
  \<^verbatim>\<open>scripts/verify_env.py\<close> (the environment files) and \<^verbatim>\<open>scripts/lint_repo.py\<close>,
  \<^verbatim>\<open>scripts/typecheck_repo.py\<close> and \<^verbatim>\<open>scripts/repo_tooling.py\<close> (a tool run in every project).

  A check takes the record of the results and returns it extended, or None when an exception ends the
  script. The lemmas show that every check only appends what it found and counts it, that a script
  succeeds exactly when all it requires is there, which files it cannot do without, and which settings
  it never insists on.
\<close>

subsection \<open>Files and JSON\<close>

text \<open>
  What is at a path: a text that can be read, or something that exists and cannot be read as text, such
  as a directory.
\<close>

datatype node = Text string | Unreadable

type_synonym files = "string \<rightharpoonup> node"

definition path_exists :: "files \<Rightarrow> string \<Rightarrow> bool" where
  "path_exists fs path \<longleftrightarrow> fs path \<noteq> None"

text \<open>\<^verbatim>\<open>path.read_text()\<close>; None is its exception.\<close>

definition read_text :: "files \<Rightarrow> string \<Rightarrow> string option" where
  "read_text fs path = (case fs path of Some (Text t) \<Rightarrow> Some t | _ \<Rightarrow> None)"

text \<open>What \<^verbatim>\<open>json.loads\<close> returns. An object is the list of its entries, each key once.\<close>

datatype 'n data =
    DNull | DBool bool | DNum 'n | DStr string | DArr "'n data list" | DObj "(string \<times> 'n data) list"

text \<open>\<^verbatim>\<open>key in value\<close>; None is the TypeError of a value that is no container.\<close>

fun py_in :: "string \<Rightarrow> 'n data \<Rightarrow> bool option" where
  "py_in key (DObj kvs) = Some (key \<in> set (map fst kvs))"
| "py_in key (DArr xs) = Some (DStr key \<in> set xs)"
| "py_in key (DStr t) = Some (sublist key t)"
| "py_in key v = None"

text \<open>\<^verbatim>\<open>value.get(key, default)\<close>; None is the AttributeError of a value that is no object.\<close>

fun py_get :: "string \<Rightarrow> 'n data \<Rightarrow> 'n data \<Rightarrow> 'n data option" where
  "py_get key dflt (DObj kvs) = Some (case map_of kvs key of None \<Rightarrow> dflt | Some v \<Rightarrow> v)"
| "py_get key dflt v = None"

fun py_truth :: "'n::zero data \<Rightarrow> bool" where
  "py_truth DNull = False"
| "py_truth (DBool b) = b"
| "py_truth (DNum n) = (n \<noteq> 0)"
| "py_truth (DStr s) = (s \<noteq> [])"
| "py_truth (DArr xs) = (xs \<noteq> [])"
| "py_truth (DObj kvs) = (kvs \<noteq> [])"

text \<open>\<^verbatim>\<open>sep.join(parts)\<close>\<close>

fun join_with :: "string \<Rightarrow> string list \<Rightarrow> string" where
  "join_with sep [] = []"
| "join_with sep [s] = s"
| "join_with sep (s # t # ts) = s @ sep @ join_with sep (t # ts)"

subsection \<open>The record of the results\<close>

datatype mark = Tick | Cross | Warning

record verification_result =
  vr_passed :: nat
  vr_failed :: nat
  vr_warnings :: nat
  vr_results :: "(mark \<times> string) list"

definition new_result :: verification_result where
  "new_result = \<lparr>vr_passed = 0, vr_failed = 0, vr_warnings = 0, vr_results = []\<rparr>"

definition add_pass :: "string \<Rightarrow> verification_result \<Rightarrow> verification_result" where
  "add_pass message r = r\<lparr>vr_passed := vr_passed r + 1, vr_results := vr_results r @ [(Tick, message)]\<rparr>"

definition add_fail :: "string \<Rightarrow> verification_result \<Rightarrow> verification_result" where
  "add_fail message r = r\<lparr>vr_failed := vr_failed r + 1, vr_results := vr_results r @ [(Cross, message)]\<rparr>"

definition add_warning :: "string \<Rightarrow> verification_result \<Rightarrow> verification_result" where
  "add_warning message r = r\<lparr>vr_warnings := vr_warnings r + 1, vr_results := vr_results r @ [(Warning, message)]\<rparr>"

text \<open>The printed lines and totals, and the returned verdict.\<close>

definition print_summary :: "verification_result \<Rightarrow> ((mark \<times> string) list \<times> nat \<times> nat \<times> nat) \<times> bool" where
  "print_summary r = ((vr_results r, vr_passed r, vr_failed r, vr_warnings r), vr_failed r = 0)"

definition check_file_exists :: "files \<Rightarrow> string \<Rightarrow> string \<Rightarrow> verification_result \<Rightarrow> bool \<times> verification_result" where
  "check_file_exists fs path description r =
     (if path_exists fs path then (True, add_pass (description @ '': '' @ path) r)
      else (False, add_fail (description @ '' missing: '' @ path) r))"

definition check_file_content ::
  "files \<Rightarrow> string \<Rightarrow> string list \<Rightarrow> string \<Rightarrow> verification_result \<Rightarrow> (bool \<times> verification_result) option" where
  "check_file_content fs path required_strings description r =
     (if \<not> path_exists fs path then Some (False, add_fail (''File not found: '' @ path) r)
      else
        (case read_text fs path of
           None \<Rightarrow> None
         | Some content \<Rightarrow>
             (let missing = filter (\<lambda>s. \<not> sublist s content) required_strings in
              if missing = [] then Some (True, add_pass (description @ '': All required content present'') r)
              else Some (False, add_fail (description @ '': Missing: '' @ join_with '', '' missing) r))))"

subsection \<open>The checks of \<^verbatim>\<open>verify_all.py\<close>\<close>

type_synonym script_check = "verification_result \<Rightarrow> verification_result option"

text \<open>Statements one after another; an exception ends them.\<close>

primrec in_turn :: "script_check list \<Rightarrow> script_check" where
  "in_turn [] r = Some r"
| "in_turn (c # cs) r = (case c r of None \<Rightarrow> None | Some r' \<Rightarrow> in_turn cs r')"

definition wants :: "files \<Rightarrow> string \<Rightarrow> string \<times> string \<Rightarrow> script_check" where
  "wants fs dir f r = Some (snd (check_file_exists fs (dir @ fst f) (snd f) r))"

definition wants_content :: "files \<Rightarrow> string \<Rightarrow> string list \<Rightarrow> string \<Rightarrow> script_check" where
  "wants_content fs path strings description r = map_option snd (check_file_content fs path strings description r)"

text \<open>A pass where the condition holds, a warning otherwise.\<close>

definition pass_or_warn :: "bool \<Rightarrow> string \<Rightarrow> string \<Rightarrow> script_check" where
  "pass_or_warn b good bad r = Some (if b then add_pass good r else add_warning bad r)"

definition frontend_dir :: string where "frontend_dir = ''ticketremaster-f''"
definition backend_dir :: string where "backend_dir = ''ticketremaster-b''"

definition FRONTEND_FILES :: "(string \<times> string) list" where
  "FRONTEND_FILES =
    [(''/package.json'', ''Frontend package.json''), (''/tsconfig.json'', ''TypeScript config''),
     (''/.env'', ''Frontend .env''), (''/.env.example'', ''Frontend .env.example''),
     (''/vercel.json'', ''Vercel config''), (''/vite.config.ts'', ''Vite config (TS)''),
     (''/src/main.ts'', ''main.ts''), (''/src/env.d.ts'', ''env.d.ts''),
     (''/src/types/index.ts'', ''Type definitions'')]"

definition FRONTEND_SOURCES :: "(string \<times> string) list" where
  "FRONTEND_SOURCES =
    [(''/src/i18n.ts'', ''i18n config''), (''/src/locales/en.json'', ''English translations''),
     (''/src/composables/useWebSocket.ts'', ''WebSocket composable'')]"

text \<open>\<open>loads\<close> is \<^verbatim>\<open>json.loads\<close>; None is its JSONDecodeError.\<close>

definition check_vercel :: "files \<Rightarrow> (string \<Rightarrow> 'n data option) \<Rightarrow> script_check" where
  "check_vercel fs loads r =
     (if \<not> path_exists fs (frontend_dir @ ''/vercel.json'') then Some r
      else
        (case read_text fs (frontend_dir @ ''/vercel.json'') of
           None \<Rightarrow> None
         | Some t \<Rightarrow>
             (case loads t of
                None \<Rightarrow> Some (add_fail ''Invalid vercel.json'' r)
              | Some config \<Rightarrow>
                  (case py_in ''rewrites'' config of
                     None \<Rightarrow> None
                   | Some b \<Rightarrow> pass_or_warn b ''Vercel rewrites configured for SPA'' ''Vercel rewrites not configured'' r))))"

text \<open>The conditions on \<^verbatim>\<open>scripts\<close>; None is a TypeError or an AttributeError.\<close>

definition build_checks_types :: "'n data \<Rightarrow> bool option" where
  "build_checks_types scripts =
     (case py_in ''build'' scripts of
        None \<Rightarrow> None
      | Some False \<Rightarrow> Some False
      | Some True \<Rightarrow>
          (case py_get ''build'' (DStr []) scripts of
             None \<Rightarrow> None
           | Some build \<Rightarrow> py_in ''vue-tsc'' build))"

definition check_scripts :: "'n data \<Rightarrow> script_check" where
  "check_scripts scripts r =
     (case (build_checks_types scripts, py_in ''typecheck'' scripts, py_in ''test'' scripts) of
        (Some b, Some t, Some u) \<Rightarrow>
          in_turn
            [pass_or_warn b ''Build script includes TypeScript check'' ''Build script may not include TypeScript check'',
             pass_or_warn t ''TypeScript typecheck script present'' ''No typecheck script found'',
             pass_or_warn u ''Test script present'' ''No test script found''] r
      | _ \<Rightarrow> None)"

definition check_package :: "files \<Rightarrow> (string \<Rightarrow> 'n data option) \<Rightarrow> script_check" where
  "check_package fs loads r =
     (case read_text fs (frontend_dir @ ''/package.json'') of
        None \<Rightarrow> None
      | Some t \<Rightarrow>
          (case loads t of
             None \<Rightarrow> None
           | Some package_json \<Rightarrow>
               (case py_get ''scripts'' (DObj []) package_json of
                  None \<Rightarrow> None
                | Some scripts \<Rightarrow> check_scripts scripts r)))"

definition verify_frontend :: "files \<Rightarrow> (string \<Rightarrow> 'n data option) \<Rightarrow> script_check" where
  "verify_frontend fs loads =
     in_turn
      (map (wants fs frontend_dir) FRONTEND_FILES
       @ [wants_content fs (frontend_dir @ ''/src/main.ts'') [''@sentry/vue'', ''Sentry.init''] ''Sentry integration'',
          wants_content fs (frontend_dir @ ''/src/main.ts'') [''posthog.init''] ''PostHog integration'']
       @ map (wants fs frontend_dir) FRONTEND_SOURCES
       @ [check_vercel fs loads, check_package fs loads])"

definition BACKEND_FILES :: "(string \<times> string) list" where
  "BACKEND_FILES =
    [(''/.env'', ''Backend .env''), (''/.env.example'', ''Backend .env.example''),
     (''/docker-compose.yml'', ''Docker Compose''), (''/requirements-dev.txt'', ''Dev requirements''),
     (''/mypy.ini'', ''MyPy config''), (''/shared/sentry.py'', ''Shared Sentry module''),
     (''/services/notification-service/app.py'', ''Notification service'')]"

definition K8S_FILES :: "(string \<times> string) list" where
  "K8S_FILES =
    [(''/k8s/base/core-workloads.yaml'', ''K8s core workloads''), (''/k8s/base/seed-jobs.yaml'', ''K8s seed jobs''),
     (''/k8s/base/configuration.yaml'', ''K8s configuration'')]"

definition sentry_in_service :: "files \<Rightarrow> string \<Rightarrow> script_check" where
  "sentry_in_service fs service_name r =
     (let service_app = backend_dir @ ''/services/'' @ service_name @ ''/app.py'' in
      if path_exists fs service_app
      then wants_content fs service_app [''init_sentry'', ''service_name='' @ [CHR 0x22] @ service_name @ [CHR 0x22]]
             (''Sentry in '' @ service_name) r
      else Some r)"

definition sentry_in_orchestrator :: "files \<Rightarrow> string \<Rightarrow> script_check" where
  "sentry_in_orchestrator fs orchestrator r =
     (let orchestrator_app = backend_dir @ ''/orchestrators/'' @ orchestrator @ ''/app.py'' in
      if path_exists fs orchestrator_app
      then wants_content fs orchestrator_app [''init_sentry''] (''Sentry in '' @ orchestrator) r
      else Some r)"

definition check_compose :: "files \<Rightarrow> script_check" where
  "check_compose fs r =
     (case read_text fs (backend_dir @ ''/docker-compose.yml'') of
        None \<Rightarrow> None
      | Some compose_content \<Rightarrow>
          pass_or_warn (sublist ''notification-service'' compose_content)
            ''Docker Compose includes notification service'' ''Notification service not in docker-compose.yml'' r)"

text \<open>A file that is looked at only where it is there.\<close>

definition if_there :: "files \<Rightarrow> string \<Rightarrow> (string \<Rightarrow> script_check) \<Rightarrow> script_check" where
  "if_there fs path c r =
     (if \<not> path_exists fs path then Some r else (case read_text fs path of None \<Rightarrow> None | Some t \<Rightarrow> c t r))"

definition check_kong :: "files \<Rightarrow> script_check" where
  "check_kong fs = if_there fs (backend_dir @ ''/api-gateway/kong.yml'') (\<lambda>t.
     pass_or_warn (sublist ''notification-service'' t)
       ''Kong gateway includes notification service routes'' ''Notification service routes not in Kong config'')"

definition verify_backend :: "files \<Rightarrow> script_check" where
  "verify_backend fs =
     in_turn
      (map (wants fs backend_dir) BACKEND_FILES
       @ map (sentry_in_service fs) [''user-service'', ''event-service'']
       @ map (sentry_in_orchestrator fs) [''auth-orchestrator'', ''event-orchestrator'']
       @ map (wants fs backend_dir) K8S_FILES
       @ [check_compose fs, check_kong fs])"

definition env_warning :: "string \<Rightarrow> string list \<Rightarrow> string \<Rightarrow> script_check" where
  "env_warning side required_vars content =
     (let missing = filter (\<lambda>v. \<not> sublist v content) required_vars in
      pass_or_warn (missing = []) (side @ '' .env has all required variables'')
        (side @ '' .env missing: '' @ join_with '', '' missing))"

definition placeholders :: "string \<Rightarrow> script_check" where
  "placeholders content =
     pass_or_warn (sublist ''change_me'' content \<or> sublist ''your-'' content)
       ''.env.example has placeholder values'' ''.env.example may have real values (should use placeholders)''"

definition FRONTEND_VARS :: "string list" where
  "FRONTEND_VARS = [''VITE_API_BASE_URL'', ''VITE_SENTRY_DSN'', ''VITE_POSTHOG_API_KEY'', ''VITE_WS_URL'']"

definition BACKEND_VARS :: "string list" where
  "BACKEND_VARS = [''SENTRY_DSN'', ''SENTRY_ENVIRONMENT'', ''JWT_SECRET'', ''RABBITMQ_HOST'', ''REDIS_URL'']"

definition verify_env_files :: "files \<Rightarrow> script_check" where
  "verify_env_files fs =
     in_turn
      [if_there fs (frontend_dir @ ''/.env'') (env_warning ''Frontend'' FRONTEND_VARS),
       if_there fs (backend_dir @ ''/.env'') (env_warning ''Backend'' BACKEND_VARS),
       if_there fs (frontend_dir @ ''/.env.example'') placeholders,
       if_there fs (backend_dir @ ''/.env.example'') placeholders]"

text \<open>The compiler options that are looked at; None is the AttributeError or the TypeError.\<close>

definition check_options :: "'n::zero data \<Rightarrow> script_check" where
  "check_options config r =
     (case py_get ''compilerOptions'' (DObj []) config of
        None \<Rightarrow> None
      | Some options \<Rightarrow>
          (case (py_get ''strict'' (DBool False) options, py_get ''noUnusedLocals'' (DBool False) options,
                 py_get ''noUnusedParameters'' (DBool False) options, py_get ''paths'' (DObj []) options) of
             (Some s, Some l, Some p, Some paths) \<Rightarrow>
               (case py_in ''@/*'' paths of
                  None \<Rightarrow> None
                | Some a \<Rightarrow>
                    in_turn
                     [pass_or_warn (py_truth s) ''TypeScript strict mode enabled'' ''TypeScript strict mode not enabled'',
                      pass_or_warn (py_truth l) ''noUnusedLocals enabled'' ''noUnusedLocals not enabled'',
                      pass_or_warn (py_truth p) ''noUnusedParameters enabled'' ''noUnusedParameters not enabled'',
                      pass_or_warn a ''Path alias @/* configured'' ''Path alias @/* not configured''] r)
           | _ \<Rightarrow> None))"

definition verify_typescript :: "files \<Rightarrow> (string \<Rightarrow> 'n::zero data option) \<Rightarrow> script_check" where
  "verify_typescript fs loads = if_there fs (frontend_dir @ ''/tsconfig.json'') (\<lambda>t r.
     (case loads t of None \<Rightarrow> Some (add_fail ''Invalid tsconfig.json'' r) | Some config \<Rightarrow> check_options config r))"

definition FRONTEND_TESTS :: "(string \<times> string) list" where
  "FRONTEND_TESTS = [(''/playwright.config.ts'', ''Playwright config''), (''/tests'', ''Frontend tests directory'')]"

definition BACKEND_TESTS :: "(string \<times> string) list" where
  "BACKEND_TESTS =
    [(''/pytest.ini'', ''Pytest config''), (''/services/user-service/tests'', ''User service tests''),
     (''/services/event-service/tests'', ''Event service tests'')]"

definition verify_tests :: "files \<Rightarrow> script_check" where
  "verify_tests fs = in_turn (map (wants fs frontend_dir) FRONTEND_TESTS @ map (wants fs backend_dir) BACKEND_TESTS)"

definition K8S_ESSENTIAL :: "(string \<times> string) list" where
  "K8S_ESSENTIAL =
    [(''/k8s/base/namespaces.yaml'', ''K8s namespaces''), (''/k8s/base/network-policies.yaml'', ''K8s network policies'')]"

definition verify_kubernetes :: "files \<Rightarrow> script_check" where
  "verify_kubernetes fs =
     in_turn
      (map (wants fs backend_dir) K8S_ESSENTIAL
       @ [if_there fs (backend_dir @ ''/k8s/base/seed-jobs.yaml'') (\<lambda>content. in_turn
           [pass_or_warn (sublist ''wait-for-dependencies'' content)
              ''Seed jobs have dependency wait containers'' ''Seed jobs may not wait for dependencies'',
            pass_or_warn (sublist ''backoffLimit'' content)
              ''Seed jobs have backoff limits'' ''Seed jobs may not have backoff limits'',
            pass_or_warn (sublist ''ttlSecondsAfterFinished'' content)
              ''Seed jobs have TTL cleanup'' ''Seed jobs may not have TTL cleanup''])])"

text \<open>
  The script: its printed summary and its exit code, None when an exception ends it before the summary.
  Paths are relative to the directory that holds both repositories, which is made the current one.
\<close>

definition verify_all ::
  "files \<Rightarrow> (string \<Rightarrow> 'n::zero data option) \<Rightarrow> (((mark \<times> string) list \<times> nat \<times> nat \<times> nat) \<times> nat) option" where
  "verify_all fs loads =
     (case in_turn
         [verify_frontend fs loads, verify_backend fs, verify_env_files fs, verify_typescript fs loads,
          verify_tests fs, verify_kubernetes fs] new_result of
        None \<Rightarrow> None
      | Some r \<Rightarrow> (case print_summary r of (printed, success) \<Rightarrow> Some (printed, if success then 0 else 1)))"

subsection \<open>The checks of \<^verbatim>\<open>verify_env.py\<close>\<close>

text \<open>
  A Python dict of strings, in the order of insertion. \<^verbatim>\<open>d[k] = v\<close> keeps the place of a key that is
  there. Iterating over a file gives its lines; the end of a line is stripped off by each user of a
  line, so splitting at every end of line only adds empty lines, which every user skips.
\<close>

type_synonym dict = "(string \<times> string) list"

definition line_end :: "char \<Rightarrow> bool" where
  "line_end c \<longleftrightarrow> c = CHR 0x0A \<or> c = CHR 0x0D"

fun lines_from :: "string \<Rightarrow> string \<Rightarrow> string list" where
  "lines_from acc [] = [acc]"
| "lines_from acc (c # cs) = (if line_end c then acc # lines_from [] cs else lines_from (acc @ [c]) cs)"

definition file_lines :: "string \<Rightarrow> string list" where
  "file_lines t = lines_from [] t"

text \<open>
  The assignment on a line, if any: not on an empty line, a comment, or a line without an equals sign.
  Both readers of a file, \<^verbatim>\<open>check_env_file\<close> and the loop over the frontend's file, take the line apart
  this way.
\<close>

definition assignment :: "string \<Rightarrow> (string \<times> string) option" where
  "assignment raw =
     (let line = py_strip raw in
      if line = [] \<or> hd line = CHR ''#'' then None
      else if CHR ''='' \<in> set line
      then Some (py_strip (takeWhile (\<lambda>c. c \<noteq> CHR ''='') line), py_strip (tl (dropWhile (\<lambda>c. c \<noteq> CHR ''='') line)))
      else None)"

definition is_value :: "string \<Rightarrow> bool" where
  "is_value value \<longleftrightarrow> value \<noteq> [] \<and> value \<noteq> ''change_me''"

definition assignments :: "string \<Rightarrow> (string \<times> string) list" where
  "assignments content = List.map_filter assignment (file_lines content)"

text \<open>\<^verbatim>\<open>check_env_file\<close>: whether the file exists, the keys with a value, and the keys without. None is the exception of reading it.\<close>

definition check_env_file :: "files \<Rightarrow> string \<Rightarrow> (bool \<times> string list \<times> string list) option" where
  "check_env_file fs env_path =
     (if \<not> path_exists fs env_path then Some (False, [], [])
      else
        (case read_text fs env_path of
           None \<Rightarrow> None
         | Some content \<Rightarrow>
             Some (True, map fst (filter (\<lambda>(k, v). is_value v) (assignments content)),
               map fst (filter (\<lambda>(k, v). \<not> is_value v) (assignments content)))))"

definition is_set :: "dict \<Rightarrow> string \<Rightarrow> bool" where
  "is_set env_vars var = (case map_of env_vars var of None \<Rightarrow> False | Some v \<Rightarrow> is_value v)"

definition check_required_vars :: "dict \<Rightarrow> string list \<Rightarrow> string list \<times> string list" where
  "check_required_vars env_vars required =
     (filter (is_set env_vars) required, filter (\<lambda>v. \<not> is_set env_vars v) required)"

definition check_service_urls :: "dict \<Rightarrow> (string \<times> string) list" where
  "check_service_urls env_vars = filter (\<lambda>(key, value). suffix ''_URL'' key \<and> is_value value) env_vars"

definition check_database_urls :: "dict \<Rightarrow> (string \<times> string) list" where
  "check_database_urls env_vars = filter (\<lambda>(key, value). sublist ''DATABASE_URL'' key \<and> is_value value) env_vars"

definition BACKEND_REQUIRED :: "string list" where
  "BACKEND_REQUIRED = [''JWT_SECRET'', ''SENTRY_DSN'', ''RABBITMQ_HOST'', ''REDIS_URL'']"

definition FRONTEND_REQUIRED :: "string list" where
  "FRONTEND_REQUIRED = [''VITE_API_BASE_URL'', ''VITE_SENTRY_DSN'', ''VITE_POSTHOG_API_KEY'']"

text \<open>What is printed, and whether the checks passed so far.\<close>

definition required_line :: "dict \<Rightarrow> string list \<Rightarrow> mark \<times> string" where
  "required_line env_vars required =
     (case check_required_vars env_vars required of (present, missing) \<Rightarrow>
        if missing \<noteq> [] then (Cross, ''Missing required variables: '' @ join_with '', '' missing)
        else (Tick, ''All required variables are set''))"

definition all_set :: "dict \<Rightarrow> string list \<Rightarrow> bool" where
  "all_set env_vars required = (snd (check_required_vars env_vars required) = [])"

definition configured_line :: "dict \<Rightarrow> string \<Rightarrow> string \<Rightarrow> string \<Rightarrow> mark \<times> string" where
  "configured_line env_vars var good bad =
     (if var \<in> set (map fst env_vars) \<and> map_of env_vars var \<noteq> Some ''change_me'' then (Tick, good) else (Warning, bad))"

datatype line = Marked mark string | Count string nat

text \<open>
  \<open>load\<close> is \<^verbatim>\<open>load_dotenv\<close>, the library that reads the text of an environment file into the environment
  of the process, here \<open>environment\<close>.
\<close>

definition backend_section ::
  "(string \<Rightarrow> dict \<Rightarrow> dict) \<Rightarrow> files \<Rightarrow> string \<Rightarrow> dict \<Rightarrow> (line list \<times> bool) option" where
  "backend_section load fs dir environment =
     (let path = dir @ ''/.env'' in
      case check_env_file fs path of
        None \<Rightarrow> None
      | Some (env_exists, required_vars, optional_vars) \<Rightarrow>
          if \<not> env_exists then Some ([Marked Cross (''.env file not found at '' @ path)], False)
          else
            (case read_text fs path of
               None \<Rightarrow> None
             | Some content \<Rightarrow>
                 (let env_vars = load content environment in
                  Some
                   ([Marked Tick (''.env file found at '' @ path),
                     case_prod Marked (required_line env_vars BACKEND_REQUIRED),
                     Count ''Database URLs configured: '' (length (check_database_urls env_vars)),
                     Count ''Service URLs configured: '' (length (check_service_urls env_vars)),
                     case_prod Marked (configured_line env_vars ''SENTRY_DSN'' ''Sentry error tracking configured'' ''Sentry not configured'')],
                    all_set env_vars BACKEND_REQUIRED))))"

definition frontend_vars :: "string \<Rightarrow> dict" where
  "frontend_vars content = fold (\<lambda>(key, value) d. AList.update key value d) (assignments content) []"

definition frontend_section :: "files \<Rightarrow> string \<Rightarrow> (line list \<times> bool) option" where
  "frontend_section fs dir =
     (let path = dir @ ''/.env'' in
      case check_env_file fs path of
        None \<Rightarrow> None
      | Some (env_exists, required_vars, optional_vars) \<Rightarrow>
          if \<not> env_exists then Some ([Marked Cross (''.env file not found at '' @ path)], False)
          else
            (case read_text fs path of
               None \<Rightarrow> None
             | Some content \<Rightarrow>
                 (let env_vars = frontend_vars content in
                  Some
                   ([Marked Tick (''.env file found at '' @ path),
                     case_prod Marked (required_line env_vars FRONTEND_REQUIRED),
                     case_prod Marked (configured_line env_vars ''VITE_SENTRY_DSN'' ''Sentry error tracking configured'' ''Sentry not configured''),
                     case_prod Marked (configured_line env_vars ''VITE_POSTHOG_API_KEY'' ''PostHog analytics configured'' ''PostHog not configured'')],
                    all_set env_vars FRONTEND_REQUIRED))))"

text \<open>
  The script: the printed lines and the exit code. \<open>script_dir\<close> is the directory of the script and
  \<open>parent\<close> the one above it.
\<close>

definition verify_env ::
  "(string \<Rightarrow> dict \<Rightarrow> dict) \<Rightarrow> files \<Rightarrow> string \<Rightarrow> string \<Rightarrow> dict \<Rightarrow> (line list \<times> nat) option" where
  "verify_env load fs script_dir parent environment =
     (case backend_section load fs script_dir environment of
        None \<Rightarrow> None
      | Some (lines, ok) \<Rightarrow>
          (case (if path_exists fs (parent @ ''/ticketremaster-f'')
                 then frontend_section fs (parent @ ''/ticketremaster-f'') else Some ([], True)) of
             None \<Rightarrow> None
           | Some (lines', ok') \<Rightarrow> Some (lines @ lines', if ok \<and> ok' then 0 else 1)))"

subsection \<open>A tool run in every project\<close>

text \<open>
  A directory listing gives each entry and whether it is a directory; \<open>run\<close> is the tool on a
  project: its exit code, output and error output.
\<close>

definition iter_projects :: "(string \<times> bool) list list \<Rightarrow> string list" where
  "iter_projects bases = concat (map (\<lambda>base. sort (map fst (filter snd base))) bases)"

definition iter_test_projects :: "(string \<Rightarrow> bool) \<Rightarrow> (string \<times> bool) list list \<Rightarrow> string list" where
  "iter_test_projects has_tests bases = filter has_tests (iter_projects bases)"

definition newline :: string where "newline = [CHR 0x0A]"

definition format_failure :: "string \<Rightarrow> string \<times> string \<Rightarrow> string" where
  "format_failure label out =
     (let output = join_with newline (filter (\<lambda>part. py_strip part \<noteq> []) [fst out, snd out]) in
      py_strip (label @ newline @ output))"

definition project_failures :: "(string \<Rightarrow> int \<times> string \<times> string) \<Rightarrow> string list \<Rightarrow> string list" where
  "project_failures run projects =
     map (\<lambda>p. format_failure p (snd (run p))) (filter (\<lambda>p. fst (run p) \<noteq> 0) projects)"

text \<open>The message of \<^verbatim>\<open>SystemExit\<close>; None is a script that ends normally.\<close>

definition check_projects :: "(string \<Rightarrow> int \<times> string \<times> string) \<Rightarrow> (string \<times> bool) list list \<Rightarrow> string option" where
  "check_projects run bases =
     (let failures = project_failures run (iter_projects bases) in
      if failures \<noteq> [] then Some (join_with (newline @ newline) failures) else None)"

text \<open>
  The two scripts. \<open>run\<close> is \<^verbatim>\<open>subprocess.run\<close> of a command in a directory, \<open>executable\<close> the interpreter and
  \<open>root\<close> the directory of the repository.
\<close>

definition python_command :: "string \<Rightarrow> string list \<Rightarrow> string list" where
  "python_command executable args = executable # args"

definition lint_repo ::
  "(string list \<Rightarrow> string \<Rightarrow> int \<times> string \<times> string) \<Rightarrow> string \<Rightarrow> (string \<times> bool) list list \<Rightarrow> string option" where
  "lint_repo run executable bases =
     check_projects (run (python_command executable
       [''-m'', ''ruff'', ''check'', ''.'', ''--select'', ''F,E9'', ''--extend-exclude'', ''*_pb2.py,*_pb2_grpc.py,migrations/versions''])) bases"

definition typecheck_repo ::
  "(string list \<Rightarrow> string \<Rightarrow> int \<times> string \<times> string) \<Rightarrow> string \<Rightarrow> string \<Rightarrow> (string \<times> bool) list list \<Rightarrow> string option" where
  "typecheck_repo run executable root bases =
     check_projects (run (python_command executable
       [''-m'', ''mypy'', ''.'', ''--config-file'', root @ ''/mypy.ini''])) bases"

subsection \<open>What a check may do to the results\<close>

definition marks :: "mark \<Rightarrow> (mark \<times> string) list \<Rightarrow> nat" where
  "marks k ms = length (filter (\<lambda>m. fst m = k) ms)"

lemma marks_simps [simp]:
  "marks k [] = 0" "marks k (m # ms) = (if fst m = k then Suc (marks k ms) else marks k ms)"
  "marks k (ms @ ns) = marks k ms + marks k ns"
  by (simp_all add: marks_def)

lemma marks_zero: "marks k ms = 0 \<longleftrightarrow> k \<notin> fst ` set ms"
  by (auto simp: marks_def filter_empty_conv)

text \<open>The results with some findings appended and counted.\<close>

definition report :: "(mark \<times> string) list \<Rightarrow> verification_result \<Rightarrow> verification_result" where
  "report ms r = \<lparr>vr_passed = vr_passed r + marks Tick ms, vr_failed = vr_failed r + marks Cross ms,
     vr_warnings = vr_warnings r + marks Warning ms, vr_results = vr_results r @ ms\<rparr>"

lemma report_simps [simp]:
  "report [] r = r" "report ns (report ms r) = report (ms @ ns) r"
  by (simp_all add: report_def)

lemma report_fields [simp]:
  "vr_passed (report ms r) = vr_passed r + marks Tick ms" "vr_failed (report ms r) = vr_failed r + marks Cross ms"
  "vr_warnings (report ms r) = vr_warnings r + marks Warning ms" "vr_results (report ms r) = vr_results r @ ms"
  by (simp_all add: report_def)

lemma add_is_report:
  "add_pass m r = report [(Tick, m)] r" "add_fail m r = report [(Cross, m)] r" "add_warning m r = report [(Warning, m)] r"
  by (simp_all add: add_pass_def add_fail_def add_warning_def report_def)

lemma new_result_fields [simp]:
  "vr_passed new_result = 0" "vr_failed new_result = 0" "vr_warnings new_result = 0" "vr_results new_result = []"
  by (simp_all add: new_result_def)

text \<open>The results count what they list.\<close>

definition tally :: "verification_result \<Rightarrow> bool" where
  "tally r \<longleftrightarrow> vr_passed r = marks Tick (vr_results r) \<and> vr_failed r = marks Cross (vr_results r)
     \<and> vr_warnings r = marks Warning (vr_results r)"

lemma tally_new: "tally new_result"
  by (simp add: tally_def)

text \<open>What a check finds, and a check that finds nothing wrong.\<close>

definition found :: "script_check \<Rightarrow> (mark \<times> string) list option" where
  "found c = map_option vr_results (c new_result)"

definition clean :: "script_check \<Rightarrow> bool" where
  "clean c \<longleftrightarrow> (\<exists>ms. found c = Some ms \<and> Cross \<notin> fst ` set ms)"

text \<open>
  The contract of a check: what it finds does not depend on the results so far, and it only appends
  and counts it.
\<close>

locale reporter =
  fixes c :: script_check
  assumes reports: "c r = map_option (\<lambda>ms. report ms r) (found c)"
begin

lemma tally_kept: "c r = Some r' \<Longrightarrow> tally r \<Longrightarrow> tally r'"
  by (auto simp: tally_def reports [of r])

lemma results_kept: "c r = Some r' \<Longrightarrow> prefix (vr_results r) (vr_results r')"
  by (auto simp: reports [of r])

lemma ends_anywhere: "c r = None \<longleftrightarrow> found c = None"
  by (simp add: reports [of r])

lemma clean_iff: "(\<exists>r'. c r = Some r' \<and> vr_failed r' = vr_failed r) \<longleftrightarrow> clean c"
  by (auto simp: clean_def marks_zero reports [of r])

end

lemma reporterI: "(\<And>r. c r = map_option (\<lambda>ms. report ms r) m) \<Longrightarrow> reporter c \<and> found c = m"
  by (auto simp: reporter_def found_def option.map_comp comp_def option.map_ident)

text \<open>Checks one after another.\<close>

primrec joined :: "script_check list \<Rightarrow> (mark \<times> string) list option" where
  "joined [] = Some []"
| "joined (c # cs) = (case found c of None \<Rightarrow> None | Some ms \<Rightarrow> map_option (\<lambda>ns. ms @ ns) (joined cs))"

lemma in_turn_report:
  "\<forall>c\<in>set cs. reporter c \<Longrightarrow> in_turn cs r = map_option (\<lambda>ms. report ms r) (joined cs)"
  by (induction cs arbitrary: r)
     (auto simp: reporter.reports option.map_comp comp_def split: option.split)

lemma joined_clean:
  "(\<exists>ms. joined cs = Some ms \<and> Cross \<notin> fst ` set ms) \<longleftrightarrow> (\<forall>c\<in>set cs. clean c)"
proof (induction cs)
  case (Cons c cs)
  show ?case
  proof (cases "found c")
    case None
    then show ?thesis by (simp add: clean_def)
  next
    case (Some ms)
    have "(\<exists>ks. joined (c # cs) = Some ks \<and> Cross \<notin> fst ` set ks)
        \<longleftrightarrow> Cross \<notin> fst ` set ms \<and> (\<exists>ns. joined cs = Some ns \<and> Cross \<notin> fst ` set ns)"
      using Some by (auto simp: image_Un)
    then show ?thesis using Some Cons by (simp add: clean_def)
  qed
qed simp

lemma in_turn_reporter:
  assumes "\<forall>c\<in>set cs. reporter c"
  shows "reporter (in_turn cs)" and "clean (in_turn cs) \<longleftrightarrow> (\<forall>c\<in>set cs. clean c)"
proof -
  have r: "reporter (in_turn cs) \<and> found (in_turn cs) = joined cs"
    by (rule reporterI) (rule in_turn_report [OF assms])
  then show "reporter (in_turn cs)" by simp
  show "clean (in_turn cs) \<longleftrightarrow> (\<forall>c\<in>set cs. clean c)"
    using r joined_clean [of cs] by (simp add: clean_def)
qed

text \<open>The single checks: each keeps the contract, and when it is clean.\<close>

named_theorems keeps_contract \<open>checks that keep the contract\<close>
named_theorems clean_when \<open>when a check finds nothing wrong\<close>

lemma reporter_in_turn [keeps_contract]: "(\<And>c. c \<in> set cs \<Longrightarrow> reporter c) \<Longrightarrow> reporter (in_turn cs)"
  by (rule in_turn_reporter) blast

lemma wants_contract:
  "reporter (wants fs dir f) \<and> found (wants fs dir f) =
     Some [if path_exists fs (dir @ fst f) then (Tick, snd f @ '': '' @ dir @ fst f) else (Cross, snd f @ '' missing: '' @ dir @ fst f)]"
  by (rule reporterI) (simp add: wants_def check_file_exists_def add_is_report)

lemmas reporter_wants [keeps_contract] = wants_contract [THEN conjunct1]

lemma clean_wants [clean_when]: "clean (wants fs dir f) \<longleftrightarrow> path_exists fs (dir @ fst f)"
  by (simp add: clean_def wants_contract)

lemma pass_or_warn_contract:
  "reporter (pass_or_warn b good bad) \<and> found (pass_or_warn b good bad) = Some [if b then (Tick, good) else (Warning, bad)]"
  by (rule reporterI) (simp add: pass_or_warn_def add_is_report)

lemmas reporter_pass_or_warn [keeps_contract] = pass_or_warn_contract [THEN conjunct1]

lemma clean_pass_or_warn [clean_when]: "clean (pass_or_warn b good bad)"
  by (simp add: clean_def pass_or_warn_contract)

lemma wants_content_contract:
  "reporter (wants_content fs path strings description) \<and> found (wants_content fs path strings description) =
    (if \<not> path_exists fs path then Some [(Cross, ''File not found: '' @ path)]
     else map_option (\<lambda>t. [if \<forall>s\<in>set strings. sublist s t then (Tick, description @ '': All required content present'')
        else (Cross, description @ '': Missing: '' @ join_with '', '' (filter (\<lambda>s. \<not> sublist s t) strings))]) (read_text fs path))"
  by (rule reporterI)
     (cases "read_text fs path"; auto simp: wants_content_def check_file_content_def add_is_report Let_def filter_empty_conv)

lemmas reporter_wants_content [keeps_contract] = wants_content_contract [THEN conjunct1]

lemma read_text_exists: "read_text fs path = Some t \<Longrightarrow> path_exists fs path"
  by (cases "fs path") (simp_all add: read_text_def path_exists_def)

lemma clean_wants_content [clean_when]:
  "clean (wants_content fs path strings description) \<longleftrightarrow> (\<exists>t. read_text fs path = Some t \<and> (\<forall>s\<in>set strings. sublist s t))"
  using wants_content_contract [of fs path strings description] read_text_exists [of fs path]
  by (cases "read_text fs path") (auto simp: clean_def split: if_splits)

lemma nothing_contract: "reporter Some \<and> found Some = Some []"
  by (rule reporterI) simp

lemma exception_contract: "reporter (\<lambda>r. None) \<and> found (\<lambda>r. None) = None"
  by (rule reporterI) simp

lemma add_fail_contract: "reporter (\<lambda>r. Some (add_fail m r)) \<and> found (\<lambda>r. Some (add_fail m r)) = Some [(Cross, m)]"
  by (rule reporterI) (simp add: add_is_report)

lemmas contract_cases = nothing_contract exception_contract add_fail_contract

lemma clean_cases [clean_when]: "clean Some" "\<not> clean (\<lambda>r. None)" "\<not> clean (\<lambda>r. Some (add_fail m r))"
  by (simp_all add: clean_def contract_cases)

lemma if_there_cases:
  "if_there fs path c =
    (if \<not> path_exists fs path then Some else (case read_text fs path of None \<Rightarrow> \<lambda>r. None | Some t \<Rightarrow> c t))"
  by (rule ext) (simp add: if_there_def split: option.split)

lemma reporter_if_there [keeps_contract]: "(\<And>t. reporter (c t)) \<Longrightarrow> reporter (if_there fs path c)"
  by (simp add: if_there_cases contract_cases split: option.split)

lemma clean_if_there [clean_when]:
  "clean (if_there fs path c) \<longleftrightarrow> (path_exists fs path \<longrightarrow> (\<exists>t. read_text fs path = Some t \<and> clean (c t)))"
  by (auto simp: if_there_cases clean_cases split: option.split)

subsection \<open>The parts of \<^verbatim>\<open>verify_all.py\<close> keep the contract\<close>

lemma check_vercel_is:
  "check_vercel fs loads = if_there fs (frontend_dir @ ''/vercel.json'') (\<lambda>t.
     case loads t of None \<Rightarrow> \<lambda>r. Some (add_fail ''Invalid vercel.json'' r)
     | Some config \<Rightarrow> (case py_in ''rewrites'' config of None \<Rightarrow> \<lambda>r. None
         | Some b \<Rightarrow> pass_or_warn b ''Vercel rewrites configured for SPA'' ''Vercel rewrites not configured''))"
  by (rule ext) (simp add: check_vercel_def if_there_def split: option.split)

lemma reporter_vercel [keeps_contract]: "reporter (check_vercel fs loads)"
  unfolding check_vercel_is
  by (rule reporter_if_there) (simp add: contract_cases reporter_pass_or_warn split: option.split)

definition rewrites_readable :: "(string \<Rightarrow> 'n data option) \<Rightarrow> string \<Rightarrow> bool" where
  "rewrites_readable loads t \<longleftrightarrow> (\<exists>config. loads t = Some config \<and> py_in ''rewrites'' config \<noteq> None)"

lemma clean_vercel [clean_when]:
  "clean (check_vercel fs loads) \<longleftrightarrow> (path_exists fs (frontend_dir @ ''/vercel.json'')
     \<longrightarrow> (\<exists>t. read_text fs (frontend_dir @ ''/vercel.json'') = Some t \<and> rewrites_readable loads t))"
  unfolding check_vercel_is clean_if_there rewrites_readable_def
  by (auto simp: clean_cases clean_pass_or_warn split: option.split)

lemma check_scripts_is:
  "check_scripts scripts =
     (case (build_checks_types scripts, py_in ''typecheck'' scripts, py_in ''test'' scripts) of
        (Some b, Some t, Some u) \<Rightarrow>
          in_turn
            [pass_or_warn b ''Build script includes TypeScript check'' ''Build script may not include TypeScript check'',
             pass_or_warn t ''TypeScript typecheck script present'' ''No typecheck script found'',
             pass_or_warn u ''Test script present'' ''No test script found'']
      | _ \<Rightarrow> (\<lambda>r. None))"
  by (rule ext) (simp add: check_scripts_def split: option.split)

lemma reporter_scripts: "reporter (check_scripts scripts)"
  by (auto simp: check_scripts_is contract_cases split: option.split intro!: keeps_contract)

lemma clean_scripts: "clean (check_scripts scripts) \<longleftrightarrow> build_checks_types scripts \<noteq> None \<and> py_in ''test'' scripts \<noteq> None"
proof -
  have "py_in ''typecheck'' scripts = None \<longleftrightarrow> py_in ''test'' scripts = None"
    by (cases scripts) simp_all
  then show ?thesis
    by (auto simp: check_scripts_is clean_cases in_turn_reporter(2) reporter_pass_or_warn clean_pass_or_warn split: option.split)
qed

text \<open>A description of a package with which the checks of its scripts do not raise.\<close>

definition package_readable :: "(string \<Rightarrow> 'n data option) \<Rightarrow> string \<Rightarrow> bool" where
  "package_readable loads t \<longleftrightarrow> (\<exists>package scripts. loads t = Some package
     \<and> py_get ''scripts'' (DObj []) package = Some scripts
     \<and> build_checks_types scripts \<noteq> None \<and> py_in ''test'' scripts \<noteq> None)"

lemma check_package_is:
  "check_package fs loads =
     (case Option.bind (Option.bind (read_text fs (frontend_dir @ ''/package.json'')) loads) (py_get ''scripts'' (DObj [])) of
        None \<Rightarrow> \<lambda>r. None | Some scripts \<Rightarrow> check_scripts scripts)"
  by (rule ext) (simp add: check_package_def split: option.split bind_split)

lemma reporter_package [keeps_contract]: "reporter (check_package fs loads)"
  by (simp add: check_package_is contract_cases reporter_scripts split: option.split)

lemma clean_package [clean_when]:
  "clean (check_package fs loads) \<longleftrightarrow>
     (\<exists>t. read_text fs (frontend_dir @ ''/package.json'') = Some t \<and> package_readable loads t)"
  unfolding package_readable_def
  by (auto simp: check_package_is clean_cases clean_scripts Option.bind_eq_Some_conv Option.bind_eq_None_conv split: option.split)

lemma only_if_contract:
  assumes "reporter c"
  shows "reporter (\<lambda>r. if b then c r else Some r)" and "clean (\<lambda>r. if b then c r else Some r) \<longleftrightarrow> (b \<longrightarrow> clean c)"
  using assms nothing_contract by (cases b; simp add: clean_def)+

lemma reporter_sentry [keeps_contract]: "reporter (sentry_in_service fs name)" "reporter (sentry_in_orchestrator fs name)"
  unfolding sentry_in_service_def [abs_def] sentry_in_orchestrator_def [abs_def] Let_def
  by (rule only_if_contract reporter_wants_content)+

definition service_app :: "string \<Rightarrow> string" where
  "service_app name = backend_dir @ ''/services/'' @ name @ ''/app.py''"

definition orchestrator_app :: "string \<Rightarrow> string" where
  "orchestrator_app name = backend_dir @ ''/orchestrators/'' @ name @ ''/app.py''"

lemma clean_sentry [clean_when]:
  "clean (sentry_in_service fs name) \<longleftrightarrow> (path_exists fs (service_app name)
     \<longrightarrow> (\<exists>t. read_text fs (service_app name) = Some t \<and> sublist ''init_sentry'' t
           \<and> sublist (''service_name='' @ [CHR 0x22] @ name @ [CHR 0x22]) t))"
  "clean (sentry_in_orchestrator fs name) \<longleftrightarrow> (path_exists fs (orchestrator_app name)
     \<longrightarrow> (\<exists>t. read_text fs (orchestrator_app name) = Some t \<and> sublist ''init_sentry'' t))"
  unfolding sentry_in_service_def [abs_def] sentry_in_orchestrator_def [abs_def] Let_def
    only_if_contract(2) [OF reporter_wants_content] clean_wants_content service_app_def orchestrator_app_def
  by simp_all

lemma check_compose_is:
  "check_compose fs = (case read_text fs (backend_dir @ ''/docker-compose.yml'') of None \<Rightarrow> \<lambda>r. None
     | Some t \<Rightarrow> pass_or_warn (sublist ''notification-service'' t)
            ''Docker Compose includes notification service'' ''Notification service not in docker-compose.yml'')"
  by (rule ext) (simp add: check_compose_def split: option.split)

lemma reporter_compose [keeps_contract]: "reporter (check_compose fs)"
  by (simp add: check_compose_is contract_cases reporter_pass_or_warn split: option.split)

lemma clean_compose [clean_when]: "clean (check_compose fs) \<longleftrightarrow> read_text fs (backend_dir @ ''/docker-compose.yml'') \<noteq> None"
  by (simp add: check_compose_is clean_cases clean_pass_or_warn split: option.split)

lemma kong_contract [keeps_contract, clean_when]:
  "reporter (check_kong fs)"
  "clean (check_kong fs) \<longleftrightarrow> (path_exists fs (backend_dir @ ''/api-gateway/kong.yml'')
     \<longrightarrow> read_text fs (backend_dir @ ''/api-gateway/kong.yml'') \<noteq> None)"
  unfolding check_kong_def by (auto simp: clean_if_there clean_pass_or_warn intro!: keeps_contract)

lemma env_contract [keeps_contract, clean_when]:
  "reporter (env_warning side vars t)" "clean (env_warning side vars t)" "reporter (placeholders t)" "clean (placeholders t)"
  by (simp_all add: env_warning_def placeholders_def Let_def reporter_pass_or_warn clean_pass_or_warn)

text \<open>Compiler options with which the checks do not raise.\<close>

definition options_readable :: "'n data \<Rightarrow> bool" where
  "options_readable config \<longleftrightarrow> (\<exists>kvs paths. py_get ''compilerOptions'' (DObj []) config = Some (DObj kvs)
     \<and> py_get ''paths'' (DObj []) (DObj kvs) = Some paths \<and> py_in ''@/*'' paths \<noteq> None)"

definition option_marks :: "'n::zero data \<Rightarrow> 'n data \<Rightarrow> 'n data \<Rightarrow> bool \<Rightarrow> script_check list" where
  "option_marks s l p a =
    [pass_or_warn (py_truth s) ''TypeScript strict mode enabled'' ''TypeScript strict mode not enabled'',
     pass_or_warn (py_truth l) ''noUnusedLocals enabled'' ''noUnusedLocals not enabled'',
     pass_or_warn (py_truth p) ''noUnusedParameters enabled'' ''noUnusedParameters not enabled'',
     pass_or_warn a ''Path alias @/* configured'' ''Path alias @/* not configured'']"

lemma option_marks_contract: "reporter (in_turn (option_marks s l p a))" "clean (in_turn (option_marks s l p a))"
  by (simp_all add: option_marks_def in_turn_reporter reporter_pass_or_warn clean_pass_or_warn)

lemma check_options_is:
  "check_options config = (if options_readable config then
     (case py_get ''compilerOptions'' (DObj []) config of
        Some options \<Rightarrow> in_turn (option_marks (the (py_get ''strict'' (DBool False) options))
          (the (py_get ''noUnusedLocals'' (DBool False) options)) (the (py_get ''noUnusedParameters'' (DBool False) options))
          (the (py_in ''@/*'' (the (py_get ''paths'' (DObj []) options)))))
      | None \<Rightarrow> \<lambda>r. None)
     else (\<lambda>r. None))"
proof (rule ext)
  fix r
  show "check_options config r = (if options_readable config then
     (case py_get ''compilerOptions'' (DObj []) config of
        Some options \<Rightarrow> in_turn (option_marks (the (py_get ''strict'' (DBool False) options))
          (the (py_get ''noUnusedLocals'' (DBool False) options)) (the (py_get ''noUnusedParameters'' (DBool False) options))
          (the (py_in ''@/*'' (the (py_get ''paths'' (DObj []) options)))))
      | None \<Rightarrow> \<lambda>r. None)
     else (\<lambda>r. None)) r"
  proof (cases "py_get ''compilerOptions'' (DObj []) config")
    case None
    then show ?thesis by (simp add: check_options_def options_readable_def)
  next
    case (Some options)
    then show ?thesis
      by (cases options) (auto simp: check_options_def options_readable_def option_marks_def split: option.split)
  qed
qed

lemma options_contract [keeps_contract, clean_when]:
  "reporter (check_options config)" "clean (check_options config) \<longleftrightarrow> options_readable config"
  by (auto simp: check_options_is contract_cases clean_cases option_marks_contract options_readable_def split: option.split)

lemma typescript_is:
  "verify_typescript fs loads = if_there fs (frontend_dir @ ''/tsconfig.json'') (\<lambda>t.
     case loads t of None \<Rightarrow> \<lambda>r. Some (add_fail ''Invalid tsconfig.json'' r) | Some config \<Rightarrow> check_options config)"
  unfolding verify_typescript_def by (rule arg_cong [where f = "if_there fs _"]) (simp add: fun_eq_iff split: option.split)

lemma typescript_contract [keeps_contract, clean_when]:
  "reporter (verify_typescript fs loads)"
  "clean (verify_typescript fs loads) \<longleftrightarrow> (path_exists fs (frontend_dir @ ''/tsconfig.json'')
     \<longrightarrow> (\<exists>t config. read_text fs (frontend_dir @ ''/tsconfig.json'') = Some t \<and> loads t = Some config \<and> options_readable config))"
  unfolding typescript_is clean_if_there
  by (auto simp: contract_cases clean_cases options_contract intro!: reporter_if_there split: option.split)

interpretation frontend: reporter "verify_frontend fs loads" for fs loads
  unfolding verify_frontend_def by (auto intro!: keeps_contract)

interpretation backend: reporter "verify_backend fs" for fs
  unfolding verify_backend_def by (auto intro!: keeps_contract)

interpretation env_files: reporter "verify_env_files fs" for fs
  unfolding verify_env_files_def by (auto intro!: keeps_contract)

interpretation typescript: reporter "verify_typescript fs loads" for fs loads
  by (rule typescript_contract)

interpretation test_files: reporter "verify_tests fs" for fs
  unfolding verify_tests_def by (auto intro!: keeps_contract)

interpretation kubernetes: reporter "verify_kubernetes fs" for fs
  unfolding verify_kubernetes_def by (auto intro!: keeps_contract)

lemmas parts_report = frontend.reporter_axioms backend.reporter_axioms env_files.reporter_axioms
  typescript.reporter_axioms test_files.reporter_axioms kubernetes.reporter_axioms

definition all_parts :: "files \<Rightarrow> (string \<Rightarrow> 'n::zero data option) \<Rightarrow> script_check" where
  "all_parts fs loads = in_turn
     [verify_frontend fs loads, verify_backend fs, verify_env_files fs, verify_typescript fs loads,
      verify_tests fs, verify_kubernetes fs]"

interpretation script: reporter "all_parts fs loads" for fs loads
  unfolding all_parts_def by (auto intro!: reporter_in_turn parts_report)

lemma verify_all_is:
  "verify_all fs loads = map_option (\<lambda>r. ((vr_results r, vr_passed r, vr_failed r, vr_warnings r),
     if vr_failed r = 0 then 0 else 1)) (all_parts fs loads new_result)"
  by (simp add: verify_all_def all_parts_def print_summary_def split: option.split)

text \<open>All that the script asks for before it exits with 0.\<close>

definition in_dir :: "string \<Rightarrow> (string \<times> string) list \<Rightarrow> string list" where
  "in_dir dir fs = map (\<lambda>f. dir @ fst f) fs"

definition REQUIRED_PATHS :: "string list" where
  "REQUIRED_PATHS = in_dir frontend_dir (FRONTEND_FILES @ FRONTEND_SOURCES @ FRONTEND_TESTS)
     @ in_dir backend_dir (BACKEND_FILES @ K8S_FILES @ BACKEND_TESTS @ K8S_ESSENTIAL)"

definition READ_PATHS :: "string list" where
  "READ_PATHS = map ((@) frontend_dir) [''/.env'', ''/.env.example'']
     @ map ((@) backend_dir) [''/.env'', ''/.env.example'', ''/docker-compose.yml'', ''/k8s/base/seed-jobs.yaml'']"

definition frontend_ready :: "files \<Rightarrow> (string \<Rightarrow> 'n data option) \<Rightarrow> bool" where
  "frontend_ready fs loads \<longleftrightarrow>
     (\<exists>t. read_text fs (frontend_dir @ ''/src/main.ts'') = Some t \<and> sublist ''@sentry/vue'' t \<and> sublist ''Sentry.init'' t
        \<and> sublist ''posthog.init'' t)
   \<and> (\<exists>t. read_text fs (frontend_dir @ ''/vercel.json'') = Some t \<and> rewrites_readable loads t)
   \<and> (\<exists>t. read_text fs (frontend_dir @ ''/package.json'') = Some t \<and> package_readable loads t)
   \<and> (\<exists>t config. read_text fs (frontend_dir @ ''/tsconfig.json'') = Some t \<and> loads t = Some config \<and> options_readable config)"

definition backend_ready :: "files \<Rightarrow> bool" where
  "backend_ready fs \<longleftrightarrow>
     (\<forall>name\<in>{''user-service'', ''event-service''}. clean (sentry_in_service fs name))
   \<and> (\<forall>name\<in>{''auth-orchestrator'', ''event-orchestrator''}. clean (sentry_in_orchestrator fs name))
   \<and> clean (check_kong fs)"

definition installed :: "files \<Rightarrow> (string \<Rightarrow> 'n data option) \<Rightarrow> bool" where
  "installed fs loads \<longleftrightarrow> (\<forall>p\<in>set REQUIRED_PATHS. path_exists fs p) \<and> (\<forall>p\<in>set READ_PATHS. read_text fs p \<noteq> None)
     \<and> frontend_ready fs loads \<and> backend_ready fs"

lemma clean_in_turn: "\<forall>c\<in>set cs. reporter c \<Longrightarrow> clean (in_turn cs) \<longleftrightarrow> (\<forall>c\<in>set cs. clean c)"
  by (rule in_turn_reporter)

lemma all_wants: "(\<forall>f\<in>set ps. clean (wants fs dir f)) \<longleftrightarrow> (\<forall>p\<in>set (in_dir dir ps). path_exists fs p)"
  by (simp add: in_dir_def clean_wants)

lemma all_in_dir: "(\<forall>p\<in>set (in_dir d (xs @ ys)). path_exists fs p) \<longleftrightarrow>
    (\<forall>p\<in>set (in_dir d xs). path_exists fs p) \<and> (\<forall>p\<in>set (in_dir d ys). path_exists fs p)"
  by (auto simp: in_dir_def)

lemma same_text: "(\<exists>t. x = Some t \<and> P t) \<and> (\<exists>t. x = Some t \<and> Q t) \<longleftrightarrow> (\<exists>t. x = Some t \<and> P t \<and> Q t)"
  by auto

lemmas over_all = set_append ball_Un set_map all_wants all_in_dir list.set ball_simps insert_iff

lemma clean_frontend:
  "clean (verify_frontend fs loads) \<longleftrightarrow> (\<forall>p\<in>set (in_dir frontend_dir (FRONTEND_FILES @ FRONTEND_SOURCES)). path_exists fs p)
     \<and> (\<exists>t. read_text fs (frontend_dir @ ''/src/main.ts'') = Some t \<and> sublist ''@sentry/vue'' t \<and> sublist ''Sentry.init'' t
        \<and> sublist ''posthog.init'' t)
     \<and> clean (check_vercel fs loads) \<and> clean (check_package fs loads)"
proof -
  have "\<forall>c\<in>set (map (wants fs frontend_dir) FRONTEND_FILES
       @ [wants_content fs (frontend_dir @ ''/src/main.ts'') [''@sentry/vue'', ''Sentry.init''] ''Sentry integration'',
          wants_content fs (frontend_dir @ ''/src/main.ts'') [''posthog.init''] ''PostHog integration'']
       @ map (wants fs frontend_dir) FRONTEND_SOURCES
       @ [check_vercel fs loads, check_package fs loads]). reporter c"
    by (auto intro!: keeps_contract)
  from clean_in_turn [OF this] show ?thesis
    unfolding verify_frontend_def clean_wants_content over_all
    by (simp only: conj_assoc simp_thms same_text [symmetric]) blast
qed

lemma clean_backend:
  "clean (verify_backend fs) \<longleftrightarrow> (\<forall>p\<in>set (in_dir backend_dir (BACKEND_FILES @ K8S_FILES)). path_exists fs p)
     \<and> backend_ready fs \<and> read_text fs (backend_dir @ ''/docker-compose.yml'') \<noteq> None"
proof -
  have "\<forall>c\<in>set (map (wants fs backend_dir) BACKEND_FILES
       @ map (sentry_in_service fs) [''user-service'', ''event-service'']
       @ map (sentry_in_orchestrator fs) [''auth-orchestrator'', ''event-orchestrator'']
       @ map (wants fs backend_dir) K8S_FILES
       @ [check_compose fs, check_kong fs]). reporter c"
    by (auto intro!: keeps_contract)
  from clean_in_turn [OF this] show ?thesis
    unfolding verify_backend_def backend_ready_def over_all image_insert image_empty clean_compose by blast
qed

lemma clean_env_files:
  "clean (verify_env_files fs) \<longleftrightarrow> (\<forall>p\<in>{frontend_dir @ ''/.env'', backend_dir @ ''/.env'', frontend_dir @ ''/.env.example'',
     backend_dir @ ''/.env.example''}. path_exists fs p \<longrightarrow> read_text fs p \<noteq> None)"
proof -
  have "\<forall>c\<in>set [if_there fs (frontend_dir @ ''/.env'') (env_warning ''Frontend'' FRONTEND_VARS),
       if_there fs (backend_dir @ ''/.env'') (env_warning ''Backend'' BACKEND_VARS),
       if_there fs (frontend_dir @ ''/.env.example'') placeholders,
       if_there fs (backend_dir @ ''/.env.example'') placeholders]. reporter c"
    by (auto intro!: keeps_contract)
  from clean_in_turn [OF this] show ?thesis
    unfolding verify_env_files_def by (simp add: clean_if_there env_contract)
qed

lemma clean_tests:
  "clean (verify_tests fs) \<longleftrightarrow> (\<forall>p\<in>set (in_dir frontend_dir FRONTEND_TESTS @ in_dir backend_dir BACKEND_TESTS). path_exists fs p)"
proof -
  have "\<forall>c\<in>set (map (wants fs frontend_dir) FRONTEND_TESTS @ map (wants fs backend_dir) BACKEND_TESTS). reporter c"
    by (auto intro!: keeps_contract)
  from clean_in_turn [OF this] show ?thesis
    unfolding verify_tests_def over_all .
qed

definition seed_job_check :: "string \<Rightarrow> script_check" where
  "seed_job_check content = in_turn
     [pass_or_warn (sublist ''wait-for-dependencies'' content)
        ''Seed jobs have dependency wait containers'' ''Seed jobs may not wait for dependencies'',
      pass_or_warn (sublist ''backoffLimit'' content)
        ''Seed jobs have backoff limits'' ''Seed jobs may not have backoff limits'',
      pass_or_warn (sublist ''ttlSecondsAfterFinished'' content)
        ''Seed jobs have TTL cleanup'' ''Seed jobs may not have TTL cleanup'']"

lemma seed_job_contract: "reporter (seed_job_check t)" "clean (seed_job_check t)"
  by (simp_all add: seed_job_check_def in_turn_reporter reporter_pass_or_warn clean_pass_or_warn)

lemma kubernetes_is:
  "verify_kubernetes fs = in_turn (map (wants fs backend_dir) K8S_ESSENTIAL
     @ [if_there fs (backend_dir @ ''/k8s/base/seed-jobs.yaml'') seed_job_check])"
  by (simp only: verify_kubernetes_def seed_job_check_def [abs_def])

lemma clean_kubernetes:
  "clean (verify_kubernetes fs) \<longleftrightarrow> (\<forall>p\<in>set (in_dir backend_dir K8S_ESSENTIAL). path_exists fs p)
     \<and> (path_exists fs (backend_dir @ ''/k8s/base/seed-jobs.yaml'') \<longrightarrow> read_text fs (backend_dir @ ''/k8s/base/seed-jobs.yaml'') \<noteq> None)"
proof -
  have "\<forall>c\<in>set (map (wants fs backend_dir) K8S_ESSENTIAL @ [if_there fs (backend_dir @ ''/k8s/base/seed-jobs.yaml'') seed_job_check]).
      reporter c"
    by (auto intro!: reporter_wants reporter_if_there seed_job_contract)
  from clean_in_turn [OF this] show ?thesis
    unfolding kubernetes_is over_all clean_if_there by (simp add: seed_job_contract)
qed

lemma required_parts:
  "(\<forall>p\<in>set REQUIRED_PATHS. path_exists fs p) \<longleftrightarrow>
     (\<forall>p\<in>set (in_dir frontend_dir (FRONTEND_FILES @ FRONTEND_SOURCES)). path_exists fs p)
   \<and> (\<forall>p\<in>set (in_dir backend_dir (BACKEND_FILES @ K8S_FILES)). path_exists fs p)
   \<and> (\<forall>p\<in>set (in_dir frontend_dir FRONTEND_TESTS @ in_dir backend_dir BACKEND_TESTS). path_exists fs p)
   \<and> (\<forall>p\<in>set (in_dir backend_dir K8S_ESSENTIAL). path_exists fs p)"
  unfolding REQUIRED_PATHS_def over_all by blast

lemma required_there:
  assumes "\<forall>p\<in>set REQUIRED_PATHS. path_exists fs p"
  shows "path_exists fs (frontend_dir @ ''/.env'')" "path_exists fs (frontend_dir @ ''/.env.example'')"
    "path_exists fs (backend_dir @ ''/.env'')" "path_exists fs (backend_dir @ ''/.env.example'')"
    "path_exists fs (frontend_dir @ ''/vercel.json'')" "path_exists fs (frontend_dir @ ''/tsconfig.json'')"
    "path_exists fs (backend_dir @ ''/k8s/base/seed-jobs.yaml'')"
  using assms by (simp_all add: REQUIRED_PATHS_def in_dir_def FRONTEND_FILES_def BACKEND_FILES_def K8S_FILES_def)

lemma clean_script: "clean (all_parts fs loads) \<longleftrightarrow> installed fs loads"
proof -
  have r: "\<forall>c\<in>set [verify_frontend fs loads, verify_backend fs, verify_env_files fs, verify_typescript fs loads,
      verify_tests fs, verify_kubernetes fs]. reporter c"
    using parts_report by auto
  have parts: "clean (all_parts fs loads) \<longleftrightarrow> clean (verify_frontend fs loads) \<and> clean (verify_backend fs)
      \<and> clean (verify_env_files fs) \<and> clean (verify_typescript fs loads) \<and> clean (verify_tests fs) \<and> clean (verify_kubernetes fs)"
    unfolding all_parts_def clean_in_turn [OF r] by simp
  show ?thesis
  proof (cases "\<forall>p\<in>set REQUIRED_PATHS. path_exists fs p")
    case False
    then show ?thesis
      unfolding parts installed_def required_parts clean_frontend clean_backend clean_tests clean_kubernetes by blast
  next
    case True
    have req: "\<forall>p\<in>set (in_dir frontend_dir (FRONTEND_FILES @ FRONTEND_SOURCES)). path_exists fs p"
      "\<forall>p\<in>set (in_dir backend_dir (BACKEND_FILES @ K8S_FILES)). path_exists fs p"
      "\<forall>p\<in>set (in_dir frontend_dir FRONTEND_TESTS @ in_dir backend_dir BACKEND_TESTS). path_exists fs p"
      "\<forall>p\<in>set (in_dir backend_dir K8S_ESSENTIAL). path_exists fs p"
      using True unfolding required_parts by blast+
    have front: "clean (verify_frontend fs loads) \<and> clean (verify_typescript fs loads) \<longleftrightarrow> frontend_ready fs loads"
      unfolding clean_frontend typescript_contract clean_vercel clean_package frontend_ready_def
      using req(1) required_there [OF True] by blast
    have read: "clean (verify_env_files fs) \<and> clean (verify_kubernetes fs)
        \<and> read_text fs (backend_dir @ ''/docker-compose.yml'') \<noteq> None \<longleftrightarrow> (\<forall>p\<in>set READ_PATHS. read_text fs p \<noteq> None)"
      unfolding clean_env_files clean_kubernetes READ_PATHS_def
      using req(4) required_there [OF True] by (simp del: option.distinct) blast
    have server: "clean (verify_backend fs) \<longleftrightarrow> backend_ready fs \<and> read_text fs (backend_dir @ ''/docker-compose.yml'') \<noteq> None"
      unfolding clean_backend using req(2) by blast
    have tests: "clean (verify_tests fs)" unfolding clean_tests by (rule req(3))
    show ?thesis
      unfolding parts installed_def using True front read server tests by blast
  qed
qed

subsection \<open>What \<^verbatim>\<open>verify_all.py\<close> tells\<close>

text \<open>The script exits with 0 exactly where all it asks for is there.\<close>

lemma verify_all_zero: "(\<exists>printed. verify_all fs loads = Some (printed, 0)) \<longleftrightarrow> installed fs loads"
proof -
  have "(\<exists>printed. verify_all fs loads = Some (printed, 0)) \<longleftrightarrow> (\<exists>r. all_parts fs loads new_result = Some r \<and> vr_failed r = vr_failed new_result)"
    by (cases "all_parts fs loads new_result") (auto simp: verify_all_is)
  then show ?thesis unfolding script.clean_iff clean_script .
qed

text \<open>An installation with which it does.\<close>

definition ex_files :: files where
  "ex_files p = (if p \<in> set REQUIRED_PATHS then Some (Text ''@sentry/vue Sentry.init posthog.init'') else None)"

lemma installed_example: "installed ex_files (\<lambda>t. Some (DObj [] :: int data))"
proof -
  have t: "sublist ''@sentry/vue'' ''@sentry/vue Sentry.init posthog.init''" "sublist ''Sentry.init'' ''@sentry/vue Sentry.init posthog.init''"
    "sublist ''posthog.init'' ''@sentry/vue Sentry.init posthog.init''"
    by (simp_all add: sublist_Cons_right)
  have read: "read_text ex_files p = (if p \<in> set REQUIRED_PATHS then Some ''@sentry/vue Sentry.init posthog.init'' else None)" for p
    by (simp add: read_text_def ex_files_def)
  have ex: "path_exists ex_files p \<longleftrightarrow> p \<in> set REQUIRED_PATHS" for p by (simp add: path_exists_def ex_files_def)
  have "frontend_ready ex_files (\<lambda>t. Some (DObj [] :: int data))"
    by (auto simp: frontend_ready_def read t rewrites_readable_def package_readable_def build_checks_types_def options_readable_def
        REQUIRED_PATHS_def in_dir_def FRONTEND_FILES_def)
  moreover have "backend_ready ex_files"
    by (simp add: backend_ready_def clean_sentry kong_contract ex REQUIRED_PATHS_def in_dir_def service_app_def orchestrator_app_def
        frontend_dir_def backend_dir_def FRONTEND_FILES_def FRONTEND_SOURCES_def FRONTEND_TESTS_def BACKEND_FILES_def
        K8S_FILES_def BACKEND_TESTS_def K8S_ESSENTIAL_def)
  moreover have "set READ_PATHS \<subseteq> set REQUIRED_PATHS"
    by (simp add: READ_PATHS_def REQUIRED_PATHS_def in_dir_def FRONTEND_FILES_def BACKEND_FILES_def K8S_FILES_def)
  ultimately show ?thesis by (auto simp: installed_def read ex)
qed

text \<open>The printed totals count the printed lines, and the exit code is 0 exactly where none of them is a cross.\<close>

lemma verify_all_truthful:
  assumes "verify_all fs loads = Some ((lines, passed, failed, warnings), code)"
  shows "passed = marks Tick lines \<and> failed = marks Cross lines \<and> warnings = marks Warning lines
    \<and> code = (if Cross \<in> fst ` set lines then 1 else 0)"
proof -
  obtain r where r: "all_parts fs loads new_result = Some r" "lines = vr_results r" "passed = vr_passed r" "failed = vr_failed r"
      "warnings = vr_warnings r" "code = (if vr_failed r = 0 then 0 else 1)"
    using assms by (auto simp: verify_all_is)
  have "tally r" by (rule script.tally_kept [OF r(1) tally_new])
  with r show ?thesis by (auto simp: tally_def marks_zero split: if_splits)
qed

text \<open>
  Two files are read without a test: where the description of the package or the compose file is
  missing, the script ends with a traceback, and the summary that would have named the missing file is
  never printed.
\<close>

lemma in_turn_ends: "\<forall>c\<in>set cs. reporter c \<Longrightarrow> c \<in> set cs \<Longrightarrow> found c = None \<Longrightarrow> in_turn cs r = None"
proof -
  have "c \<in> set cs \<Longrightarrow> found c = None \<Longrightarrow> joined cs = None"
    by (induction cs) (auto split: option.split)
  then show "\<forall>c\<in>set cs. reporter c \<Longrightarrow> c \<in> set cs \<Longrightarrow> found c = None \<Longrightarrow> in_turn cs r = None"
    by (simp add: in_turn_report)
qed

lemma found_None: "(\<And>r. c r = None) \<Longrightarrow> found c = None"
  by (simp add: found_def)

lemma frontend_ends:
  "read_text fs (frontend_dir @ ''/package.json'') = None \<Longrightarrow> verify_frontend fs loads r = None"
  unfolding verify_frontend_def
  by (rule in_turn_ends [where c = "check_package fs loads"])
     (auto intro!: keeps_contract found_None simp: check_package_def)

lemma backend_ends:
  "read_text fs (backend_dir @ ''/docker-compose.yml'') = None \<Longrightarrow> verify_backend fs r = None"
  unfolding verify_backend_def
  by (rule in_turn_ends [where c = "check_compose fs"]) (auto intro!: keeps_contract found_None simp: check_compose_def)

lemma verify_all_traceback:
  assumes "\<not> path_exists fs (frontend_dir @ ''/package.json'') \<or> \<not> path_exists fs (backend_dir @ ''/docker-compose.yml'')"
  shows "verify_all fs loads = None"
proof -
  have "read_text fs p = None" if "\<not> path_exists fs p" for p
    using that by (simp add: read_text_def path_exists_def)
  with assms show ?thesis
    by (auto simp: verify_all_is all_parts_def frontend_ends backend_ends split: option.split)
qed

text \<open>
  The script never insists on a variable of an environment file: whatever text the files have, it
  warns at most, so the exit code is the same.
\<close>

lemma read_text_upd: "read_text (fs(p \<mapsto> Text t)) q = (if q = p then Some t else read_text fs q)"
  by (simp add: read_text_def)

lemma path_exists_upd: "path_exists (fs(p \<mapsto> Text t)) q \<longleftrightarrow> q = p \<or> path_exists fs q"
  by (simp add: path_exists_def)

lemma env_text_any:
  assumes "path_exists fs p" "read_text fs p \<noteq> None" and p: "p = frontend_dir @ ''/.env'' \<or> p = backend_dir @ ''/.env''"
  shows "installed (fs(p \<mapsto> Text t)) loads = installed fs loads"
proof -
  have ex: "path_exists (fs(p \<mapsto> Text t)) q = path_exists fs q" for q using assms(1) by (auto simp: path_exists_upd)
  have some: "read_text (fs(p \<mapsto> Text t)) q \<noteq> None \<longleftrightarrow> read_text fs q \<noteq> None" for q using assms(2) by (simp add: read_text_upd)
  have "frontend_ready (fs(p \<mapsto> Text t)) loads = frontend_ready fs loads"
    using p unfolding frontend_ready_def by (elim disjE) (simp_all add: read_text_upd frontend_dir_def backend_dir_def)
  moreover have "backend_ready (fs(p \<mapsto> Text t)) = backend_ready fs"
    using p unfolding backend_ready_def clean_sentry kong_contract ex some
    by (elim disjE) (simp_all add: read_text_upd service_app_def orchestrator_app_def frontend_dir_def backend_dir_def)
  ultimately show ?thesis unfolding installed_def ex some by simp
qed

lemma verify_all_env_any:
  assumes "read_text fs p = Some u" and "p = frontend_dir @ ''/.env'' \<or> p = backend_dir @ ''/.env''"
  shows "(\<exists>printed. verify_all (fs(p \<mapsto> Text t)) loads = Some (printed, 0)) \<longleftrightarrow> (\<exists>printed. verify_all fs loads = Some (printed, 0))"
  unfolding verify_all_zero using assms read_text_exists [OF assms(1)] by (intro env_text_any) auto

subsection \<open>What \<^verbatim>\<open>verify_env.py\<close> tells\<close>

text \<open>Of several assignments to a variable the last one counts.\<close>

lemma map_of_frontend_vars: "map_of (frontend_vars t) = map_of (rev (assignments t))"
proof -
  have "map_of (fold (\<lambda>(k, v) d. AList.update k v d) kvs d) = map_of d ++ map_of (rev kvs)" for kvs d
    by (induction kvs arbitrary: d) (auto simp: update_conv' map_add_def fun_eq_iff split: option.split)
  from this [of "assignments t" "[]"] show ?thesis by (simp add: frontend_vars_def)
qed

text \<open>
  The two readers of a file agree: where no variable is assigned twice, the variables that
  \<^verbatim>\<open>check_env_file\<close> lists first are those that \<^verbatim>\<open>check_required_vars\<close> finds set.
\<close>

lemma readers_agree:
  assumes "distinct (map fst (assignments t))" and "check_env_file fs p = Some (True, given, missing)" and "read_text fs p = Some t"
  shows "is_set (frontend_vars t) var \<longleftrightarrow> var \<in> set given"
proof -
  have g: "given = map fst (filter (\<lambda>(k, v). is_value v) (assignments t))"
    using assms(2,3) read_text_exists [OF assms(3)] by (simp add: check_env_file_def)
  have m: "map_of (rev (assignments t)) var = Some v \<longleftrightarrow> (var, v) \<in> set (assignments t)" for v
    using assms(1) by (simp add: map_of_eq_Some_iff rev_map [symmetric])
  have "is_set (frontend_vars t) var \<longleftrightarrow> (\<exists>v. map_of (rev (assignments t)) var = Some v \<and> is_value v)"
    by (simp add: is_set_def map_of_frontend_vars split: option.split)
  then show ?thesis unfolding m by (force simp: g)
qed

lemma all_set_iff: "all_set env_vars required \<longleftrightarrow> (\<forall>v\<in>set required. is_set env_vars v)"
  by (simp add: all_set_def check_required_vars_def filter_empty_conv)

text \<open>
  The exit code is 0 exactly where the file beside the script gives the backend its variables, and the
  frontend, if it is found, has its own.
\<close>

lemma check_env_file_there:
  "check_env_file fs p = None \<longleftrightarrow> path_exists fs p \<and> read_text fs p = None"
  "check_env_file fs p = Some (b, given, missing) \<Longrightarrow> b = path_exists fs p"
  by (auto simp: check_env_file_def split: if_splits option.splits)

lemma backend_section_ok:
  "backend_section load fs dir environment = Some (lines, ok) \<Longrightarrow>
     ok \<longleftrightarrow> (\<exists>t. read_text fs (dir @ ''/.env'') = Some t \<and> all_set (load t environment) BACKEND_REQUIRED)"
  by (auto simp: backend_section_def Let_def check_env_file_def split: option.splits if_splits dest: read_text_exists)

lemma frontend_section_ok:
  "frontend_section fs dir = Some (lines, ok) \<Longrightarrow>
     ok \<longleftrightarrow> (\<exists>t. read_text fs (dir @ ''/.env'') = Some t \<and> all_set (frontend_vars t) FRONTEND_REQUIRED)"
  by (auto simp: frontend_section_def Let_def check_env_file_def split: option.splits if_splits dest: read_text_exists)

lemma verify_env_code:
  assumes "verify_env load fs script_dir parent environment = Some (lines, code)"
  shows "code = (if (\<exists>t. read_text fs (script_dir @ ''/.env'') = Some t \<and> (\<forall>v\<in>set BACKEND_REQUIRED. is_set (load t environment) v))
      \<and> (path_exists fs (parent @ ''/ticketremaster-f'') \<longrightarrow>
           (\<exists>t. read_text fs (parent @ ''/ticketremaster-f/.env'') = Some t \<and> (\<forall>v\<in>set FRONTEND_REQUIRED. is_set (frontend_vars t) v)))
      then 0 else 1)"
  using assms
  by (auto simp: verify_env_def all_set_iff split: option.splits if_splits
      dest!: backend_section_ok frontend_section_ok)

text \<open>
  An environment file at the root of the repository, where the services read it, does not help: the
  script looks beside itself.
\<close>

lemma verify_env_root_file:
  assumes "\<not> path_exists fs (script_dir @ ''/.env'')"
    and "verify_env load fs script_dir parent environment = Some (lines, code)"
  shows "code = 1 \<and> hd lines = Marked Cross (''.env file not found at '' @ script_dir @ ''/.env'')"
  using assms by (auto simp: verify_env_def backend_section_def check_env_file_def split: option.splits)

subsection \<open>Writing an environment file and reading it\<close>

definition render :: "(string \<times> string) list \<Rightarrow> string" where
  "render kvs = concat (map (\<lambda>(k, v). k @ ''='' @ v @ newline) kvs)"

text \<open>A name and a value that survive: no white space at the ends, one line; the name has no equals sign and does not start a comment.\<close>

definition trimmed :: "string \<Rightarrow> bool" where
  "trimmed s \<longleftrightarrow> (s \<noteq> [] \<longrightarrow> \<not> py_space (hd s) \<and> \<not> py_space (last s)) \<and> \<not> list_ex line_end s"

definition plain_entry :: "string \<times> string \<Rightarrow> bool" where
  "plain_entry kv \<longleftrightarrow> fst kv \<noteq> [] \<and> trimmed (fst kv) \<and> CHR ''='' \<notin> set (fst kv) \<and> hd (fst kv) \<noteq> CHR ''#'' \<and> trimmed (snd kv)"

lemma py_strip_trimmed: "s \<noteq> [] \<longrightarrow> \<not> py_space (hd s) \<and> \<not> py_space (last s) \<Longrightarrow> py_strip s = s"
proof -
  assume "s \<noteq> [] \<longrightarrow> \<not> py_space (hd s) \<and> \<not> py_space (last s)"
  then have "dropWhile py_space s = s" "dropWhile py_space (rev s) = rev s"
    by (auto simp: dropWhile_eq_self_iff hd_rev)
  then show "py_strip s = s" by (simp add: py_strip_def)
qed

lemma lines_from_line: "\<not> list_ex line_end s \<Longrightarrow> lines_from acc (s @ newline @ rest) = (acc @ s) # lines_from [] rest"
  by (induction s arbitrary: acc) (auto simp: newline_def line_end_def)

lemma assignment_plain:
  assumes "plain_entry (k, v)"
  shows "assignment (k @ ''='' @ v) = Some (k, v)"
proof -
  let ?l = "k @ ''='' @ v"
  have k: "k \<noteq> []" "\<not> py_space (hd k)" "\<not> py_space (last k)" "CHR ''='' \<notin> set k" "hd k \<noteq> CHR ''#''"
    and v: "v \<noteq> [] \<longrightarrow> \<not> py_space (hd v) \<and> \<not> py_space (last v)"
    using assms by (auto simp: plain_entry_def trimmed_def)
  have "\<not> py_space (CHR ''='')" by (simp add: py_space_def)
  then have l: "py_strip ?l = ?l" using k v by (intro py_strip_trimmed) (auto simp: last_append)
  have "takeWhile (\<lambda>c. c \<noteq> CHR ''='') ?l = k" "dropWhile (\<lambda>c. c \<noteq> CHR ''='') ?l = CHR ''='' # v"
    using k(4) by (auto simp: takeWhile_append dropWhile_append)
  then show ?thesis
    using k v unfolding assignment_def l Let_def by (simp add: py_strip_trimmed)
qed

lemma assignments_render: "list_all plain_entry kvs \<Longrightarrow> assignments (render kvs) = kvs"
proof (induction kvs)
  case Nil
  show ?case by (simp add: assignments_def render_def file_lines_def assignment_def py_strip_def List.map_filter_def)
next
  case (Cons kv kvs)
  obtain k v where kv: "kv = (k, v)" by (cases kv)
  have plain: "plain_entry (k, v)" using Cons.prems kv by simp
  have "\<not> list_ex line_end (k @ ''='' @ v)"
    using plain by (simp add: plain_entry_def trimmed_def line_end_def)
  from lines_from_line [OF this, of "[]" "render kvs"]
  have "file_lines (render (kv # kvs)) = (k @ ''='' @ v) # file_lines (render kvs)"
    by (simp add: file_lines_def render_def kv)
  then show ?case using Cons assignment_plain [OF plain] by (simp add: assignments_def map_filter_simps kv)
qed

subsection \<open>What the tool scripts tell\<close>

text \<open>The scripts end normally exactly where the tool succeeds in every directory below the two bases, and each is run.\<close>

lemma check_projects_clean: "check_projects run bases = None \<longleftrightarrow> (\<forall>base\<in>set bases. \<forall>p. (p, True) \<in> set base \<longrightarrow> fst (run p) = 0)"
  by (force simp: check_projects_def project_failures_def iter_projects_def Let_def filter_empty_conv)

lemma tools_clean:
  "lint_repo run executable bases = None \<longleftrightarrow> (\<forall>base\<in>set bases. \<forall>p. (p, True) \<in> set base \<longrightarrow>
     fst (run (python_command executable [''-m'', ''ruff'', ''check'', ''.'', ''--select'', ''F,E9'', ''--extend-exclude'',
       ''*_pb2.py,*_pb2_grpc.py,migrations/versions'']) p) = 0)"
  "typecheck_repo run executable root bases = None \<longleftrightarrow> (\<forall>base\<in>set bases. \<forall>p. (p, True) \<in> set base \<longrightarrow>
     fst (run (python_command executable [''-m'', ''mypy'', ''.'', ''--config-file'', root @ ''/mypy.ini'']) p) = 0)"
  by (simp_all only: lint_repo_def typecheck_repo_def check_projects_clean)

end
