(* ===== verification/Routes.thy ===== *)
theory Routes
  imports Workflows
begin

text \<open>
  The routes of the orchestrators as they are registered (\<^verbatim>\<open>routes.py\<close> and \<^verbatim>\<open>middleware.py\<close> of each):
  a request with its \<^verbatim>\<open>Authorization\<close> header goes through the decorator of its route, and the handler
  works for the user that the token names. The lemmas show that every request served is a step of the
  system, that a guarded request without a valid token changes nothing, and that tickets and credits of
  a user move only on requests with the tokens of the users concerned.
\<close>

subsection \<open>The decorators\<close>

text \<open>Each orchestrator has its own copy of the decorators.\<close>

definition purchase_require_auth :: "jwt_api \<Rightarrow> string option \<Rightarrow> int \<Rightarrow> claims reply" where
  "purchase_require_auth = require_auth"

definition transfer_require_auth :: "jwt_api \<Rightarrow> string option \<Rightarrow> int \<Rightarrow> claims reply" where
  "transfer_require_auth = require_auth"

definition marketplace_require_auth :: "jwt_api \<Rightarrow> string option \<Rightarrow> int \<Rightarrow> claims reply" where
  "marketplace_require_auth = require_auth"

definition qr_require_auth :: "jwt_api \<Rightarrow> string option \<Rightarrow> int \<Rightarrow> claims reply" where
  "qr_require_auth = require_auth"

definition verification_require_staff :: "jwt_api \<Rightarrow> string option \<Rightarrow> int \<Rightarrow> claims reply" where
  "verification_require_staff = require_staff"

lemmas decorator_defs = purchase_require_auth_def transfer_require_auth_def marketplace_require_auth_def
  qr_require_auth_def verification_require_staff_def

text \<open>
  A guarded route: the error of the decorator, or the handler for \<^verbatim>\<open>request.user["userId"]\<close>. A token
  without this claim raises KeyError where the handler reads it; \<open>missing\<close> is what happens then.
\<close>

definition plain :: "'a reply \<times> 's \<Rightarrow> unit reply \<times> 's" where
  "plain r = (map_reply (\<lambda>_. ()) (fst r), snd r)"

definition as_user ::
  "claims reply \<Rightarrow> ('s \<Rightarrow> unit reply \<times> 's) \<Rightarrow> (string \<Rightarrow> 's \<Rightarrow> 'a reply \<times> 's) \<Rightarrow> 's \<Rightarrow> unit reply \<times> 's" where
  "as_user guard missing handler s =
     (case guard of
        Fail st c \<Rightarrow> (Fail st c, s)
      | Done st c \<Rightarrow> (case cl_userId c of None \<Rightarrow> missing s | Some u \<Rightarrow> plain (handler u s)))"

definition key_error :: "'s \<Rightarrow> unit reply \<times> 's" where
  "key_error s = (unhandled, s)"

subsection \<open>The blueprints\<close>

text \<open>
  The requests of each orchestrator, with the path, body and query that its handler reads. What the
  database does to a hold, and the secret and nonce of a QR code, come with the request.
\<close>

datatype purchase_request =
    PostHold bool "attempt_env list" string
  | DeleteHold string "string option"
  | PostConfirm string purchase_body
  | GetResume string

definition purchase_bp ::
  "jwt_api \<Rightarrow> ('n::{ring_1,ord}, 'x) services \<Rightarrow> string option \<Rightarrow> purchase_request \<Rightarrow> ('n, 'x) sys \<Rightarrow> unit reply \<times> ('n, 'x) sys" where
  "purchase_bp jwt V header req s =
     (let guard = purchase_require_auth jwt header (time_now s) in
      case req of
        PostHold ctx envs j \<Rightarrow> as_user guard key_error (\<lambda>u. hold_seat ctx envs u j) s
      | DeleteHold j tok \<Rightarrow> as_user guard key_error (\<lambda>u. release_hold u tok j) s
      | PostConfirm j body \<Rightarrow> as_user guard key_error (\<lambda>u. confirm_purchase (sv_credit V) u body j) s
      | GetResume eid \<Rightarrow> as_user guard key_error (\<lambda>u. resume_hold u eid) s)"

datatype transfer_request =
    PostInitiate "string option"
  | PostBuyerVerify string "string option"
  | PostSellerAccept string
  | PostSellerReject string
  | PostSellerVerify string "string option"
  | GetPending
  | GetMyPending
  | GetHistory
  | GetTransfer string
  | PostResend string
  | PostCancel string

definition transfer_bp ::
  "jwt_api \<Rightarrow> ('n::{ring_1,ord}, 'x) services \<Rightarrow> string option \<Rightarrow> transfer_request \<Rightarrow> ('n, 'x) sys \<Rightarrow> unit reply \<times> ('n, 'x) sys" where
  "transfer_bp jwt V header req s =
     (let guard = transfer_require_auth jwt header (time_now s) in
      case req of
        PostInitiate lid \<Rightarrow> as_user guard key_error (\<lambda>u. initiate (sv_credit V) (sv_otp V) u lid) s
      | PostBuyerVerify tid code \<Rightarrow> as_user guard key_error (\<lambda>u. buyer_verify (sv_otp V) u code tid) s
      | PostSellerAccept tid \<Rightarrow> as_user guard key_error (\<lambda>u. seller_accept (sv_otp V) u tid) s
      | PostSellerReject tid \<Rightarrow> as_user guard key_error (\<lambda>u. seller_reject u tid) s
      | PostSellerVerify tid code \<Rightarrow> as_user guard key_error (\<lambda>u. seller_verify (sv_credit V) (sv_otp V) u code tid) s
      | GetPending \<Rightarrow> as_user guard key_error get_pending_transfers s
      | GetMyPending \<Rightarrow> as_user guard key_error get_my_pending_transfers s
      | GetHistory \<Rightarrow> as_user guard key_error get_transfer_history s
      | GetTransfer tid \<Rightarrow> as_user guard key_error (\<lambda>u. orch_get_transfer u tid) s
      | PostResend tid \<Rightarrow> as_user guard key_error (\<lambda>u. resend_otp (sv_otp V) u tid) s
      | PostCancel tid \<Rightarrow> as_user guard key_error (\<lambda>u. orch_cancel_transfer u tid) s)"

text \<open>Browsing the market needs no token.\<close>

datatype 'n marketplace_request =
    GetBrowse "int option" "int option" "string option"
  | GetListing string
  | PostList "string option" "'n option"
  | DeleteListing string

definition marketplace_bp ::
  "jwt_api \<Rightarrow> string option \<Rightarrow> 'n::zero marketplace_request \<Rightarrow> ('n, 'x) sys \<Rightarrow> unit reply \<times> ('n, 'x) sys" where
  "marketplace_bp jwt header req s =
     (let guard = marketplace_require_auth jwt header (time_now s) in
      case req of
        GetBrowse page limit event \<Rightarrow> plain (browse page limit event s)
      | GetListing lid \<Rightarrow> plain (orch_get_listing lid s)
      | PostList tid price \<Rightarrow> as_user guard key_error (\<lambda>u. list_ticket u tid price) s
      | DeleteListing lid \<Rightarrow> as_user guard key_error (\<lambda>u. delist u lid) s)"

datatype qr_request = GetTickets | GetQr qr_env string | GetContext string

definition qr_bp :: "jwt_api \<Rightarrow> string option \<Rightarrow> qr_request \<Rightarrow> ('n, 'x) sys \<Rightarrow> unit reply \<times> ('n, 'x) sys" where
  "qr_bp jwt header req s =
     (let guard = qr_require_auth jwt header (time_now s) in
      case req of
        GetTickets \<Rightarrow> as_user guard key_error list_tickets s
      | GetQr env tid \<Rightarrow> as_user guard key_error (\<lambda>u. get_qr env u tid) s
      | GetContext qr \<Rightarrow> as_user guard key_error (\<lambda>u. get_ticket_context_by_qr u qr) s)"

text \<open>At the door the body is checked before the token's user and venue are read.\<close>

datatype door_request = PostScan "string option" "string option" | PostManual "string option" "string option"

definition as_staff ::
  "claims reply \<Rightarrow> bool \<Rightarrow> (staff \<Rightarrow> ('n, 'x) sys \<Rightarrow> 'a reply \<times> ('n, 'x) sys) \<Rightarrow> ('n, 'x) sys \<Rightarrow> unit reply \<times> ('n, 'x) sys" where
  "as_staff guard given handler s =
     (case guard of
        Fail st c \<Rightarrow> (Fail st c, s)
      | Done st c \<Rightarrow>
          as_user guard (\<lambda>s. (if given then unhandled else Fail 400 ''VALIDATION_ERROR'', s))
            (\<lambda>u. handler \<lparr>sf_userId = u, sf_venueId = cl_venueId c\<rparr>) s)"

definition verification_bp :: "jwt_api \<Rightarrow> string option \<Rightarrow> door_request \<Rightarrow> ('n, 'x) sys \<Rightarrow> unit reply \<times> ('n, 'x) sys" where
  "verification_bp jwt header req s =
     (let guard = verification_require_staff jwt header (time_now s) in
      case req of
        PostScan qr event \<Rightarrow> as_staff guard (truthy qr) (\<lambda>stf. scan stf qr event) s
      | PostManual tid event \<Rightarrow> as_staff guard (truthy tid) (\<lambda>stf. manual_verify stf tid event) s)"

text \<open>The two routes of a top-up read the user after the amount, and after the payment; the webhook of Stripe has no token.\<close>

datatype credit_request =
    GetBalance
  | PostTopup json_value
  | PostTopupConfirm "string option"
  | PostWebhook string string
  | GetTransactions "int option" "int option"

definition topup_without_user :: "json_value \<Rightarrow> 's \<Rightarrow> unit reply \<times> 's" where
  "topup_without_user amount s = (case topup_amount amount of Inl (st, c) \<Rightarrow> (Fail st c, s) | Inr n \<Rightarrow> (unhandled, s))"

definition confirm_without_user ::
  "('n, 'x) services \<Rightarrow> string option \<Rightarrow> ('n, 'x) sys \<Rightarrow> unit reply \<times> ('n, 'x) sys" where
  "confirm_without_user V pid s =
     (if \<not> truthy pid then (Fail 400 ''VALIDATION_ERROR'', s)
      else
        (case call_service UNAVAILABLE (ep_retrieve_intent (sv_stripe V) (the pid)) s of
           (Inl e, s1) \<Rightarrow> (Fail 503 UNAVAILABLE, s1)
         | (Inr p, s1) \<Rightarrow> (unhandled, s1)))"

definition credit_bp ::
  "jwt_api \<Rightarrow> ('n::{ring_1,ord}, 'x) services \<Rightarrow> string option \<Rightarrow> credit_request \<Rightarrow> ('n, 'x) sys \<Rightarrow> unit reply \<times> ('n, 'x) sys" where
  "credit_bp jwt V header req s =
     (let guard = require_auth jwt header (time_now s) in
      case req of
        GetBalance \<Rightarrow> as_user guard key_error (get_balance (sv_credit V)) s
      | PostTopup amount \<Rightarrow> as_user guard (topup_without_user amount) (\<lambda>u. initiate_topup (sv_stripe V) u amount) s
      | PostTopupConfirm pid \<Rightarrow> as_user guard (confirm_without_user V pid) (\<lambda>u. confirm_topup (sv_credit V) (sv_stripe V) u pid) s
      | PostWebhook payload sig \<Rightarrow> plain (stripe_webhook (sv_credit V) (sv_stripe V) payload sig s)
      | GetTransactions page limit \<Rightarrow> as_user guard key_error (\<lambda>u. get_transactions u page limit) s)"

datatype 'n event_request =
    GetVenues
  | GetEvents "int option" "int option" "string option"
  | GetEvent string
  | GetSeatMap string
  | GetSeat string string
  | GetDashboard string
  | PostEvent "'n admin_event_body"

definition event_bp ::
  "jwt_api \<Rightarrow> string option \<Rightarrow> 'n::{ring_1,ord} event_request \<Rightarrow> ('n, 'x) sys \<Rightarrow> unit reply \<times> ('n, 'x) sys" where
  "event_bp jwt header req s =
     (case req of
        GetVenues \<Rightarrow> plain (orch_list_venues s)
      | GetEvents page limit ty \<Rightarrow> plain (orch_list_events page limit ty s)
      | GetEvent eid \<Rightarrow> plain (orch_get_event eid s)
      | GetSeatMap eid \<Rightarrow> plain (get_seat_map eid s)
      | GetSeat eid j \<Rightarrow> plain (get_seat_detail eid j s)
      | GetDashboard eid \<Rightarrow> plain (get_event_dashboard jwt header eid s)
      | PostEvent b \<Rightarrow> plain (create_event_admin jwt header b s))"

text \<open>The authentication orchestrator also keeps its client of the blacklist.\<close>

datatype auth_request =
    PostRegister register_body
  | PostVerifyRegistration "string option" "string option"
  | PostLogin "string option" "string option"
  | GetMe
  | PostLogout
  | PostLogoutAll

definition auth_bp ::
  "jwt_api \<Rightarrow> bcrypt_api \<Rightarrow> ('n::{ring_1,ord}, 'x) services \<Rightarrow> string option \<Rightarrow> auth_request \<Rightarrow> bool \<times> ('n, 'x) sys
    \<Rightarrow> unit reply \<times> bool \<times> ('n, 'x) sys" where
  "auth_bp jwt bc V header req a =
     (case req of
        PostRegister b \<Rightarrow> (case register bc (sv_post V) (sv_otp V) b (snd a) of (r, s) \<Rightarrow> plain (r, fst a, s))
      | PostVerifyRegistration u code \<Rightarrow> (case verify_registration jwt (sv_otp V) u code (snd a) of (r, s) \<Rightarrow> plain (r, fst a, s))
      | PostLogin email password \<Rightarrow> (case login jwt bc email password (snd a) of (r, s) \<Rightarrow> plain (r, fst a, s))
      | GetMe \<Rightarrow> plain (me jwt header a)
      | PostLogout \<Rightarrow> plain (logout jwt header a)
      | PostLogoutAll \<Rightarrow> plain (logout_all jwt header a))"

subsection \<open>The whole interface\<close>

datatype 'n api_request =
    ToPurchase purchase_request
  | ToTransfer transfer_request
  | ToMarketplace "'n marketplace_request"
  | ToQr qr_request
  | ToDoor door_request
  | ToCredit credit_request
  | ToEvents "'n event_request"
  | ToAuth auth_request

definition on_sys :: "(('n, 'x) sys \<Rightarrow> unit reply \<times> ('n, 'x) sys) \<Rightarrow> bool \<times> ('n, 'x) sys \<Rightarrow> unit reply \<times> bool \<times> ('n, 'x) sys" where
  "on_sys f a = (case f (snd a) of (r, s) \<Rightarrow> (r, fst a, s))"

definition serve ::
  "jwt_api \<Rightarrow> bcrypt_api \<Rightarrow> ('n::{ring_1,ord}, 'x) services \<Rightarrow> string option \<Rightarrow> 'n api_request \<Rightarrow> bool \<times> ('n, 'x) sys
    \<Rightarrow> unit reply \<times> bool \<times> ('n, 'x) sys" where
  "serve jwt bc V header req a =
     (case req of
        ToPurchase r \<Rightarrow> on_sys (purchase_bp jwt V header r) a
      | ToTransfer r \<Rightarrow> on_sys (transfer_bp jwt V header r) a
      | ToMarketplace r \<Rightarrow> on_sys (marketplace_bp jwt header r) a
      | ToQr r \<Rightarrow> on_sys (qr_bp jwt header r) a
      | ToDoor r \<Rightarrow> on_sys (verification_bp jwt header r) a
      | ToCredit r \<Rightarrow> on_sys (credit_bp jwt V header r) a
      | ToEvents r \<Rightarrow> on_sys (event_bp jwt header r) a
      | ToAuth r \<Rightarrow> auth_bp jwt bc V header r a)"

subsection \<open>Every request is a step of the system\<close>

text \<open>The user that a token names.\<close>

definition token_user :: "jwt_api \<Rightarrow> string option \<Rightarrow> int \<Rightarrow> string option" where
  "token_user jwt header now = (case require_auth jwt header now of Done st c \<Rightarrow> cl_userId c | Fail st e \<Rightarrow> None)"

lemma snd_plain [simp]: "snd (plain r) = snd r"
  by (simp add: plain_def)

lemma on_sys_state [simp]: "snd (snd (on_sys f a)) = snd (f (snd a))" "fst (on_sys f a) = fst (f (snd a))" "fst (snd (on_sys f a)) = fst a"
  by (simp_all add: on_sys_def split: prod.split)

lemma as_user_cases:
  obtains (refused) st c where "guard = Fail st c" "as_user guard missing handler s = (Fail st c, s)"
  | (missing) st c where "guard = Done st c" "cl_userId c = None" "as_user guard missing handler s = missing s"
  | (user) st c u where "guard = Done st c" "cl_userId c = Some u" "as_user guard missing handler s = plain (handler u s)"
  by (cases guard) (auto simp: as_user_def split: option.splits)

lemma as_user_state:
  assumes "P s" and "P (snd (missing s))" and "\<And>st c u. guard = Done st c \<Longrightarrow> cl_userId c = Some u \<Longrightarrow> P (snd (handler u s))"
  shows "P (snd (as_user guard missing handler s))"
  by (rule as_user_cases [of guard missing handler s]) (use assms in auto)

lemma as_staff_state:
  assumes "P s" and "\<And>stf. P (snd (handler stf s))"
  shows "P (snd (as_staff guard given handler s))"
  by (cases guard) (auto simp: as_staff_def intro!: as_user_state [where P = P] assms)

lemma key_error_state [simp]: "snd (key_error s) = s"
  by (simp add: key_error_def)

lemma topup_without_user_state [simp]: "snd (topup_without_user amount s) = s"
  by (simp add: topup_without_user_def split: sum.split)

text \<open>The requests that a relation kept by the routes covers: the payer must be one that \<open>U\<close> allows.\<close>

definition covered ::
  "(string \<Rightarrow> bool) \<Rightarrow> jwt_api \<Rightarrow> ('n, 'x) services \<Rightarrow> string option \<Rightarrow> 'n api_request \<Rightarrow> ('n, 'x) sys \<Rightarrow> bool" where
  "covered U jwt V header req s =
     (case req of
        ToPurchase (PostConfirm j b) \<Rightarrow> False
      | ToTransfer (PostSellerVerify t c) \<Rightarrow> False
      | ToCredit (PostTopupConfirm pid) \<Rightarrow> (\<forall>u. token_user jwt header (time_now s) = Some u \<longrightarrow> U u)
      | ToCredit (PostWebhook payload sig) \<Rightarrow>
          (\<forall>st p. wrapper_webhook (sv_stripe V) payload sig = Done st (Some p) \<longrightarrow> U (py_str (pay_userId p)))
      | ToAuth (PostRegister b) \<Rightarrow> (\<forall>w. w \<notin> us_userId ` set (users s) \<longrightarrow> U w)
      | _ \<Rightarrow> True)"

context workflow_relation
begin

lemma purchase_bp_keeps:
  assumes "covered U jwt V header (ToPurchase req) s"
  shows "R s (snd (purchase_bp jwt V header req s))"
  using assms
  by (cases req) (simp_all add: purchase_bp_def covered_def Let_def,
      (rule as_user_state [where P = "R s"], rule R_refl, simp add: R_refl, (rule kept R_refl)+)+)

lemma transfer_bp_keeps:
  assumes "covered U jwt V header (ToTransfer req) s"
  shows "R s (snd (transfer_bp jwt V header req s))"
  using assms
  by (cases req) (simp_all add: transfer_bp_def covered_def Let_def,
      (rule as_user_state [where P = "R s"], rule R_refl, simp add: R_refl, (rule kept R_refl)+)+)

lemma marketplace_bp_keeps: "R s (snd (marketplace_bp jwt header req s))"
  by (cases req) (simp_all add: marketplace_bp_def Let_def,
      (rule as_user_state [where P = "R s"] | rule kept | rule R_refl | simp add: R_refl)+)

lemma qr_bp_keeps: "R s (snd (qr_bp jwt header req s))"
  by (cases req) (simp_all add: qr_bp_def Let_def,
      (rule as_user_state [where P = "R s"], rule R_refl, simp add: R_refl, (rule kept R_refl)+)+)

lemma verification_bp_keeps: "R s (snd (verification_bp jwt header req s))"
  by (cases req) (simp_all add: verification_bp_def Let_def,
      (rule as_staff_state [where P = "R s"], rule R_refl, (rule kept R_refl)+)+)

lemma event_bp_keeps: "R s (snd (event_bp jwt header req s))"
  by (cases req) (simp_all add: event_bp_def, (rule kept R_refl)+)

lemma confirm_without_user_keeps: "R s0 s \<Longrightarrow> R s0 (snd (confirm_without_user V pid s))"
  unfolding confirm_without_user_def by (rule kept | assumption)+

lemma credit_bp_keeps:
  assumes "covered U jwt V header (ToCredit req) s"
  shows "R s (snd (credit_bp jwt V header req s))"
proof (cases req)
  case (PostTopupConfirm pid)
  have "U u" if "require_auth jwt header (time_now s) = Done st c" "cl_userId c = Some u" for st c u
    using assms that by (simp add: covered_def PostTopupConfirm token_user_def)
  then show ?thesis
    unfolding credit_bp_def PostTopupConfirm Let_def credit_request.case
    by (intro as_user_state [where P = "R s"] R_refl confirm_without_user_keeps [OF R_refl] keep_confirm_topup)
next
  case (PostWebhook payload sig)
  then show ?thesis
    using assms by (simp add: credit_bp_def covered_def) (rule keep_stripe_webhook [OF R_refl], blast)
qed (simp_all add: credit_bp_def Let_def, (rule as_user_state [where P = "R s"] | rule kept | rule R_refl | simp add: R_refl)+)

lemma auth_bp_keeps:
  assumes "covered U jwt V header (ToAuth req) (snd a)"
  shows "R (snd a) (snd (snd (auth_bp jwt bc V header req a)))"
proof (cases req)
  case (PostRegister b)
  then have "R (snd a) (snd (register bc (sv_post V) (sv_otp V) b (snd a)))"
    using assms by (simp add: covered_def) (rule keep_register [OF R_refl], blast)
  then show ?thesis by (simp add: auth_bp_def PostRegister split: prod.split) force
next
  case (PostVerifyRegistration u code)
  have "R (snd a) (snd (verify_registration jwt (sv_otp V) u code (snd a)))" by (rule kept R_refl)+
  then show ?thesis by (simp add: auth_bp_def PostVerifyRegistration split: prod.split) force
next
  case (PostLogin email password)
  have "R (snd a) (snd (login jwt bc email password (snd a)))" by (rule kept R_refl)+
  then show ?thesis by (simp add: auth_bp_def PostLogin split: prod.split) force
next
  case GetMe
  have "R (snd a) (snd (snd (me jwt header (fst a, snd a))))" by (rule kept R_refl)+
  then show ?thesis by (simp add: auth_bp_def GetMe)
next
  case PostLogout
  have "R (snd a) (snd (snd (logout jwt header (fst a, snd a))))" by (rule kept R_refl)+
  then show ?thesis by (simp add: auth_bp_def PostLogout)
next
  case PostLogoutAll
  have "R (snd a) (snd (snd (logout_all jwt header (fst a, snd a))))" by (rule kept R_refl)+
  then show ?thesis by (simp add: auth_bp_def PostLogoutAll)
qed

lemma serve_keeps:
  assumes "covered U jwt V header req (snd a)"
  shows "R (snd a) (snd (snd (serve jwt bc V header req a)))"
proof (cases req)
  case (ToPurchase r)
  with assms purchase_bp_keeps show ?thesis by (simp add: serve_def)
next
  case (ToTransfer r)
  with assms transfer_bp_keeps show ?thesis by (simp add: serve_def)
next
  case (ToCredit r)
  with assms credit_bp_keeps show ?thesis by (simp add: serve_def)
next
  case (ToAuth r)
  with assms auth_bp_keeps [of jwt header r a bc] show ?thesis by (simp add: serve_def)
qed (simp_all add: serve_def marketplace_bp_keeps qr_bp_keeps verification_bp_keeps event_bp_keeps)

end

text \<open>The two requests outside it: a confirmed purchase, and the seller's confirmation.\<close>

lemma serve_purchase:
  "snd (snd (serve jwt bc V header (ToPurchase (PostConfirm j b)) a)) = snd a
   \<or> (\<exists>u. token_user jwt header (time_now (snd a)) = Some u
        \<and> snd (snd (serve jwt bc V header (ToPurchase (PostConfirm j b)) a)) = snd (confirm_purchase (sv_credit V) u b j (snd a)))"
  by (auto simp: serve_def purchase_bp_def Let_def decorator_defs as_user_def token_user_def split: reply.split option.split)

lemma serve_seller_verify:
  "snd (snd (serve jwt bc V header (ToTransfer (PostSellerVerify tid code)) a)) = snd a
   \<or> (\<exists>u. token_user jwt header (time_now (snd a)) = Some u
        \<and> snd (snd (serve jwt bc V header (ToTransfer (PostSellerVerify tid code)) a))
          = snd (seller_verify (sv_credit V) (sv_otp V) u code tid (snd a)))"
  by (auto simp: serve_def transfer_bp_def Let_def decorator_defs as_user_def token_user_def split: reply.split option.split)

lemma stay: "sys_step V s s"
  using sys_step.environment [of V s "world (inventory s)" "net s"] by (simp add: on_infra_def)

lemma without_user_run: "(sys_step V)\<^sup>*\<^sup>* s (snd (confirm_without_user V pid s))"
proof -
  have run: "(sys_step V)\<^sup>*\<^sup>* s (s\<lparr>net := n, ext := x\<rparr>)" for n x
  proof -
    have "sys_step V s (s\<lparr>net := n\<rparr>)"
      using sys_step.environment [of V s "world (inventory s)" n] by (simp add: on_infra_def)
    moreover have "sys_step V (s\<lparr>net := n\<rparr>) (s\<lparr>net := n, ext := x\<rparr>)"
      using sys_step.outside [of V "s\<lparr>net := n\<rparr>" x] by simp
    ultimately show ?thesis by (rule converse_rtranclp_into_rtranclp [OF _ r_into_rtranclp])
  qed
  obtain r s1 where c: "call_service UNAVAILABLE (ep_retrieve_intent (sv_stripe V) (the pid)) s = (r, s1)" by fastforce
  have "\<exists>n x. s1 = s\<lparr>net := n, ext := x\<rparr>"
  proof (rule call_service_cases [OF c])
    fix e assume "s1 = s\<lparr>net := tl (net s)\<rparr>"
    then have "s1 = s\<lparr>net := tl (net s), ext := ext s\<rparr>" by simp
    then show ?thesis by blast
  qed (auto simp: ep_retrieve_intent_def split: prod.splits)
  with c run show ?thesis by (auto simp: confirm_without_user_def split: sum.split)
qed

lemma as_user_run:
  assumes "(sys_step V)\<^sup>*\<^sup>* s (snd (missing s))" and "\<And>u. sys_step V s (snd (handler u s))"
  shows "(sys_step V)\<^sup>*\<^sup>* s (snd (as_user guard missing handler s))"
  by (rule as_user_state [where P = "(sys_step V)\<^sup>*\<^sup>* s"]) (use assms in auto)

lemma as_staff_run:
  assumes "\<And>stf. sys_step V s (snd (handler stf s))"
  shows "(sys_step V)\<^sup>*\<^sup>* s (snd (as_staff guard given handler s))"
  by (rule as_staff_state [where P = "(sys_step V)\<^sup>*\<^sup>* s"]) (use assms in auto)

lemma blueprints_run:
  "(sys_step V)\<^sup>*\<^sup>* s (snd (purchase_bp jwt V header r1 s))"
  "(sys_step V)\<^sup>*\<^sup>* s (snd (transfer_bp jwt V header r2 s))"
  "(sys_step V)\<^sup>*\<^sup>* s (snd (marketplace_bp jwt header r3 s))"
  "(sys_step V)\<^sup>*\<^sup>* s (snd (qr_bp jwt header r4 s))"
  "(sys_step V)\<^sup>*\<^sup>* s (snd (verification_bp jwt header r5 s))"
  "(sys_step V)\<^sup>*\<^sup>* s (snd (credit_bp jwt V header r6 s))"
  "(sys_step V)\<^sup>*\<^sup>* s (snd (event_bp jwt header r7 s))"
proof -
  show "(sys_step V)\<^sup>*\<^sup>* s (snd (purchase_bp jwt V header r1 s))"
    by (cases r1) (auto simp: purchase_bp_def Let_def intro!: as_user_run as_staff_run intro: r_into_rtranclp sys_step.intros)
  show "(sys_step V)\<^sup>*\<^sup>* s (snd (transfer_bp jwt V header r2 s))"
    by (cases r2) (auto simp: transfer_bp_def Let_def intro!: as_user_run as_staff_run intro: r_into_rtranclp sys_step.intros)
  show "(sys_step V)\<^sup>*\<^sup>* s (snd (marketplace_bp jwt header r3 s))"
    by (cases r3) (auto simp: marketplace_bp_def Let_def intro!: as_user_run as_staff_run intro: r_into_rtranclp sys_step.intros)
  show "(sys_step V)\<^sup>*\<^sup>* s (snd (qr_bp jwt header r4 s))"
    by (cases r4) (auto simp: qr_bp_def Let_def intro!: as_user_run as_staff_run intro: r_into_rtranclp sys_step.intros)
  show "(sys_step V)\<^sup>*\<^sup>* s (snd (verification_bp jwt header r5 s))"
    by (cases r5) (auto simp: verification_bp_def Let_def intro!: as_user_run as_staff_run intro: r_into_rtranclp sys_step.intros)
  show "(sys_step V)\<^sup>*\<^sup>* s (snd (credit_bp jwt V header r6 s))"
    by (cases r6) (auto simp: credit_bp_def Let_def intro!: as_user_run without_user_run intro: r_into_rtranclp sys_step.intros)
  show "(sys_step V)\<^sup>*\<^sup>* s (snd (event_bp jwt header r7 s))"
    by (cases r7) (auto simp: event_bp_def intro!: as_user_run as_staff_run intro: r_into_rtranclp sys_step.intros)
qed

lemma auth_bp_run: "(sys_step V)\<^sup>*\<^sup>* (snd a) (snd (snd (auth_bp jwt bc V header req a)))"
proof (rule r_into_rtranclp, cases req)
  case (PostRegister b)
  then show "sys_step V (snd a) (snd (snd (auth_bp jwt bc V header req a)))"
    using sys_step.register [of V "snd a" bc b] by (simp add: auth_bp_def split: prod.split) force
next
  case (PostVerifyRegistration u code)
  then show "sys_step V (snd a) (snd (snd (auth_bp jwt bc V header req a)))"
    using sys_step.verify_registration [of V "snd a" jwt u code] by (simp add: auth_bp_def split: prod.split) force
next
  case (PostLogin email password)
  then show "sys_step V (snd a) (snd (snd (auth_bp jwt bc V header req a)))"
    using sys_step.login [of V "snd a" jwt bc email password] by (simp add: auth_bp_def split: prod.split) force
next
  case GetMe
  then show "sys_step V (snd a) (snd (snd (auth_bp jwt bc V header req a)))"
    using sys_step.me [of V "snd a" jwt header "fst a"] by (simp add: auth_bp_def)
next
  case PostLogout
  then show "sys_step V (snd a) (snd (snd (auth_bp jwt bc V header req a)))"
    using sys_step.logout [of V "snd a" jwt header "fst a"] by (simp add: auth_bp_def)
next
  case PostLogoutAll
  then show "sys_step V (snd a) (snd (snd (auth_bp jwt bc V header req a)))"
    using sys_step.logout_all [of V "snd a" jwt header "fst a"] by (simp add: auth_bp_def)
qed

lemma serve_run: "(sys_step V)\<^sup>*\<^sup>* (snd a) (snd (snd (serve jwt bc V header req a)))"
  using blueprints_run [of V "snd a" jwt header] auth_bp_run [of V a jwt bc header]
  by (cases req) (simp_all add: serve_def)

text \<open>So what holds of every run of the system holds of every sequence of requests.\<close>

definition serve_all ::
  "jwt_api \<Rightarrow> bcrypt_api \<Rightarrow> ('n::{ring_1,ord}, 'x) services \<Rightarrow> (string option \<times> 'n api_request) list \<Rightarrow> bool \<times> ('n, 'x) sys
    \<Rightarrow> bool \<times> ('n, 'x) sys" where
  "serve_all jwt bc V reqs a = fold (\<lambda>(header, req) a. snd (serve jwt bc V header req a)) reqs a"

lemma serve_all_run: "(sys_step V)\<^sup>*\<^sup>* (snd a) (snd (serve_all jwt bc V reqs a))"
proof (induction reqs arbitrary: a)
  case (Cons r reqs)
  obtain header req where r: "r = (header, req)" by (cases r)
  have "serve_all jwt bc V (r # reqs) a = serve_all jwt bc V reqs (snd (serve jwt bc V header req a))"
    by (simp add: serve_all_def r)
  with rtranclp_trans [OF serve_run [of V a jwt bc header req] Cons.IH] show ?case by simp
qed (simp add: serve_all_def)

subsection \<open>Properties\<close>

text \<open>The decorator of a route, None for the routes that need no token and for those of the authentication orchestrator.\<close>

definition guard_of :: "jwt_api \<Rightarrow> string option \<Rightarrow> int \<Rightarrow> 'n api_request \<Rightarrow> claims reply option" where
  "guard_of jwt header now req =
     (case req of
        ToMarketplace (GetBrowse p l e) \<Rightarrow> None
      | ToMarketplace (GetListing l) \<Rightarrow> None
      | ToCredit (PostWebhook p s) \<Rightarrow> None
      | ToDoor r \<Rightarrow> Some (require_staff jwt header now)
      | ToEvents (GetDashboard e) \<Rightarrow> Some (require_admin jwt header now)
      | ToEvents (PostEvent b) \<Rightarrow> Some (require_admin jwt header now)
      | ToEvents r \<Rightarrow> None
      | ToAuth r \<Rightarrow> None
      | _ \<Rightarrow> Some (require_auth jwt header now))"

lemma as_user_refused: "guard = Fail st c \<Longrightarrow> as_user guard missing handler s = (Fail st c, s)"
  by (simp add: as_user_def)

lemma as_staff_refused: "guard = Fail st c \<Longrightarrow> as_staff guard given handler s = (Fail st c, s)"
  by (simp add: as_staff_def)

lemma on_sys_same: "f (snd a) = (r, snd a) \<Longrightarrow> on_sys f a = (r, a)"
  by (simp add: on_sys_def)

lemma decorator_codes:
  "require_auth jwt header now = Fail st c \<Longrightarrow> st = 401"
  "require_staff jwt header now = Fail st c \<Longrightarrow> st \<in> {401, 403}"
  "require_admin jwt header now = Fail st c \<Longrightarrow> st \<in> {401, 403}"
proof -
  show auth: "st = 401" if "require_auth jwt header now = Fail st c" for st c
    using that by (auto simp: require_auth_def split: option.splits decoded.splits)
  show "require_staff jwt header now = Fail st c \<Longrightarrow> st \<in> {401, 403}" "require_admin jwt header now = Fail st c \<Longrightarrow> st \<in> {401, 403}"
    using auth by (auto simp: require_staff_def require_admin_def split: reply.splits if_splits)
qed



lemma served_owner_change:
  assumes "row_get ticketId tid (tickets s) = Some k"
    and "row_get ticketId tid (tickets (snd (snd (serve jwt bc V header req (f, s))))) = Some k'" and "tk_ownerId k' \<noteq> tk_ownerId k"
  shows "\<exists>trid code seller. req = ToTransfer (PostSellerVerify trid code) \<and> token_user jwt header (time_now s) = Some seller
    \<and> confirmed_deal seller trid tid (tk_ownerId k') s"
proof -
  let ?s = "snd (snd (serve jwt bc V header req (f, s)))"
  have changed: "\<not> owners_kept s ?s" using owners_kept_lookup assms by blast
  have "\<not> covered (\<lambda>_. True) jwt V header req s"
    using changed ownership.serve_keeps [of jwt V header req "(f, s)" bc] by auto
  then consider j b where "req = ToPurchase (PostConfirm j b)" | trid code where "req = ToTransfer (PostSellerVerify trid code)"
    by (auto simp: covered_def split: api_request.splits purchase_request.splits transfer_request.splits credit_request.splits auth_request.splits)
  then show ?thesis
  proof cases
    case 1
    have "owners_kept s (snd (confirm_purchase (sv_credit V) u b j s))" for u
      by (rule ownership.purchase_keeps [of V u]) (auto simp: purchase_step_def)
    then have "owners_kept s ?s"
      using serve_purchase [of jwt bc V header j b "(f, s)"] ownership.R_refl [of s] by (auto simp: 1)
    with changed show ?thesis by blast
  next
    case 2
    have "?s \<noteq> s" using changed ownership.R_refl by metis
    then obtain u where u: "token_user jwt header (time_now s) = Some u" "?s = snd (seller_verify (sv_credit V) (sv_otp V) u code trid s)"
      using serve_seller_verify [of jwt bc V header trid code "(f, s)"] by (auto simp: 2)
    obtain rep where "seller_verify (sv_credit V) (sv_otp V) u code trid s = (rep, ?s)" using u(2) by (metis prod.collapse)
    from seller_verify_tickets [OF this] assms obtain j buyer where "given_to j buyer s ?s" "confirmed_deal u trid j buyer s" by auto
    with given_to_lookup [OF _ assms(1,2)] assms(3) u(1) 2 show ?thesis by blast
  qed
qed

lemma not_covered:
  assumes "\<not> covered U jwt V header req s"
  obtains (purchase) j b where "req = ToPurchase (PostConfirm j b)"
  | (settle) trid code where "req = ToTransfer (PostSellerVerify trid code)"
  | (topup) pid u where "req = ToCredit (PostTopupConfirm pid)" "token_user jwt header (time_now s) = Some u" "\<not> U u"
  | (notice) payload sig st p where "req = ToCredit (PostWebhook payload sig)"
      "wrapper_webhook (sv_stripe V) payload sig = Done st (Some p)" "\<not> U (py_str (pay_userId p))"
  | (register) b w where "req = ToAuth (PostRegister b)" "w \<notin> us_userId ` set (users s)" "\<not> U w"
proof (cases req)
  case (ToPurchase r)
  with assms purchase show ?thesis by (cases r) (simp_all add: covered_def)
next
  case (ToTransfer r)
  with assms settle show ?thesis by (cases r) (simp_all add: covered_def)
next
  case (ToCredit r)
  with assms topup notice show ?thesis by (cases r) (auto simp: covered_def)
next
  case (ToAuth r)
  with assms register show ?thesis by (cases r) (auto simp: covered_def)
qed (use assms in \<open>simp_all add: covered_def\<close>)

lemma served_credit_change:
  fixes bal :: "'x \<Rightarrow> string \<Rightarrow> 'n::{ring_1,ord}"
  assumes "services_laws bal V" and change: "bal (ext (snd (snd (serve jwt bc V header req (f, s))))) w \<noteq> bal (ext s) w"
  shows "(token_user jwt header (time_now s) = Some w \<and> (\<exists>j b pid. req = ToPurchase (PostConfirm j b) \<or> req = ToCredit (PostTopupConfirm pid)))
    \<or> (\<exists>payload sig st p. req = ToCredit (PostWebhook payload sig) \<and> wrapper_webhook (sv_stripe V) payload sig = Done st (Some p)
         \<and> py_str (pay_userId p) = w)
    \<or> (w \<notin> us_userId ` set (users s) \<and> (\<exists>b. req = ToAuth (PostRegister b)))
    \<or> (\<exists>trid code tr. req = ToTransfer (PostSellerVerify trid code) \<and> row_get transferId trid (transfers s) = Some tr
         \<and> token_user jwt header (time_now s) = Some (tr_sellerId tr) \<and> tr_status tr = ''pending_seller_otp'' \<and> buyerOtpVerified tr
         \<and> w \<in> {tr_buyerId tr, tr_sellerId tr})"
proof -
  let ?s = "snd (snd (serve jwt bc V header req (f, s)))"
  note credit = credit_relation [OF assms(1), of w]
  have no: "\<not> credit_kept bal w s ?s" using change by (simp add: credit_kept_def)
  then have "\<not> covered (\<lambda>u. u \<noteq> w) jwt V header req s"
    using workflow_relation.serve_keeps [OF owner_relation.axioms(1) [OF credit(1)], of jwt header req "(f, s)" bc] by auto
  then show ?thesis
  proof (rule not_covered)
    fix j b assume req: "req = ToPurchase (PostConfirm j b)"
    have "?s \<noteq> s" using no by (auto simp: credit_kept_def)
    then obtain u where u: "token_user jwt header (time_now s) = Some u" "?s = snd (confirm_purchase (sv_credit V) u b j s)"
      using serve_purchase [of jwt bc V header j b "(f, s)"] by (auto simp: req)
    then have "purchase_step V u s ?s" unfolding purchase_step_def by blast
    with sale_relation.purchase_keeps [OF credit(2)] no have "u = w" by blast
    with u(1) req show ?thesis by blast
  next
    fix trid code assume req: "req = ToTransfer (PostSellerVerify trid code)"
    have "?s \<noteq> s" using no by (auto simp: credit_kept_def)
    then obtain u where u: "token_user jwt header (time_now s) = Some u" "?s = snd (seller_verify (sv_credit V) (sv_otp V) u code trid s)"
      using serve_seller_verify [of jwt bc V header trid code "(f, s)"] by (auto simp: req)
    then have "settle_step V u trid s ?s" unfolding settle_step_def by blast
    from owner_relation.settle_keeps [OF credit(1) this] no obtain tr where "row_get transferId trid (transfers s) = Some tr"
      "tr_sellerId tr = u" "tr_status tr = ''pending_seller_otp''" "buyerOtpVerified tr" "w \<in> {tr_buyerId tr, tr_sellerId tr}"
      by auto
    with u(1) req show ?thesis by blast
  qed blast+
qed

text \<open>
  Property C8: tickets and credits move only with the tokens of those concerned. If serving a request
  changes the owner of a ticket, the request is the confirmation of a transfer with the token of its
  seller, and the buyer, who is the new owner, had confirmed. With lawful external services, if it
  changes the credits of a user, then it is a purchase or a top-up with that user's token, or Stripe's
  signed notice of that user's payment, or a registration while the user was not registered, or the
  confirmation of a transfer with the token of its seller, whose buyer had confirmed, and the user is
  one of the two.
\<close>

theorem moves_need_tokens:
  fixes bal :: "'x \<Rightarrow> string \<Rightarrow> 'n::{ring_1,ord}"
  assumes "serve jwt bc V header req (f, s) = (rep, f', s')" and "services_laws bal V"
  shows "(row_get ticketId tid (tickets s) = Some k \<longrightarrow> row_get ticketId tid (tickets s') = Some k' \<longrightarrow> tk_ownerId k' \<noteq> tk_ownerId k \<longrightarrow>
      (\<exists>trid code seller. req = ToTransfer (PostSellerVerify trid code) \<and> token_user jwt header (time_now s) = Some seller
         \<and> confirmed_deal seller trid tid (tk_ownerId k') s))
    \<and> (bal (ext s') w \<noteq> bal (ext s) w \<longrightarrow>
      (token_user jwt header (time_now s) = Some w \<and> (\<exists>j b pid. req = ToPurchase (PostConfirm j b) \<or> req = ToCredit (PostTopupConfirm pid)))
    \<or> (\<exists>payload sig st p. req = ToCredit (PostWebhook payload sig) \<and> wrapper_webhook (sv_stripe V) payload sig = Done st (Some p)
         \<and> py_str (pay_userId p) = w)
    \<or> (w \<notin> us_userId ` set (users s) \<and> (\<exists>b. req = ToAuth (PostRegister b)))
    \<or> (\<exists>trid code tr. req = ToTransfer (PostSellerVerify trid code) \<and> row_get transferId trid (transfers s) = Some tr
         \<and> token_user jwt header (time_now s) = Some (tr_sellerId tr) \<and> tr_status tr = ''pending_seller_otp'' \<and> buyerOtpVerified tr
         \<and> w \<in> {tr_buyerId tr, tr_sellerId tr}))"
  using served_owner_change [of tid s k jwt bc V header req f k'] served_credit_change [OF assms(2), of jwt bc header req f s w] assms(1)
  by auto

definition ex_token :: claims where
  "ex_token = \<lparr>cl_userId = Some ''u1'', cl_email = None, cl_role = Some ''user'', cl_jti = None, cl_exp = None, cl_venueId = None\<rparr>"

definition ex_bearer :: "string option" where
  "ex_bearer = Some (''Bearer '' @ ex_encode ex_token)"

definition ex_served :: "unit reply \<times> bool \<times> (int, (string \<Rightarrow> int) \<times> bool) sys" where
  "ex_served = serve ex_jwt ex_bcrypt ex_services ex_bearer (ToTransfer (PostSellerVerify ''x1'' (Some ''1234''))) (False, ex_deal)"

theorem moves_need_tokens_witness:
  "fst (ext (snd (snd ex_served))) ''u2'' \<noteq> fst (ext ex_deal) ''u2''
    \<and> confirmed_deal ''u1'' ''x1'' ''k1'' ''u2'' ex_deal"
proof -
  have u: "token_user ex_jwt ex_bearer (time_now ex_deal) = Some ''u1''" by code_simp
  have e: "serve ex_jwt ex_bcrypt ex_services ex_bearer (ToTransfer (PostSellerVerify ''x1'' (Some ''1234''))) (False, ex_deal)
      = (fst ex_served, fst (snd ex_served), snd (snd ex_served))" by (simp add: ex_served_def)
  have c: "fst (ext (snd (snd ex_served))) ''u2'' \<noteq> fst (ext ex_deal) ''u2''" by code_simp
  have "map_option tk_ownerId (row_get ticketId ''k1'' (tickets ex_deal)) = Some ''u1''"
    "map_option tk_ownerId (row_get ticketId ''k1'' (tickets (snd (snd ex_served)))) = Some ''u2''" by code_simp+
  then obtain k k' where "row_get ticketId ''k1'' (tickets ex_deal) = Some k" "tk_ownerId k = ''u1''"
    "row_get ticketId ''k1'' (tickets (snd (snd ex_served))) = Some k'" "tk_ownerId k' = ''u2''" by auto
  with moves_need_tokens [OF e ex_services_laws, of "''k1''" k k'] u c show ?thesis by auto
qed

end
