(* ===== verification/Wire.thy ===== *)
theory Wire
  imports Boot MarketplaceOrchestrator
begin

text \<open>
  What is on the wire between an orchestrator and a service: the handler of a route returns or raises,
  the error handlers of the service make the answer (\<^verbatim>\<open>app.py\<close>), and the client of the orchestrator reads
  it (\<^verbatim>\<open>service_client.py\<close>). The locale \<open>json_service\<close> is what a client may expect of the answers of a
  service, interpreted on the error handlers of each of the twelve services; \<open>http_client\<close> is what a handler may
  expect of its client, interpreted on the clients of seven orchestrators. Together they give that a
  call over the wire is the \<open>call_service\<close> of the model of the workflows.
\<close>

subsection \<open>The answer of a service\<close>

text \<open>A handler returns a status and a body, or raises an HTTP exception (its code and description) or another one.\<close>

datatype handler_outcome = Returned nat "jval option" | HttpExc "nat option" "string option" exc | Raised exc

text \<open>The time and the id that an error body is stamped with.\<close>

type_synonym stamp = "string \<times> string"

definition error_response :: "nat \<Rightarrow> string \<Rightarrow> string \<Rightarrow> handler_outcome" where
  "error_response status code message =
     Returned status (Some (VObj [(''error'', VObj [(''code'', VText code), (''message'', VText message)])]))"

definition respond :: "bool \<Rightarrow> request_info \<Rightarrow> stamp \<Rightarrow> stamp \<Rightarrow> handler_outcome \<Rightarrow> answer_body" where
  "respond verbose req made sent out =
     enrich_error_payload req (fst sent) (snd sent)
       (case out of
          Returned status body \<Rightarrow> \<lparr>ab_status = status, ab_json = body\<rparr>
        | HttpExc code description exc \<Rightarrow> handle_http_exception verbose req (fst made) (snd made) code description exc
        | Raised exc \<Rightarrow> handle_unhandled_exception verbose req (fst made) (snd made) exc)"

text \<open>The error handlers of each service, with the setting that its \<^verbatim>\<open>create_app\<close> reads.\<close>

type_synonym responder = "environ \<Rightarrow> request_info \<Rightarrow> stamp \<Rightarrow> stamp \<Rightarrow> handler_outcome \<Rightarrow> answer_body"

definition user_responses :: responder where
  "user_responses env = respond (verbose_errors env)"

definition ticket_responses :: responder where
  "ticket_responses env = respond (verbose_errors env)"

definition seat_inventory_responses :: responder where
  "seat_inventory_responses env = respond (verbose_errors env)"

definition event_responses :: responder where
  "event_responses env = respond (verbose_errors env)"

definition venue_responses :: responder where
  "venue_responses env = respond (verbose_errors env)"

definition seat_responses :: responder where
  "seat_responses env = respond (verbose_errors env)"

definition ticket_log_responses :: responder where
  "ticket_log_responses env = respond (verbose_errors env)"

definition marketplace_responses :: responder where
  "marketplace_responses env = respond (verbose_errors env)"

definition transfer_responses :: responder where
  "transfer_responses env = respond (verbose_errors env)"

definition credit_transaction_responses :: responder where
  "credit_transaction_responses env = respond (verbose_errors env)"

definition otp_wrapper_responses :: responder where
  "otp_wrapper_responses env = respond (verbose_errors env)"

definition stripe_wrapper_responses :: responder where
  "stripe_wrapper_responses env = respond (verbose_errors env)"

lemmas responder_defs = user_responses_def ticket_responses_def seat_inventory_responses_def event_responses_def
  venue_responses_def seat_responses_def ticket_log_responses_def marketplace_responses_def transfer_responses_def
  credit_transaction_responses_def otp_wrapper_responses_def stripe_wrapper_responses_def

definition responders :: "responder list" where
  "responders = [user_responses, ticket_responses, seat_inventory_responses, event_responses, venue_responses, seat_responses,
     ticket_log_responses, marketplace_responses, transfer_responses, credit_transaction_responses, otp_wrapper_responses,
     stripe_wrapper_responses]"

subsection \<open>The client of an orchestrator\<close>

text \<open>
  What \<^verbatim>\<open>requests\<close> gives: an answer, a timeout or a failed connection. The caller gets a value, an error code
  (in a body of the service's making it could be any value), or the exception for a success that is not JSON.
\<close>

datatype http_fate = HttpAnswer answer_body | HttpFailed net_error

datatype called = CallOk jval | CallErr jval | CallRaises

definition body_error_code :: "jval option \<Rightarrow> jval" where
  "body_error_code body =
     (case obj_of body of
        None \<Rightarrow> VText UNAVAILABLE
      | Some payload \<Rightarrow>
          (case obj_of (map_of payload ''error'') of
             None \<Rightarrow> VText UNAVAILABLE
           | Some error \<Rightarrow> (case map_of error ''code'' of None \<Rightarrow> VText UNAVAILABLE | Some c \<Rightarrow> c)))"

definition requests_call :: "string \<Rightarrow> http_fate \<Rightarrow> called" where
  "requests_call tmo fate =
     (case fate of
        HttpFailed e \<Rightarrow> CallErr (VText (net_code tmo e))
      | HttpAnswer a \<Rightarrow>
          if 400 \<le> ab_status a \<and> ab_status a < 600 then CallErr (body_error_code (ab_json a))
          else (case ab_json a of None \<Rightarrow> CallRaises | Some v \<Rightarrow> CallOk v))"

text \<open>The copies of the orchestrators, which differ in the code of a timeout.\<close>

definition qr_client :: "http_fate \<Rightarrow> called" where
  "qr_client = requests_call SERVICE_TIMEOUT"

definition verification_client :: "http_fate \<Rightarrow> called" where
  "verification_client = requests_call SERVICE_TIMEOUT"

definition marketplace_client :: "http_fate \<Rightarrow> called" where
  "marketplace_client = requests_call SERVICE_TIMEOUT"

definition event_client :: "http_fate \<Rightarrow> called" where
  "event_client = requests_call SERVICE_TIMEOUT"

definition credit_client :: "http_fate \<Rightarrow> called" where
  "credit_client = requests_call UNAVAILABLE"

definition auth_client :: "http_fate \<Rightarrow> called" where
  "auth_client = requests_call UNAVAILABLE"

definition transfer_client :: "http_fate \<Rightarrow> called" where
  "transfer_client = requests_call UNAVAILABLE"

lemmas client_defs = qr_client_def verification_client_def marketplace_client_def event_client_def credit_client_def
  auth_client_def transfer_client_def

definition clients :: "((http_fate \<Rightarrow> called) \<times> string) list" where
  "clients = [(qr_client, SERVICE_TIMEOUT), (verification_client, SERVICE_TIMEOUT), (marketplace_client, SERVICE_TIMEOUT),
     (event_client, SERVICE_TIMEOUT), (credit_client, UNAVAILABLE), (auth_client, UNAVAILABLE), (transfer_client, UNAVAILABLE)]"

subsection \<open>A call over the wire\<close>

text \<open>
  The call with what the network does to it: a lost request never reaches the handler, a lost reply
  leaves its effect, and a crash is an exception (\<open>crash\<close>) before any effect.
\<close>

definition wire_call ::
  "(http_fate \<Rightarrow> called) \<Rightarrow> (handler_outcome \<Rightarrow> answer_body) \<Rightarrow> exc \<Rightarrow> (('n, 'x) sys \<Rightarrow> handler_outcome \<times> ('n, 'x) sys) \<Rightarrow> ('n, 'x) sys
    \<Rightarrow> called \<times> ('n, 'x) sys" where
  "wire_call client app crash handler s =
     (case take_net s of (f, s1) \<Rightarrow>
        (case f of
           NetOk \<Rightarrow> (case handler s1 of (out, s2) \<Rightarrow> (client (HttpAnswer (app out)), s2))
         | ReqLost e \<Rightarrow> (client (HttpFailed e), s1)
         | ReplyLost e \<Rightarrow> (client (HttpFailed e), snd (handler s1))
         | Crashed \<Rightarrow> (client (HttpAnswer (app (Raised crash))), s1)))"

text \<open>
  How an answer of the model stands for what a handler does; \<open>enc\<close> is the serialisation of its value. The
  code of an exception that the handler does not catch is that of the error handlers.
\<close>

inductive stands_for :: "('a \<Rightarrow> jval) \<Rightarrow> 'a reply \<Rightarrow> handler_outcome \<Rightarrow> bool" for enc where
  value_returned: "st < 400 \<Longrightarrow> stands_for enc (Done st v) (Returned st (Some (enc v)))"
| error_returned: "400 \<le> st \<Longrightarrow> st < 600 \<Longrightarrow> stands_for enc (Fail st c) (error_response st c message)"
| exception: "stands_for enc (Fail 500 ''INTERNAL_ERROR'') (Raised e)"
| http_exception: "400 \<le> st \<Longrightarrow> st < 600 \<Longrightarrow> stands_for enc (Fail st (http_error_code st)) (HttpExc (Some st) d e)"

definition implements :: "('a \<Rightarrow> jval) \<Rightarrow> (('n, 'x) sys \<Rightarrow> handler_outcome \<times> ('n, 'x) sys) \<Rightarrow> ('n, 'x, 'a) endpoint \<Rightarrow> bool" where
  "implements enc handler ep \<longleftrightarrow> (\<forall>s. snd (handler s) = snd (ep s) \<and> stands_for enc (fst (ep s)) (fst (handler s)))"

fun called_of :: "('a \<Rightarrow> jval) \<Rightarrow> string + 'a \<Rightarrow> called" where
  "called_of enc (Inl c) = CallErr (VText c)"
| "called_of enc (Inr v) = CallOk (enc v)"

text \<open>An answer that carries a code: the text under \<^verbatim>\<open>error.code\<close>.\<close>

definition carries :: "nat \<Rightarrow> string \<Rightarrow> answer_body \<Rightarrow> bool" where
  "carries st c a \<longleftrightarrow> ab_status a = st \<and>
     (\<exists>payload error. ab_json a = Some (VObj payload) \<and> map_of payload ''error'' = Some (VObj error) \<and> map_of error ''code'' = Some (VText c))"

subsection \<open>What a client may expect of a service\<close>

locale json_service =
  fixes app :: responder
  assumes success_as_is: "st < 400 \<Longrightarrow> app env req made sent (Returned st body) = \<lparr>ab_status = st, ab_json = body\<rparr>"
    and error_coded: "400 \<le> st \<Longrightarrow> carries st c (app env req made sent (error_response st c message))"
    and exception_coded: "carries 500 ''INTERNAL_ERROR'' (app env req made sent (Raised exc))"
    and http_coded: "400 \<le> st \<Longrightarrow> carries st (http_error_code st) (app env req made sent (HttpExc (Some st) d exc))"
    and quiet: "\<not> verbose_errors env \<Longrightarrow> app env req made sent (Raised exc) = app env req made sent (Raised exc')"
begin

lemma failure_coded:
  assumes "stands_for enc (Fail st c) out"
  shows "carries st c (app env req made sent out) \<and> 400 \<le> st \<and> st < 600"
  using assms by (cases rule: stands_for.cases) (auto intro: error_coded exception_coded http_coded)

lemma value_sent:
  assumes "stands_for enc (Done st v) out"
  shows "app env req made sent out = \<lparr>ab_status = st, ab_json = Some (enc v)\<rparr> \<and> st < 400"
  using assms by (cases rule: stands_for.cases) (auto simp: success_as_is)

end

locale http_client =
  fixes client :: "http_fate \<Rightarrow> called" and tmo :: string
  assumes value_read: "ab_status a < 400 \<Longrightarrow> ab_json a = Some v \<Longrightarrow> client (HttpAnswer a) = CallOk v"
    and code_read: "carries st c a \<Longrightarrow> 400 \<le> st \<Longrightarrow> st < 600 \<Longrightarrow> client (HttpAnswer a) = CallErr (VText c)"
    and failure_read: "client (HttpFailed e) = CallErr (VText (net_code tmo e))"

locale wired = json_service app + http_client client tmo for app client tmo
begin

lemma reply_read:
  assumes "stands_for enc r out"
  shows "client (HttpAnswer (app env req made sent out)) = called_of enc (case r of Fail st c \<Rightarrow> Inl c | Done st v \<Rightarrow> Inr v)"
proof (cases r)
  case (Fail st c)
  with failure_coded [of enc st c out env req made sent] assms have "client (HttpAnswer (app env req made sent out)) = CallErr (VText c)"
    by (blast intro: code_read)
  with Fail show ?thesis by simp
next
  case (Done st v)
  with assms value_sent [of enc st v out] show ?thesis by (simp add: value_read)
qed

lemma wire_call_refines:
  assumes "implements enc handler ep"
  shows "wire_call client (app env req made sent) crash handler s = apfst (called_of enc) (call_service tmo ep s)"
proof -
  have h: "snd (handler s1) = snd (ep s1)" "stands_for enc (fst (ep s1)) (fst (handler s1))" for s1
    using assms by (auto simp: implements_def)
  have crash: "client (HttpAnswer (app env req made sent (Raised crash))) = CallErr (VText ''INTERNAL_ERROR'')"
    by (rule code_read [OF exception_coded]) auto
  obtain f s1 where f: "take_net s = (f, s1)" by force
  show ?thesis
  proof (cases f)
    case NetOk
    obtain r s2 where r: "ep s1 = (r, s2)" by force
    with h [of s1] have "wire_call client (app env req made sent) crash handler s = (client (HttpAnswer (app env req made sent (fst (handler s1)))), s2)"
      by (auto simp: wire_call_def f NetOk split: prod.split)
    with reply_read [OF h(2) [of s1]] r show ?thesis
      by (auto simp: call_service_def f NetOk split: reply.split)
  qed (use h in \<open>auto simp: wire_call_def call_service_def f failure_read crash\<close>)
qed

end

subsection \<open>The services and the clients keep these contracts\<close>

lemma enrich_carries: "carries st c a \<Longrightarrow> 400 \<le> st \<Longrightarrow> carries st c (enrich_error_payload req now uuid a)"
proof -
  assume a: "carries st c a" "400 \<le> st"
  then obtain payload error where p: "ab_json a = Some (VObj payload)" "map_of payload ''error'' = Some (VObj error)"
    "map_of error ''code'' = Some (VText c)" by (auto simp: carries_def)
  with a enrich_error_payload_complete [of a payload error req now uuid] obtain p' e d where
    "ab_json (enrich_error_payload req now uuid a) = Some (VObj p')" "map_of p' ''error'' = Some (VObj e)"
    "\<forall>k v. k \<noteq> ''details'' \<longrightarrow> map_of error k = Some v \<longrightarrow> map_of e k = Some v" by (auto simp: carries_def)
  moreover have "ab_status (enrich_error_payload req now uuid a) = st"
    using a by (auto simp: carries_def enrich_error_payload_def split: option.split)
  ultimately show ?thesis using p(3) by (auto simp: carries_def)
qed

lemma payload_carries:
  "carries st c \<lparr>ab_status = st, ab_json = Some (build_error_payload req now uuid st c message exc)\<rparr>"
  by (simp add: carries_def build_error_payload_def)

lemma returned_carries:
  "carries st c \<lparr>ab_status = st, ab_json = Some (VObj [(''error'', VObj [(''code'', VText c), (''message'', VText message)])])\<rparr>"
  by (simp add: carries_def)

lemma respond_coded:
  "400 \<le> st \<Longrightarrow> carries st c (respond verbose req made sent (error_response st c message))"
  "carries 500 ''INTERNAL_ERROR'' (respond verbose req made sent (Raised exc))"
  "400 \<le> st \<Longrightarrow> carries st (http_error_code st) (respond verbose req made sent (HttpExc (Some st) d exc))"
  unfolding respond_def error_response_def handle_unhandled_exception_def handle_http_exception_def Let_def
  by (simp_all add: enrich_carries returned_carries payload_carries)

lemma respond_service: "json_service (\<lambda>env. respond (verbose_errors env))"
  by (rule json_service.intro)
    (simp_all add: respond_coded, simp_all add: respond_def success_not_enriched handle_unhandled_exception_def)

lemma requests_client: "http_client (requests_call tmo) tmo"
  by unfold_locales (auto simp: requests_call_def body_error_code_def carries_def obj_of_def)

interpretation user_service: json_service user_responses
  unfolding user_responses_def by (rule respond_service)

interpretation ticket_service: json_service ticket_responses
  unfolding ticket_responses_def by (rule respond_service)

interpretation seat_inventory_service: json_service seat_inventory_responses
  unfolding seat_inventory_responses_def by (rule respond_service)

interpretation event_service: json_service event_responses
  unfolding event_responses_def by (rule respond_service)

interpretation venue_service: json_service venue_responses
  unfolding venue_responses_def by (rule respond_service)

interpretation seat_service: json_service seat_responses
  unfolding seat_responses_def by (rule respond_service)

interpretation ticket_log_service: json_service ticket_log_responses
  unfolding ticket_log_responses_def by (rule respond_service)

interpretation marketplace_service: json_service marketplace_responses
  unfolding marketplace_responses_def by (rule respond_service)

interpretation transfer_service: json_service transfer_responses
  unfolding transfer_responses_def by (rule respond_service)

interpretation credit_transaction_service: json_service credit_transaction_responses
  unfolding credit_transaction_responses_def by (rule respond_service)

interpretation otp_wrapper: json_service otp_wrapper_responses
  unfolding otp_wrapper_responses_def by (rule respond_service)

interpretation stripe_wrapper: json_service stripe_wrapper_responses
  unfolding stripe_wrapper_responses_def by (rule respond_service)

lemmas service_contracts = user_service.json_service_axioms ticket_service.json_service_axioms
  seat_inventory_service.json_service_axioms event_service.json_service_axioms venue_service.json_service_axioms
  seat_service.json_service_axioms ticket_log_service.json_service_axioms marketplace_service.json_service_axioms
  transfer_service.json_service_axioms credit_transaction_service.json_service_axioms otp_wrapper.json_service_axioms
  stripe_wrapper.json_service_axioms

interpretation qr: http_client qr_client SERVICE_TIMEOUT
  unfolding qr_client_def by (rule requests_client)

interpretation door: http_client verification_client SERVICE_TIMEOUT
  unfolding verification_client_def by (rule requests_client)

interpretation market: http_client marketplace_client SERVICE_TIMEOUT
  unfolding marketplace_client_def by (rule requests_client)

interpretation catalogue: http_client event_client SERVICE_TIMEOUT
  unfolding event_client_def by (rule requests_client)

interpretation credit: http_client credit_client UNAVAILABLE
  unfolding credit_client_def by (rule requests_client)

interpretation auth: http_client auth_client UNAVAILABLE
  unfolding auth_client_def by (rule requests_client)

interpretation transfer: http_client transfer_client UNAVAILABLE
  unfolding transfer_client_def by (rule requests_client)

lemmas client_contracts = qr.http_client_axioms door.http_client_axioms market.http_client_axioms catalogue.http_client_axioms
  credit.http_client_axioms auth.http_client_axioms transfer.http_client_axioms

interpretation door_to_tickets: wired ticket_responses verification_client SERVICE_TIMEOUT
  by (intro wired.intro service_contracts client_contracts)

subsection \<open>A ticket on the wire\<close>

text \<open>\<^verbatim>\<open>Ticket.to_dict\<close>, with the texts of a price and of an instant; a missing value is null.\<close>

definition json_null :: jval where
  "json_null = jval.VOther ''null''"

definition to_dict :: "('n \<Rightarrow> jval) \<Rightarrow> (datetime \<Rightarrow> string) \<Rightarrow> (int \<Rightarrow> string) \<Rightarrow> 'n ticket \<Rightarrow> jval" where
  "to_dict num moment created t =
     VObj [(''ticketId'', VText (ticketId t)), (''inventoryId'', VText (tk_inventoryId t)), (''ownerId'', VText (tk_ownerId t)),
       (''venueId'', VText (tk_venueId t)), (''eventId'', VText (tk_eventId t)), (''price'', num (tk_price t)),
       (''status'', VText (tk_status t)), (''qrHash'', case qrHash t of None \<Rightarrow> json_null | Some h \<Rightarrow> VText h),
       (''qrTimestamp'', case qrTimestamp t of None \<Rightarrow> json_null | Some d \<Rightarrow> VText (moment d)), (''createdAt'', VText (created (tk_createdAt t)))]"

definition get_ticket_route ::
  "('n \<Rightarrow> jval) \<Rightarrow> (datetime \<Rightarrow> string) \<Rightarrow> (int \<Rightarrow> string) \<Rightarrow> string \<Rightarrow> ('n, 'x) sys \<Rightarrow> handler_outcome \<times> ('n, 'x) sys" where
  "get_ticket_route num moment created tid s =
     (case row_get ticketId tid (tickets s) of
        None \<Rightarrow> (error_response 404 ''TICKET_NOT_FOUND'' ''Ticket not found'', s)
      | Some t \<Rightarrow> (Returned 200 (Some (to_dict num moment created t)), s))"

lemma get_ticket_route_implements: "implements (to_dict num moment created) (get_ticket_route num moment created tid) (ep_get_ticket tid)"
  by (auto simp: implements_def get_ticket_route_def ep_get_ticket_def get_ticket_def split: option.split intro: stands_for.intros)

lemma ticket_over_the_wire:
  "wire_call verification_client (ticket_responses env req made sent) crash (get_ticket_route num moment created tid) s
    = apfst (called_of (to_dict num moment created)) (call_service SERVICE_TIMEOUT (ep_get_ticket tid) s)"
  by (rule door_to_tickets.wire_call_refines [OF get_ticket_route_implements])

text \<open>
  Property C36: a call over the wire is a call of the model. Whatever service answers and whichever of the
  seven orchestrators asks, if the handler of a route does what the model of the route says, then what
  the caller gets is what \<open>call_service\<close> gives, over every loss and crash, whatever the stamps of the
  error bodies: the value of a success, the code that the route gave to its error, \<^verbatim>\<open>INTERNAL_ERROR\<close> for an
  exception, or the code of a timeout or failed connection; the call never raises. And a service that is
  not told to be verbose shows nothing of an exception that it did not expect.
\<close>

theorem calls_over_the_wire:
  assumes "app \<in> set responders" and "(client, tmo) \<in> set clients" and "implements enc handler ep"
  shows "wire_call client (app env req made sent) crash handler s = apfst (called_of enc) (call_service tmo ep s)
    \<and> (\<not> verbose_errors env \<longrightarrow> app env req made sent (Raised e) = app env req made sent (Raised e'))"
proof -
  have service: "json_service app" using assms(1) service_contracts by (auto simp: responders_def)
  have "http_client client tmo" using assms(2) client_contracts by (auto simp: clients_def)
  with service have "wired app client tmo" by (rule wired.intro)
  from wired.wire_call_refines [OF this assms(3)] json_service.quiet [OF service] show ?thesis by blast
qed

definition ex_error :: exc where
  "ex_error = (''KeyError'', ''secret'', ''line 1'')"

definition ex_wire :: "string \<Rightarrow> (int, (string \<Rightarrow> int) \<times> bool) sys \<Rightarrow> called" where
  "ex_wire tid s = fst (wire_call verification_client (ticket_responses Map.empty \<lparr>rq_meth = ''GET'', rq_path = ''/tickets''\<rparr> (''t1'', ''i1'') (''t2'', ''i2''))
     ex_error (get_ticket_route VInt (\<lambda>_. ''d'') (\<lambda>_. ''d'') tid) s)"

theorem calls_over_the_wire_witness:
  "ex_wire ''zz'' ex_sys = CallErr (VText ''TICKET_NOT_FOUND'')
    \<and> ex_wire ''zz'' (ex_sys\<lparr>net := [ReplyLost TimedOut]\<rparr>) = CallErr (VText ''SERVICE_TIMEOUT'')"
proof -
  have "ticket_responses \<in> set responders" "(verification_client, SERVICE_TIMEOUT) \<in> set clients"
    by (simp_all add: responders_def clients_def)
  note wire = calls_over_the_wire [OF this get_ticket_route_implements, THEN conjunct1]
  have "fst (call_service SERVICE_TIMEOUT (ep_get_ticket ''zz'') ex_sys) = Inl ''TICKET_NOT_FOUND''"
    "fst (call_service SERVICE_TIMEOUT (ep_get_ticket ''zz'') (ex_sys\<lparr>net := [ReplyLost TimedOut]\<rparr>)) = Inl ''SERVICE_TIMEOUT''"
    by code_simp+
  then show ?thesis by (simp add: ex_wire_def wire)
qed

end
