(* ===== verification/Launch.thy ===== *)
theory Launch
  imports Boot
begin

text \<open>
  How the orchestrators start and stop (\<^verbatim>\<open>app.py\<close> of each): the two that work with RabbitMQ set up the
  queues with ten attempts, start the threads of their consumers and register the handler of signals,
  and answer a probe of their readiness; the others register their routes only. The lemmas show that
  they start whatever RabbitMQ does, what a start leaves in RabbitMQ, and what the probes see of a
  shutdown.
\<close>

subsection \<open>Setting up the queues\<close>

text \<open>
  The operations of \<^verbatim>\<open>declare_queues\<close> one by one. \<open>budget\<close> is how many of them the connection lasts, None
  when it does not break; what was done before an error stays in RabbitMQ.
\<close>

definition queue_operations :: "int \<Rightarrow> ('m broker \<Rightarrow> 'm broker option) list" where
  "queue_operations hold_seconds =
     [\<lambda>b. Some (exchange_declare ''seat_hold_dlx'' b),
      queue_declare ''seat_hold_expired_queue'' plain_queue,
      queue_bind ''seat_hold_expired_queue'' ''seat_hold_dlx'',
      queue_declare ''seat_hold_ttl_queue'' (hold_queue hold_seconds),
      queue_declare ''seller_notification_queue'' plain_queue,
      queue_declare ''transfer_timeout_queue'' plain_queue]"

fun run_ops :: "nat option \<Rightarrow> ('b \<Rightarrow> 'b option) list \<Rightarrow> 'b \<Rightarrow> bool \<times> 'b" where
  "run_ops (Some 0) ops b = (False, b)"
| "run_ops budget [] b = (True, b)"
| "run_ops budget (f # ops) b =
     (case f b of None \<Rightarrow> (False, b) | Some b' \<Rightarrow> run_ops (map_option (\<lambda>k. k - 1) budget) ops b')"

definition bootstrap :: "int \<Rightarrow> nat option \<Rightarrow> 'm broker \<Rightarrow> bool \<times> 'm broker" where
  "bootstrap hold_seconds budget b = run_ops budget (queue_operations hold_seconds) b"

text \<open>
  The loop of \<^verbatim>\<open>create_app\<close>: the connections of the coming attempts (after the list they last), whether the set-up succeeded,
  the seconds slept between attempts, and what RabbitMQ has then.
\<close>

definition QUEUE_ATTEMPTS :: nat where
  "QUEUE_ATTEMPTS = 10"

fun setup_queues :: "nat \<Rightarrow> int \<Rightarrow> nat option list \<Rightarrow> 'm broker \<Rightarrow> bool \<times> int \<times> 'm broker" where
  "setup_queues 0 hold_seconds conns b = (False, 0, b)"
| "setup_queues (Suc n) hold_seconds conns b =
     (case bootstrap hold_seconds (case conns of [] \<Rightarrow> None | c # cs \<Rightarrow> c) b of
        (True, b') \<Rightarrow> (True, 0, b')
      | (False, b') \<Rightarrow> (case setup_queues n hold_seconds (tl conns) b' of (ok, slept, b'') \<Rightarrow> (ok, slept + 3, b'')))"

subsection \<open>The processes\<close>

text \<open>The threads that were started, and whether the process handles SIGTERM and SIGINT and is shutting down.\<close>

record orchestrator =
  or_service :: string
  or_threads :: "string list"
  or_signals :: bool
  or_shutting_down :: bool

definition serving :: "string \<Rightarrow> orchestrator" where
  "serving name = \<lparr>or_service = name, or_threads = [], or_signals = False, or_shutting_down = False\<rparr>"

definition launch ::
  "string \<Rightarrow> string list \<Rightarrow> bool \<Rightarrow> int \<Rightarrow> nat option list \<Rightarrow> 'm broker \<Rightarrow> orchestrator \<times> int \<times> 'm broker" where
  "launch name consumers testing hold_seconds conns b =
     (if testing then ((serving name)\<lparr>or_signals := True\<rparr>, 0, b)
      else (case setup_queues QUEUE_ATTEMPTS hold_seconds conns b of
              (ok, slept, b') \<Rightarrow> ((serving name)\<lparr>or_threads := consumers, or_signals := True\<rparr>, slept, b')))"

definition purchase_create_app :: "bool \<Rightarrow> int \<Rightarrow> nat option list \<Rightarrow> 'm broker \<Rightarrow> orchestrator \<times> int \<times> 'm broker" where
  "purchase_create_app = launch ''ticket-purchase-orchestrator'' [''dlx-consumer'']"

definition transfer_create_app :: "bool \<Rightarrow> int \<Rightarrow> nat option list \<Rightarrow> 'm broker \<Rightarrow> orchestrator \<times> int \<times> 'm broker" where
  "transfer_create_app = launch ''transfer-orchestrator'' [''seller-consumer'', ''timeout-consumer'']"

definition credit_create_app :: orchestrator where
  "credit_create_app = serving ''credit-orchestrator''"

definition marketplace_create_app :: orchestrator where
  "marketplace_create_app = serving ''marketplace-orchestrator''"

definition qr_create_app :: orchestrator where
  "qr_create_app = serving ''qr-orchestrator''"

definition verification_create_app :: orchestrator where
  "verification_create_app = serving ''ticket-verification-orchestrator''"

text \<open>Two orchestrators start Sentry first.\<close>

definition import_auth_orchestrator :: "(string \<Rightarrow> 'r option) \<Rightarrow> environ \<Rightarrow> orchestrator started" where
  "import_auth_orchestrator rf env =
     (if init_sentry rf env (Some ''auth-orchestrator'') None = Refused then Refused else Started (serving ''auth-orchestrator''))"

definition import_event_orchestrator :: "(string \<Rightarrow> 'r option) \<Rightarrow> environ \<Rightarrow> orchestrator started" where
  "import_event_orchestrator rf env =
     (if init_sentry rf env (Some ''event-orchestrator'') None = Refused then Refused else Started (serving ''event-orchestrator''))"

subsection \<open>Probes and signals\<close>

definition health :: "orchestrator \<Rightarrow> answer_body" where
  "health p = \<lparr>ab_status = 200, ab_json = Some (VObj [(''status'', VText ''ok''), (''service'', VText (or_service p))])\<rparr>"

definition readiness :: "orchestrator \<Rightarrow> answer_body" where
  "readiness p =
     (if or_shutting_down p then \<lparr>ab_status = 503, ab_json = Some (VObj [(''status'', VText ''shutting_down'')])\<rparr>
      else \<lparr>ab_status = 200, ab_json = Some (VObj [(''status'', VText ''ready'')])\<rparr>)"

definition set_shutting_down :: "orchestrator \<Rightarrow> orchestrator" where
  "set_shutting_down p = p\<lparr>or_shutting_down := True\<rparr>"

text \<open>
  The handler that both processes register, with a clean-up that has nothing to close but the hooks: the
  process while it waits, and the instant of its exit, whether no request was counted and the hooks that
  ran. Neither process registers the middleware that counts requests, so the count is zero throughout.
\<close>

definition shutdown_handler ::
  "(resource \<Rightarrow> bool) \<Rightarrow> nat \<Rightarrow> int \<Rightarrow> orchestrator \<Rightarrow> orchestrator \<times> int \<times> bool \<times> resource list" where
  "shutdown_handler works hooks now p =
     (set_shutting_down p, graceful_shutdown (\<lambda>_. 0) (Some (cleanup works False False None hooks)) now)"

subsection \<open>Lemmas: the queues\<close>

text \<open>With a connection that lasts, the operations are those of \<^verbatim>\<open>declare_queues\<close>.\<close>

lemma bootstrap_is_declare_queues:
  "bootstrap n None b = (True, b') \<longleftrightarrow> declare_queues n b = Some b'"
  by (auto simp: bootstrap_def queue_operations_def declare_queues_def bind_eq_Some_conv split: option.splits)

text \<open>What the operations keep, a broken connection keeps.\<close>

lemma run_ops_keeps:
  assumes "\<And>f b b'. f \<in> set ops \<Longrightarrow> J b \<Longrightarrow> f b = Some b' \<Longrightarrow> J b'" and "J b"
  shows "J (snd (run_ops budget ops b))"
  using assms by (induction budget ops b rule: run_ops.induct) (auto split: option.split)

lemma run_ops_stuck:
  assumes "\<And>f b b'. f \<in> set ops \<Longrightarrow> J b \<Longrightarrow> f b = Some b' \<Longrightarrow> J b'" and "J b" and "ops \<noteq> []" and "\<And>b. J b \<Longrightarrow> last ops b = None"
  shows "\<not> fst (run_ops budget ops b)"
  using assms
proof (induction ops arbitrary: budget b)
  case (Cons f ops)
  show ?case
  proof (cases "budget = Some 0")
    case False
    then have step: "run_ops budget (f # ops) b = (case f b of None \<Rightarrow> (False, b) | Some b' \<Rightarrow> run_ops (map_option (\<lambda>k. k - 1) budget) ops b')"
      by (cases budget rule: option.exhaust) (auto simp: gr0_conv_Suc)
    show ?thesis
    proof (cases "ops = []")
      case True
      with step Cons.prems show ?thesis by auto
    next
      case ops: False
      have "\<not> fst (run_ops (map_option (\<lambda>k. k - 1) budget) ops b')" if "f b = Some b'" for b'
        by (rule Cons.IH) (use Cons.prems that ops in auto)
      with step show ?thesis by (auto split: option.split)
    qed
  qed simp
qed simp

text \<open>What the queues in RabbitMQ may be for a start to succeed: none, or the ones declared; and a start that fails keeps this.\<close>

definition required :: "int \<Rightarrow> string \<rightharpoonup> queue_args" where
  "required n = [''seat_hold_expired_queue'' \<mapsto> plain_queue, ''seat_hold_ttl_queue'' \<mapsto> hold_queue n,
     ''seller_notification_queue'' \<mapsto> plain_queue, ''transfer_timeout_queue'' \<mapsto> plain_queue]"

definition compatible :: "int \<Rightarrow> 'm broker \<Rightarrow> bool" where
  "compatible n b \<longleftrightarrow> (\<forall>q a. required n q = Some a \<longrightarrow> br_queues b q \<in> {None, Some a})"

lemma queue_declared:
  "queue_declare q a b = Some b' \<Longrightarrow> br_queues b' = (br_queues b)(q \<mapsto> a) \<and> br_exchanges b' = br_exchanges b"
  by (auto simp: queue_declare_def fun_upd_idem split: option.splits if_splits)

lemma queue_bound: "queue_bind q x b = Some b' \<Longrightarrow> br_queues b' = br_queues b"
  by (auto simp: queue_bind_def split: option.splits if_splits)

lemma exchange_queues [simp]: "br_queues (exchange_declare x b) = br_queues b"
  by (simp add: exchange_declare_def split: option.split)

lemma exchange_there: "br_exchanges (exchange_declare x b) x \<noteq> None"
  by (simp add: exchange_declare_def split: option.split)

lemma required_declare_keeps: "required n q = Some a \<Longrightarrow> compatible n b \<Longrightarrow> queue_declare q a b = Some b' \<Longrightarrow> compatible n b'"
  using queue_declared [of q a b b'] by (auto simp: compatible_def)

lemma queue_declare_works: "required n q = Some a \<Longrightarrow> compatible n b \<Longrightarrow> \<exists>b'. queue_declare q a b = Some b'"
proof -
  assume "required n q = Some a" "compatible n b"
  then have "br_queues b q \<in> {None, Some a}" by (simp add: compatible_def)
  then show ?thesis by (auto simp: queue_declare_def)
qed

lemma required_queues:
  "required n ''seat_hold_expired_queue'' = Some plain_queue" "required n ''seat_hold_ttl_queue'' = Some (hold_queue n)"
  "required n ''seller_notification_queue'' = Some plain_queue" "required n ''transfer_timeout_queue'' = Some plain_queue"
  by (simp_all add: required_def)

lemma same_queues_compatible: "br_queues b' = br_queues b \<Longrightarrow> compatible n b \<Longrightarrow> compatible n b'"
  by (simp add: compatible_def)

lemma compatible_kept:
  assumes "f \<in> set (queue_operations n)" and "compatible n b" and "f b = Some b'"
  shows "compatible n b'"
proof -
  have bind: "compatible n b'" if "queue_bind q x b = Some b'" for q x
    using queue_bound [OF that] assms(2) by (rule same_queues_compatible)
  have exchange: "compatible n (exchange_declare x b)" for x using assms(2) by (rule same_queues_compatible [rotated]) simp
  from assms(1,3) bind exchange required_declare_keeps [OF required_queues(1) assms(2)] required_declare_keeps [OF required_queues(2) assms(2)]
    required_declare_keeps [OF required_queues(3) assms(2)] required_declare_keeps [OF required_queues(4) assms(2)]
  show ?thesis unfolding queue_operations_def by auto
qed

lemma compatible_declares:
  assumes "compatible n b"
  shows "\<exists>b'. declare_queues n b = Some b'"
proof -
  have c0: "compatible n (exchange_declare ''seat_hold_dlx'' b)" using assms by (rule same_queues_compatible [rotated]) simp
  from queue_declare_works [OF required_queues(1) c0] obtain b1 where
    b1: "queue_declare ''seat_hold_expired_queue'' plain_queue (exchange_declare ''seat_hold_dlx'' b) = Some b1" by blast
  obtain b2 where b2: "queue_bind ''seat_hold_expired_queue'' ''seat_hold_dlx'' b1 = Some b2"
    using queue_declared [OF b1] exchange_there [of "''seat_hold_dlx''" b] by (auto simp: queue_bind_def)
  have c2: "compatible n b2"
    using required_declare_keeps [OF required_queues(1) c0 b1] queue_bound [OF b2] by (rule same_queues_compatible [rotated])
  from queue_declare_works [OF required_queues(2) c2] obtain b3 where b3: "queue_declare ''seat_hold_ttl_queue'' (hold_queue n) b2 = Some b3" by blast
  note c3 = required_declare_keeps [OF required_queues(2) c2 b3]
  from queue_declare_works [OF required_queues(3) c3] obtain b4 where b4: "queue_declare ''seller_notification_queue'' plain_queue b3 = Some b4" by blast
  from queue_declare_works [OF required_queues(4) required_declare_keeps [OF required_queues(3) c3 b4]] b1 b2 b3 b4
  show ?thesis by (auto simp: declare_queues_def)
qed

lemma bootstrap_compatible: "compatible n b \<Longrightarrow> compatible n (snd (bootstrap n budget b))"
  unfolding bootstrap_def by (rule run_ops_keeps) (auto intro: compatible_kept)

lemma bootstrap_topology:
  assumes "compatible n b"
  obtains b' where "bootstrap n None b = (True, b')" "topology n b'"
  using compatible_declares [OF assms] bootstrap_is_declare_queues declare_queues_topology by metis

text \<open>A set-up that reports success has declared everything.\<close>

lemma run_ops_done: "run_ops budget ops b = (True, b') \<Longrightarrow> run_ops None ops b = (True, b')"
proof (induction ops arbitrary: budget b)
  case (Cons f ops)
  then show ?case by (cases "(budget, f # ops, b)" rule: run_ops.cases) (auto split: option.splits)
next
  case Nil
  then show ?case by (cases "(budget, [] :: ('a \<Rightarrow> 'a option) list, b)" rule: run_ops.cases) auto
qed

lemma bootstrap_done: "bootstrap n budget b = (True, b') \<Longrightarrow> topology n b'"
  using run_ops_done bootstrap_is_declare_queues declare_queues_topology unfolding bootstrap_def by metis

text \<open>The connection of an attempt.\<close>

definition conn_at :: "nat option list \<Rightarrow> nat \<Rightarrow> nat option" where
  "conn_at conns i = (if i < length conns then conns ! i else None)"

lemma conn_at_tl: "conn_at conns (Suc i) = conn_at (tl conns) i"
  by (cases conns) (auto simp: conn_at_def)

lemma conn_at_0: "(case conns of [] \<Rightarrow> None | c # cs \<Rightarrow> c) = conn_at conns 0"
  by (cases conns) (auto simp: conn_at_def)

lemma setup_queues_Suc:
  "setup_queues (Suc n) hold conns b =
     (case bootstrap hold (conn_at conns 0) b of
        (True, b') \<Rightarrow> (True, 0, b')
      | (False, b') \<Rightarrow> (case setup_queues n hold (tl conns) b' of (ok, slept, b'') \<Rightarrow> (ok, slept + 3, b'')))"
  by (simp only: setup_queues.simps conn_at_0)

declare setup_queues.simps(2) [simp del]

text \<open>The loop sleeps three seconds after each failed attempt, so at most three for each.\<close>

lemma setup_queues_slept: "setup_queues n hold conns b = (ok, slept, b') \<Longrightarrow> 0 \<le> slept \<and> slept \<le> 3 * int n"
proof (induction n arbitrary: conns b ok slept b')
  case (Suc n)
  then show ?case by (fastforce simp: setup_queues_Suc split: prod.splits bool.splits)
qed simp

text \<open>One attempt whose connection lasts is enough, whatever the attempts before it left.\<close>

lemma setup_queues_works:
  assumes "setup_queues n hold conns b = (ok, slept, b')" and "compatible hold b" and "\<exists>i<n. conn_at conns i = None"
  shows "ok \<and> topology hold b'"
  using assms
proof (induction n arbitrary: conns b ok slept b')
  case (Suc n)
  obtain done1 b1 where b1: "bootstrap hold (conn_at conns 0) b = (done1, b1)" by force
  have c1: "compatible hold b1" using bootstrap_compatible [OF Suc.prems(2), of "conn_at conns 0"] b1 by simp
  show ?case
  proof (cases done1)
    case True
    with b1 Suc.prems(1) have "ok" "b' = b1" by (auto simp: setup_queues_Suc)
    moreover have "topology hold b1" by (rule bootstrap_done [of hold "conn_at conns 0" b]) (simp add: b1 True)
    ultimately show ?thesis by simp
  next
    case False
    with bootstrap_topology [OF Suc.prems(2)] b1 have "conn_at conns 0 \<noteq> None" by (metis prod.inject)
    with Suc.prems(3) have "\<exists>i<n. conn_at (tl conns) i = None" by (metis conn_at_tl less_Suc_eq_0_disj)
    moreover obtain sl where "setup_queues n hold (tl conns) b1 = (ok, sl, b')"
      using Suc.prems(1) b1 False by (auto simp: setup_queues_Suc split: prod.splits)
    ultimately show ?thesis using Suc.IH c1 by blast
  qed
qed simp

text \<open>A queue with other arguments than a start declares, last in the list, fails every attempt.\<close>

lemma other_timeout_queue_kept:
  assumes "f \<in> set (queue_operations n)" and "br_queues b ''transfer_timeout_queue'' = Some a" and "f b = Some b'" and "a \<noteq> plain_queue"
  shows "br_queues b' ''transfer_timeout_queue'' = Some a"
proof -
  have "queue_declare ''transfer_timeout_queue'' plain_queue b = None" using assms(2,4) by (simp add: queue_declare_def)
  with assms(3) have "f \<noteq> queue_declare ''transfer_timeout_queue'' plain_queue" by auto
  with assms(1) have "br_queues b' ''transfer_timeout_queue'' = br_queues b ''transfer_timeout_queue''"
    using assms(3) by (auto simp: queue_operations_def dest!: queue_declared queue_bound)
  with assms(2) show ?thesis by simp
qed

lemma bootstrap_stuck:
  assumes "br_queues b ''transfer_timeout_queue'' = Some a" and "a \<noteq> plain_queue"
  shows "\<not> fst (bootstrap n budget b) \<and> br_queues (snd (bootstrap n budget b)) ''transfer_timeout_queue'' = Some a"
proof -
  let ?J = "\<lambda>b. br_queues b ''transfer_timeout_queue'' = Some a"
  have kept: "?J b'" if "f \<in> set (queue_operations n)" "?J b" "f b = Some b'" for f and b b' :: "'a broker"
    using that assms(2) by (rule other_timeout_queue_kept)
  have "\<not> fst (run_ops budget (queue_operations n) b)"
  proof (rule run_ops_stuck [where J = ?J])
    show "?J b'" if "f \<in> set (queue_operations n)" "?J b" "f b = Some b'" for f and b b' :: "'a broker"
      using that by (rule kept)
  qed (use assms in \<open>simp_all add: queue_operations_def queue_declare_def\<close>)
  moreover have "?J (snd (run_ops budget (queue_operations n) b))"
    by (rule run_ops_keeps [where J = ?J]) (blast intro: kept, rule assms(1))
  ultimately show ?thesis by (simp add: bootstrap_def)
qed

lemma setup_queues_stuck:
  assumes "br_queues b ''transfer_timeout_queue'' = Some a" and "a \<noteq> plain_queue" and "setup_queues n hold conns b = (ok, slept, b')"
  shows "\<not> ok \<and> slept = 3 * int n"
  using assms
proof (induction n arbitrary: conns b ok slept b')
  case (Suc n)
  obtain d b1 where d: "bootstrap hold (conn_at conns 0) b = (d, b1)" by force
  with bootstrap_stuck [OF Suc.prems(1,2), of hold "conn_at conns 0"]
  have b1: "bootstrap hold (conn_at conns 0) b = (False, b1)" "br_queues b1 ''transfer_timeout_queue'' = Some a" by simp_all
  obtain sl where "setup_queues n hold (tl conns) b1 = (ok, sl, b')" "slept = sl + 3"
    using Suc.prems(3) b1 by (auto simp: setup_queues_Suc split: prod.splits)
  with Suc.IH [OF b1(2) assms(2)] show ?case by auto
qed simp

subsection \<open>Starting and stopping\<close>

lemma launch_result:
  assumes "launch name consumers False n conns b = (p, slept, b')"
  shows "or_threads p = consumers \<and> or_signals p \<and> \<not> or_shutting_down p \<and> (\<exists>ok. setup_queues QUEUE_ATTEMPTS n conns b = (ok, slept, b'))"
  using assms by (auto simp: launch_def serving_def split: prod.splits)

lemma timeout_queue_not_plain: "timeout_queue h \<noteq> plain_queue"
  by (simp add: timeout_queue_def plain_queue_def)

lemma shutdown_handler_result:
  "shutdown_handler works hooks now p = (p\<lparr>or_shutting_down := True\<rparr>, now + secs 5, True, run_shutdown_hooks works hooks)"
  by (simp add: shutdown_handler_def set_shutting_down_def uncounted_requests_not_awaited cleanup_def)


definition ex_rabbit :: "nat broker" where
  "ex_rabbit = \<lparr>br_queues = Map.empty, br_exchanges = Map.empty, br_messages = []\<rparr>"

definition ex_start :: "orchestrator \<times> int \<times> nat broker" where
  "ex_start = transfer_create_app False 600 [Some 0, Some 2] ex_rabbit"


end
