(* ===== verification/Spec2Isabelle.thy ===== *)
theory Spec2Isabelle
  imports SeatHistory PurchaseOrchestrator TransferOrder VerificationOrchestrator CreditOrchestrator
    AuthOrchestrator EventOrchestrator ServiceClient Startup NotificationService ErrorHandlers Seeding
    Workflows Boot Populate BotMerge Consumers CheckScripts Routes Wire Launch
begin

text \<open>
  A verification development of the TicketRemaster backend: a ticketing system of Flask services
  with a database each (\<^verbatim>\<open>src/services\<close>) and orchestrators (\<^verbatim>\<open>src/orchestrators\<close>) that run the
  workflows over them by HTTP and gRPC, with Redis and RabbitMQ between them and external services
  for credits, one-time passwords and payments.

  \<^bold>\<open>How the program is modelled.\<close> A table is the list of its rows, a row a \<open>record\<close> with the columns
  of \<^verbatim>\<open>models.py\<close>, and a handler a function from the state to its answer and the new state. Every
  early return, raised exception and failed constraint is a branch: \<open>Fail\<close> with the status and the
  code of the error body, or \<open>Done\<close> with the value that is serialised. An exception that no handler
  catches is the answer of the error handler of the application (\<^verbatim>\<open>INTERNAL_ERROR\<close> in the services, no
  code in the orchestrators). A field of a JSON body that may be absent or null is an option of an
  option. Prices and balances are of any type, so that the theorems hold for the floating point
  numbers of the code; where arithmetic matters the theorem asks for the class it needs. Values that
  the program draws (\<^verbatim>\<open>uuid4\<close>, tokens) and the clock are inputs; the clock is in microseconds, and a
  datetime is naive or aware, since comparing one with the other raises. A handler is one step: two
  requests interleave between handlers, not inside them, except in the seat service, whose retries
  carry the outcome of each database statement, and at the door, where the lock in Redis is modelled.

  \<^bold>\<open>Faults.\<close> What the network does to the coming calls is the list \<open>net\<close> (answered, request lost,
  reply lost, service crashed), what Redis and RabbitMQ do is \<open>redis_io\<close> and \<open>mq_io\<close>; an exhausted
  list means success. A theorem about every state is a theorem about every pattern of faults, and a
  theorem that needs a working network says so.

  \<^bold>\<open>The shared material.\<close>
  \<^item> \<open>Prelude\<close>: Python values, answers, tables and the locale \<open>keyed_table\<close>, which is interpreted on the
    tables of seats, tickets, listings, transfers, users and events; pages.
  \<^item> \<open>Queries\<close>: the pattern match \<^verbatim>\<open>ILIKE\<close> and its agreement with a search for a substring.
  \<^item> \<open>Infra\<close>: Redis with times to live, and the queues of RabbitMQ.
  \<^item> \<open>System\<close>: the state of all services together, the calls with their faults
    (\<^verbatim>\<open>service_client.py\<close>), the external credit service as a parameter with its laws, and for every
    call a lemma about the state after it.

  \<^bold>\<open>The services.\<close>
  \<^item> \<open>SeatInventory\<close> (\<^verbatim>\<open>seat-inventory-service\<close>): the gRPC operations HoldSeat, ReleaseSeat, SellSeat and
    GetSeatStatus with the cache in Redis, the idempotency keys and the retries after a deadlock, and
    the REST routes. The abstract seat is free, held or sold, and the operations refine it; the locale
    \<open>seat_provider\<close> is what the purchase relies on. \<open>SeatHistory\<close> has the reachable tables as a step
    relation: a seat is sold at most once, a sold seat stays sold, a hold is protected.
  \<^item> \<open>TicketService\<close>, \<open>MarketplaceService\<close>, \<open>TransferService\<close>, \<open>CreditLedger\<close>, \<open>TicketLog\<close>, \<open>Catalog\<close>
    (venues, seats of a venue, and the lookups of events and users), \<open>EventService\<close>, \<open>UserService\<close>: the
    tables and routes, with the invariant of each table and what each route keeps.
  \<^item> \<open>OtpWrapper\<close>, \<open>StripeWrapper\<close>: the wrappers of the external services, which are parameters; five
    wrong codes stop further guesses.
  \<^item> \<open>NotificationService\<close>: the clients and rooms of the WebSocket service; an event reaches exactly the
    subscribers of its channel.
  \<^item> \<open>Startup\<close>: what a process does around its work: the check of its secrets, the queues it declares,
    its pool of gRPC channels, and the shutdown, which ends in bounded time. \<open>ErrorHandlers\<close>: the error
    handlers of every service, which complete each error body once. \<open>Seeding\<close>: the scripts that fill the
    tables; the locale \<open>seeding\<close> shows of their common loop that a second run adds nothing.
  \<^item> \<open>Boot\<close>: the import of a service, with the check of its secrets, Sentry and the settings of its application.
    \<open>Populate\<close>: the seeded events, and the script that fills the tables of three services. \<open>BotMerge\<close>: the script
    that merges pull requests of bots, over GitHub as a parameter; it only requests merges of checked heads.
  \<^item> \<open>CheckScripts\<close>: the scripts that check an installation, over a file system. The locale \<open>reporter\<close> is the
    contract of a check (it appends what it finds and counts it), interpreted on the six parts of
    \<^verbatim>\<open>verify_all.py\<close>; the script succeeds exactly where all it asks for is there. The environment files, written
    and read, and the scripts that run a tool in every project.

  \<^bold>\<open>The orchestrators.\<close>
  \<^item> \<open>PurchaseOrchestrator\<close>: holding, releasing and the purchase saga with its compensations, the
    breaker in front of Redis and the consumer of expired holds. \<open>ServiceClient\<close>: its HTTP client with
    circuit breaker, retries and slots; a call ends within its budget.
  \<^item> \<open>TransferOrchestrator\<close>, \<open>TransferSaga\<close>, \<open>TransferProperties\<close>, \<open>TransferOrder\<close>: the sale between users,
    from the request over the two confirmations to the settlement saga, cancelling, the resent codes
    and the consumer of timeouts; the order of the steps is a step relation.
  \<^item> \<open>Consumers\<close>: the loops of the three consumers with lost connections and repeated deliveries. No message is
    lost, settled twice or overtaken; the locale \<open>steady_consumer\<close> lifts what a handler keeps to every run, and
    is interpreted on the three handlers; an expired hold whose message is delivered is freed.
  \<^item> \<open>MarketplaceOrchestrator\<close>, \<open>QrOrchestrator\<close>, \<open>VerificationOrchestrator\<close>: listing a ticket, the QR
    code of a ticket, and the door. The locale \<open>lock_service\<close> is what the door relies on of its lock.
  \<^item> \<open>CreditOrchestrator\<close>: top-ups through Stripe, and when a payment is credited twice.
  \<^item> \<open>TokenBlacklist\<close>, \<open>AuthOrchestrator\<close>: bearer tokens, their revocation (the locale
    \<open>revocation_list\<close>), the decorators of all routes, registration and login. \<open>EventOrchestrator\<close>: the
    catalogue, the dashboard and the creation of events.

  \<^bold>\<open>The whole system.\<close>
  \<^item> \<open>Frames\<close>: the locale \<open>workflow_relation\<close> asks of a relation on states that it is reflexive and
    transitive and holds of each effect a handler can have (a call to each service, a publication, a
    value drawn); it then holds of every handler of every orchestrator. \<open>owner_relation\<close> adds the handler
    that changes the owner of a ticket, \<open>sale_relation\<close> those that make a ticket, and
    \<open>ticketing_relation\<close> both.
  \<^item> \<open>Workflows\<close>: the steps of the whole system, one rule for each handler and consumer and one for the
    environment (time, faults and drawn values). The locales of \<open>Frames\<close> are interpreted on
    relations over the model's states, from which the invariants of all runs follow: one ticket per
    sold seat, a ticket changes hands only by a confirmed deal, the books only grow, the tables keep
    their constraints, and each run is a history of the seat service.

  \<^item> \<open>Routes\<close>: the requests that the orchestrators answer, with their \<^verbatim>\<open>Authorization\<close> header. Each goes through the
    decorator of its route to its handler, which takes the user of the token as an argument; the decorators
    themselves are in \<open>TokenBlacklist\<close>. Every request, and so every sequence of requests, is a run of the steps
    of \<open>Workflows\<close>; a refused request changes nothing, and tickets and credits move only with the tokens of
    those concerned.

  \<^bold>\<open>Between the processes.\<close>
  \<^item> \<open>Wire\<close>: what a service sends for a handler that returns or raises, and what the client of an orchestrator
    makes of it. The locale \<open>json_service\<close> is interpreted on the error handlers of the twelve services, \<open>http_client\<close>
    on the clients of seven orchestrators, and \<open>wired\<close>, which extends both, gives that a call over the wire is the
    \<open>call_service\<close> on which the models of the workflows rest; the route of a ticket is worked out on the wire.
  \<^item> \<open>Launch\<close>: the start of the orchestrators with their attempts to set up the queues, their consumers' threads,
    probes and handler of signals.

  This theory has the property that spans the purchase, the QR code and the door.

  \<^bold>\<open>Parameters.\<close> The OutSystems credit service (\<open>credit_laws\<close>), the SMU OTP service (\<open>otp_laws\<close>), Stripe,
  PyJWT (\<open>jwt_laws\<close>), bcrypt (\<open>bcrypt_laws\<close>), and the digest and ISO text inside a QR code are not under
  \<^verbatim>\<open>src\<close>: they are arguments, and the named laws are what the code relies on. Each law is shown to
  hold of an example that the witnesses use.

  \<^bold>\<open>Loops and bounds.\<close> All functions are total. A loop with a bound of its own (three attempts to
  publish, three to delete a cache entry, the attempts of a hold, the attempts of a call, the steps of
  a saga) is a recursion over that bound or list; the pattern match recurses on the lengths of its two
  texts, the wait for running requests at shutdown on the time that is left. Nothing runs on fuel.

  \<^bold>\<open>Not modelled.\<close> The widths of text columns, types of JSON values other than those a field is
  declared with, and characters outside ASCII in case folding; texts that go into the path of a URL are
  taken to arrive as written. The matching of URLs, migrations and generated gRPC code
  keep no state that the workflows read. The events that a consumer sees (\<open>Connect\<close>, \<open>LoseBefore\<close> and the
  others) stand for the pika connection; the pool of gRPC channels and the declared queues are modelled on their
  own, and the workflows see them as \<open>net\<close> and \<open>mq_io\<close>.
\<close>

subsection \<open>From the purchase to the door\<close>

text \<open>The ticket of a successful purchase, and the seat it is for.\<close>

lemma purchase_ticket:
  assumes "confirm_purchase api user body i s = (Done st a, s1)" and "unique_tickets (tickets s1)"
  shows "\<exists>k eid ev. row_get ticketId (pa_ticketId a) (tickets s1) = Some k \<and> bought_ticket user i eid ev k
    \<and> pb_eventId body = Some eid \<and> row_get ev_eventId eid (events s) = Some ev \<and> sview i s1 = Some VSold"
  using assms(1)
proof (cases rule: confirm_purchase_cases)
  case (sale s2 eid ev d)
  from confirm_sale_success [OF sale(7)] obtain k where k: "tickets s1 = tickets s2 @ [k]" "bought_ticket user i eid ev k"
      "pa_ticketId a = ticketId k" "sview i s1 = Some VSold"
    unfolding seat_request.simps by blast
  have "row_get ticketId (ticketId k) (tickets s1) = Some k"
    using assms(2) k(1) by (intro row_get_unique) (auto simp: unique_tickets_def)
  with k sale(1,4) show ?thesis by auto
qed simp

text \<open>A seat seen as sold has that status.\<close>

lemma sold_view:
  "sview i s = Some VSold \<Longrightarrow> row_get inventoryId i (seats (inventory s)) = Some r \<Longrightarrow> seat_status r = ''sold''"
  by (auto simp: sview_def seat_view_def view_of_def split: if_splits option.splits)

text \<open>
  Property C10: a bought seat lets its buyer in. After a purchase that answered 201, for a seat of
  the event that the request named, the buyer owns a ticket for that seat; once the buyer has
  fetched its QR code, a scan of the code within its lifetime, by staff of the event's venue, with
  no lost call, a working Redis and a free scan lock, admits that ticket, provided that nothing has
  changed the tickets, the seats and the events in between and the ticket has not been checked in.
\<close>

theorem bought_seat_lets_in:
  assumes buy: "confirm_purchase api user body i s = (Done st a, s1)"
    and seat: "row_get inventoryId i (seats (inventory s1)) = Some r" "pb_eventId body = Some (seat_eventId r)"
    and tables: "distinct (map inventoryId (seats (inventory s1)))" "unique_tickets (tickets s1)"
    and qr: "get_qr env user (pa_ticketId a) s1 = (Done st2 c, s2)" "qa_qrHash c \<noteq> []"
    and door: "tickets q = tickets s2" "seats (inventory q) = seats (inventory s1)" "events q = events s"
      "net q = []" "redis_io (world (inventory q)) = []" "scan_holder (pa_ticketId a) (world (inventory q)) = None"
      "\<not> checked_in (pa_ticketId a) q"
    and time: "qa_generatedAt c \<le> time_now q" "time_now q \<le> qa_expiresAt c"
    and venue: "\<And>ev. row_get ev_eventId (seat_eventId r) (events s) = Some ev \<Longrightarrow> truthy (sf_venueId stf) \<Longrightarrow>
      sf_venueId stf = Some (ev_venueId ev)"
  shows "(\<exists>k. row_get ticketId (pa_ticketId a) (tickets s1) = Some k \<and> tk_ownerId k = user \<and> tk_inventoryId k = i)
    \<and> (\<exists>b. fst (scan stf (Some (qa_qrHash c)) None q) = Done 200 b \<and> sa_ticketId b = pa_ticketId a)"
proof -
  obtain k ev where k: "row_get ticketId (pa_ticketId a) (tickets s1) = Some k" "bought_ticket user i (seat_eventId r) ev k"
    and ev: "row_get ev_eventId (seat_eventId r) (events s) = Some ev" and sold: "sview i s1 = Some VSold"
    using purchase_ticket [OF buy tables(2)] seat(2) by auto
  note b = k(2) [unfolded bought_ticket_def]
  have "\<exists>b. fst (scan stf (Some (qa_qrHash c)) None q) = Done 200 b \<and> sa_ticketId b = pa_ticketId a"
  proof (rule fresh_qr_admits [OF qr door(1,4,5,6) time k(1)])
    show "row_get ev_eventId (tk_eventId k) (events q) = Some ev" using b ev door(3) by simp
    show "distinct (map inventoryId (seats (inventory q)))" using tables(1) door(2) by simp
    show "row_get inventoryId (tk_inventoryId k) (seats (inventory q)) = Some r" using b seat(1) door(2) by simp
    show "seat_eventId r = tk_eventId k" using b by simp
    show "seat_status r = ''sold''" by (rule sold_view [OF sold seat(1)])
    show "\<not> checked_in (pa_ticketId a) q" by (fact door(7))
    show "truthy (sf_venueId stf) \<longrightarrow> Some (tk_venueId k) = sf_venueId stf" using venue [OF ev] b by simp
  qed
  with k b show ?thesis by blast
qed

text \<open>The example: the held seat is bought, its code is fetched and scanned in the state that leaves.\<close>

definition ex_bought :: "(int, (string \<Rightarrow> int) \<times> bool) sys" where
  "ex_bought = snd (confirm_purchase ex_credit ''u1'' ex_purchase ''i1'' ex_sys)"

definition ex_coded :: "(int, (string \<Rightarrow> int) \<times> bool) sys" where
  "ex_coded = snd (get_qr ex_qr_env ''u1'' ''f'' ex_bought)"

lemma ex_bought_run: "\<exists>a. confirm_purchase ex_credit ''u1'' ex_purchase ''i1'' ex_sys = (Done 201 a, ex_bought) \<and> pa_ticketId a = ''f''"
proof -
  have "(case fst (confirm_purchase ex_credit ''u1'' ex_purchase ''i1'' ex_sys) of Done st a \<Rightarrow> st = 201 \<and> pa_ticketId a = ''f''
      | Fail st c \<Rightarrow> False)" by code_simp
  then show ?thesis unfolding ex_bought_def
    by (cases "confirm_purchase ex_credit ''u1'' ex_purchase ''i1'' ex_sys") (auto split: reply.splits)
qed

lemma ex_coded_run: "\<exists>c. get_qr ex_qr_env ''u1'' ''f'' ex_bought = (Done 200 c, ex_coded) \<and> qa_qrHash c \<noteq> []
    \<and> qa_generatedAt c \<le> time_now ex_coded \<and> time_now ex_coded \<le> qa_expiresAt c"
proof -
  have "(case get_qr ex_qr_env ''u1'' ''f'' ex_bought of (Done st c, q) \<Rightarrow> st = 200 \<and> qa_qrHash c \<noteq> []
      \<and> qa_generatedAt c \<le> time_now q \<and> time_now q \<le> qa_expiresAt c | (Fail st c, q) \<Rightarrow> False)" by code_simp
  then show ?thesis unfolding ex_coded_def
    by (cases "get_qr ex_qr_env ''u1'' ''f'' ex_bought") (auto split: reply.splits)
qed

theorem bought_seat_lets_in_witness:
  "\<exists>a c b. confirm_purchase ex_credit ''u1'' ex_purchase ''i1'' ex_sys = (Done 201 a, ex_bought)
    \<and> get_qr ex_qr_env ''u1'' (pa_ticketId a) ex_bought = (Done 200 c, ex_coded)
    \<and> fst (scan ex_staff (Some (qa_qrHash c)) None ex_coded) = Done 200 b \<and> sa_ticketId b = pa_ticketId a"
proof -
  obtain a where a: "confirm_purchase ex_credit ''u1'' ex_purchase ''i1'' ex_sys = (Done 201 a, ex_bought)" "pa_ticketId a = ''f''"
    using ex_bought_run by blast
  obtain c where c: "get_qr ex_qr_env ''u1'' ''f'' ex_bought = (Done 200 c, ex_coded)" "qa_qrHash c \<noteq> []"
    "qa_generatedAt c \<le> time_now ex_coded" "time_now ex_coded \<le> qa_expiresAt c" using ex_coded_run by blast
  have "(case row_get inventoryId ''i1'' (seats (inventory ex_bought)) of None \<Rightarrow> False | Some r \<Rightarrow> seat_eventId r = ''e1'')"
    by code_simp
  then obtain r where r: "row_get inventoryId ''i1'' (seats (inventory ex_bought)) = Some r" "seat_eventId r = ''e1''"
    by (auto split: option.splits)
  have t: "distinct (map inventoryId (seats (inventory ex_bought)))" "unique_tickets (tickets ex_bought)" by code_simp+
  have d: "seats (inventory ex_coded) = seats (inventory ex_bought)" "net ex_coded = []"
    "redis_io (world (inventory ex_coded)) = []" "scan_holder ''f'' (world (inventory ex_coded)) = None" by code_simp+
  have e: "events ex_coded = events ex_sys" by code_simp
  have n: "\<not> checked_in ''f'' ex_coded" by code_simp
  have v: "row_get ev_eventId (seat_eventId r) (events ex_sys) = Some ev \<Longrightarrow> truthy (sf_venueId ex_staff) \<Longrightarrow>
      sf_venueId ex_staff = Some (ev_venueId ev)" for ev
    by (auto simp: r(2) ex_sys_def ex_event_def ex_staff_def)
  show ?thesis
    using bought_seat_lets_in [OF a(1) r(1) _ t, of ex_qr_env 200 c ex_coded ex_coded ex_staff] a c d e n v r(2)
    by (auto simp: ex_purchase_def)
qed

end
